(* ===== verification/Kovael_Prelude.thy ===== *)
theory Kovael_Prelude
  imports Complex_Main "HOL-Library.AList"
begin

text \<open>
  What the components share: the JavaScript run-time as the sources use it
  (insertion-ordered maps, numbers, strings, \<open>slice\<close>), the automation, and the
  locales for the contracts several components have: ordered maps, guarded
  transition systems, observables that only grow, absorbing states and bounded buffers.
\<close>

named_theorems kovael_defs "definitions a component's proofs unfold"

section \<open>Insertion-ordered maps\<close>

text \<open>
  A JavaScript \<open>Map\<close> iterates in insertion order, and \<open>set\<close> on a present key keeps
  the key's place. It is an association list with distinct keys; \<open>AList.update\<close>
  overwrites in place or appends at the end, \<open>AList.delete\<close> removes the key.
\<close>

type_synonym ('k, 'v) omap = "('k \<times> 'v) list"

abbreviation om_get :: "('k, 'v) omap \<Rightarrow> 'k \<Rightarrow> 'v option" where
  "om_get m k \<equiv> map_of m k"

abbreviation om_set :: "'k \<Rightarrow> 'v \<Rightarrow> ('k, 'v) omap \<Rightarrow> ('k, 'v) omap" where
  "om_set k v m \<equiv> AList.update k v m"

abbreviation om_delete :: "'k \<Rightarrow> ('k, 'v) omap \<Rightarrow> ('k, 'v) omap" where
  "om_delete k m \<equiv> AList.delete k m"

abbreviation om_keys :: "('k, 'v) omap \<Rightarrow> 'k list" where
  "om_keys m \<equiv> map fst m"

abbreviation om_values :: "('k, 'v) omap \<Rightarrow> 'v list" where
  "om_values m \<equiv> map snd m"

abbreviation om_has :: "('k, 'v) omap \<Rightarrow> 'k \<Rightarrow> bool" where
  "om_has m k \<equiv> map_of m k \<noteq> None"

abbreviation om_wf :: "('k, 'v) omap \<Rightarrow> bool" where
  "om_wf m \<equiv> distinct (map fst m)"

locale js_map =
  fixes get :: "'m \<Rightarrow> 'k \<Rightarrow> 'v option"
    and put :: "'k \<Rightarrow> 'v \<Rightarrow> 'm \<Rightarrow> 'm"
    and del :: "'k \<Rightarrow> 'm \<Rightarrow> 'm"
    and keys :: "'m \<Rightarrow> 'k list"
    and wf :: "'m \<Rightarrow> bool"
  assumes get_put: "get (put k v m) = (get m)(k \<mapsto> v)"
    and get_del: "get (del k m) = (get m)(k := None)"
    and keys_dom: "set (keys m) = dom (get m)"
    and keys_put: "keys (put k v m) = (if k \<in> set (keys m) then keys m else keys m @ [k])"
    and keys_del: "keys (del k m) = filter (\<lambda>x. x \<noteq> k) (keys m)"
    and wf_keys: "wf m \<longleftrightarrow> distinct (keys m)"
begin

lemma wf_put: "wf m \<Longrightarrow> wf (put k v m)"
  by (simp add: wf_keys keys_put)

lemma wf_del: "wf m \<Longrightarrow> wf (del k m)"
  by (simp add: wf_keys keys_del)

lemma size_put: "length (keys (put k v m)) = (if get m k = None then Suc (length (keys m)) else length (keys m))"
  using keys_dom [of m] by (auto simp: keys_put domIff)

lemma size_put_le: "length (keys (put k v m)) \<le> Suc (length (keys m))"
  by (simp add: keys_put)

lemma size_del: "wf m \<Longrightarrow> get m k \<noteq> None \<Longrightarrow> Suc (length (keys (del k m))) = length (keys m)"
proof -
  assume w: "wf m" and g: "get m k \<noteq> None"
  have k: "k \<in> set (keys m)" using g keys_dom [of m] by auto
  have "filter (\<lambda>x. x \<noteq> k) (keys m) = remove1 k (keys m)"
    using w by (simp add: wf_keys distinct_remove1_removeAll removeAll_filter_not_eq) (rule filter_cong; auto)
  moreover have "keys m \<noteq> []" using k by auto
  ultimately show ?thesis using k by (simp add: keys_del length_remove1)
qed

lemma size_del_le: "length (keys (del k m)) \<le> length (keys m)"
  by (simp add: keys_del)

end

interpretation om: js_map map_of AList.update AList.delete "map fst" "\<lambda>m. distinct (map fst m)"
  by unfold_locales
    (auto simp: update_conv' delete_conv' dom_map_of_conv_image_fst update_keys delete_keys
      removeAll_filter_not_eq intro: filter_cong)

lemmas om_simps [simp] = om.get_put om.get_del

lemma set_om_keys_set: "fst ` set (om_set k v m) = insert k (fst ` set m)"
  by (induction m) auto

lemma set_om_keys_delete: "fst ` set (om_delete k m) = fst ` set m - {k}"
  by (induction m) auto

lemma om_wf_set [intro]: "om_wf m \<Longrightarrow> om_wf (om_set k v m)"
  by (rule om.wf_put)

lemma om_wf_delete [intro]: "om_wf m \<Longrightarrow> om_wf (om_delete k m)"
  by (rule om.wf_del)

declare map_of_eq_Some_iff [simp del]

lemma om_values_get: "om_wf m \<Longrightarrow> (v \<in> set (om_values m)) = (\<exists>k. om_get m k = Some v)"
  by (force simp: map_of_eq_Some_iff image_iff)

lemma om_set_get_same: "om_get m k = Some v \<Longrightarrow> om_set k v m = m"
  by (induction m) (auto split: if_splits)

lemma om_size_set: "length (om_set k v m) = (if om_get m k = None then Suc (length m) else length m)"
  using om.size_put [of k v m] by simp

lemma om_size_delete_le: "length (om_delete k m) \<le> length m"
  using om.size_del_le [of k m] by simp

lemma om_size_delete: "om_wf m \<Longrightarrow> om_get m k \<noteq> None \<Longrightarrow> Suc (length (om_delete k m)) = length m"
  using om.size_del [of m k] by simp

section \<open>Strings and numbers\<close>

text \<open>
  Strings are character lists; \<open>s.slice(0, n)\<close> is \<^const>\<open>take\<close>. A string operand of
  \<open>if (s)\<close> is true when it is present and not empty.
\<close>

fun truthy_str :: "string option \<Rightarrow> bool" where
  "truthy_str None = False"
| "truthy_str (Some s) = (s \<noteq> [])"

definition digit_char :: "nat \<Rightarrow> char" where
  "digit_char d = ''0123456789'' ! d"

fun show_nat :: "nat \<Rightarrow> string" where
  "show_nat n = (if n < 10 then [digit_char n] else show_nat (n div 10) @ [digit_char (n mod 10)])"

declare show_nat.simps [simp del]

definition show_int :: "int \<Rightarrow> string" where
  "show_int i = (if i < 0 then ''-'' @ show_nat (nat (- i)) else show_nat (nat i))"

text \<open>
  \<open>s.trim()\<close> strips white space at both ends; \<open>toLowerCase\<close> and the
  character classes of the regular expressions are those of ASCII.
\<close>

definition js_space :: "char \<Rightarrow> bool" where
  "js_space c = (c \<in> {CHR '' '', CHR 0x09, CHR 0x0A, CHR 0x0B, CHR 0x0C, CHR 0x0D, CHR 0xA0})"

definition trim :: "string \<Rightarrow> string" where
  "trim s = rev (dropWhile js_space (rev (dropWhile js_space s)))"

definition lower_char :: "char \<Rightarrow> char" where
  "lower_char c = (case map_of (zip ''ABCDEFGHIJKLMNOPQRSTUVWXYZ'' ''abcdefghijklmnopqrstuvwxyz'') c of
     Some d \<Rightarrow> d | None \<Rightarrow> c)"

definition toLowerCase :: "string \<Rightarrow> string" where
  "toLowerCase s = map lower_char s"

definition upper_char :: "char \<Rightarrow> char" where
  "upper_char c = (case map_of (zip ''abcdefghijklmnopqrstuvwxyz'' ''ABCDEFGHIJKLMNOPQRSTUVWXYZ'') c of
     Some d \<Rightarrow> d | None \<Rightarrow> c)"

definition toUpperCase :: "string \<Rightarrow> string" where
  "toUpperCase s = map upper_char s"

text \<open>The environment of a process, and a switch in it.\<close>

type_synonym penv = "string \<Rightarrow> string option"

definition readBoolean :: "string option \<Rightarrow> bool \<Rightarrow> bool" where
  "readBoolean v fallback =
     (let normalized = map_option (\<lambda>s. toLowerCase (trim s)) v in
      if normalized \<in> {Some ''1'', Some ''true'', Some ''yes'', Some ''on''} then True
      else if normalized \<in> {Some ''0'', Some ''false'', Some ''no'', Some ''off''} then False
      else fallback)"

definition is_hex :: "char \<Rightarrow> bool" where
  "is_hex c \<longleftrightarrow> c \<in> set ''0123456789abcdef''"

definition is_digit :: "char \<Rightarrow> bool" where
  "is_digit c \<longleftrightarrow> c \<in> set ''0123456789''"

definition is_letter :: "char \<Rightarrow> bool" where
  "is_letter c \<longleftrightarrow> lower_char c \<in> set ''abcdefghijklmnopqrstuvwxyz''"

lemma lower_char_hex: "is_hex c \<Longrightarrow> lower_char c = c"
  unfolding is_hex_def list.set insert_iff empty_iff
  by (elim disjE) (simp_all add: lower_char_def)

lemma hex_not_space: "is_hex c \<Longrightarrow> \<not> js_space c"
  by (auto simp: is_hex_def js_space_def)

lemma list_all_take: "list_all P xs \<Longrightarrow> list_all P (take n xs)"
  by (auto simp: list_all_iff dest: in_set_takeD)

lemma trim_id:
  assumes "s \<noteq> []" and "\<not> js_space (hd s)" and "\<not> js_space (last s)"
  shows "trim s = s"
proof -
  have "dropWhile js_space s = s" using assms(1,2) by (simp add: dropWhile_eq_self_iff)
  moreover have "dropWhile js_space (rev s) = rev s" using assms(1,3) by (simp add: dropWhile_eq_self_iff hd_rev)
  ultimately show ?thesis by (simp add: trim_def)
qed

lemma length_trim: "length (trim s) \<le> length s"
  unfolding trim_def length_rev by (metis length_dropWhile_le length_rev order_trans)

lemma set_trim: "set (trim s) \<subseteq> set s"
  by (auto simp: trim_def dest!: set_dropWhileD)

lemma trim_idem: "trim (trim s) = trim s"
proof (cases "trim s = []")
  case True
  then show ?thesis by (simp add: trim_def [of "[]"])
next
  case False
  let ?d = "dropWhile js_space s"
  have t: "trim s = rev (dropWhile js_space (rev ?d))" by (simp add: trim_def)
  have d: "?d \<noteq> []" using False unfolding t by force
  have "\<not> js_space (hd (dropWhile js_space (rev ?d)))"
    using False unfolding t rev_is_Nil_conv by (rule hd_dropWhile)
  then have l: "\<not> js_space (last (trim s))" by (simp add: t last_rev)
  have "?d = trim s @ rev (takeWhile js_space (rev ?d))"
    unfolding t by (metis rev_append rev_rev_ident takeWhile_dropWhile_id)
  then have "hd (trim s) = hd ?d" using False by (metis hd_append2)
  moreover have "\<not> js_space (hd ?d)" using d by (rule hd_dropWhile [OF contrapos_nn]) simp
  ultimately show ?thesis using False l by (intro trim_id) simp_all
qed

text \<open>The value of a numeral, and \<open>Number.parseInt(s, 10)\<close>: \<open>None\<close> is not a number.\<close>

definition digit_val :: "char \<Rightarrow> nat" where
  "digit_val c = (let n = of_char c in if n \<le> 57 then n - 48 else n - 87)"

definition number_in :: "nat \<Rightarrow> string \<Rightarrow> nat" where
  "number_in base s = foldl (\<lambda>n c. n * base + digit_val c) 0 s"

definition parse_int :: "string \<Rightarrow> int option" where
  "parse_int s =
     (let t = dropWhile js_space s;
          neg = (t \<noteq> [] \<and> hd t = CHR ''-'');
          body = (if t \<noteq> [] \<and> hd t \<in> {CHR ''-'', CHR ''+''} then tl t else t);
          ds = takeWhile is_digit body
      in if ds = [] then None else Some (if neg then - int (number_in 10 ds) else int (number_in 10 ds)))"

lemma take_again: "take n (ys @ take n zs) = take n (ys @ zs)"
  by (simp add: min_def)

text \<open>\<open>xs.slice(i)\<close> of an array: a negative \<open>i\<close> counts from the end, and \<open>-0\<close> is 0.\<close>

definition js_slice_from :: "int \<Rightarrow> 'a list \<Rightarrow> 'a list" where
  "js_slice_from i xs =
     (if i < 0 then drop (nat (max 0 (int (length xs) + i))) xs else drop (nat i) xs)"

lemma js_slice_from_tail:
  "0 < k \<Longrightarrow> js_slice_from (- int k) xs = drop (length xs - k) xs"
  by (auto simp: js_slice_from_def max_def nat_diff_distrib')

lemma js_slice_from_zero: "js_slice_from 0 xs = xs"
  by (simp add: js_slice_from_def)

lemma length_js_slice_from: "0 < k \<Longrightarrow> length (js_slice_from (- int k) xs) = min k (length xs)"
  by (simp add: js_slice_from_tail)

text \<open>
  A \<open>number\<close> is a finite value or one of the three others. Finite doubles are exact
  rationals here: rounding of the last bit is not modelled.
\<close>

datatype jsnum = Num rat | NaN | PosInf | NegInf

fun isFinite :: "jsnum \<Rightarrow> bool" where
  "isFinite (Num q) = True"
| "isFinite _ = False"

fun fin_value :: "jsnum \<Rightarrow> rat" where
  "fin_value (Num q) = q"
| "fin_value _ = 0"

text \<open>\<open>Math.round\<close> rounds halves up.\<close>

definition js_round :: "rat \<Rightarrow> int" where
  "js_round q = \<lfloor>q + 1 / 2\<rfloor>"

section \<open>Sets, usage and printed numbers\<close>

text \<open>A JavaScript \<open>Set\<close> iterates in insertion order: a list without repetitions.\<close>

definition set_add :: "'a \<Rightarrow> 'a list \<Rightarrow> 'a list" where
  "set_add x xs = (if x \<in> set xs then xs else xs @ [x])"

definition set_of :: "'a list \<Rightarrow> 'a list" where
  "set_of xs = foldl (\<lambda>s x. set_add x s) [] xs"

lemma set_add_set [simp]: "set (set_add x xs) = insert x (set xs)"
  by (auto simp: set_add_def)

lemma set_add_distinct [intro]: "distinct xs \<Longrightarrow> distinct (set_add x xs)"
  by (simp add: set_add_def)

lemma set_of_set: "set (set_of xs) = set xs" and set_of_distinct: "distinct (set_of xs)"
proof -
  have "set (foldl (\<lambda>s x. set_add x s) ys xs) = set ys \<union> set xs"
    and "distinct ys \<Longrightarrow> distinct (foldl (\<lambda>s x. set_add x s) ys xs)" for ys
    by (induction xs arbitrary: ys) auto
  then show "set (set_of xs) = set xs" and "distinct (set_of xs)" by (simp_all add: set_of_def)
qed

datatype UsageSource = Estimated | Reported

record TokenUsage =
  tu_input :: nat
  tu_output :: nat
  tu_total :: nat
  tu_runtimeMs :: int
  tu_source :: UsageSource

text \<open>\<open>Math.ceil(n / 4)\<close>, the tokens of a text of \<open>n\<close> characters.\<close>

definition tokens_of :: "nat \<Rightarrow> nat" where
  "tokens_of n = (n + 3) div 4"

text \<open>\<open>x.toFixed(4)\<close>, and a number with at most four decimals as a template prints it,
  for values that are not negative.\<close>

definition pad4 :: "nat \<Rightarrow> string" where
  "pad4 n = (let s = show_nat n in replicate (4 - length s) CHR ''0'' @ s)"

definition toFixed4 :: "rat \<Rightarrow> string" where
  "toFixed4 q = (let n = nat (js_round (q * 10000)) in show_nat (n div 10000) @ ''.'' @ pad4 (n mod 10000))"

definition show_dec4 :: "rat \<Rightarrow> string" where
  "show_dec4 q = (let n = nat (js_round (q * 10000)) in
     show_nat (n div 10000) @ (if n mod 10000 = 0 then []
       else ''.'' @ rev (dropWhile (\<lambda>c. c = CHR ''0'') (rev (pad4 (n mod 10000))))))"

text \<open>\<open>xs.join(sep)\<close>.\<close>

fun join_with :: "string \<Rightarrow> string list \<Rightarrow> string" where
  "join_with sep [] = []"
| "join_with sep [x] = x"
| "join_with sep (x # xs) = x @ sep @ join_with sep xs"

text \<open>\<open>s.split(d)\<close> at a character, and \<open>s.startsWith(p)\<close>.\<close>

fun split_at :: "char \<Rightarrow> string \<Rightarrow> string list" where
  "split_at d [] = [[]]"
| "split_at d (c # s) = (if c = d then [] # split_at d s
     else case split_at d s of [] \<Rightarrow> [[c]] | p # ps \<Rightarrow> (c # p) # ps)"

definition starts_with :: "string \<Rightarrow> string \<Rightarrow> bool" where
  "starts_with p s \<longleftrightarrow> take (length p) s = p"

lemma split_at_append:
  assumes "d \<notin> set p"
  shows "split_at d (p @ d # s) = p # split_at d s" and "split_at d p = [p]"
  using assms by (induction p) auto

lemma starts_with_set: "starts_with p s \<Longrightarrow> set p \<subseteq> set s"
  unfolding starts_with_def by (metis set_take_subset)

section \<open>Contracts several components have\<close>

text \<open>A system whose every step keeps an invariant keeps it along every run.\<close>

locale guarded_system =
  fixes step :: "'s \<Rightarrow> 'e \<Rightarrow> 's"
    and inv :: "'s \<Rightarrow> bool"
  assumes step_inv: "inv s \<Longrightarrow> inv (step s e)"
begin

lemma run_inv: "inv s \<Longrightarrow> inv (foldl step s es)"
  by (induction es arbitrary: s) (simp_all add: step_inv)

end

text \<open>A guarded system with a quantity that no step lowers.\<close>

locale growing_system = guarded_system +
  fixes obs :: "'s \<Rightarrow> 'o::order"
  assumes step_grows: "inv s \<Longrightarrow> obs s \<le> obs (step s e)"
begin

lemma run_grows: "inv s \<Longrightarrow> obs s \<le> obs (foldl step s es)"
proof (induction es arbitrary: s)
  case (Cons e es)
  from Cons.prems have "obs s \<le> obs (step s e)" by (rule step_grows)
  also have "\<dots> \<le> obs (foldl step (step s e) es)"
    by (rule Cons.IH) (rule step_inv, rule Cons.prems)
  finally show ?case by simp
qed simp

end

text \<open>States that no step of a class of steps leaves.\<close>

locale trapping_system =
  fixes step :: "'s \<Rightarrow> 'e \<Rightarrow> 's"
    and trap :: "'s \<Rightarrow> bool"
    and harmless :: "'e \<Rightarrow> bool"
  assumes step_trap: "trap s \<Longrightarrow> harmless e \<Longrightarrow> trap (step s e)"
begin

lemma run_trap: "trap s \<Longrightarrow> list_all harmless es \<Longrightarrow> trap (foldl step s es)"
  by (induction es arbitrary: s) (simp_all add: step_trap)

end

text \<open>A store that never holds more than its capacity.\<close>

locale bounded_store =
  fixes size_of :: "'s \<Rightarrow> nat"
    and add :: "'s \<Rightarrow> 'x \<Rightarrow> 's"
    and cap :: nat
  assumes add_bounded: "size_of s \<le> cap \<Longrightarrow> size_of (add s x) \<le> cap"
begin

sublocale guarded_system add "\<lambda>s. size_of s \<le> cap"
  by unfold_locales (rule add_bounded)

lemma adds_bounded: "size_of s \<le> cap \<Longrightarrow> size_of (foldl add s xs) \<le> cap"
  by (rule run_inv)

end

end
