(* ===== verification/TaskClaims.thy ===== *)
theory TaskClaims
  imports Kovael_Prelude
begin

text \<open>
  \<open>src/src/protocols/TaskClaimMachine.ts\<close>: the in-memory ledger of task claims. A claim
  moves through five states along the legal table; the ledger is an insertion-ordered map
  and the emitted \<open>claim_event\<close>s are kept, oldest first, in \<open>claim_events\<close>. \<open>now\<close> is
  the reading of \<open>Date.now()\<close> of the call.
\<close>

section \<open>Data\<close>

datatype ClaimState = Unclaimed | Claimed | Running | RetryQueued | Released

fun LEGAL :: "ClaimState \<Rightarrow> ClaimState list" where
  "LEGAL Unclaimed = [Claimed, Released]"
| "LEGAL Claimed = [Running, Released]"
| "LEGAL Running = [RetryQueued, Released]"
| "LEGAL RetryQueued = [Claimed, Released]"
| "LEGAL Released = []"

fun show_ClaimState :: "ClaimState \<Rightarrow> string" where
  "show_ClaimState Unclaimed = ''Unclaimed''"
| "show_ClaimState Claimed = ''Claimed''"
| "show_ClaimState Running = ''Running''"
| "show_ClaimState RetryQueued = ''RetryQueued''"
| "show_ClaimState Released = ''Released''"

record ClaimEvent =
  ce_taskHash :: string
  ce_previous :: "ClaimState option"
  ce_state :: ClaimState
  ce_timestamp :: int
  ce_attempt :: nat
  ce_reason :: "string option"
  ce_cycleId :: "string option"

record ClaimRecord =
  cr_taskHash :: string
  cr_state :: ClaimState
  cr_attempt :: nat
  cr_firstSeen :: int
  cr_updatedAt :: int
  cr_cycleId :: "string option"
  cr_retryAfter :: "rat option"

record TaskClaimMachine =
  ledger :: "(string, ClaimRecord) omap"
  claim_events :: "ClaimEvent list"

definition new_claims :: TaskClaimMachine where
  "new_claims = \<lparr>ledger = [], claim_events = []\<rparr>"

section \<open>Operations\<close>

definition claim_has :: "string \<Rightarrow> TaskClaimMachine \<Rightarrow> bool" where
  "claim_has t m = om_has (ledger m) t"

definition claim_get :: "string \<Rightarrow> TaskClaimMachine \<Rightarrow> ClaimRecord option" where
  "claim_get t m = om_get (ledger m) t"

definition claim_snapshot :: "TaskClaimMachine \<Rightarrow> ClaimRecord list" where
  "claim_snapshot m = om_values (ledger m)"

definition claim_stats :: "TaskClaimMachine \<Rightarrow> ClaimState \<Rightarrow> nat" where
  "claim_stats m =
     foldl (\<lambda>counts r. counts(cr_state r := counts (cr_state r) + 1)) (\<lambda>_. 0) (om_values (ledger m))"

definition eventFrom :: "ClaimRecord \<Rightarrow> ClaimState option \<Rightarrow> string option \<Rightarrow> ClaimEvent" where
  "eventFrom r previous reason =
     \<lparr>ce_taskHash = cr_taskHash r, ce_previous = previous, ce_state = cr_state r,
      ce_timestamp = cr_updatedAt r, ce_attempt = cr_attempt r, ce_reason = reason,
      ce_cycleId = cr_cycleId r\<rparr>"

definition emit_claim :: "ClaimEvent \<Rightarrow> TaskClaimMachine \<Rightarrow> TaskClaimMachine" where
  "emit_claim e m = m\<lparr>claim_events := claim_events m @ [e]\<rparr>"

definition claim_register :: "int \<Rightarrow> string \<Rightarrow> string option \<Rightarrow> TaskClaimMachine \<Rightarrow>
    ClaimRecord \<times> TaskClaimMachine" where
  "claim_register now t reason m =
     (case om_get (ledger m) t of
        Some existing \<Rightarrow> (existing, m)
      | None \<Rightarrow>
          let r = \<lparr>cr_taskHash = t, cr_state = Unclaimed, cr_attempt = 0, cr_firstSeen = now,
                   cr_updatedAt = now, cr_cycleId = None, cr_retryAfter = None\<rparr>
          in (r, emit_claim (eventFrom r None reason) (m\<lparr>ledger := om_set t r (ledger m)\<rparr>)))"

definition claim_transition :: "int \<Rightarrow> string \<Rightarrow> ClaimState \<Rightarrow> string option \<Rightarrow> string option \<Rightarrow>
    TaskClaimMachine \<Rightarrow> bool \<times> TaskClaimMachine" where
  "claim_transition now t nxt cycleId reason m =
     (case om_get (ledger m) t of
        None \<Rightarrow> (False, m)
      | Some r \<Rightarrow>
          if nxt \<notin> set (LEGAL (cr_state r)) then (False, m)
          else
            let previous = cr_state r;
                r1 = r\<lparr>cr_state := nxt, cr_updatedAt := now\<rparr>;
                r2 = (if truthy_str cycleId then r1\<lparr>cr_cycleId := cycleId\<rparr> else r1);
                r3 = (if nxt = Claimed then r2\<lparr>cr_attempt := cr_attempt r2 + 1\<rparr> else r2)
            in (True, emit_claim (eventFrom r3 (Some previous) reason)
                        (m\<lparr>ledger := om_set t r3 (ledger m)\<rparr>)))"

definition tryClaim :: "int \<Rightarrow> string \<Rightarrow> string \<Rightarrow> string option \<Rightarrow> TaskClaimMachine \<Rightarrow>
    bool \<times> TaskClaimMachine" where
  "tryClaim now t cycleId reason m =
     (let m1 = (case om_get (ledger m) t of Some _ \<Rightarrow> m | None \<Rightarrow> snd (claim_register now t None m))
      in case om_get (ledger m1) t of
           None \<Rightarrow> (False, m1)
         | Some fresh \<Rightarrow>
             if cr_state fresh \<noteq> Unclaimed \<and> cr_state fresh \<noteq> RetryQueued then (False, m1)
             else claim_transition now t Claimed (Some cycleId) reason m1)"

definition markRunning :: "int \<Rightarrow> string \<Rightarrow> string \<Rightarrow> TaskClaimMachine \<Rightarrow> bool \<times> TaskClaimMachine" where
  "markRunning now t cycleId m = claim_transition now t Running (Some cycleId) None m"

definition markRetryQueued :: "int \<Rightarrow> string \<Rightarrow> rat \<Rightarrow> string option \<Rightarrow> TaskClaimMachine \<Rightarrow>
    bool \<times> TaskClaimMachine" where
  "markRetryQueued now t retryAfterMs reason m =
     (case claim_transition now t RetryQueued None reason m of
        (ok, m1) \<Rightarrow>
          if ok then
            (case om_get (ledger m1) t of
               Some r \<Rightarrow> (ok, m1\<lparr>ledger := om_set t (r\<lparr>cr_retryAfter := Some (of_int now + retryAfterMs)\<rparr>) (ledger m1)\<rparr>)
             | None \<Rightarrow> (ok, m1))
          else (ok, m1))"

definition claim_release :: "int \<Rightarrow> string \<Rightarrow> string \<Rightarrow> TaskClaimMachine \<Rightarrow> bool \<times> TaskClaimMachine" where
  "claim_release now t reason m = claim_transition now t Released None (Some reason) m"

definition claim_prune :: "string \<Rightarrow> TaskClaimMachine \<Rightarrow> bool \<times> TaskClaimMachine" where
  "claim_prune t m = (om_has (ledger m) t, m\<lparr>ledger := om_delete t (ledger m)\<rparr>)"

definition dueForRetry :: "int \<Rightarrow> TaskClaimMachine \<Rightarrow> ClaimRecord list" where
  "dueForRetry now m =
     filter (\<lambda>r. cr_state r = RetryQueued \<and> (case cr_retryAfter r of None \<Rightarrow> 0 | Some a \<Rightarrow> a) \<le> of_int now)
       (om_values (ledger m))"

text \<open>The calls other components make, as one type, and their effect on the machine.\<close>

datatype ClaimOp =
    OpRegister string "string option"
  | OpTryClaim string string "string option"
  | OpMarkRunning string string
  | OpMarkRetryQueued string rat "string option"
  | OpRelease string string
  | OpPrune string

fun claim_step :: "TaskClaimMachine \<Rightarrow> int \<times> ClaimOp \<Rightarrow> TaskClaimMachine" where
  "claim_step m (now, OpRegister t reason) = snd (claim_register now t reason m)"
| "claim_step m (now, OpTryClaim t c reason) = snd (tryClaim now t c reason m)"
| "claim_step m (now, OpMarkRunning t c) = snd (markRunning now t c m)"
| "claim_step m (now, OpMarkRetryQueued t ms reason) = snd (markRetryQueued now t ms reason m)"
| "claim_step m (now, OpRelease t reason) = snd (claim_release now t reason m)"
| "claim_step m (now, OpPrune t) = snd (claim_prune t m)"

definition claim_run :: "TaskClaimMachine \<Rightarrow> (int \<times> ClaimOp) list \<Rightarrow> TaskClaimMachine" where
  "claim_run = foldl claim_step"

section \<open>What the operations do\<close>

definition state_of :: "string \<Rightarrow> TaskClaimMachine \<Rightarrow> ClaimState option" where
  "state_of t m = map_option cr_state (om_get (ledger m) t)"

lemma claim_transition_fst:
  "fst (claim_transition now t n c rs m) \<longleftrightarrow>
     (\<exists>r. om_get (ledger m) t = Some r \<and> n \<in> set (LEGAL (cr_state r)))"
  by (auto simp: claim_transition_def Let_def split: option.split)

lemma claim_transition_refused:
  "\<not> fst (claim_transition now t n c rs m) \<Longrightarrow> claim_transition now t n c rs m = (False, m)"
  by (auto simp: claim_transition_def Let_def split: option.splits if_splits)

lemma state_of_transition:
  "state_of t' (snd (claim_transition now t n c rs m)) =
     (if t' = t \<and> fst (claim_transition now t n c rs m) then Some n else state_of t' m)"
  by (auto simp: claim_transition_def Let_def state_of_def emit_claim_def split: option.split)

lemma state_of_register:
  "state_of t' (snd (claim_register now t rs m)) =
     (if t' = t \<and> state_of t m = None then Some Unclaimed else state_of t' m)"
  by (auto simp: claim_register_def Let_def state_of_def emit_claim_def split: option.split)

lemma state_of_prune: "state_of t' (snd (claim_prune t m)) = (if t' = t then None else state_of t' m)"
  by (simp add: claim_prune_def state_of_def)

lemma markRetryQueued_fst:
  "fst (markRetryQueued now t ms rs m) = fst (claim_transition now t RetryQueued None rs m)"
  by (auto simp: markRetryQueued_def split: prod.split option.split)

lemma state_of_markRetryQueued:
  "state_of t' (snd (markRetryQueued now t ms rs m)) =
     (if t' = t \<and> fst (markRetryQueued now t ms rs m) then Some RetryQueued else state_of t' m)"
proof -
  obtain ok m1 where tr: "claim_transition now t RetryQueued None rs m = (ok, m1)" by fastforce
  have s: "state_of t' m1 = (if t' = t \<and> ok then Some RetryQueued else state_of t' m)" for t'
    using state_of_transition [of t' now t RetryQueued None rs m] tr by simp
  show ?thesis
    using s [of t'] s [of t] by (auto simp: markRetryQueued_def tr state_of_def split: option.split)
qed

lemma tryClaim_state_of:
  "fst (tryClaim now t c rs m) \<longleftrightarrow> state_of t m \<in> {None, Some Unclaimed, Some RetryQueued}"
  "state_of t' (snd (tryClaim now t c rs m)) =
     (if t' = t \<and> fst (tryClaim now t c rs m) then Some Claimed else state_of t' m)"
proof -
  define m1 where "m1 = (case om_get (ledger m) t of Some _ \<Rightarrow> m | None \<Rightarrow> snd (claim_register now t None m))"
  have st: "state_of t' m1 = (if t' = t \<and> state_of t m = None then Some Unclaimed else state_of t' m)" for t'
    by (cases "om_get (ledger m) t") (auto simp: m1_def state_of_register state_of_def [of t])
  obtain r where r: "om_get (ledger m1) t = Some r"
    using st [of t] by (cases "om_get (ledger m1) t") (auto simp: state_of_def split: if_splits)
  have tc: "tryClaim now t c rs m =
      (if cr_state r \<noteq> Unclaimed \<and> cr_state r \<noteq> RetryQueued then (False, m1)
       else claim_transition now t Claimed (Some c) rs m1)"
    by (simp add: tryClaim_def m1_def [symmetric] r)
  have cr: "state_of t m1 = Some (cr_state r)" using r by (simp add: state_of_def)
  have fst: "fst (tryClaim now t c rs m) \<longleftrightarrow> cr_state r = Unclaimed \<or> cr_state r = RetryQueued"
    using r by (auto simp: tc claim_transition_fst)
  show "fst (tryClaim now t c rs m) \<longleftrightarrow> state_of t m \<in> {None, Some Unclaimed, Some RetryQueued}"
    using fst cr st [of t] by (auto split: if_splits)
  show "state_of t' (snd (tryClaim now t c rs m)) =
      (if t' = t \<and> fst (tryClaim now t c rs m) then Some Claimed else state_of t' m)"
    using fst cr st [of t] st [of t'] r
    by (auto simp: tc state_of_transition claim_transition_fst split: if_splits)
qed

lemmas claim_effects =
  state_of_transition state_of_register state_of_prune state_of_markRetryQueued
  tryClaim_state_of markRetryQueued_fst claim_transition_fst

text \<open>The state and the attempt counter together.\<close>

definition profile :: "string \<Rightarrow> TaskClaimMachine \<Rightarrow> (ClaimState \<times> nat) option" where
  "profile t m = map_option (\<lambda>r. (cr_state r, cr_attempt r)) (om_get (ledger m) t)"

lemma state_of_profile: "state_of t m = map_option fst (profile t m)"
  by (simp add: state_of_def profile_def option.map_comp comp_def)

lemma profile_transition:
  "profile t' (snd (claim_transition now t n c rs m)) =
     (if t' = t \<and> fst (claim_transition now t n c rs m)
      then map_option (\<lambda>(_, a). (n, if n = Claimed then Suc a else a)) (profile t m) else profile t' m)"
  by (auto simp: claim_transition_def Let_def profile_def emit_claim_def split: option.split)

lemma profile_register:
  "profile t' (snd (claim_register now t rs m)) =
     (if t' = t \<and> profile t m = None then Some (Unclaimed, 0) else profile t' m)"
  by (auto simp: claim_register_def Let_def profile_def emit_claim_def split: option.split)

lemma profile_prune: "profile t' (snd (claim_prune t m)) = (if t' = t then None else profile t' m)"
  by (simp add: claim_prune_def profile_def)

lemma profile_markRetryQueued:
  "profile t' (snd (markRetryQueued now t ms rs m)) =
     (if t' = t \<and> fst (markRetryQueued now t ms rs m)
      then map_option (\<lambda>(_, a). (RetryQueued, a)) (profile t m) else profile t' m)"
proof -
  obtain ok m1 where tr: "claim_transition now t RetryQueued None rs m = (ok, m1)" by fastforce
  have s: "profile t' m1 = (if t' = t \<and> ok then map_option (\<lambda>(_, a). (RetryQueued, a)) (profile t m)
      else profile t' m)" for t'
    using profile_transition [of t' now t RetryQueued None rs m] tr by simp
  show ?thesis
    using s [of t'] s [of t] by (auto simp: markRetryQueued_def tr profile_def split: option.split)
qed

lemma tryClaim_unfold:
  "snd (tryClaim now t c rs m) =
     (let m1 = snd (claim_register now t None m) in
      if fst (tryClaim now t c rs m) then snd (claim_transition now t Claimed (Some c) rs m1) else m1)"
proof (cases "om_get (ledger m) t")
  case None
  then show ?thesis
    by (auto simp: tryClaim_def Let_def claim_register_def emit_claim_def claim_transition_fst split: option.split)
next
  case (Some r)
  then show ?thesis
    by (auto simp: tryClaim_def Let_def claim_register_def claim_transition_fst)
qed

lemma profile_tryClaim:
  "profile t' (snd (tryClaim now t c rs m)) =
     (if t' = t \<and> fst (tryClaim now t c rs m)
      then Some (Claimed, case profile t m of None \<Rightarrow> 1 | Some (_, a) \<Rightarrow> Suc a) else profile t' m)"
proof -
  have f: "fst (tryClaim now t c rs m) \<Longrightarrow>
      fst (claim_transition now t Claimed (Some c) rs (snd (claim_register now t None m)))"
    by (auto simp: tryClaim_state_of claim_transition_fst claim_register_def Let_def emit_claim_def state_of_def
        split: option.split)
  have n: "profile t m = None \<Longrightarrow> fst (tryClaim now t c rs m)"
    by (simp add: tryClaim_state_of state_of_profile)
  show ?thesis
    by (subst tryClaim_unfold) (use f n in \<open>auto simp: Let_def profile_transition profile_register split: option.split\<close>)
qed

lemmas claim_profiles =
  profile_transition profile_register profile_prune profile_markRetryQueued profile_tryClaim

section \<open>The ledger and its event log\<close>

text \<open>
  The specification of the log: every event is either a registration, or moves its task
  from the state its last event left it in along the legal table.
\<close>

definition log_state :: "ClaimEvent list \<Rightarrow> string \<Rightarrow> ClaimState option" where
  "log_state es = foldl (\<lambda>s e. s(ce_taskHash e \<mapsto> ce_state e)) Map.empty es"

definition claim_count :: "string \<Rightarrow> ClaimEvent list \<Rightarrow> nat" where
  "claim_count t es = foldl (\<lambda>n e. if ce_taskHash e \<noteq> t then n else if ce_previous e = None then 0
      else if ce_state e = Claimed then Suc n else n) 0 es"

definition lawful_event :: "(string \<Rightarrow> ClaimState option) \<Rightarrow> ClaimEvent \<Rightarrow> bool" where
  "lawful_event s e = (case ce_previous e of
      None \<Rightarrow> ce_state e = Unclaimed
    | Some p \<Rightarrow> s (ce_taskHash e) = Some p \<and> ce_state e \<in> set (LEGAL p))"

definition lawful_log :: "ClaimEvent list \<Rightarrow> bool" where
  "lawful_log es = (\<forall>i < length es. lawful_event (log_state (take i es)) (es ! i))"

lemma log_state_snoc: "log_state (es @ [e]) = (log_state es)(ce_taskHash e \<mapsto> ce_state e)"
  by (simp add: log_state_def)

lemma lawful_log_Nil: "lawful_log []"
  by (simp add: lawful_log_def)

lemma lawful_log_snoc: "lawful_log (es @ [e]) \<longleftrightarrow> lawful_log es \<and> lawful_event (log_state es) e"
  by (auto simp: lawful_log_def nth_append less_Suc_eq)

lemma claim_count_snoc:
  "claim_count t (es @ [e]) = (if ce_taskHash e \<noteq> t then claim_count t es
     else if ce_previous e = None then 0
     else if ce_state e = Claimed then Suc (claim_count t es) else claim_count t es)"
  by (simp add: claim_count_def)

definition record_ok :: "ClaimEvent list \<Rightarrow> string \<Rightarrow> ClaimRecord \<Rightarrow> bool" where
  "record_ok es t r \<longleftrightarrow> cr_taskHash r = t \<and> log_state es t = Some (cr_state r)
     \<and> cr_attempt r = claim_count t es
     \<and> (cr_state r = Unclaimed \<longrightarrow> cr_attempt r = 0)
     \<and> (cr_state r \<in> {Claimed, Running, RetryQueued} \<longrightarrow> 0 < cr_attempt r)"

definition claims_inv :: "TaskClaimMachine \<Rightarrow> bool" where
  "claims_inv m \<longleftrightarrow> om_wf (ledger m) \<and> lawful_log (claim_events m)
     \<and> (\<forall>t r. om_get (ledger m) t = Some r \<longrightarrow> record_ok (claim_events m) t r)"

lemma claims_inv_new: "claims_inv new_claims"
  by (simp add: claims_inv_def new_claims_def lawful_log_Nil)

lemma record_ok_other: "ce_taskHash e \<noteq> t \<Longrightarrow> record_ok (es @ [e]) t r = record_ok es t r"
  by (simp add: record_ok_def log_state_snoc claim_count_snoc)

lemma claims_inv_emit:
  assumes "claims_inv m" and "lawful_event (log_state (claim_events m)) e"
    and "record_ok (claim_events m @ [e]) (ce_taskHash e) r"
  shows "claims_inv (emit_claim e (m\<lparr>ledger := om_set (ce_taskHash e) r (ledger m)\<rparr>))"
  using assms by (auto simp: claims_inv_def emit_claim_def lawful_log_snoc record_ok_other intro!: om_wf_set)

lemma claims_inv_register:
  assumes "claims_inv m"
  shows "claims_inv (snd (claim_register now t rs m))"
proof (cases "om_get (ledger m) t")
  case None
  let ?r = "\<lparr>cr_taskHash = t, cr_state = Unclaimed, cr_attempt = 0, cr_firstSeen = now,
             cr_updatedAt = now, cr_cycleId = None, cr_retryAfter = None\<rparr>"
  have "claims_inv (emit_claim (eventFrom ?r None rs) (m\<lparr>ledger := om_set (ce_taskHash (eventFrom ?r None rs)) ?r (ledger m)\<rparr>))"
    by (rule claims_inv_emit [OF assms])
      (simp_all add: eventFrom_def lawful_event_def record_ok_def log_state_snoc claim_count_snoc)
  with None show ?thesis by (simp add: claim_register_def eventFrom_def Let_def)
qed (use assms in \<open>simp add: claim_register_def\<close>)

lemma claims_inv_transition:
  assumes inv: "claims_inv m"
  shows "claims_inv (snd (claim_transition now t n c rs m))"
proof (cases "fst (claim_transition now t n c rs m)")
  case False
  then show ?thesis using inv by (simp add: claim_transition_refused)
next
  case True
  then obtain r where r: "om_get (ledger m) t = Some r" and n: "n \<in> set (LEGAL (cr_state r))"
    by (auto simp: claim_transition_fst)
  from inv r have ok: "record_ok (claim_events m) t r" by (simp add: claims_inv_def)
  define r1 where "r1 = r\<lparr>cr_state := n, cr_updatedAt := now\<rparr>"
  define r2 where "r2 = (if truthy_str c then r1\<lparr>cr_cycleId := c\<rparr> else r1)"
  define r3 where "r3 = (if n = Claimed then r2\<lparr>cr_attempt := cr_attempt r2 + 1\<rparr> else r2)"
  have r3: "cr_taskHash r3 = t" "cr_state r3 = n"
      "cr_attempt r3 = (if n = Claimed then Suc (cr_attempt r) else cr_attempt r)"
    using ok by (simp_all add: r3_def r2_def r1_def record_ok_def)
  have "n \<noteq> Unclaimed" "n \<in> {Running, RetryQueued} \<longrightarrow> 0 < cr_attempt r"
    using n ok by (cases "cr_state r"; auto simp: record_ok_def)+
  then have "record_ok (claim_events m @ [eventFrom r3 (Some (cr_state r)) rs]) t r3"
    using r3 ok by (auto simp: record_ok_def eventFrom_def log_state_snoc claim_count_snoc)
  moreover have "lawful_event (log_state (claim_events m)) (eventFrom r3 (Some (cr_state r)) rs)"
    using r3 n ok by (simp add: lawful_event_def eventFrom_def record_ok_def)
  ultimately have "claims_inv (emit_claim (eventFrom r3 (Some (cr_state r)) rs) (m\<lparr>ledger := om_set t r3 (ledger m)\<rparr>))"
    using claims_inv_emit [OF inv, of "eventFrom r3 (Some (cr_state r)) rs" r3] r3
    by (simp add: eventFrom_def)
  then show ?thesis
    using r n
    by (cases "n = Claimed"; cases "truthy_str c")
      (simp_all add: claim_transition_def Let_def r1_def r2_def r3_def)
qed

lemma claims_inv_tryClaim: "claims_inv m \<Longrightarrow> claims_inv (snd (tryClaim now t c rs m))"
  by (auto simp: tryClaim_def Let_def claims_inv_register claims_inv_transition split: option.split)

lemma record_ok_retryAfter: "record_ok es t (r\<lparr>cr_retryAfter := x\<rparr>) = record_ok es t r"
  by (simp add: record_ok_def)

lemma claims_inv_markRetryQueued:
  assumes "claims_inv m" shows "claims_inv (snd (markRetryQueued now t ms rs m))"
proof -
  obtain ok m1 where tr: "claim_transition now t RetryQueued None rs m = (ok, m1)" by fastforce
  have m1: "claims_inv m1" using claims_inv_transition [OF assms, of now t RetryQueued None rs] tr by simp
  show ?thesis
    using m1 by (auto simp: markRetryQueued_def tr claims_inv_def record_ok_retryAfter intro!: om_wf_set split: option.split)
qed

lemma claims_inv_prune: "claims_inv m \<Longrightarrow> claims_inv (snd (claim_prune t m))"
  by (auto simp: claims_inv_def claim_prune_def split: if_splits)

interpretation claims: guarded_system claim_step claims_inv
proof
  fix m :: TaskClaimMachine and e :: "int \<times> ClaimOp"
  assume "claims_inv m"
  then show "claims_inv (claim_step m e)"
    by (cases "(m, e)" rule: claim_step.cases)
      (simp_all add: claims_inv_register claims_inv_tryClaim markRunning_def claims_inv_transition
        claims_inv_markRetryQueued claim_release_def claims_inv_prune)
qed

text \<open>A held or finished task stays so until it is put on the retry queue or pruned.\<close>

definition taken :: "string \<Rightarrow> TaskClaimMachine \<Rightarrow> bool" where
  "taken t m \<longleftrightarrow> state_of t m \<in> {Some Claimed, Some Running, Some Released}"

fun keeps_taken :: "string \<Rightarrow> int \<times> ClaimOp \<Rightarrow> bool" where
  "keeps_taken t (now, OpMarkRetryQueued t' ms rs) = (t' \<noteq> t)"
| "keeps_taken t (now, OpPrune t') = (t' \<noteq> t)"
| "keeps_taken t _ = True"

lemma LEGAL_taken:
  "s \<in> {Claimed, Running, Released} \<Longrightarrow> n \<in> set (LEGAL s) \<Longrightarrow> n \<in> {Claimed, Running, Released, RetryQueued}"
  by (cases s) auto

interpretation taken: trapping_system claim_step "taken t" "keeps_taken t" for t
proof
  fix m :: TaskClaimMachine and e :: "int \<times> ClaimOp"
  assume "taken t m" "keeps_taken t e"
  then show "taken t (claim_step m e)"
    by (cases "(m, e)" rule: claim_step.cases)
      (auto simp: taken_def claim_effects markRunning_def claim_release_def)
qed

text \<open>A released task never leaves \<^const>\<open>Released\<close> while its record is kept.\<close>

fun keeps_record :: "string \<Rightarrow> int \<times> ClaimOp \<Rightarrow> bool" where
  "keeps_record t (now, OpPrune t') = (t' \<noteq> t)"
| "keeps_record t _ = True"

interpretation released: trapping_system claim_step "\<lambda>m. state_of t m = Some Released" "keeps_record t" for t
proof
  fix m :: TaskClaimMachine and e :: "int \<times> ClaimOp"
  assume r: "state_of t m = Some Released" and k: "keeps_record t e"
  then have "\<And>r. om_get (ledger m) t = Some r \<Longrightarrow> cr_state r = Released"
    by (simp add: state_of_def)
  with r k show "state_of t (claim_step m e) = Some Released"
    by (cases "(m, e)" rule: claim_step.cases)
      (auto simp: claim_effects markRunning_def claim_release_def)
qed

lemma claim_stats_count: "claim_stats m s = length (filter (\<lambda>r. cr_state r = s) (om_values (ledger m)))"
proof -
  have "foldl (\<lambda>counts r. counts(cr_state r := counts (cr_state r) + 1)) f rs s =
      f s + length (filter (\<lambda>r. cr_state r = s) rs)" for f :: "ClaimState \<Rightarrow> nat" and rs :: "ClaimRecord list"
    by (induction rs arbitrary: f) auto
  then show ?thesis by (simp add: claim_stats_def)
qed

lemma claim_counts_total:
  "length (filter (\<lambda>r. cr_state r = Unclaimed) rs) + length (filter (\<lambda>r. cr_state r = Claimed) rs)
   + length (filter (\<lambda>r. cr_state r = Running) rs) + length (filter (\<lambda>r. cr_state r = RetryQueued) rs)
   + length (filter (\<lambda>r. cr_state r = Released) rs) = length rs"
proof (induction rs)
  case (Cons r rs)
  then show ?case by (cases "cr_state r") auto
qed simp

section \<open>Properties\<close>

text \<open>C1: exactly-once claiming. Once a \<open>tryClaim\<close> for a task has returned true, every
  later \<open>tryClaim\<close> for the same task returns false, whatever calls come in between, as
  long as none of them puts the task on the retry queue or prunes its record.\<close>

theorem exactly_once_claim:
  assumes "fst (tryClaim now t c rs m)" and "list_all (keeps_taken t) ops"
  shows "\<not> fst (tryClaim now' t c' rs' (claim_run (snd (tryClaim now t c rs m)) ops))"
proof -
  have "taken t (snd (tryClaim now t c rs m))"
    using assms(1) by (simp add: taken_def tryClaim_state_of)
  then have "taken t (claim_run (snd (tryClaim now t c rs m)) ops)"
    unfolding claim_run_def by (rule taken.run_trap) (rule assms(2))
  then show ?thesis by (auto simp: taken_def tryClaim_state_of)
qed

theorem exactly_once_claim_witness:
  "\<not> fst (tryClaim 30 ''t'' ''c2'' None
     (claim_run (snd (tryClaim 10 ''t'' ''c1'' None new_claims))
       [(20, OpMarkRunning ''t'' ''c1''), (25, OpRelease ''t'' ''done'')]))"
proof (rule exactly_once_claim)
  show "fst (tryClaim 10 ''t'' ''c1'' None new_claims)"
    by (simp add: tryClaim_state_of state_of_def new_claims_def)
  show "list_all (keeps_taken ''t'') [(20, OpMarkRunning ''t'' ''c1''), (25, OpRelease ''t'' ''done'')]"
    by simp
qed

text \<open>From the empty ledger, whatever the calls, the emitted \<open>claim_event\<close>s of a task form
  a path of the legal table, the ledger holds one record per task, and a record's state is the
  state of the task's last event and its attempt counter is the number of claims since the
  task was last registered.\<close>

theorem claim_log_lawful:
  fixes ops :: "(int \<times> ClaimOp) list"
  defines "m \<equiv> claim_run new_claims ops"
  shows "lawful_log (claim_events m) \<and> distinct (om_keys (ledger m)) \<and>
    pred_option (\<lambda>r. cr_taskHash r = t \<and> log_state (claim_events m) t = Some (cr_state r) \<and>
      cr_attempt r = claim_count t (claim_events m)) (om_get (ledger m) t)"
proof -
  have "claims_inv m"
    unfolding m_def claim_run_def by (rule claims.run_inv) (rule claims_inv_new)
  then show ?thesis
    by (cases "om_get (ledger m) t") (auto simp: claims_inv_def record_ok_def)
qed

text \<open>\<open>Released\<close> is terminal: while the record is kept, no sequence of calls changes the
  state of a released task, and every further transition is refused without effect.\<close>

theorem released_is_terminal:
  assumes "state_of t m = Some Released" and "list_all (keeps_record t) ops"
  shows "state_of t (claim_run m ops) = Some Released
    \<and> claim_transition now t nxt c rs (claim_run m ops) = (False, claim_run m ops)"
proof -
  have r: "state_of t (claim_run m ops) = Some Released"
    unfolding claim_run_def by (rule released.run_trap) (rule assms)+
  then have "\<not> fst (claim_transition now t nxt c rs (claim_run m ops))"
    by (auto simp: claim_transition_fst state_of_def)
  with r show ?thesis by (simp add: claim_transition_refused)
qed

theorem released_is_terminal_witness:
  "\<exists>m. state_of ''t'' m = Some Released
    \<and> state_of ''t'' (claim_run m [(9, OpTryClaim ''t'' ''c'' None)]) = Some Released"
proof -
  let ?m = "claim_run new_claims [(1, OpRegister ''t'' None), (2, OpRelease ''t'' ''gone'')]"
  have m: "state_of ''t'' ?m = Some Released"
    by (simp add: claim_run_def claim_release_def claim_effects new_claims_def state_of_def)
      (simp add: claim_register_def emit_claim_def Let_def claim_transition_def)
  from released_is_terminal [OF m, of "[(9, OpTryClaim ''t'' ''c'' None)]"] m show ?thesis by auto
qed

text \<open>The counters of \<open>stats()\<close> partition the ledger: each is the number of records in its
  state, and the five add up to the number of records.\<close>

theorem claim_stats_partition:
  "(\<forall>s. claim_stats m s = length (filter (\<lambda>r. cr_state r = s) (claim_snapshot m))) \<and>
   claim_stats m Unclaimed + claim_stats m Claimed + claim_stats m Running
     + claim_stats m RetryQueued + claim_stats m Released = length (ledger m)"
  using claim_counts_total [of "om_values (ledger m)"]
  by (simp add: claim_stats_count claim_snapshot_def)

end
