(* ===== verification/Triad.thy ===== *)
theory Triad
  imports Kovael_Prelude
begin

text \<open>
  \<open>src/src/protocols/TriadStateMachine.ts\<close>: the phases of one Architect, Operator, Verifier
  cycle. A transition that the table does not allow throws (\<open>Inl\<close>); an allowed one is
  recorded in the history and emitted as \<open>phase_change\<close>.
\<close>

section \<open>Data\<close>

datatype TriadPhase =
    PreparingContext | DispatchToArchitect | ArchitectStreaming | DispatchToOperator
  | OperatorExecuting | DispatchToVerifier | VerifierAuditing | IssuingReceipt
  | Succeeded | Failed | Stalled

definition TERMINAL :: "TriadPhase list" where
  "TERMINAL = [Succeeded, Failed, Stalled]"

fun NEXT :: "TriadPhase \<Rightarrow> TriadPhase list" where
  "NEXT PreparingContext = [DispatchToArchitect, Failed, Stalled]"
| "NEXT DispatchToArchitect = [ArchitectStreaming, Failed, Stalled]"
| "NEXT ArchitectStreaming = [DispatchToOperator, Failed, Stalled]"
| "NEXT DispatchToOperator = [OperatorExecuting, Failed, Stalled]"
| "NEXT OperatorExecuting = [DispatchToVerifier, Failed, Stalled]"
| "NEXT DispatchToVerifier = [VerifierAuditing, Failed, Stalled]"
| "NEXT VerifierAuditing = [IssuingReceipt, Failed, Stalled]"
| "NEXT IssuingReceipt = [Succeeded, Failed]"
| "NEXT Succeeded = []"
| "NEXT Failed = []"
| "NEXT Stalled = []"

record PhaseEvent =
  pe_cycleId :: string
  pe_taskHash :: string
  pe_phase :: TriadPhase
  pe_previous :: "TriadPhase option"
  pe_timestamp :: int
  pe_routedAgent :: "string option"
  pe_note :: "string option"

record TriadStateMachine =
  tm_phase :: TriadPhase
  tm_cycleId :: string
  tm_taskHash :: string
  tm_history :: "PhaseEvent list"
  tm_emitted :: "PhaseEvent list"

datatype triad_error = IllegalTransition TriadPhase TriadPhase string

section \<open>Operations\<close>

definition new_triad :: "int \<Rightarrow> string \<Rightarrow> string \<Rightarrow> TriadStateMachine" where
  "new_triad now cycleId taskHash =
     \<lparr>tm_phase = PreparingContext, tm_cycleId = cycleId, tm_taskHash = taskHash,
      tm_history = [\<lparr>pe_cycleId = cycleId, pe_taskHash = taskHash, pe_phase = PreparingContext,
                     pe_previous = None, pe_timestamp = now, pe_routedAgent = None, pe_note = None\<rparr>],
      tm_emitted = []\<rparr>"

definition isTerminal :: "TriadStateMachine \<Rightarrow> bool" where
  "isTerminal m = (tm_phase m \<in> set TERMINAL)"

definition canTransition :: "TriadPhase \<Rightarrow> TriadStateMachine \<Rightarrow> bool" where
  "canTransition nxt m = (nxt \<in> set (NEXT (tm_phase m)))"

definition triad_transition :: "int \<Rightarrow> TriadPhase \<Rightarrow> string option \<Rightarrow> string option \<Rightarrow>
    TriadStateMachine \<Rightarrow> triad_error + (PhaseEvent \<times> TriadStateMachine)" where
  "triad_transition now nxt routedAgent note m =
     (if \<not> canTransition nxt m then Inl (IllegalTransition (tm_phase m) nxt (tm_cycleId m))
      else
        let event = \<lparr>pe_cycleId = tm_cycleId m, pe_taskHash = tm_taskHash m, pe_phase = nxt,
                     pe_previous = Some (tm_phase m), pe_timestamp = now,
                     pe_routedAgent = routedAgent, pe_note = note\<rparr>
        in Inr (event, m\<lparr>tm_phase := nxt, tm_history := tm_history m @ [event],
                         tm_emitted := tm_emitted m @ [event]\<rparr>))"

definition trail :: "TriadStateMachine \<Rightarrow> PhaseEvent list" where
  "trail m = tm_history m"

text \<open>A caller that goes on after a refused transition leaves the machine as it was.\<close>

definition triad_step :: "TriadStateMachine \<Rightarrow> int \<times> TriadPhase \<Rightarrow> TriadStateMachine" where
  "triad_step m e = (case triad_transition (fst e) (snd e) None None m of
     Inl _ \<Rightarrow> m | Inr (_, m') \<Rightarrow> m')"

section \<open>The phases of a trail\<close>

definition pipeline :: "TriadPhase list" where
  "pipeline = [PreparingContext, DispatchToArchitect, ArchitectStreaming, DispatchToOperator,
     OperatorExecuting, DispatchToVerifier, VerifierAuditing, IssuingReceipt, Succeeded]"

fun rank :: "TriadPhase \<Rightarrow> nat" where
  "rank PreparingContext = 0"
| "rank DispatchToArchitect = 1"
| "rank ArchitectStreaming = 2"
| "rank DispatchToOperator = 3"
| "rank OperatorExecuting = 4"
| "rank DispatchToVerifier = 5"
| "rank VerifierAuditing = 6"
| "rank IssuingReceipt = 7"
| "rank _ = 8"

definition triad_inv :: "TriadStateMachine \<Rightarrow> bool" where
  "triad_inv m \<longleftrightarrow>
     (let ps = map pe_phase (tm_history m) in
      if tm_phase m \<in> {Failed, Stalled}
      then \<exists>k. 0 < k \<and> k \<le> 8 \<and> ps = take k pipeline @ [tm_phase m]
      else ps = take (Suc (rank (tm_phase m))) pipeline)
     \<and> map pe_previous (tl (tm_history m)) = map Some (butlast (map pe_phase (tm_history m)))
     \<and> tm_emitted m = tl (tm_history m) \<and> tm_history m \<noteq> []"

lemma triad_inv_new: "triad_inv (new_triad now c t)"
  by (simp add: triad_inv_def new_triad_def pipeline_def)

lemma NEXT_rank: "n \<in> set (NEXT p) \<Longrightarrow> n \<notin> {Failed, Stalled} \<Longrightarrow> rank n = Suc (rank p) \<and> pipeline ! rank n = n"
  by (cases p) (auto simp: pipeline_def)

lemma NEXT_source: "n \<in> set (NEXT p) \<Longrightarrow> p \<notin> {Failed, Stalled, Succeeded} \<and> rank p < 8"
  by (cases p) auto

lemma take_pipeline: "k < 9 \<Longrightarrow> take (Suc k) pipeline = take k pipeline @ [pipeline ! k]"
  by (rule take_Suc_conv_app_nth) (simp add: pipeline_def)

lemma triad_transition_ok:
  "triad_transition now n ra note m = Inr (e, m') \<Longrightarrow>
     n \<in> set (NEXT (tm_phase m)) \<and> pe_phase e = n \<and> pe_previous e = Some (tm_phase m) \<and>
     m' = m\<lparr>tm_phase := n, tm_history := tm_history m @ [e], tm_emitted := tm_emitted m @ [e]\<rparr>"
  by (auto simp: triad_transition_def canTransition_def Let_def split: if_splits)

lemma rank_less: "rank p < 9"
  by (cases p) auto

lemma triad_inv_transition:
  assumes inv: "triad_inv m" and tr: "triad_transition now n ra note m = Inr (e, m')"
  shows "triad_inv m'"
proof -
  let ?ps = "map pe_phase (tm_history m)"
  from triad_transition_ok [OF tr] have n: "n \<in> set (NEXT (tm_phase m))" and e: "pe_phase e = n"
      "pe_previous e = Some (tm_phase m)"
    and m': "m' = m\<lparr>tm_phase := n, tm_history := tm_history m @ [e], tm_emitted := tm_emitted m @ [e]\<rparr>"
    by auto
  from NEXT_source [OF n] inv have ps: "?ps = take (Suc (rank (tm_phase m))) pipeline"
    and lt: "rank (tm_phase m) < 8"
    by (auto simp: triad_inv_def Let_def)
  have last: "last ?ps = tm_phase m"
    using lt ps by (cases "tm_phase m") (auto simp: pipeline_def)
  have ne: "tm_history m \<noteq> []" and prev: "map pe_previous (tl (tm_history m)) = map Some (butlast ?ps)"
    using inv by (auto simp: triad_inv_def)
  have "map Some ?ps = map Some (butlast ?ps) @ [Some (tm_phase m)]"
    using ne last by (metis append_butlast_last_id list.simps(8,9) map_append map_is_Nil_conv)
  then have prevs: "map pe_previous (tl (tm_history m @ [e])) = map Some (butlast (?ps @ [n]))"
    using prev ne e by simp
  have "if n \<in> {Failed, Stalled} then \<exists>k. 0 < k \<and> k \<le> 8 \<and> ?ps @ [n] = take k pipeline @ [n]
        else ?ps @ [n] = take (Suc (rank n)) pipeline"
  proof (cases "n \<in> {Failed, Stalled}")
    case True
    then show ?thesis using ps lt by (auto intro!: exI [of _ "Suc (rank (tm_phase m))"])
  next
    case False
    then have r: "rank n = Suc (rank (tm_phase m))" "pipeline ! rank n = n"
      using NEXT_rank [OF n] by auto
    with take_pipeline [OF rank_less, of n] have "take (Suc (rank n)) pipeline = ?ps @ [n]"
      using ps by simp
    with False show ?thesis by simp
  qed
  then show ?thesis
    using inv ne prevs e by (auto simp: triad_inv_def m')
qed

interpretation triad: guarded_system triad_step triad_inv
  by unfold_locales (auto simp: triad_step_def dest: triad_inv_transition split: sum.split prod.split)

interpretation triad_end: trapping_system triad_step "\<lambda>m. m = m0 \<and> isTerminal m0" "\<lambda>_. True" for m0
  by unfold_locales
    (auto simp: triad_step_def triad_transition_def canTransition_def isTerminal_def TERMINAL_def)

section \<open>Properties\<close>

text \<open>C2: whatever transitions are asked for, a cycle that reaches \<open>Succeeded\<close> has gone through all
  nine phases of the pipeline, each once and in order.\<close>

theorem success_traverses_pipeline:
  assumes "tm_phase (foldl triad_step (new_triad now c t) es) = Succeeded"
  shows "map pe_phase (trail (foldl triad_step (new_triad now c t) es)) = pipeline"
proof -
  have "triad_inv (foldl triad_step (new_triad now c t) es)"
    by (rule triad.run_inv) (rule triad_inv_new)
  with assms show ?thesis by (simp add: triad_inv_def trail_def pipeline_def)
qed

theorem success_traverses_pipeline_witness:
  "map pe_phase (trail (foldl triad_step (new_triad 0 ''c'' ''t'')
     (map (\<lambda>p. (1, p)) (tl pipeline)))) = pipeline"
  by (rule success_traverses_pipeline)
    (simp add: pipeline_def triad_step_def triad_transition_def canTransition_def new_triad_def Let_def)

text \<open>A trail never has more than nine events, links each event to the phase before it, and
  every emitted event is a trail event after the first.\<close>

theorem trail_well_formed:
  fixes now :: int and c t :: string and es :: "(int \<times> TriadPhase) list"
  defines "m \<equiv> foldl triad_step (new_triad now c t) es"
  shows "length (trail m) \<le> 9
    \<and> map pe_previous (tl (trail m)) = map Some (butlast (map pe_phase (trail m)))
    \<and> tm_emitted m = tl (trail m) \<and> pe_phase (last (trail m)) = tm_phase m"
proof -
  have inv: "triad_inv m" unfolding m_def by (rule triad.run_inv) (rule triad_inv_new)
  have ne: "tm_history m \<noteq> []" using inv by (simp add: triad_inv_def)
  define ps where "ps = map pe_phase (tm_history m)"
  have "length ps \<le> 9 \<and> last ps = tm_phase m"
  proof (cases "tm_phase m \<in> {Failed, Stalled}")
    case True
    then show ?thesis using inv by (auto simp: triad_inv_def ps_def [symmetric])
  next
    case False
    then have "ps = take (Suc (rank (tm_phase m))) pipeline"
      using inv by (simp add: triad_inv_def ps_def)
    with False show ?thesis by (cases "tm_phase m") (simp_all add: pipeline_def)
  qed
  then show ?thesis using inv ne by (simp add: triad_inv_def trail_def last_map ps_def)
qed

text \<open>The terminal phases are exactly those without a legal successor, and a machine in one of
  them is unchanged by every further request.\<close>

theorem terminal_iff_stuck:
  "(isTerminal m \<longleftrightarrow> (\<forall>n. \<not> canTransition n m)) \<and>
   (if isTerminal m then foldl triad_step m es = m else True)"
proof -
  have "isTerminal m \<longleftrightarrow> (\<forall>n. \<not> canTransition n m)"
    by (cases "tm_phase m") (auto simp: isTerminal_def canTransition_def TERMINAL_def)
  moreover have "isTerminal m \<Longrightarrow> foldl triad_step m es = m"
    using triad_end.run_trap [of m m es] by (simp add: list_all_length)
  ultimately show ?thesis by simp
qed

end
