(* ===== verification/Circuits.thy ===== *)
theory Circuits
  imports Kovael_Prelude
begin

text \<open>
  \<open>src/src/services/CircuitBreaker.ts\<close>: one circuit per agent, in an insertion-ordered map.
  Emitted \<open>circuit_event\<close>s are kept in \<open>cb_events\<close>. Thresholds and times are integers.
\<close>

section \<open>Data\<close>

datatype CircuitState = Closed | Open | HalfOpen

record CircuitBreakerConfig =
  failureThreshold :: int
  recoveryMs :: int

definition DEFAULT_CIRCUIT_CONFIG :: CircuitBreakerConfig where
  "DEFAULT_CIRCUIT_CONFIG = \<lparr>failureThreshold = 3, recoveryMs = 30000\<rparr>"

record ChairCircuitSnapshot =
  cs_agentId :: string
  cs_state :: CircuitState
  cs_failures :: int
  cs_openedAt :: "int option"
  cs_lastReason :: "string option"

datatype CircuitEventType = CircuitOpen | CircuitRecovered | CircuitHalfOpen | CircuitFailure

record ChairCircuitEvent =
  cev_circuit :: ChairCircuitSnapshot
  cev_type :: CircuitEventType
  cev_timestamp :: int

record CircuitBreaker =
  cb_cfg :: CircuitBreakerConfig
  circuits :: "(string, ChairCircuitSnapshot) omap"
  cb_events :: "ChairCircuitEvent list"

text \<open>The constructor merges a partial configuration over the defaults.\<close>

definition new_breaker :: "int option \<Rightarrow> int option \<Rightarrow> CircuitBreaker" where
  "new_breaker threshold recovery =
     \<lparr>cb_cfg = \<lparr>failureThreshold = case_option (failureThreshold DEFAULT_CIRCUIT_CONFIG) id threshold,
                recoveryMs = case_option (recoveryMs DEFAULT_CIRCUIT_CONFIG) id recovery\<rparr>,
      circuits = [], cb_events = []\<rparr>"

section \<open>Operations\<close>

definition ensure :: "string \<Rightarrow> CircuitBreaker \<Rightarrow> ChairCircuitSnapshot \<times> CircuitBreaker" where
  "ensure a b =
     (case om_get (circuits b) a of
        Some existing \<Rightarrow> (existing, b)
      | None \<Rightarrow>
          let created = \<lparr>cs_agentId = a, cs_state = Closed, cs_failures = 0, cs_openedAt = None,
                         cs_lastReason = None\<rparr>
          in (created, b\<lparr>circuits := om_set a created (circuits b)\<rparr>))"

definition emitCircuit :: "CircuitEventType \<Rightarrow> ChairCircuitSnapshot \<Rightarrow> int \<Rightarrow> CircuitBreaker \<Rightarrow> CircuitBreaker" where
  "emitCircuit ty c now b =
     b\<lparr>cb_events := cb_events b @ [\<lparr>cev_circuit = c, cev_type = ty, cev_timestamp = now\<rparr>]\<rparr>"

text \<open>The code mutates the circuit in place, so the map holds the changed circuit.\<close>

definition store_circuit :: "string \<Rightarrow> ChairCircuitSnapshot \<Rightarrow> CircuitBreaker \<Rightarrow> CircuitBreaker" where
  "store_circuit a c b = b\<lparr>circuits := om_set a c (circuits b)\<rparr>"

definition breaker_canDispatch :: "int \<Rightarrow> string \<Rightarrow> CircuitBreaker \<Rightarrow> bool \<times> CircuitBreaker" where
  "breaker_canDispatch now a b =
     (case ensure a b of (c, b1) \<Rightarrow>
        if cs_state c \<noteq> Open then (True, b1)
        else if (case cs_openedAt c of None \<Rightarrow> False | Some t \<Rightarrow> now - t \<ge> recoveryMs (cb_cfg b)) then
          let c1 = c\<lparr>cs_state := HalfOpen\<rparr>
          in (True, emitCircuit CircuitHalfOpen c1 now (store_circuit a c1 b1))
        else (False, b1))"

definition recordFailure :: "int \<Rightarrow> string \<Rightarrow> string \<Rightarrow> CircuitBreaker \<Rightarrow>
    ChairCircuitSnapshot \<times> CircuitBreaker" where
  "recordFailure now a reason b =
     (case ensure a b of (c, b1) \<Rightarrow>
        let c1 = c\<lparr>cs_failures := cs_failures c + 1, cs_lastReason := Some (take 240 reason)\<rparr>
        in if cs_failures c1 \<ge> failureThreshold (cb_cfg b) then
             let c2 = c1\<lparr>cs_state := Open, cs_openedAt := Some now\<rparr>
             in (c2, emitCircuit CircuitOpen c2 now (store_circuit a c2 b1))
           else (c1, emitCircuit CircuitFailure c1 now (store_circuit a c1 b1)))"

definition recordSuccess :: "int \<Rightarrow> string \<Rightarrow> CircuitBreaker \<Rightarrow>
    ChairCircuitSnapshot \<times> CircuitBreaker" where
  "recordSuccess now a b =
     (case ensure a b of (c, b1) \<Rightarrow>
        let wasOpen = (cs_state c \<noteq> Closed \<or> cs_failures c > 0);
            c1 = c\<lparr>cs_state := Closed, cs_failures := 0, cs_openedAt := None, cs_lastReason := None\<rparr>;
            b2 = store_circuit a c1 b1
        in (c1, if wasOpen then emitCircuit CircuitRecovered c1 now b2 else b2))"

definition breaker_snapshot :: "CircuitBreaker \<Rightarrow> ChairCircuitSnapshot list" where
  "breaker_snapshot b = om_values (circuits b)"

datatype CircuitOp = OpCanDispatch string | OpFailure string string | OpSuccess string

fun op_agent :: "CircuitOp \<Rightarrow> string" where
  "op_agent (OpCanDispatch a) = a"
| "op_agent (OpFailure a _) = a"
| "op_agent (OpSuccess a) = a"

fun breaker_step :: "CircuitBreaker \<Rightarrow> int \<times> CircuitOp \<Rightarrow> CircuitBreaker" where
  "breaker_step b (now, OpCanDispatch a) = snd (breaker_canDispatch now a b)"
| "breaker_step b (now, OpFailure a r) = snd (recordFailure now a r b)"
| "breaker_step b (now, OpSuccess a) = snd (recordSuccess now a b)"

section \<open>One agent's circuit\<close>

definition fresh_circuit :: "string \<Rightarrow> ChairCircuitSnapshot" where
  "fresh_circuit a = \<lparr>cs_agentId = a, cs_state = Closed, cs_failures = 0, cs_openedAt = None,
     cs_lastReason = None\<rparr>"

definition circuit_of :: "string \<Rightarrow> CircuitBreaker \<Rightarrow> ChairCircuitSnapshot" where
  "circuit_of a b = case_option (fresh_circuit a) id (om_get (circuits b) a)"

lemma ensure_effect:
  "fst (ensure a b) = circuit_of a b" "circuit_of a' (snd (ensure a b)) = circuit_of a' b"
  "cb_cfg (snd (ensure a b)) = cb_cfg b"
  by (auto simp: ensure_def circuit_of_def fresh_circuit_def Let_def split: option.split)

lemma ensure_pair: "ensure a b = (circuit_of a b, snd (ensure a b))"
  using ensure_effect(1) [of a b] by (metis prod.collapse)

lemma circuit_of_store: "circuit_of a' (store_circuit a c b) = (if a' = a then c else circuit_of a' b)"
  by (simp add: circuit_of_def store_circuit_def)

lemma circuit_of_emit: "circuit_of a' (emitCircuit ty c now b) = circuit_of a' b"
  by (simp add: circuit_of_def emitCircuit_def)

lemma cfg_frame: "cb_cfg (store_circuit a c b) = cb_cfg b" "cb_cfg (emitCircuit ty c now b) = cb_cfg b"
  by (simp_all add: store_circuit_def emitCircuit_def)

text \<open>What each call does to an agent's circuit, as a function of that circuit alone.\<close>

definition recovered :: "int \<Rightarrow> CircuitBreakerConfig \<Rightarrow> ChairCircuitSnapshot \<Rightarrow> bool" where
  "recovered now cfg c = (case cs_openedAt c of None \<Rightarrow> False | Some t \<Rightarrow> now - t \<ge> recoveryMs cfg)"

definition failed_circuit :: "int \<Rightarrow> string \<Rightarrow> CircuitBreakerConfig \<Rightarrow> ChairCircuitSnapshot \<Rightarrow> ChairCircuitSnapshot" where
  "failed_circuit now reason cfg c =
     (let c1 = c\<lparr>cs_failures := cs_failures c + 1, cs_lastReason := Some (take 240 reason)\<rparr>
      in if cs_failures c + 1 \<ge> failureThreshold cfg then c1\<lparr>cs_state := Open, cs_openedAt := Some now\<rparr> else c1)"

lemma breaker_may_dispatch:
  "fst (breaker_canDispatch now a b) \<longleftrightarrow>
     cs_state (circuit_of a b) \<noteq> Open \<or> recovered now (cb_cfg b) (circuit_of a b)"
  by (subst breaker_canDispatch_def, subst ensure_pair)
    (auto simp: Let_def recovered_def split: option.splits)

lemma canDispatch_circuit:
  "circuit_of a' (snd (breaker_canDispatch now a b)) =
     (if a' = a \<and> cs_state (circuit_of a b) = Open \<and> recovered now (cb_cfg b) (circuit_of a b)
      then (circuit_of a b)\<lparr>cs_state := HalfOpen\<rparr> else circuit_of a' b)"
  by (subst breaker_canDispatch_def, subst ensure_pair)
    (auto simp: Let_def recovered_def circuit_of_emit circuit_of_store ensure_effect split: option.splits)

lemma recordFailure_circuit:
  "circuit_of a' (snd (recordFailure now a r b)) =
     (if a' = a then failed_circuit now r (cb_cfg b) (circuit_of a b) else circuit_of a' b)"
  by (subst recordFailure_def, subst ensure_pair)
    (auto simp: Let_def failed_circuit_def circuit_of_emit circuit_of_store ensure_effect)

lemma recordSuccess_circuit:
  "circuit_of a' (snd (recordSuccess now a b)) =
     (if a' = a then (circuit_of a b)\<lparr>cs_state := Closed, cs_failures := 0, cs_openedAt := None, cs_lastReason := None\<rparr>
      else circuit_of a' b)"
  by (subst recordSuccess_def, subst ensure_pair)
    (auto simp: Let_def circuit_of_emit circuit_of_store ensure_effect)

lemma breaker_step_cfg: "cb_cfg (breaker_step b e) = cb_cfg b"
proof (cases "(b, e)" rule: breaker_step.cases)
  case (1 b now a)
  then show ?thesis
    by (simp, subst breaker_canDispatch_def, subst ensure_pair) (auto simp: Let_def cfg_frame ensure_effect)
next
  case (2 b now a r)
  then show ?thesis
    by (simp, subst recordFailure_def, subst ensure_pair) (auto simp: Let_def cfg_frame ensure_effect)
next
  case (3 b now a)
  then show ?thesis
    by (simp, subst recordSuccess_def, subst ensure_pair) (auto simp: Let_def cfg_frame ensure_effect)
qed

lemmas circuit_effects = canDispatch_circuit recordFailure_circuit recordSuccess_circuit

lemma breaker_step_other: "op_agent (snd e) \<noteq> a \<Longrightarrow> circuit_of a (breaker_step b e) = circuit_of a b"
  by (cases "(b, e)" rule: breaker_step.cases) (auto simp: circuit_effects)

text \<open>
  The invariant: an open circuit knows when it opened and is at or over the threshold, a
  half-open one is over the threshold, a closed one is under it.
\<close>

definition circuit_ok :: "CircuitBreakerConfig \<Rightarrow> ChairCircuitSnapshot \<Rightarrow> bool" where
  "circuit_ok cfg c \<longleftrightarrow> 0 \<le> cs_failures c \<and>
     (case cs_state c of
        Closed \<Rightarrow> cs_failures c < failureThreshold cfg
      | Open \<Rightarrow> failureThreshold cfg \<le> cs_failures c \<and> cs_openedAt c \<noteq> None
      | HalfOpen \<Rightarrow> failureThreshold cfg \<le> cs_failures c)"

definition breaker_inv :: "CircuitBreaker \<Rightarrow> bool" where
  "breaker_inv b \<longleftrightarrow> 0 < failureThreshold (cb_cfg b) \<and> (\<forall>a. circuit_ok (cb_cfg b) (circuit_of a b))"

lemma circuit_ok_failed: "circuit_ok cfg c \<Longrightarrow> circuit_ok cfg (failed_circuit now r cfg c)"
  by (auto simp: circuit_ok_def failed_circuit_def Let_def split: CircuitState.splits)

lemma circuit_ok_half_open:
  "circuit_ok cfg c \<Longrightarrow> cs_state c = Open \<Longrightarrow> circuit_ok cfg (c\<lparr>cs_state := HalfOpen\<rparr>)"
  by (simp add: circuit_ok_def)

lemma circuit_ok_reset:
  "0 < failureThreshold cfg \<Longrightarrow>
     circuit_ok cfg (c\<lparr>cs_state := Closed, cs_failures := 0, cs_openedAt := x, cs_lastReason := y\<rparr>)"
  by (simp add: circuit_ok_def)

lemma breaker_inv_new: "0 < failureThreshold (cb_cfg (new_breaker t r)) \<Longrightarrow> breaker_inv (new_breaker t r)"
  by (simp add: breaker_inv_def circuit_ok_def circuit_of_def fresh_circuit_def new_breaker_def)

interpretation breaker: guarded_system breaker_step breaker_inv
proof
  fix b :: CircuitBreaker and e :: "int \<times> CircuitOp"
  assume inv: "breaker_inv b"
  then have ok: "circuit_ok (cb_cfg b) (circuit_of a b)" for a by (simp add: breaker_inv_def)
  have "circuit_ok (cb_cfg b) (circuit_of a (breaker_step b e))" for a
    using ok [of a] inv
    by (cases "(b, e)" rule: breaker_step.cases)
      (auto simp: circuit_effects circuit_ok_failed circuit_ok_half_open circuit_ok_reset breaker_inv_def)
  then show "breaker_inv (breaker_step b e)"
    using inv by (simp add: breaker_inv_def breaker_step_cfg)
qed

lemma breaker_run_cfg: "cb_cfg (foldl breaker_step b es) = cb_cfg b"
  by (induction es arbitrary: b) (simp_all add: breaker_step_cfg)

text \<open>An open circuit stays open until it recovers or an answer succeeds.\<close>

definition open_since :: "string \<Rightarrow> int \<Rightarrow> int \<Rightarrow> CircuitBreaker \<Rightarrow> bool" where
  "open_since a t0 rec b \<longleftrightarrow> cs_state (circuit_of a b) = Open \<and> recoveryMs (cb_cfg b) = rec
     \<and> (\<exists>t. cs_openedAt (circuit_of a b) = Some t \<and> t0 \<le> t)"

fun within_recovery :: "string \<Rightarrow> int \<Rightarrow> int \<Rightarrow> int \<times> CircuitOp \<Rightarrow> bool" where
  "within_recovery a t0 rec (now, OpCanDispatch a') = (a' \<noteq> a \<or> now < t0 + rec)"
| "within_recovery a t0 rec (now, OpFailure a' r) = (a' \<noteq> a \<or> t0 \<le> now)"
| "within_recovery a t0 rec (now, OpSuccess a') = (a' \<noteq> a)"

interpretation open_circuit: trapping_system breaker_step "open_since a t0 rec" "within_recovery a t0 rec"
  for a t0 rec
proof
  fix b :: CircuitBreaker and e :: "int \<times> CircuitOp"
  assume o: "open_since a t0 rec b" and w: "within_recovery a t0 rec e"
  show "open_since a t0 rec (breaker_step b e)"
    using o w
    by (cases "(b, e)" rule: breaker_step.cases)
      (auto simp: open_since_def circuit_effects breaker_step_cfg [of b "(_, OpCanDispatch _)", simplified]
        breaker_step_cfg [of b "(_, OpFailure _ _)", simplified]
        breaker_step_cfg [of b "(_, OpSuccess _)", simplified] recovered_def failed_circuit_def Let_def)
qed

lemma failures_in_a_row:
  assumes "om_get (circuits b) a = None" and "cb_cfg b = cfg" and "int (length rs) < failureThreshold cfg"
  shows "cs_state (circuit_of a (foldl breaker_step b (map (\<lambda>(t, r). (t, OpFailure a r)) rs))) = Closed
     \<and> cs_failures (circuit_of a (foldl breaker_step b (map (\<lambda>(t, r). (t, OpFailure a r)) rs))) = int (length rs)"
  using assms(3)
proof (induction rs rule: rev_induct)
  case Nil
  then show ?case using assms(1) by (simp add: circuit_of_def fresh_circuit_def)
next
  case (snoc x rs)
  obtain t r where x: "x = (t, r)" by force
  from snoc show ?case
    using assms(2)
    by (simp add: x recordFailure_circuit failed_circuit_def Let_def breaker_run_cfg)
qed


lemma failures_past_threshold:
  assumes "om_get (circuits b) a = None" and "rs \<noteq> []" and "failureThreshold (cb_cfg b) \<le> int (length rs)"
  shows "cs_state (circuit_of a (foldl breaker_step b (map (\<lambda>(t, r). (t, OpFailure a r)) rs))) = Open
     \<and> cs_failures (circuit_of a (foldl breaker_step b (map (\<lambda>(t, r). (t, OpFailure a r)) rs))) = int (length rs)
     \<and> cs_openedAt (circuit_of a (foldl breaker_step b (map (\<lambda>(t, r). (t, OpFailure a r)) rs))) = Some (fst (last rs))"
  using assms(2,3)
proof (induction rs rule: rev_induct)
  case (snoc x rs)
  obtain t r where x: "x = (t, r)" by force
  have "cs_failures (circuit_of a (foldl breaker_step b (map (\<lambda>(t, r). (t, OpFailure a r)) rs))) = int (length rs)"
  proof (cases "rs \<noteq> [] \<and> failureThreshold (cb_cfg b) \<le> int (length rs)")
    case True
    then show ?thesis using snoc.IH by blast
  next
    case False
    then show ?thesis
      using failures_in_a_row [OF assms(1) refl, of rs] assms(1)
      by (cases "rs = []") (auto simp: circuit_of_def fresh_circuit_def)
  qed
  then show ?case
    using snoc.prems by (simp add: x recordFailure_circuit failed_circuit_def Let_def breaker_run_cfg)
qed simp

section \<open>Properties\<close>

text \<open>Once a failure that reaches the threshold has opened an agent's circuit at time \<open>t0\<close>,
  every \<open>canDispatch\<close> for that agent before \<open>t0 + recoveryMs\<close> is refused, whatever other calls come in between, unless a
  success is recorded for it.\<close>

theorem open_circuit_refuses:
  assumes "failureThreshold (cb_cfg b) \<le> cs_failures (circuit_of a b) + 1"
    and "list_all (within_recovery a t0 (recoveryMs (cb_cfg b))) es"
    and "now < t0 + recoveryMs (cb_cfg b)"
  shows "\<not> fst (breaker_canDispatch now a (foldl breaker_step (snd (recordFailure t0 a r b)) es))"
proof -
  let ?b = "snd (recordFailure t0 a r b)"
  have cfg: "cb_cfg ?b = cb_cfg b" using breaker_step_cfg [of b "(t0, OpFailure a r)"] by simp
  have "open_since a t0 (recoveryMs (cb_cfg b)) ?b"
    using assms(1) by (simp add: open_since_def recordFailure_circuit failed_circuit_def Let_def cfg)
  then have "open_since a t0 (recoveryMs (cb_cfg b)) (foldl breaker_step ?b es)"
    by (rule open_circuit.run_trap) (rule assms(2))
  then show ?thesis
    using assms(3) by (auto simp: open_since_def breaker_may_dispatch recovered_def breaker_run_cfg cfg)
qed

theorem open_circuit_refuses_witness:
  "\<not> fst (breaker_canDispatch 500 ''x'' (foldl breaker_step
      (snd (recordFailure 100 ''x'' ''down'' (new_breaker (Some 1) (Some 1000))))
      [(200, OpCanDispatch ''x''), (300, OpFailure ''x'' ''again''), (400, OpSuccess ''y'')]))"
  by (rule open_circuit_refuses)
    (simp_all add: recordFailure_def ensure_def new_breaker_def Let_def circuit_of_def fresh_circuit_def)

text \<open>For an agent without a record, \<open>n\<close> failures in a row block dispatch exactly when \<open>n\<close> reaches
  the threshold (asked within the recovery window of the last failure).\<close>

theorem opens_exactly_at_threshold:
  fixes rs :: "(int \<times> string) list"
  assumes "om_get (circuits b) a = None" and "0 < failureThreshold (cb_cfg b)"
    and "rs \<noteq> []" and "now < fst (last rs) + recoveryMs (cb_cfg b)"
  shows "fst (breaker_canDispatch now a (foldl breaker_step b (map (\<lambda>(t, r). (t, OpFailure a r)) rs)))
     \<longleftrightarrow> int (length rs) < failureThreshold (cb_cfg b)"
proof (cases "int (length rs) < failureThreshold (cb_cfg b)")
  case True
  then show ?thesis
    using failures_in_a_row [OF assms(1) refl True] by (simp add: breaker_may_dispatch)
next
  case False
  then show ?thesis
    using failures_past_threshold [OF assms(1) assms(3)] assms(4)
    by (simp add: breaker_may_dispatch recovered_def breaker_run_cfg)
qed

theorem opens_exactly_at_threshold_witness:
  "\<not> fst (breaker_canDispatch 40 ''x'' (foldl breaker_step (new_breaker None None)
     (map (\<lambda>(t, r). (t, OpFailure ''x'' r)) [(10, ''a''), (20, ''b''), (30, ''c'')])))"
  using opens_exactly_at_threshold [of "new_breaker None None" "''x''" "[(10, ''a''), (20, ''b''), (30, ''c'')]" 40]
  by (simp add: new_breaker_def DEFAULT_CIRCUIT_CONFIG_def)

text \<open>After the recovery time an open circuit of a breaker that has only been used through its
  methods lets a probe through; the next failure opens it again at once, and a success closes it
  with its counter at zero.\<close>

theorem half_open_probe:
  fixes es :: "(int \<times> CircuitOp) list"
  assumes "0 < failureThreshold (cb_cfg (new_breaker th rec))"
    and "b = foldl breaker_step (new_breaker th rec) es"
    and "cs_state (circuit_of a b) = Open"
    and "recovered now (cb_cfg b) (circuit_of a b)"
  shows "fst (breaker_canDispatch now a b)
    \<and> cs_state (fst (recordFailure t a r (snd (breaker_canDispatch now a b)))) = Open
    \<and> cs_openedAt (fst (recordFailure t a r (snd (breaker_canDispatch now a b)))) = Some t
    \<and> cs_state (circuit_of a (snd (recordSuccess t a (snd (breaker_canDispatch now a b))))) = Closed
    \<and> cs_failures (circuit_of a (snd (recordSuccess t a (snd (breaker_canDispatch now a b))))) = 0"
proof -
  have "breaker_inv b" unfolding assms(2) by (rule breaker.run_inv) (rule breaker_inv_new [OF assms(1)])
  then have "failureThreshold (cb_cfg b) \<le> cs_failures (circuit_of a b)"
    using assms(3) by (auto simp: breaker_inv_def circuit_ok_def dest!: spec [of _ a])
  moreover have "cb_cfg (snd (breaker_canDispatch now a b)) = cb_cfg b"
    using breaker_step_cfg [of b "(now, OpCanDispatch a)"] by simp
  moreover have "fst (recordFailure t a r b') = failed_circuit t r (cb_cfg b') (circuit_of a b')" for b'
    by (subst recordFailure_def, subst ensure_pair) (simp add: Let_def failed_circuit_def)
  ultimately show ?thesis
    using assms(3,4) by (simp add: breaker_may_dispatch circuit_effects failed_circuit_def Let_def)
qed

theorem half_open_probe_witness:
  "fst (breaker_canDispatch 5000 ''x'' (foldl breaker_step (new_breaker (Some 1) (Some 1000)) [(1, OpFailure ''x'' ''e'')]))"
  using half_open_probe [OF _ refl, of "Some 1" "Some 1000" "''x''" "[(1, OpFailure ''x'' ''e'')]" 5000]
  by (simp add: recordFailure_circuit failed_circuit_def new_breaker_def recovered_def circuit_of_def
      fresh_circuit_def breaker_run_cfg Let_def recordFailure_def ensure_def store_circuit_def emitCircuit_def)

end
