(* ===== verification/Retry.thy ===== *)
theory Retry
  imports TaskClaims
begin

text \<open>
  \<open>src/src/services/RetryQueue.ts\<close>: retry scheduling with exponential backoff over the
  claim ledger. The ledger is shared with the other components, so the operations take the
  queue and the ledger and return both. Delays are rationals, because the factor may be.
\<close>

section \<open>Data\<close>

record RetryConfig =
  rc_maxAttempts :: int
  rc_baseMs :: rat
  rc_factor :: rat
  rc_sweepIntervalMs :: int

record PartialRetryConfig =
  pc_maxAttempts :: "int option"
  pc_baseMs :: "rat option"
  pc_factor :: "rat option"
  pc_sweepIntervalMs :: "int option"

definition DEFAULT_RETRY_CONFIG :: RetryConfig where
  "DEFAULT_RETRY_CONFIG =
     \<lparr>rc_maxAttempts = 3, rc_baseMs = 2000, rc_factor = 2, rc_sweepIntervalMs = 1000\<rparr>"

record RetryDispatch =
  rd_taskHash :: string
  rd_attempt :: nat
  rd_backoffMs :: rat
  rd_scheduledFor :: rat
  rd_reason :: string

datatype RetryEvent =
    RetryExhausted string nat string
  | RetryScheduled RetryDispatch
  | RetryDispatching RetryDispatch
  | RetryDispatchError string string string

record RetryQueue =
  rq_cfg :: RetryConfig
  rq_pending :: "(string, string \<times> RetryDispatch) omap"
  rq_timer :: "int option"
  rq_bound :: bool
  rq_events :: "RetryEvent list"

datatype range_error = BadMaxAttempts | BadBaseMs | BadFactor

datatype FailureOutcome = RetryIt | Exhausted

section \<open>Operations\<close>

definition merge_retry_config :: "RetryConfig \<Rightarrow> PartialRetryConfig \<Rightarrow> RetryConfig" where
  "merge_retry_config c p =
     \<lparr>rc_maxAttempts = case_option (rc_maxAttempts c) id (pc_maxAttempts p),
      rc_baseMs = case_option (rc_baseMs c) id (pc_baseMs p),
      rc_factor = case_option (rc_factor c) id (pc_factor p),
      rc_sweepIntervalMs = case_option (rc_sweepIntervalMs c) id (pc_sweepIntervalMs p)\<rparr>"

definition new_retry_queue :: "PartialRetryConfig \<Rightarrow> range_error + RetryQueue" where
  "new_retry_queue p =
     (let c = merge_retry_config DEFAULT_RETRY_CONFIG p in
      if rc_maxAttempts c < 1 then Inl BadMaxAttempts
      else if rc_baseMs c \<le> 0 then Inl BadBaseMs
      else if rc_factor c < 1 then Inl BadFactor
      else Inr \<lparr>rq_cfg = c, rq_pending = [], rq_timer = None, rq_bound = False, rq_events = []\<rparr>)"

definition rq_bind :: "RetryQueue \<Rightarrow> RetryQueue" where
  "rq_bind q = q\<lparr>rq_bound := True\<rparr>"

definition rq_start :: "RetryQueue \<Rightarrow> RetryQueue" where
  "rq_start q = (if rq_timer q \<noteq> None then q else q\<lparr>rq_timer := Some (rc_sweepIntervalMs (rq_cfg q))\<rparr>)"

definition rq_stop :: "RetryQueue \<Rightarrow> RetryQueue" where
  "rq_stop q = (if rq_timer q \<noteq> None then q\<lparr>rq_timer := None\<rparr> else q)"

definition updateConfig :: "PartialRetryConfig \<Rightarrow> RetryQueue \<Rightarrow> RetryQueue" where
  "updateConfig p q =
     (let oldInterval = rc_sweepIntervalMs (rq_cfg q);
          q1 = q\<lparr>rq_cfg := merge_retry_config (rq_cfg q) p\<rparr>
      in if rq_timer q1 \<noteq> None \<and> pc_sweepIntervalMs p \<noteq> None
            \<and> rc_sweepIntervalMs (rq_cfg q1) \<noteq> oldInterval
         then rq_start (rq_stop q1) else q1)"

definition pendingCount :: "RetryQueue \<Rightarrow> nat" where
  "pendingCount q = length (rq_pending q)"

definition rq_snapshot :: "RetryQueue \<Rightarrow> RetryDispatch list" where
  "rq_snapshot q = map snd (om_values (rq_pending q))"

definition rq_emit :: "RetryEvent \<Rightarrow> RetryQueue \<Rightarrow> RetryQueue" where
  "rq_emit e q = q\<lparr>rq_events := rq_events q @ [e]\<rparr>"

definition backoff :: "RetryConfig \<Rightarrow> nat \<Rightarrow> rat" where
  "backoff c attempt = rc_baseMs c *
     (if attempt = 0 then inverse (rc_factor c) else rc_factor c ^ (attempt - 1))"

definition enqueueFailure :: "int \<Rightarrow> string \<Rightarrow> string \<Rightarrow> string \<Rightarrow> RetryQueue \<Rightarrow> TaskClaimMachine \<Rightarrow>
    FailureOutcome \<times> RetryQueue \<times> TaskClaimMachine" where
  "enqueueFailure now t goal reason q m =
     (case claim_get t m of
        None \<Rightarrow> (Exhausted, q, m)
      | Some r \<Rightarrow>
          let nextAttempt = cr_attempt r + 1 in
          if int nextAttempt > rc_maxAttempts (rq_cfg q) then
            (Exhausted, rq_emit (RetryExhausted t (cr_attempt r) reason) q,
             snd (claim_release now t (''retry_exhausted:'' @ reason) m))
          else
            let backoffMs = backoff (rq_cfg q) (cr_attempt r);
                why = ''attempt_'' @ show_nat (cr_attempt r) @ ''_failed:'' @ reason
            in case markRetryQueued now t backoffMs (Some why) m of (queued, m1) \<Rightarrow>
                 if \<not> queued then
                   (Exhausted, rq_emit (RetryExhausted t (cr_attempt r) ''claim_already_released'') q, m1)
                 else
                   let d = \<lparr>rd_taskHash = t, rd_attempt = nextAttempt, rd_backoffMs = backoffMs,
                            rd_scheduledFor = of_int now + backoffMs, rd_reason = reason\<rparr>
                   in (RetryIt,
                       rq_emit (RetryScheduled d) (q\<lparr>rq_pending := om_set t (goal, d) (rq_pending q)\<rparr>),
                       m1))"

text \<open>
  The sweep. \<open>disp\<close> is what the bound dispatcher does to the ledger before it first waits.
  A dispatcher that fails later reports it through \<open>dispatch_failed\<close>.
\<close>

definition prune_pending :: "TaskClaimMachine \<Rightarrow> RetryQueue \<Rightarrow> RetryQueue" where
  "prune_pending m q = q\<lparr>rq_pending := filter (\<lambda>(t, _). case claim_get t m of
       None \<Rightarrow> False | Some r \<Rightarrow> cr_state r = RetryQueued) (rq_pending q)\<rparr>"

definition sweep_one :: "int \<Rightarrow> (string \<Rightarrow> TaskClaimMachine \<Rightarrow> TaskClaimMachine) \<Rightarrow>
    RetryQueue \<times> TaskClaimMachine \<Rightarrow> ClaimRecord \<Rightarrow> RetryQueue \<times> TaskClaimMachine" where
  "sweep_one now disp qm r =
     (let q = fst qm; m = snd qm in
      case om_get (rq_pending q) (cr_taskHash r) of
        None \<Rightarrow> (q, snd (claim_release now (cr_taskHash r) ''retry_due_without_payload'' m))
      | Some (goal, d) \<Rightarrow>
          (rq_emit (RetryDispatching d) (q\<lparr>rq_pending := om_delete (cr_taskHash r) (rq_pending q)\<rparr>),
           disp goal m))"

definition retry_sweep :: "int \<Rightarrow> (string \<Rightarrow> TaskClaimMachine \<Rightarrow> TaskClaimMachine) \<Rightarrow>
    RetryQueue \<Rightarrow> TaskClaimMachine \<Rightarrow> RetryQueue \<times> TaskClaimMachine" where
  "retry_sweep now disp q m =
     (if \<not> rq_bound q then (q, m)
      else
        let q1 = prune_pending m q; due = dueForRetry now m
        in if due = [] then (q1, m) else foldl (sweep_one now disp) (q1, m) due)"

definition dispatch_failed :: "string \<Rightarrow> string \<Rightarrow> string \<Rightarrow> RetryQueue \<Rightarrow> RetryQueue" where
  "dispatch_failed t goal err q = rq_emit (RetryDispatchError t goal err) q"


section \<open>The effect of a failure\<close>

lemma LEGAL_RetryQueued: "RetryQueued \<in> set (LEGAL s) \<longleftrightarrow> s = Running"
  by (cases s) auto

lemma markRetryQueued_iff:
  "fst (markRetryQueued now t ms rs m) \<longleftrightarrow> state_of t m = Some Running"
  by (auto simp: markRetryQueued_fst claim_transition_fst LEGAL_RetryQueued state_of_def)

lemma markRetryQueued_refused:
  assumes "\<not> fst (markRetryQueued now t ms rs m)"
  shows "markRetryQueued now t ms rs m = (False, m)"
proof -
  have "claim_transition now t RetryQueued None rs m = (False, m)"
    using assms by (simp add: markRetryQueued_fst claim_transition_refused)
  then show ?thesis by (simp add: markRetryQueued_def)
qed

lemma enqueueFailure_decision:
  "fst (enqueueFailure now t goal reason q m) = RetryIt \<longleftrightarrow>
     (\<exists>a. profile t m = Some (Running, a) \<and> int a < rc_maxAttempts (rq_cfg q))"
proof (cases "claim_get t m")
  case None
  then show ?thesis by (simp add: enqueueFailure_def profile_def claim_get_def)
next
  case (Some r)
  let ?mk = "markRetryQueued now t (backoff (rq_cfg q) (cr_attempt r))
      (Some (''attempt_'' @ show_nat (cr_attempt r) @ ''_failed:'' @ reason)) m"
  have "fst (enqueueFailure now t goal reason q m) = RetryIt \<longleftrightarrow>
      int (cr_attempt r + 1) \<le> rc_maxAttempts (rq_cfg q) \<and> fst ?mk"
    using Some by (auto simp: enqueueFailure_def Let_def split: prod.split)
  then show ?thesis
    using Some by (auto simp: markRetryQueued_iff state_of_def profile_def claim_get_def)
qed

lemma enqueueFailure_claims:
  "snd (snd (enqueueFailure now t goal reason q m)) =
     (case claim_get t m of
        None \<Rightarrow> m
      | Some r \<Rightarrow>
          if int (cr_attempt r + 1) > rc_maxAttempts (rq_cfg q)
          then snd (claim_release now t (''retry_exhausted:'' @ reason) m)
          else snd (markRetryQueued now t (backoff (rq_cfg q) (cr_attempt r))
                 (Some (''attempt_'' @ show_nat (cr_attempt r) @ ''_failed:'' @ reason)) m))"
  by (auto simp: enqueueFailure_def Let_def split: option.split prod.split)

lemma enqueueFailure_cfg: "rq_cfg (fst (snd (enqueueFailure now t goal reason q m))) = rq_cfg q"
  by (auto simp: enqueueFailure_def Let_def rq_emit_def split: option.split prod.split)

lemma enqueueFailure_pending:
  "rq_pending (fst (snd (enqueueFailure now t goal reason q m))) =
     (if fst (enqueueFailure now t goal reason q m) = RetryIt
      then om_set t (goal, \<lparr>rd_taskHash = t, rd_attempt = cr_attempt (the (claim_get t m)) + 1,
             rd_backoffMs = backoff (rq_cfg q) (cr_attempt (the (claim_get t m))),
             rd_scheduledFor = of_int now + backoff (rq_cfg q) (cr_attempt (the (claim_get t m))),
             rd_reason = reason\<rparr>) (rq_pending q)
      else rq_pending q)"
  by (auto simp: enqueueFailure_def Let_def rq_emit_def split: option.split prod.split)

section \<open>Bounded attempts\<close>

definition attempts_inv :: "int \<Rightarrow> TaskClaimMachine \<Rightarrow> bool" where
  "attempts_inv N m \<longleftrightarrow> (\<forall>t s a. profile t m = Some (s, a) \<longrightarrow>
     int a \<le> N \<and> (s = RetryQueued \<longrightarrow> int a < N) \<and> (s = Unclaimed \<longrightarrow> a = 0))"

lemma attempts_invD:
  "attempts_inv N m \<Longrightarrow> profile t m = Some (s, a) \<Longrightarrow>
     int a \<le> N \<and> (s = RetryQueued \<longrightarrow> int a < N) \<and> (s = Unclaimed \<longrightarrow> a = 0)"
  by (simp add: attempts_inv_def)

fun not_retry_mark :: "int \<times> ClaimOp \<Rightarrow> bool" where
  "not_retry_mark (_, OpMarkRetryQueued _ _ _) = False"
| "not_retry_mark _ = True"

lemma attempts_inv_transition:
  assumes "attempts_inv N m" and "n \<in> {Running, Released}"
  shows "attempts_inv N (snd (claim_transition now t n c rs m))"
  using assms by (auto simp: attempts_inv_def profile_transition split: if_splits)

lemma attempts_inv_claim_step:
  assumes inv: "attempts_inv N m" and "1 \<le> N" and "not_retry_mark e"
  shows "attempts_inv N (claim_step m e)"
proof (cases "(m, e)" rule: claim_step.cases)
  case (1 m now t reason)
  then show ?thesis using inv assms(2) by (auto simp: attempts_inv_def profile_register split: if_splits)
next
  case (2 m now t c reason)
  have "int (case profile t m of None \<Rightarrow> 1 | Some (_, a) \<Rightarrow> Suc a) \<le> N"
    if "fst (tryClaim now t c reason m)"
    using that inv assms(2) 2 by (fastforce simp: tryClaim_state_of state_of_profile dest: attempts_invD split: option.split)
  then show ?thesis using inv 2 by (auto simp: attempts_inv_def profile_tryClaim split: if_splits)
next
  case (3 m now t c)
  then show ?thesis using inv by (simp add: markRunning_def attempts_inv_transition)
next
  case (5 m now t reason)
  then show ?thesis using inv by (simp add: claim_release_def attempts_inv_transition)
next
  case (6 m now t)
  then show ?thesis using inv by (auto simp: attempts_inv_def profile_prune split: if_splits)
qed (use assms in auto)

lemma attempts_inv_markRetryQueued:
  assumes "attempts_inv N m" and "\<And>a. profile t m = Some (Running, a) \<Longrightarrow> int a < N"
  shows "attempts_inv N (snd (markRetryQueued now t ms rs m))"
  using assms by (auto simp: attempts_inv_def profile_markRetryQueued markRetryQueued_iff state_of_profile)

lemma attempts_inv_enqueueFailure:
  assumes "attempts_inv (rc_maxAttempts (rq_cfg q)) m"
  shows "attempts_inv (rc_maxAttempts (rq_cfg q)) (snd (snd (enqueueFailure now t goal reason q m)))"
  using assms
  by (auto simp: enqueueFailure_claims claim_release_def claim_get_def profile_def split: option.split
      intro!: attempts_inv_transition attempts_inv_markRetryQueued)

section \<open>Sweeping: every due retry is dispatched\<close>

text \<open>
  What the queue relies on from the dispatcher, and what it keeps: every task in state
  RetryQueued has a payload whose goal hashes to the task.
\<close>

definition coherent :: "(string \<Rightarrow> string) \<Rightarrow> RetryQueue \<Rightarrow> TaskClaimMachine \<Rightarrow> bool" where
  "coherent hash q m \<longleftrightarrow> om_wf (rq_pending q)
     \<and> (\<forall>t. state_of t m = Some RetryQueued \<longrightarrow> om_get (rq_pending q) t \<noteq> None)
     \<and> (\<forall>t g d. om_get (rq_pending q) t = Some (g, d) \<longrightarrow> hash g = t)"

locale retry_dispatch =
  fixes hash :: "string \<Rightarrow> string"
    and disp :: "string \<Rightarrow> TaskClaimMachine \<Rightarrow> TaskClaimMachine"
  assumes disp_profile: "profile (hash g) m = Some (RetryQueued, a) \<Longrightarrow>
      profile (hash g) (disp g m) = Some (Running, Suc a)"
    and disp_other: "t \<noteq> hash g \<Longrightarrow> om_get (ledger (disp g m)) t = om_get (ledger m) t"
    and disp_inv: "claims_inv m \<Longrightarrow> claims_inv (disp g m)"
begin

lemma profile_other: "t \<noteq> hash g \<Longrightarrow> profile t (disp g m) = profile t m"
  by (simp add: profile_def disp_other)

lemma sweep_one_payload:
  assumes "om_get (rq_pending q) (cr_taskHash r) = Some (g, d)"
  shows "sweep_one now disp (q, m) r =
    (rq_emit (RetryDispatching d) (q\<lparr>rq_pending := om_delete (cr_taskHash r) (rq_pending q)\<rparr>), disp g m)"
  using assms by (simp add: sweep_one_def Let_def)

lemma sweep_all:
  assumes "distinct (map cr_taskHash rs)"
    and "\<And>r. r \<in> set rs \<Longrightarrow> profile (cr_taskHash r) m = Some (RetryQueued, cr_attempt r)"
    and "\<And>r. r \<in> set rs \<Longrightarrow> om_get (rq_pending q) (cr_taskHash r) \<noteq> None"
    and "\<And>t g d. om_get (rq_pending q) t = Some (g, d) \<Longrightarrow> hash g = t"
    and "claims_inv m" and "om_wf (rq_pending q)"
  shows "(let (q', m') = foldl (sweep_one now disp) (q, m) rs in
     (\<forall>r \<in> set rs. profile (cr_taskHash r) m' = Some (Running, Suc (cr_attempt r))) \<and>
     (\<forall>t. t \<notin> cr_taskHash ` set rs \<longrightarrow> om_get (ledger m') t = om_get (ledger m) t) \<and>
     (\<forall>t. om_get (rq_pending q') t = (if t \<in> cr_taskHash ` set rs then None else om_get (rq_pending q) t)) \<and>
     claims_inv m' \<and> om_wf (rq_pending q') \<and> rq_cfg q' = rq_cfg q \<and> rq_bound q' = rq_bound q)"
  using assms
proof (induction rs arbitrary: q m)
  case Nil
  then show ?case by simp
next
  case (Cons r rs)
  from Cons.prems(3) [of r] obtain g d where gd: "om_get (rq_pending q) (cr_taskHash r) = Some (g, d)" by auto
  with Cons.prems(4) have hg: "hash g = cr_taskHash r" by blast
  let ?q1 = "rq_emit (RetryDispatching d) (q\<lparr>rq_pending := om_delete (cr_taskHash r) (rq_pending q)\<rparr>)"
  let ?m1 = "disp g m"
  have notin: "cr_taskHash r \<notin> cr_taskHash ` set rs" using Cons.prems(1) by auto
  have other: "profile (cr_taskHash r') ?m1 = profile (cr_taskHash r') m" if "r' \<in> set rs" for r'
    by (rule profile_other) (metis that notin hg image_eqI)
  have IH: "(let (q', m') = foldl (sweep_one now disp) (?q1, ?m1) rs in
     (\<forall>r \<in> set rs. profile (cr_taskHash r) m' = Some (Running, Suc (cr_attempt r))) \<and>
     (\<forall>t. t \<notin> cr_taskHash ` set rs \<longrightarrow> om_get (ledger m') t = om_get (ledger ?m1) t) \<and>
     (\<forall>t. om_get (rq_pending q') t = (if t \<in> cr_taskHash ` set rs then None else om_get (rq_pending ?q1) t)) \<and>
     claims_inv m' \<and> om_wf (rq_pending q') \<and> rq_cfg q' = rq_cfg ?q1 \<and> rq_bound q' = rq_bound ?q1)"
  proof (rule Cons.IH)
    show "\<And>r'. r' \<in> set rs \<Longrightarrow> profile (cr_taskHash r') ?m1 = Some (RetryQueued, cr_attempt r')"
      using Cons.prems(2) other by simp
    show "\<And>r'. r' \<in> set rs \<Longrightarrow> om_get (rq_pending ?q1) (cr_taskHash r') \<noteq> None"
      using Cons.prems(3) notin by (auto simp: rq_emit_def image_iff)
    show "\<And>t g' d'. om_get (rq_pending ?q1) t = Some (g', d') \<Longrightarrow> hash g' = t"
      using Cons.prems(4) by (auto simp: rq_emit_def split: if_splits)
    show "claims_inv ?m1" using Cons.prems(5) by (rule disp_inv)
    show "om_wf (rq_pending ?q1)" using Cons.prems(6) by (auto simp: rq_emit_def)
  qed (use Cons.prems(1) in simp)
  have "om_get (ledger m') (cr_taskHash r) = om_get (ledger ?m1) (cr_taskHash r) \<Longrightarrow>
      profile (cr_taskHash r) m' = Some (Running, Suc (cr_attempt r))" for m'
    using disp_profile [of g m "cr_attempt r"] Cons.prems(2) [of r] hg by (simp add: profile_def)
  then show ?case
    using IH notin hg by (auto simp: sweep_one_payload [OF gd] Let_def rq_emit_def disp_other split: prod.splits)
qed

end

section \<open>Properties\<close>

lemma get_markRetryQueued:
  assumes "om_get (ledger m) t = Some r" and "cr_state r = Running"
  shows "om_get (ledger (snd (markRetryQueued now t ms rs m))) t =
      Some (r\<lparr>cr_state := RetryQueued, cr_updatedAt := now, cr_retryAfter := Some (of_int now + ms)\<rparr>)"
  using assms by (simp add: markRetryQueued_def claim_transition_def Let_def emit_claim_def)

text \<open>What a failed cycle does to a running claim. With attempts left the claim becomes
  RetryQueued, due \<open>baseMs * factor^(attempt - 1)\<close> after now, and the goal is kept for the next
  attempt; at the limit the claim is released and nothing is queued.\<close>

theorem failure_schedules_or_exhausts:
  assumes "om_get (ledger m) t = Some r" and "cr_state r = Running" and "0 < cr_attempt r"
  shows "case enqueueFailure now t goal reason q m of (outcome, q', m') \<Rightarrow>
     if int (cr_attempt r) < rc_maxAttempts (rq_cfg q)
     then outcome = RetryIt
       \<and> map_option cr_state (om_get (ledger m') t) = Some RetryQueued
       \<and> map_option cr_retryAfter (om_get (ledger m') t) =
           Some (Some (of_int now + rc_baseMs (rq_cfg q) * rc_factor (rq_cfg q) ^ (cr_attempt r - 1)))
       \<and> map_option (\<lambda>(g, d). (g, rd_attempt d)) (om_get (rq_pending q') t) = Some (goal, cr_attempt r + 1)
     else outcome = Exhausted
       \<and> map_option cr_state (om_get (ledger m') t) = Some Released
       \<and> rq_pending q' = rq_pending q"
proof -
  let ?out = "enqueueFailure now t goal reason q m"
  have prof: "profile t m = Some (Running, cr_attempt r)" and get: "claim_get t m = Some r"
    using assms by (simp_all add: profile_def claim_get_def)
  have dec: "fst ?out = RetryIt \<longleftrightarrow> int (cr_attempt r) < rc_maxAttempts (rq_cfg q)"
    by (simp add: enqueueFailure_decision prof)
  have ex: "fst ?out \<noteq> RetryIt \<Longrightarrow> fst ?out = Exhausted" by (cases "fst ?out") auto
  have b: "backoff (rq_cfg q) (cr_attempt r) = rc_baseMs (rq_cfg q) * rc_factor (rq_cfg q) ^ (cr_attempt r - 1)"
    using assms(3) by (simp add: backoff_def)
  have rel: "map_option cr_state (om_get (ledger (snd (claim_release now t why m))) t) = Some Released" for why
    using assms by (simp add: claim_release_def claim_transition_def Let_def emit_claim_def)
  show ?thesis
    using dec ex rel get_markRetryQueued [OF assms(1,2)]
    by (auto simp: split_beta enqueueFailure_claims enqueueFailure_pending get b)
qed

theorem failure_schedules_or_exhausts_witness:
  "\<exists>m r. om_get (ledger m) ''t'' = Some r \<and> cr_state r = Running \<and> 0 < cr_attempt r
     \<and> fst (enqueueFailure 50 ''t'' ''goal'' ''boom''
          \<lparr>rq_cfg = DEFAULT_RETRY_CONFIG, rq_pending = [], rq_timer = None, rq_bound = True, rq_events = []\<rparr> m) = RetryIt"
proof -
  define r where "r = \<lparr>cr_taskHash = ''t'', cr_state = Running, cr_attempt = 1, cr_firstSeen = 0,
     cr_updatedAt = 0, cr_cycleId = None, cr_retryAfter = None\<rparr>"
  define m where "m = \<lparr>ledger = [(''t'', r)], claim_events = []\<rparr>"
  have h: "om_get (ledger m) ''t'' = Some r" "cr_state r = Running" "0 < cr_attempt r"
    by (simp_all add: m_def r_def)
  show ?thesis
    using failure_schedules_or_exhausts [OF h, where now = 50 and goal = "''goal''"
        and reason = "''boom''" and q = "\<lparr>rq_cfg = DEFAULT_RETRY_CONFIG, rq_pending = [], rq_timer = None, rq_bound = True, rq_events = []\<rparr>"] h
    by (auto simp: DEFAULT_RETRY_CONFIG_def r_def intro!: exI [of _ m])
qed

text \<open>Every queue the constructor accepts waits at least \<open>baseMs\<close> before a retry, and never
  waits less after a later attempt than after an earlier one.\<close>

theorem backoff_grows:
  assumes "new_retry_queue p = Inr q" and "0 < i" and "i \<le> j"
  shows "rc_baseMs (rq_cfg q) \<le> backoff (rq_cfg q) i
    \<and> backoff (rq_cfg q) i \<le> backoff (rq_cfg q) j"
proof -
  have c: "0 < rc_baseMs (rq_cfg q)" "1 \<le> rc_factor (rq_cfg q)"
    using assms(1) by (auto simp: new_retry_queue_def Let_def not_less split: if_splits)
  have "1 \<le> rc_factor (rq_cfg q) ^ (i - 1)" using c(2) by (rule one_le_power)
  moreover have "rc_factor (rq_cfg q) ^ (i - 1) \<le> rc_factor (rq_cfg q) ^ (j - 1)"
    using assms(3) c(2) by (intro power_increasing) auto
  ultimately show ?thesis using c(1) assms(2,3) by (simp add: backoff_def)
qed

theorem backoff_grows_witness:
  "\<exists>q. new_retry_queue \<lparr>pc_maxAttempts = None, pc_baseMs = Some 100, pc_factor = None, pc_sweepIntervalMs = None\<rparr> = Inr q
     \<and> backoff (rq_cfg q) 1 \<le> backoff (rq_cfg q) 3"
proof -
  obtain q where q: "new_retry_queue \<lparr>pc_maxAttempts = None, pc_baseMs = Some 100, pc_factor = None,
      pc_sweepIntervalMs = None\<rparr> = Inr q"
    by (simp add: new_retry_queue_def merge_retry_config_def DEFAULT_RETRY_CONFIG_def Let_def)
  with backoff_grows [OF q, of 1 3] show ?thesis by auto
qed

end
