(* ===== verification/Reconcile.thy ===== *)
theory Reconcile
  imports TaskClaims
begin

text \<open>
  \<open>src/src/services/Reconciler.ts\<close>: one sweep over a snapshot of the claim ledger releases
  claims that have been held too long and prunes released ones that are old enough. The
  ledger is shared, so \<open>reconciler_sweep\<close> takes and returns it.
\<close>

section \<open>Data and operations\<close>

record ReconcilerConfig =
  rcfg_sweepIntervalMs :: int
  rcfg_stallTimeoutMs :: int
  rcfg_cleanupAfterMs :: int

definition DEFAULT_RECONCILER_CONFIG :: ReconcilerConfig where
  "DEFAULT_RECONCILER_CONFIG =
     \<lparr>rcfg_sweepIntervalMs = 5000, rcfg_stallTimeoutMs = 60000, rcfg_cleanupAfterMs = 300000\<rparr>"

datatype ReconcileKind = StallDetected | TerminalCleanup

record ReconcileAction =
  ra_kind :: ReconcileKind
  ra_taskHash :: string
  ra_previousState :: ClaimState
  ra_ageMs :: int
  ra_timestamp :: int

record Reconciler =
  rec_cfg :: ReconcilerConfig
  rec_timer :: bool
  rec_sweepCount :: nat
  rec_actions :: "ReconcileAction list"

definition rec_start :: "Reconciler \<Rightarrow> Reconciler" where
  "rec_start s = (if rec_timer s then s else s\<lparr>rec_timer := True\<rparr>)"

definition rec_stop :: "Reconciler \<Rightarrow> Reconciler" where
  "rec_stop s = (if rec_timer s then s\<lparr>rec_timer := False\<rparr> else s)"

definition rec_stats :: "Reconciler \<Rightarrow> nat \<times> int \<times> int \<times> int" where
  "rec_stats s = (rec_sweepCount s, rcfg_sweepIntervalMs (rec_cfg s), rcfg_stallTimeoutMs (rec_cfg s),
     rcfg_cleanupAfterMs (rec_cfg s))"

definition reconcile_one :: "int \<Rightarrow> Reconciler \<times> TaskClaimMachine \<Rightarrow> ClaimRecord \<Rightarrow>
    Reconciler \<times> TaskClaimMachine" where
  "reconcile_one now sm r =
     (let s = fst sm; m = snd sm; age = now - cr_updatedAt r in
      if (cr_state r = Claimed \<or> cr_state r = Running) \<and> age \<ge> rcfg_stallTimeoutMs (rec_cfg s) then
        (case claim_release now (cr_taskHash r)
            (''stall_detected:'' @ show_ClaimState (cr_state r) @ ''_'' @ show_int age @ ''ms'') m of
           (released, m1) \<Rightarrow>
             (if released
              then s\<lparr>rec_actions := rec_actions s @ [\<lparr>ra_kind = StallDetected, ra_taskHash = cr_taskHash r,
                       ra_previousState = cr_state r, ra_ageMs = age, ra_timestamp = now\<rparr>]\<rparr>
              else s, m1))
      else if cr_state r = Released \<and> age \<ge> rcfg_cleanupAfterMs (rec_cfg s) then
        (s\<lparr>rec_actions := rec_actions s @ [\<lparr>ra_kind = TerminalCleanup, ra_taskHash = cr_taskHash r,
             ra_previousState = Released, ra_ageMs = age, ra_timestamp = now\<rparr>]\<rparr>,
         snd (claim_prune (cr_taskHash r) m))
      else (s, m))"

definition reconciler_sweep :: "int \<Rightarrow> Reconciler \<Rightarrow> TaskClaimMachine \<Rightarrow> Reconciler \<times> TaskClaimMachine" where
  "reconciler_sweep now s m =
     foldl (reconcile_one now) (s\<lparr>rec_sweepCount := rec_sweepCount s + 1\<rparr>, m) (claim_snapshot m)"

section \<open>Specification of one record\<close>

definition stalled :: "ReconcilerConfig \<Rightarrow> int \<Rightarrow> ClaimRecord \<Rightarrow> bool" where
  "stalled c now r \<longleftrightarrow> cr_state r \<in> {Claimed, Running} \<and> rcfg_stallTimeoutMs c \<le> now - cr_updatedAt r"

definition aged_out :: "ReconcilerConfig \<Rightarrow> int \<Rightarrow> ClaimRecord \<Rightarrow> bool" where
  "aged_out c now r \<longleftrightarrow> cr_state r = Released \<and> rcfg_cleanupAfterMs c \<le> now - cr_updatedAt r"

definition reconciled :: "ReconcilerConfig \<Rightarrow> int \<Rightarrow> ClaimRecord \<Rightarrow> ClaimRecord option" where
  "reconciled c now r =
     (if stalled c now r then Some (r\<lparr>cr_state := Released, cr_updatedAt := now\<rparr>)
      else if aged_out c now r then None else Some r)"

definition action_for :: "ReconcilerConfig \<Rightarrow> int \<Rightarrow> ClaimRecord \<Rightarrow> ReconcileAction list" where
  "action_for c now r =
     (if stalled c now r then [\<lparr>ra_kind = StallDetected, ra_taskHash = cr_taskHash r,
        ra_previousState = cr_state r, ra_ageMs = now - cr_updatedAt r, ra_timestamp = now\<rparr>]
      else if aged_out c now r then [\<lparr>ra_kind = TerminalCleanup, ra_taskHash = cr_taskHash r,
        ra_previousState = Released, ra_ageMs = now - cr_updatedAt r, ra_timestamp = now\<rparr>]
      else [])"

lemma stalled_not_aged: "stalled c now r \<Longrightarrow> \<not> aged_out c now r"
  by (auto simp: stalled_def aged_out_def)

lemma release_held:
  assumes "om_get (ledger m) t = Some r" and "cr_state r \<in> {Claimed, Running}"
  shows "fst (claim_release now t why m)"
    "om_get (ledger (snd (claim_release now t why m))) t = Some (r\<lparr>cr_state := Released, cr_updatedAt := now\<rparr>)"
    "t' \<noteq> t \<Longrightarrow> om_get (ledger (snd (claim_release now t why m))) t' = om_get (ledger m) t'"
  using assms by (auto simp: claim_release_def claim_transition_def Let_def emit_claim_def)

lemma reconcile_one_effect:
  assumes "om_get (ledger m) (cr_taskHash r) = Some r"
  shows "om_get (ledger (snd (reconcile_one now (s, m) r))) t =
      (if t = cr_taskHash r then reconciled (rec_cfg s) now r else om_get (ledger m) t)"
    and "rec_cfg (fst (reconcile_one now (s, m) r)) = rec_cfg s"
    and "rec_actions (fst (reconcile_one now (s, m) r)) = rec_actions s @ action_for (rec_cfg s) now r"
proof -
  consider "stalled (rec_cfg s) now r" | "aged_out (rec_cfg s) now r"
    | "\<not> stalled (rec_cfg s) now r" "\<not> aged_out (rec_cfg s) now r" by blast
  then show "om_get (ledger (snd (reconcile_one now (s, m) r))) t =
      (if t = cr_taskHash r then reconciled (rec_cfg s) now r else om_get (ledger m) t)"
    and "rec_cfg (fst (reconcile_one now (s, m) r)) = rec_cfg s"
    and "rec_actions (fst (reconcile_one now (s, m) r)) = rec_actions s @ action_for (rec_cfg s) now r"
    by (cases; use assms release_held [OF assms] in
        \<open>auto simp: reconcile_one_def Let_def reconciled_def action_for_def stalled_def aged_out_def
           claim_prune_def split_beta\<close>)+
qed

lemma reconcile_all:
  assumes "distinct (map cr_taskHash rs)"
    and "\<And>r. r \<in> set rs \<Longrightarrow> om_get (ledger m) (cr_taskHash r) = Some r"
  shows "om_get (ledger (snd (foldl (reconcile_one now) (s, m) rs))) t =
      (if t \<in> cr_taskHash ` set rs then Option.bind (om_get (ledger m) t) (reconciled (rec_cfg s) now)
       else om_get (ledger m) t)
    \<and> rec_actions (fst (foldl (reconcile_one now) (s, m) rs)) =
        rec_actions s @ concat (map (action_for (rec_cfg s) now) rs)"
  using assms
proof (induction rs arbitrary: s m)
  case Nil
  then show ?case by simp
next
  case (Cons r rs)
  obtain s1 m1 where one: "reconcile_one now (s, m) r = (s1, m1)" by fastforce
  have r: "om_get (ledger m) (cr_taskHash r) = Some r" using Cons.prems(2) by simp
  have m1: "om_get (ledger m1) t' = (if t' = cr_taskHash r then reconciled (rec_cfg s) now r else om_get (ledger m) t')"
    and s1: "rec_cfg s1 = rec_cfg s" "rec_actions s1 = rec_actions s @ action_for (rec_cfg s) now r" for t'
    using reconcile_one_effect [OF r, of now s] by (simp_all add: one)
  have notin: "cr_taskHash r' \<noteq> cr_taskHash r" if "r' \<in> set rs" for r'
    using Cons.prems(1) that by (auto simp: image_iff)
  have IH: "om_get (ledger (snd (foldl (reconcile_one now) (s1, m1) rs))) t =
      (if t \<in> cr_taskHash ` set rs then Option.bind (om_get (ledger m1) t) (reconciled (rec_cfg s1) now)
       else om_get (ledger m1) t)
    \<and> rec_actions (fst (foldl (reconcile_one now) (s1, m1) rs)) =
        rec_actions s1 @ concat (map (action_for (rec_cfg s1) now) rs)"
    by (rule Cons.IH) (use Cons.prems notin in \<open>auto simp: m1\<close>)
  then show ?case
    using r Cons.prems(1) by (cases "t = cr_taskHash r") (auto simp: one m1 s1)
qed

lemma snapshot_records:
  assumes "claims_inv m"
  shows "map cr_taskHash (claim_snapshot m) = om_keys (ledger m)"
    and "r \<in> set (claim_snapshot m) \<Longrightarrow> om_get (ledger m) (cr_taskHash r) = Some r"
proof -
  have key: "cr_taskHash r = t" if "(t, r) \<in> set (ledger m)" for t r
    using assms that by (simp add: claims_inv_def record_ok_def map_of_eq_Some_iff)
  then show "map cr_taskHash (claim_snapshot m) = om_keys (ledger m)"
    by (auto simp: claim_snapshot_def)
  show "r \<in> set (claim_snapshot m) \<Longrightarrow> om_get (ledger m) (cr_taskHash r) = Some r"
    using assms key by (auto simp: claim_snapshot_def claims_inv_def map_of_eq_Some_iff)
qed

section \<open>Properties\<close>

text \<open>A sweep is the record-wise specification. In a ledger that satisfies the claim invariant,
  every record becomes what \<open>reconciled\<close> says (held too long: released now; released long ago:
  gone; otherwise untouched), and the emitted actions are exactly those of the swept records,
  in ledger order.\<close>

theorem sweep_is_recordwise:
  assumes "claims_inv m"
  shows "om_get (ledger (snd (reconciler_sweep now s m))) t =
      Option.bind (om_get (ledger m) t) (reconciled (rec_cfg s) now)
    \<and> rec_actions (fst (reconciler_sweep now s m)) =
        rec_actions s @ concat (map (action_for (rec_cfg s) now) (claim_snapshot m))"
proof -
  let ?s = "s\<lparr>rec_sweepCount := rec_sweepCount s + 1\<rparr>"
  have "om_get (ledger m) t = None" if "t \<notin> cr_taskHash ` set (claim_snapshot m)"
  proof -
    have "set (map cr_taskHash (claim_snapshot m)) = fst ` set (ledger m)"
      using snapshot_records(1) [OF assms] by simp
    with that show ?thesis by (simp add: map_of_eq_None_iff)
  qed
  moreover have "distinct (map cr_taskHash (claim_snapshot m))"
    using assms snapshot_records(1) [OF assms] by (simp add: claims_inv_def)
  ultimately show ?thesis
    using reconcile_all [of "claim_snapshot m" m now ?s t] snapshot_records(2) [OF assms]
    by (auto simp: reconciler_sweep_def)
qed

theorem sweep_is_recordwise_witness:
  "om_get (ledger (snd (reconciler_sweep 70000
      \<lparr>rec_cfg = DEFAULT_RECONCILER_CONFIG, rec_timer = True, rec_sweepCount = 0, rec_actions = []\<rparr>
      (claim_run new_claims [(0, OpTryClaim ''t'' ''c'' None)])))) ''t'' =
    Option.bind (om_get (ledger (claim_run new_claims [(0, OpTryClaim ''t'' ''c'' None)])) ''t'')
      (reconciled DEFAULT_RECONCILER_CONFIG 70000)"
proof -
  have "claims_inv (claim_run new_claims [(0, OpTryClaim ''t'' ''c'' None)])"
    unfolding claim_run_def by (rule claims.run_inv) (rule claims_inv_new)
  from sweep_is_recordwise [OF this, of 70000
      "\<lparr>rec_cfg = DEFAULT_RECONCILER_CONFIG, rec_timer = True, rec_sweepCount = 0, rec_actions = []\<rparr>" "''t''"]
  show ?thesis by simp
qed

end
