(* ===== verification/Resource.thy ===== *)
theory Resource
  imports Kovael_Prelude
begin

text \<open>
  \<open>src/src/services/ResourceGovernor.ts\<close>: the switch between the active and the idle
  profile. \<open>now\<close> is the reading of the injected clock, \<open>busy\<close> the answer of the injected
  \<open>isBusy\<close>. The callbacks \<open>onEnterIdle\<close> and \<open>onEnterActive\<close> receive the events that
  \<open>rg_events\<close> keeps; the orchestrator's reactions are in its own theory.
\<close>

section \<open>Data and operations\<close>

datatype ResourceMode = Active | Idle

record ResourceModeChange =
  rm_mode :: ResourceMode
  rm_previousMode :: ResourceMode
  rm_timestamp :: int
  rm_idleForMs :: int
  rm_reason :: string

record ResourceGovernorSnapshot =
  rs_enabled :: bool
  rs_mode :: ResourceMode
  rs_idleAfterMs :: int
  rs_sweepIntervalMs :: int
  rs_lastActivityAt :: int
  rs_lastActivityReason :: string
  rs_idleForMs :: int
  rs_trimCount :: nat
  rs_lastTrimmedAt :: "int option"

record ResourceGovernor =
  rg_mode :: ResourceMode
  rg_timer :: bool
  rg_lastActivityAt :: int
  rg_lastActivityReason :: string
  rg_trimCount :: nat
  rg_lastTrimmedAt :: "int option"
  rg_enabled :: bool
  rg_idleAfterMs :: int
  rg_sweepIntervalMs :: int
  rg_events :: "ResourceModeChange list"

definition DEFAULT_IDLE_AFTER_MS :: int where
  "DEFAULT_IDLE_AFTER_MS = 10 * 60 * 1000"

definition DEFAULT_SWEEP_INTERVAL_MS :: int where
  "DEFAULT_SWEEP_INTERVAL_MS = 5000"

fun positiveInteger :: "jsnum option \<Rightarrow> int \<Rightarrow> int" where
  "positiveInteger (Some (Num q)) fallback = (if q = of_int \<lfloor>q\<rfloor> \<and> q > 0 then \<lfloor>q\<rfloor> else fallback)"
| "positiveInteger _ fallback = fallback"

definition new_governor :: "int \<Rightarrow> bool option \<Rightarrow> jsnum option \<Rightarrow> jsnum option \<Rightarrow> ResourceGovernor" where
  "new_governor now enabled idleAfter sweepInterval =
     \<lparr>rg_mode = Active, rg_timer = False, rg_lastActivityAt = now, rg_lastActivityReason = ''startup'',
      rg_trimCount = 0, rg_lastTrimmedAt = None, rg_enabled = case_option True id enabled,
      rg_idleAfterMs = positiveInteger idleAfter DEFAULT_IDLE_AFTER_MS,
      rg_sweepIntervalMs = positiveInteger sweepInterval DEFAULT_SWEEP_INTERVAL_MS, rg_events = []\<rparr>"

definition rg_start :: "ResourceGovernor \<Rightarrow> ResourceGovernor" where
  "rg_start g = (if \<not> rg_enabled g \<or> rg_timer g then g else g\<lparr>rg_timer := True\<rparr>)"

definition rg_stop :: "ResourceGovernor \<Rightarrow> ResourceGovernor" where
  "rg_stop g = (if \<not> rg_timer g then g else g\<lparr>rg_timer := False\<rparr>)"

definition enterIdle :: "int \<Rightarrow> ResourceGovernor \<Rightarrow> ResourceGovernor" where
  "enterIdle now g =
     (if rg_mode g = Idle then g
      else g\<lparr>rg_mode := Idle, rg_trimCount := rg_trimCount g + 1, rg_lastTrimmedAt := Some now,
             rg_events := rg_events g @
               [\<lparr>rm_mode = Idle, rm_previousMode = rg_mode g, rm_timestamp = now,
                 rm_idleForMs = max 0 (now - rg_lastActivityAt g), rm_reason = ''idle_timeout''\<rparr>]\<rparr>)"

definition enterActive :: "int \<Rightarrow> string \<Rightarrow> ResourceGovernor \<Rightarrow> ResourceGovernor" where
  "enterActive now reason g =
     (if rg_mode g = Active then g
      else g\<lparr>rg_mode := Active,
             rg_events := rg_events g @
               [\<lparr>rm_mode = Active, rm_previousMode = rg_mode g, rm_timestamp = now,
                 rm_idleForMs = 0, rm_reason = take 160 reason\<rparr>]\<rparr>)"

definition noteActivity :: "int \<Rightarrow> string \<Rightarrow> ResourceGovernor \<Rightarrow> ResourceGovernor" where
  "noteActivity now reason g =
     (let g1 = g\<lparr>rg_lastActivityAt := now, rg_lastActivityReason := take 160 reason\<rparr>
      in if rg_mode g1 = Idle then enterActive now reason g1 else g1)"

definition rg_snapshot :: "int \<Rightarrow> ResourceGovernor \<Rightarrow> ResourceGovernorSnapshot" where
  "rg_snapshot now g =
     \<lparr>rs_enabled = rg_enabled g, rs_mode = rg_mode g, rs_idleAfterMs = rg_idleAfterMs g,
      rs_sweepIntervalMs = rg_sweepIntervalMs g, rs_lastActivityAt = rg_lastActivityAt g,
      rs_lastActivityReason = rg_lastActivityReason g,
      rs_idleForMs = max 0 (now - rg_lastActivityAt g), rs_trimCount = rg_trimCount g,
      rs_lastTrimmedAt = rg_lastTrimmedAt g\<rparr>"

definition rg_sweep :: "int \<Rightarrow> bool \<Rightarrow> ResourceGovernor \<Rightarrow> ResourceGovernor" where
  "rg_sweep now busy g =
     (if \<not> rg_enabled g \<or> rg_mode g \<noteq> Active then g
      else if busy then g\<lparr>rg_lastActivityAt := now, rg_lastActivityReason := ''busy''\<rparr>
      else if now - rg_lastActivityAt g \<ge> rg_idleAfterMs g then enterIdle now g
      else g)"

datatype GovernorOp = Note int string | Sweep int bool

fun governor_step :: "ResourceGovernor \<Rightarrow> GovernorOp \<Rightarrow> ResourceGovernor" where
  "governor_step g (Note now reason) = noteActivity now reason g"
| "governor_step g (Sweep now busy) = rg_sweep now busy g"

section \<open>The mode log\<close>

definition mode_log_ok :: "ResourceGovernor \<Rightarrow> bool" where
  "mode_log_ok g \<longleftrightarrow>
     map rm_previousMode (rg_events g) @ [rg_mode g] = Active # map rm_mode (rg_events g)
     \<and> list_all (\<lambda>e. rm_mode e \<noteq> rm_previousMode e) (rg_events g)
     \<and> rg_trimCount g = length (filter (\<lambda>e. rm_mode e = Idle) (rg_events g))"

lemma mode_log_enterIdle: "mode_log_ok g \<Longrightarrow> mode_log_ok (enterIdle now g)"
  by (auto simp: mode_log_ok_def enterIdle_def)

lemma mode_log_enterActive: "mode_log_ok g \<Longrightarrow> mode_log_ok (enterActive now r g)"
  by (auto simp: mode_log_ok_def enterActive_def)

lemma mode_log_frame: "mode_log_ok (g\<lparr>rg_lastActivityAt := t, rg_lastActivityReason := r\<rparr>) = mode_log_ok g"
  by (simp add: mode_log_ok_def)

interpretation governor: guarded_system governor_step mode_log_ok
proof
  fix g :: ResourceGovernor and e :: GovernorOp
  assume "mode_log_ok g"
  then show "mode_log_ok (governor_step g e)"
    by (cases e) (auto simp: noteActivity_def rg_sweep_def Let_def mode_log_frame
        intro!: mode_log_enterActive mode_log_enterIdle)
qed

interpretation governor_trims: growing_system governor_step "\<lambda>_. True" rg_trimCount
proof
  fix g :: ResourceGovernor and e :: GovernorOp
  show "rg_trimCount g \<le> rg_trimCount (governor_step g e)"
    by (cases e) (auto simp: noteActivity_def rg_sweep_def enterIdle_def enterActive_def Let_def)
qed simp

text \<open>Activity at \<open>t0\<close> keeps the governor active for the whole quiet window.\<close>

definition active_since :: "int \<Rightarrow> int \<Rightarrow> ResourceGovernor \<Rightarrow> bool" where
  "active_since t0 d g \<longleftrightarrow> rg_mode g = Active \<and> t0 \<le> rg_lastActivityAt g \<and> rg_idleAfterMs g = d"

fun in_quiet_window :: "int \<Rightarrow> int \<Rightarrow> GovernorOp \<Rightarrow> bool" where
  "in_quiet_window t0 d (Note now _) = (t0 \<le> now)"
| "in_quiet_window t0 d (Sweep now _) = (t0 \<le> now \<and> now < t0 + d)"

interpretation quiet_window: trapping_system governor_step "active_since t0 d" "in_quiet_window t0 d"
  for t0 d
proof
  fix g :: ResourceGovernor and e :: GovernorOp
  assume "active_since t0 d g" and "in_quiet_window t0 d e"
  then show "active_since t0 d (governor_step g e)"
    by (cases e) (auto simp: active_since_def noteActivity_def rg_sweep_def enterIdle_def enterActive_def Let_def)
qed

section \<open>Properties\<close>

text \<open>The emitted mode changes alternate: the first leaves \<open>Active\<close>, each starts from the mode
  the one before ended in and changes it, the last ends in the current mode, and the trim counter
  is the number of times idle was entered.\<close>

theorem mode_changes_alternate:
  fixes es :: "GovernorOp list"
  shows "mode_log_ok (foldl governor_step (new_governor t0 en ia si) es)"
  by (rule governor.run_inv) (simp add: mode_log_ok_def new_governor_def)

text \<open>Idle needs quiet. After activity at \<open>t0\<close>, no sweep before \<open>t0 + idleAfterMs\<close> leaves the
  active mode; and a sweep of an enabled, active governor enters idle exactly when the mesh is
  not busy and the last activity is at least \<open>idleAfterMs\<close> old.\<close>

theorem idle_needs_quiet:
  assumes "list_all (in_quiet_window t0 (rg_idleAfterMs g)) es"
  shows "rg_mode (foldl governor_step (noteActivity t0 reason g) es) = Active
    \<and> (rg_enabled g' \<and> rg_mode g' = Active \<longrightarrow>
        (rg_mode (rg_sweep now busy g') = Idle \<longleftrightarrow>
           \<not> busy \<and> rg_idleAfterMs g' \<le> now - rg_lastActivityAt g'))"
proof -
  have "active_since t0 (rg_idleAfterMs g) (noteActivity t0 reason g)"
    by (cases "rg_mode g") (auto simp: active_since_def noteActivity_def enterActive_def Let_def)
  from quiet_window.run_trap [OF this assms]
  have "rg_mode (foldl governor_step (noteActivity t0 reason g) es) = Active"
    by (simp add: active_since_def)
  then show ?thesis by (auto simp: rg_sweep_def enterIdle_def)
qed

theorem idle_needs_quiet_witness:
  "rg_mode (foldl governor_step (noteActivity 100 ''api'' (new_governor 0 None (Some (Num 50)) None))
     [Sweep 120 False, Note 130 ''ws'', Sweep 149 False]) = Active"
  using idle_needs_quiet [of 100 "new_governor 0 None (Some (Num 50)) None"
      "[Sweep 120 False, Note 130 ''ws'', Sweep 149 False]" "''api''"]
  by (simp add: new_governor_def)

end
