(* ===== verification/RateTracker.thy ===== *)
theory RateTracker
  imports Kovael_Prelude
begin

text \<open>
  \<open>src/src/services/RateLimitTracker.ts\<close>: a sliding window of dispatch times per agent, and
  the limits a provider reported. \<open>prune\<close> shortens the stored list in place, so the
  queries return the tracker with the pruned list when the agent has one.
\<close>

section \<open>Data and operations\<close>

record RateLimitConfig =
  rl_windowMs :: int
  rl_maxPerWindow :: int

definition DEFAULT_RATE_LIMIT_CONFIG :: RateLimitConfig where
  "DEFAULT_RATE_LIMIT_CONFIG = \<lparr>rl_windowMs = 60000, rl_maxPerWindow = 60\<rparr>"

record AgentRateSnapshot =
  ars_agentId :: string
  ars_inWindow :: nat
  ars_capacity :: int
  ars_windowMs :: int
  ars_blocked :: bool
  ars_resetAtMs :: "int option"
  ars_providerReported :: "(int \<times> int) option"

record RateLimitTracker =
  rt_cfg :: RateLimitConfig
  rt_windows :: "(string, int list) omap"
  rt_providerLimits :: "(string, int \<times> int) omap"
  rt_events :: "AgentRateSnapshot list"

definition new_tracker :: "int option \<Rightarrow> int option \<Rightarrow> RateLimitTracker" where
  "new_tracker windowMs maxPerWindow =
     \<lparr>rt_cfg = \<lparr>rl_windowMs = case_option (rl_windowMs DEFAULT_RATE_LIMIT_CONFIG) id windowMs,
                rl_maxPerWindow = case_option (rl_maxPerWindow DEFAULT_RATE_LIMIT_CONFIG) id maxPerWindow\<rparr>,
      rt_windows = [], rt_providerLimits = [], rt_events = []\<rparr>"

definition window_prune :: "RateLimitConfig \<Rightarrow> int \<Rightarrow> int list \<Rightarrow> int list" where
  "window_prune c now xs = dropWhile (\<lambda>x. x < now - rl_windowMs c) xs"

text \<open>Prune the agent's stored list, when there is one.\<close>

definition prune_stored :: "int \<Rightarrow> string \<Rightarrow> RateLimitTracker \<Rightarrow> RateLimitTracker" where
  "prune_stored now a s =
     (case om_get (rt_windows s) a of
        None \<Rightarrow> s
      | Some xs \<Rightarrow> s\<lparr>rt_windows := om_set a (window_prune (rt_cfg s) now xs) (rt_windows s)\<rparr>)"

definition window_of :: "string \<Rightarrow> RateLimitTracker \<Rightarrow> int list" where
  "window_of a s = (case om_get (rt_windows s) a of None \<Rightarrow> [] | Some xs \<Rightarrow> xs)"

definition provider_blocks :: "int \<Rightarrow> string \<Rightarrow> RateLimitTracker \<Rightarrow> bool" where
  "provider_blocks now a s =
     (case om_get (rt_providerLimits s) a of
        None \<Rightarrow> False
      | Some (remaining, resetAtMs) \<Rightarrow> remaining \<le> 0 \<and> now < resetAtMs)"

definition tracker_canDispatch :: "int \<Rightarrow> string \<Rightarrow> RateLimitTracker \<Rightarrow> bool \<times> RateLimitTracker" where
  "tracker_canDispatch now a s =
     (if provider_blocks now a s then (False, s)
      else
        let s1 = prune_stored now a s
        in (int (length (window_of a s1)) < rl_maxPerWindow (rt_cfg s1), s1))"

definition tracker_snapshot :: "int \<Rightarrow> string \<Rightarrow> RateLimitTracker \<Rightarrow> AgentRateSnapshot \<times> RateLimitTracker" where
  "tracker_snapshot now a s =
     (let s1 = prune_stored now a s;
          xs = window_of a s1;
          (can, s2) = tracker_canDispatch now a s1
      in (\<lparr>ars_agentId = a, ars_inWindow = length xs, ars_capacity = rl_maxPerWindow (rt_cfg s),
           ars_windowMs = rl_windowMs (rt_cfg s), ars_blocked = \<not> can,
           ars_resetAtMs = (case xs of [] \<Rightarrow> None
              | oldest # _ \<Rightarrow> if oldest \<noteq> 0 then Some (oldest + rl_windowMs (rt_cfg s)) else None),
           ars_providerReported = om_get (rt_providerLimits s) a\<rparr>, s2))"

definition emit_rate :: "int \<Rightarrow> string \<Rightarrow> RateLimitTracker \<Rightarrow> RateLimitTracker" where
  "emit_rate now a s = (case tracker_snapshot now a s of (snap, s1) \<Rightarrow> s1\<lparr>rt_events := rt_events s1 @ [snap]\<rparr>)"

definition recordDispatch :: "int \<Rightarrow> string \<Rightarrow> RateLimitTracker \<Rightarrow> RateLimitTracker" where
  "recordDispatch now a s =
     (let xs = window_prune (rt_cfg s) now (window_of a s @ [now])
      in emit_rate now a (s\<lparr>rt_windows := om_set a xs (rt_windows s)\<rparr>))"

definition updateProviderLimit :: "int \<Rightarrow> string \<Rightarrow> int \<Rightarrow> int \<Rightarrow> RateLimitTracker \<Rightarrow> RateLimitTracker" where
  "updateProviderLimit now a remaining resetAtMs s =
     emit_rate now a (s\<lparr>rt_providerLimits := om_set a (remaining, resetAtMs) (rt_providerLimits s)\<rparr>)"

text \<open>\<open>allSnapshots\<close> snapshots the agents in order, each on the tracker the one before left.\<close>

fun snapshot_list :: "int \<Rightarrow> string list \<Rightarrow> RateLimitTracker \<Rightarrow> AgentRateSnapshot list \<times> RateLimitTracker" where
  "snapshot_list now [] s = ([], s)"
| "snapshot_list now (a # as) s =
     (case tracker_snapshot now a s of (snap, s1) \<Rightarrow>
        case snapshot_list now as s1 of (snaps, s2) \<Rightarrow> (snap # snaps, s2))"

definition allSnapshots :: "int \<Rightarrow> RateLimitTracker \<Rightarrow> AgentRateSnapshot list \<times> RateLimitTracker" where
  "allSnapshots now s = snapshot_list now (om_keys (rt_windows s)) s"

section \<open>Windows\<close>

lemma window_prune_idem: "window_prune c now (window_prune c now xs) = window_prune c now xs"
  by (simp add: window_prune_def dropWhile_idem)

lemma window_of_prune_stored:
  "window_of a' (prune_stored now a s) = (if a' = a then window_prune (rt_cfg s) now (window_of a s) else window_of a' s)"
  by (auto simp: prune_stored_def window_of_def window_prune_def split: option.split)

lemma prune_stored_frame:
  "rt_cfg (prune_stored now a s) = rt_cfg s" "rt_providerLimits (prune_stored now a s) = rt_providerLimits s"
  by (auto simp: prune_stored_def split: option.split)

lemma canDispatch_frame:
  "rt_cfg (snd (tracker_canDispatch now a s)) = rt_cfg s"
  "rt_providerLimits (snd (tracker_canDispatch now a s)) = rt_providerLimits s"
  by (simp_all add: tracker_canDispatch_def Let_def prune_stored_frame)

lemma tracker_may_dispatch:
  "fst (tracker_canDispatch now a s) \<longleftrightarrow>
     \<not> provider_blocks now a s \<and> int (length (window_prune (rt_cfg s) now (window_of a s))) < rl_maxPerWindow (rt_cfg s)"
  by (simp add: tracker_canDispatch_def Let_def window_of_prune_stored prune_stored_frame)

lemma canDispatch_window:
  "window_of a (snd (tracker_canDispatch now a s)) \<in> {window_of a s, window_prune (rt_cfg s) now (window_of a s)}"
  by (simp add: tracker_canDispatch_def Let_def window_of_prune_stored)

lemma emit_rate_frame:
  "rt_cfg (emit_rate now a s) = rt_cfg s" "rt_providerLimits (emit_rate now a s) = rt_providerLimits s"
  "window_of a (emit_rate now a s) = window_prune (rt_cfg s) now (window_of a s)"
proof -
  let ?s1 = "prune_stored now a s"
  have e: "emit_rate now a s = (snd (tracker_canDispatch now a ?s1))
      \<lparr>rt_events := rt_events (snd (tracker_canDispatch now a ?s1)) @ [fst (tracker_snapshot now a s)]\<rparr>"
    by (simp add: emit_rate_def tracker_snapshot_def Let_def split_beta)
  show "rt_cfg (emit_rate now a s) = rt_cfg s" "rt_providerLimits (emit_rate now a s) = rt_providerLimits s"
    by (simp_all add: e canDispatch_frame prune_stored_frame)
  have "window_of a (emit_rate now a s) = window_of a (snd (tracker_canDispatch now a ?s1))"
    by (simp add: e window_of_def)
  also have "\<dots> = window_prune (rt_cfg s) now (window_of a s)"
    using canDispatch_window [of a now ?s1]
    by (simp add: window_of_prune_stored prune_stored_frame window_prune_idem)
  finally show "window_of a (emit_rate now a s) = window_prune (rt_cfg s) now (window_of a s)" .
qed

lemma recordDispatch_frame:
  "rt_cfg (recordDispatch now a s) = rt_cfg s"
  "rt_providerLimits (recordDispatch now a s) = rt_providerLimits s"
  "window_of a (recordDispatch now a s) = window_prune (rt_cfg s) now (window_of a s @ [now])"
proof -
  show "rt_cfg (recordDispatch now a s) = rt_cfg s"
    "rt_providerLimits (recordDispatch now a s) = rt_providerLimits s"
    by (simp_all add: recordDispatch_def emit_rate_frame)
  show "window_of a (recordDispatch now a s) = window_prune (rt_cfg s) now (window_of a s @ [now])"
    by (simp add: recordDispatch_def emit_rate_frame) (simp add: window_of_def window_prune_idem)
qed

text \<open>
  The client's protocol: ask, and record the dispatch when allowed. \<open>gated\<close> returns the
  times of the dispatches made.
\<close>

fun gated :: "string \<Rightarrow> int list \<Rightarrow> RateLimitTracker \<Rightarrow> int list \<times> RateLimitTracker" where
  "gated a [] s = ([], s)"
| "gated a (t # ts) s =
     (case tracker_canDispatch t a s of (ok, s1) \<Rightarrow>
        if ok then (case gated a ts (recordDispatch t a s1) of (ds, s2) \<Rightarrow> (t # ds, s2))
        else gated a ts s1)"

text \<open>The stored list of an agent represents its dispatch times \<open>ds\<close> as of time \<open>t\<close>.\<close>

definition represents :: "string \<Rightarrow> int list \<Rightarrow> int \<Rightarrow> RateLimitTracker \<Rightarrow> bool" where
  "represents a ds t s \<longleftrightarrow> sorted ds \<and> (\<forall>d \<in> set ds. d \<le> t) \<and>
     (\<forall>u \<ge> t. window_prune (rt_cfg s) u (window_of a s) = filter (\<lambda>d. u - rl_windowMs (rt_cfg s) \<le> d) ds)"

lemma sorted_dropWhile_filter: "sorted xs \<Longrightarrow> dropWhile (\<lambda>x. x < c) xs = filter (\<lambda>x. c \<le> x) (xs :: int list)"
  by (induction xs) (auto simp: filter_id_conv intro!: filter_True [symmetric])

lemma window_prune_later:
  assumes "t \<le> u"
  shows "window_prune c u (window_prune c t xs) = window_prune c u xs"
  using assms unfolding window_prune_def by (induction xs) auto

lemma represents_canDispatch:
  assumes "represents a ds t s" and "t \<le> u"
  shows "represents a ds u (snd (tracker_canDispatch u a s))"
proof -
  have "window_prune (rt_cfg s) v (window_of a (snd (tracker_canDispatch u a s))) = window_prune (rt_cfg s) v (window_of a s)"
    if "u \<le> v" for v
    using canDispatch_window [of a u s] window_prune_later [OF that, of "rt_cfg s" "window_of a s"] by auto
  with assms show ?thesis by (auto simp: represents_def canDispatch_frame)
qed

lemma represents_record:
  assumes "represents a ds t s" and "t \<le> u" and "0 \<le> rl_windowMs (rt_cfg s)"
  shows "represents a (ds @ [u]) u (recordDispatch u a s)"
proof -
  have s: "sorted (ds @ [u])" using assms by (auto simp: represents_def sorted_append)
  have "window_prune (rt_cfg s) v (window_prune (rt_cfg s) u (window_of a s @ [u])) =
      filter (\<lambda>d. v - rl_windowMs (rt_cfg s) \<le> d) (ds @ [u])" if "u \<le> v" for v
  proof -
    have w: "window_prune (rt_cfg s) v (window_of a s) = filter (\<lambda>d. v - rl_windowMs (rt_cfg s) \<le> d) ds"
      using assms that by (simp add: represents_def)
    have "window_prune (rt_cfg s) v (window_prune (rt_cfg s) u (window_of a s @ [u])) =
        window_prune (rt_cfg s) v (window_of a s @ [u])"
      by (rule window_prune_later) (rule that)
    also have "\<dots> = filter (\<lambda>d. v - rl_windowMs (rt_cfg s) \<le> d) (ds @ [u])"
    proof (cases "\<forall>x \<in> set (window_of a s). x < v - rl_windowMs (rt_cfg s)")
      case True
      then have "window_prune (rt_cfg s) v (window_of a s) = []" by (simp add: window_prune_def)
      with w have "filter (\<lambda>d. v - rl_windowMs (rt_cfg s) \<le> d) ds = []" by simp
      with True show ?thesis by (auto simp: window_prune_def dropWhile_append2)
    next
      case False
      then have "window_prune (rt_cfg s) v (window_of a s @ [u]) = window_prune (rt_cfg s) v (window_of a s) @ [u]"
        unfolding window_prune_def by (metis dropWhile_append1)
      moreover have "window_prune (rt_cfg s) v (window_of a s) \<noteq> []"
        using False by (auto simp: window_prune_def dropWhile_eq_Nil_conv)
      then obtain x where "x \<in> set (window_prune (rt_cfg s) v (window_of a s))"
        using list.set_sel(1) by blast
      then have "x \<le> u" "v - rl_windowMs (rt_cfg s) \<le> x"
        using w assms(1,2) by (auto simp: represents_def)
      ultimately show ?thesis using w by simp
    qed
    finally show ?thesis .
  qed
  then show ?thesis
    using s assms by (auto simp: represents_def recordDispatch_frame)
qed


lemma gated_window:
  assumes "represents a ds t s" and "sorted (t # ts)" and "0 \<le> rl_windowMs (rt_cfg s)"
    and "int (length (filter (\<lambda>d. t - rl_windowMs (rt_cfg s) \<le> d) ds)) \<le> rl_maxPerWindow (rt_cfg s)"
    and "last (t # ts) \<le> u"
  shows "int (length (filter (\<lambda>d. u - rl_windowMs (rt_cfg s) \<le> d) (ds @ fst (gated a ts s))))
     \<le> rl_maxPerWindow (rt_cfg s)"
  using assms
proof (induction ts arbitrary: ds t s)
  case Nil
  have "length (filter (\<lambda>d. u - rl_windowMs (rt_cfg s) \<le> d) ds) \<le> length (filter (\<lambda>d. t - rl_windowMs (rt_cfg s) \<le> d) ds)"
    using Nil.prems(5) by (induction ds) auto
  with Nil.prems(4) show ?case by simp
next
  case (Cons t' ts)
  obtain ok s1 where can: "tracker_canDispatch t' a s = (ok, s1)" by fastforce
  have le: "t \<le> t'" using Cons.prems(2) by simp
  have r1: "represents a ds t' s1" and cfg1: "rt_cfg s1 = rt_cfg s"
    using represents_canDispatch [OF Cons.prems(1) le] canDispatch_frame(1) [of t' a s] can by simp_all
  have inw: "window_prune (rt_cfg s) t' (window_of a s) = filter (\<lambda>d. t' - rl_windowMs (rt_cfg s) \<le> d) ds"
    using Cons.prems(1) le by (simp add: represents_def)
  show ?case
  proof (cases ok)
    case True
    then have lt: "int (length (filter (\<lambda>d. t' - rl_windowMs (rt_cfg s) \<le> d) ds)) < rl_maxPerWindow (rt_cfg s)"
      using tracker_may_dispatch [of t' a s] can inw by simp
    have "int (length (filter (\<lambda>d. u - rl_windowMs (rt_cfg (recordDispatch t' a s1)) \<le> d)
        ((ds @ [t']) @ fst (gated a ts (recordDispatch t' a s1))))) \<le> rl_maxPerWindow (rt_cfg (recordDispatch t' a s1))"
      by (rule Cons.IH [of "ds @ [t']" t'])
        (use Cons.prems lt represents_record [OF r1 order_refl] in \<open>auto simp: recordDispatch_frame cfg1\<close>)
    then show ?thesis
      using True by (simp add: can recordDispatch_frame cfg1 split_beta)
  next
    case False
    have "length (filter (\<lambda>d. t' - rl_windowMs (rt_cfg s) \<le> d) ds) \<le> length (filter (\<lambda>d. t - rl_windowMs (rt_cfg s) \<le> d) ds)"
      using le by (induction ds) auto
    then have "int (length (filter (\<lambda>d. u - rl_windowMs (rt_cfg s1) \<le> d) (ds @ fst (gated a ts s1))))
        \<le> rl_maxPerWindow (rt_cfg s1)"
      by (intro Cons.IH [OF r1]) (use Cons.prems cfg1 in auto)
    then show ?thesis using False by (simp add: can cfg1)
  qed
qed

section \<open>Properties\<close>

text \<open>A client that dispatches only when \<open>canDispatch\<close> allows it and records every dispatch
  never makes more than \<open>maxPerWindow\<close> dispatches for an agent in any trailing window of
  \<open>windowMs\<close>, when its clock does not go back.\<close>

theorem window_never_exceeded:
  assumes "sorted ts" and "\<forall>t \<in> set ts. t \<le> u" and "0 \<le> rl_windowMs (rt_cfg (new_tracker w k))"
    and "0 \<le> rl_maxPerWindow (rt_cfg (new_tracker w k))"
  shows "int (length (filter (\<lambda>d. u - rl_windowMs (rt_cfg (new_tracker w k)) \<le> d) (fst (gated a ts (new_tracker w k)))))
     \<le> rl_maxPerWindow (rt_cfg (new_tracker w k))"
proof (cases ts)
  case Nil
  then show ?thesis using assms(4) by simp
next
  case (Cons t ts')
  have r: "represents a [] t (new_tracker w k)"
    by (simp add: represents_def window_of_def window_prune_def new_tracker_def)
  have "int (length (filter (\<lambda>d. u - rl_windowMs (rt_cfg (new_tracker w k)) \<le> d) ([] @ fst (gated a ts (new_tracker w k)))))
      \<le> rl_maxPerWindow (rt_cfg (new_tracker w k))"
    by (rule gated_window [OF r]) (use assms Cons in auto)
  then show ?thesis by simp
qed

theorem window_never_exceeded_witness:
  "int (length (filter (\<lambda>d. 20 - rl_windowMs (rt_cfg (new_tracker (Some 100) (Some 2))) \<le> d)
     (fst (gated ''a'' [1, 2, 3, 20] (new_tracker (Some 100) (Some 2)))))) \<le> 2"
  using window_never_exceeded [of "[1, 2, 3, 20]" 20 "Some 100" "Some 2" "''a''"]
  by (simp add: new_tracker_def)

text \<open>A provider that reports no remaining requests blocks the agent until its reset time,
  whatever the local window holds; but a provider that reports requests left does not override
  a full local window.\<close>

theorem provider_limit_precedence:
  "(remaining \<le> 0 \<and> now < reset \<longrightarrow>
      \<not> fst (tracker_canDispatch now a (updateProviderLimit t a remaining reset s)))
   \<and> (0 < remaining \<longrightarrow>
      fst (tracker_canDispatch t a (updateProviderLimit t a remaining reset s)) =
        (int (length (window_prune (rt_cfg s) t (window_of a s))) < rl_maxPerWindow (rt_cfg s)))"
  by (auto simp: tracker_may_dispatch provider_blocks_def updateProviderLimit_def emit_rate_frame window_prune_idem)
    (simp_all add: window_of_def)

theorem provider_limit_precedence_witness:
  "\<not> fst (tracker_canDispatch 5 ''a'' (updateProviderLimit 1 ''a'' 0 10 (new_tracker None None)))"
  using provider_limit_precedence [of 0 5 10 "''a''" 1 "new_tracker None None"] by simp

end
