(* ===== verification/RateLimit.thy ===== *)
theory RateLimit
  imports Kovael_Prelude
begin

text \<open>
  \<open>src/src/services/RateLimiter.ts\<close>: one token bucket per client address, in a map whose
  order is least recently used first. Node's \<open>isIP\<close> is the parameter \<open>isIP\<close> (4, 6 or 0).
  Tokens are rationals, times integers in milliseconds.
\<close>

section \<open>Data\<close>

record RateLimiterConfig =
  lc_capacity :: rat
  lc_refillPerSec :: rat
  lc_maxEntries :: int

definition DEFAULT_RATE_LIMITER_CONFIG :: RateLimiterConfig where
  "DEFAULT_RATE_LIMITER_CONFIG = \<lparr>lc_capacity = 60, lc_refillPerSec = 1, lc_maxEntries = 10000\<rparr>"

record RateLimitDecision =
  dec_allowed :: bool
  dec_remaining :: int
  dec_retryAfterS :: int

record Bucket =
  bk_tokens :: rat
  bk_lastRefillMs :: int

record RateLimiter =
  lm_cfg :: RateLimiterConfig
  lm_trustProxy :: bool
  lm_buckets :: "(string, Bucket) omap"

datatype limiter_error = BadCapacity | BadRefill | BadMaxEntries

text \<open>The header as node delivers it: absent, one string, or several.\<close>

datatype header = HAbsent | HOne string | HMany "string list"

section \<open>Operations\<close>

definition normalizeIp :: "(string \<Rightarrow> nat) \<Rightarrow> string \<Rightarrow> string" where
  "normalizeIp isIP addr =
     (if take 7 addr = ''::ffff:'' \<and> isIP (drop 7 addr) = 4 then drop 7 addr else addr)"

definition new_limiter :: "rat option \<Rightarrow> rat option \<Rightarrow> int option \<Rightarrow> string option \<Rightarrow>
    limiter_error + RateLimiter" where
  "new_limiter capacity refill maxEntries trustEnv =
     (let c = \<lparr>lc_capacity = case_option (lc_capacity DEFAULT_RATE_LIMITER_CONFIG) id capacity,
               lc_refillPerSec = case_option (lc_refillPerSec DEFAULT_RATE_LIMITER_CONFIG) id refill,
               lc_maxEntries = case_option (lc_maxEntries DEFAULT_RATE_LIMITER_CONFIG) id maxEntries\<rparr>
      in if lc_capacity c \<le> 0 then Inl BadCapacity
         else if lc_refillPerSec c \<le> 0 then Inl BadRefill
         else if lc_maxEntries c \<le> 0 then Inl BadMaxEntries
         else Inr \<lparr>lm_cfg = c, lm_trustProxy = (trustEnv = Some ''true''), lm_buckets = []\<rparr>)"

definition before_comma :: "string \<Rightarrow> string" where
  "before_comma s = takeWhile (\<lambda>c. c \<noteq> CHR '','') s"

definition forwarded_ip :: "(string \<Rightarrow> nat) \<Rightarrow> header \<Rightarrow> string option" where
  "forwarded_ip isIP xff =
     (let raw = (case xff of HAbsent \<Rightarrow> None | HOne s \<Rightarrow> Some s
                 | HMany ss \<Rightarrow> (case ss of [] \<Rightarrow> None | s # _ \<Rightarrow> Some s))
      in case raw of
           None \<Rightarrow> None
         | Some s \<Rightarrow>
             if s = [] then None
             else let first = trim (before_comma s)
                  in if first \<noteq> [] \<and> isIP first \<noteq> 0 then Some (normalizeIp isIP first) else None)"

definition clientKey :: "(string \<Rightarrow> nat) \<Rightarrow> header \<Rightarrow> string option \<Rightarrow> RateLimiter \<Rightarrow> string" where
  "clientKey isIP xff remote l =
     (case (if lm_trustProxy l then forwarded_ip isIP xff else None) of
        Some ip \<Rightarrow> ip
      | None \<Rightarrow>
          if truthy_str remote \<and> isIP (the remote) \<noteq> 0 then normalizeIp isIP (the remote)
          else (case remote of Some r \<Rightarrow> r | None \<Rightarrow> ''unknown''))"

definition touch :: "string \<Rightarrow> int \<Rightarrow> RateLimiter \<Rightarrow> Bucket \<times> RateLimiter" where
  "touch key now l =
     (case om_get (lm_buckets l) key of
        Some b \<Rightarrow> (b, l\<lparr>lm_buckets := om_set key b (om_delete key (lm_buckets l))\<rparr>)
      | None \<Rightarrow>
          let bs = (if int (length (lm_buckets l)) \<ge> lc_maxEntries (lm_cfg l)
                    then (case om_keys (lm_buckets l) of [] \<Rightarrow> lm_buckets l | oldest # _ \<Rightarrow> om_delete oldest (lm_buckets l))
                    else lm_buckets l);
              fresh = \<lparr>bk_tokens = lc_capacity (lm_cfg l), bk_lastRefillMs = now\<rparr>
          in (fresh, l\<lparr>lm_buckets := om_set key fresh bs\<rparr>))"

definition refill :: "RateLimiterConfig \<Rightarrow> int \<Rightarrow> Bucket \<Rightarrow> Bucket" where
  "refill c now b =
     (let elapsedMs = now - bk_lastRefillMs b in
      if elapsedMs \<le> 0 then b
      else \<lparr>bk_tokens = min (lc_capacity c) (bk_tokens b + of_int elapsedMs / 1000 * lc_refillPerSec c),
            bk_lastRefillMs = now\<rparr>)"

text \<open>The decision on a refilled bucket; the code changes the bucket that is in the map.\<close>

definition decide :: "RateLimiterConfig \<Rightarrow> Bucket \<Rightarrow> RateLimitDecision \<times> Bucket" where
  "decide c b =
     (if bk_tokens b \<ge> 1 then
        let b1 = b\<lparr>bk_tokens := bk_tokens b - 1\<rparr>
        in (\<lparr>dec_allowed = True, dec_remaining = \<lfloor>bk_tokens b1\<rfloor>, dec_retryAfterS = 0\<rparr>, b1)
      else
        let deficit = 1 - bk_tokens b
        in (\<lparr>dec_allowed = False, dec_remaining = 0,
             dec_retryAfterS = max 1 \<lceil>deficit / lc_refillPerSec c\<rceil>\<rparr>, b))"

definition consume :: "string \<Rightarrow> int \<Rightarrow> RateLimiter \<Rightarrow> RateLimitDecision \<times> RateLimiter" where
  "consume key now l =
     (case touch key now l of (b, l1) \<Rightarrow>
        case decide (lm_cfg l) (refill (lm_cfg l) now b) of (d, b1) \<Rightarrow>
          (d, l1\<lparr>lm_buckets := om_set key b1 (lm_buckets l1)\<rparr>))"

definition limiter_size :: "RateLimiter \<Rightarrow> nat" where
  "limiter_size l = length (lm_buckets l)"

definition limiter_reset :: "RateLimiter \<Rightarrow> RateLimiter" where
  "limiter_reset l = l\<lparr>lm_buckets := []\<rparr>"

section \<open>One bucket\<close>

definition bucket_of :: "string \<Rightarrow> int \<Rightarrow> RateLimiter \<Rightarrow> Bucket" where
  "bucket_of key now l = (case om_get (lm_buckets l) key of Some b \<Rightarrow> b
     | None \<Rightarrow> \<lparr>bk_tokens = lc_capacity (lm_cfg l), bk_lastRefillMs = now\<rparr>)"

definition cfg_ok :: "RateLimiterConfig \<Rightarrow> bool" where
  "cfg_ok c \<longleftrightarrow> 0 < lc_capacity c \<and> 0 < lc_refillPerSec c \<and> 0 < lc_maxEntries c"

definition bucket_ok :: "RateLimiterConfig \<Rightarrow> Bucket \<Rightarrow> bool" where
  "bucket_ok c b \<longleftrightarrow> 0 \<le> bk_tokens b \<and> bk_tokens b \<le> lc_capacity c"

lemma touch_fst: "fst (touch key now l) = bucket_of key now l"
  by (simp add: touch_def bucket_of_def Let_def split: option.split)

lemma touch_cfg: "lm_cfg (snd (touch key now l)) = lm_cfg l"
  by (simp add: touch_def Let_def split: option.split)

lemma consume_unfold:
  "consume key now l =
    (let r = decide (lm_cfg l) (refill (lm_cfg l) now (bucket_of key now l)); l1 = snd (touch key now l)
     in (fst r, l1\<lparr>lm_buckets := om_set key (snd r) (lm_buckets l1)\<rparr>))"
  by (simp add: consume_def Let_def split_beta touch_fst)

lemma consume_cfg: "lm_cfg (snd (consume key now l)) = lm_cfg l"
  by (simp add: consume_unfold Let_def touch_cfg)

lemma consume_bucket:
  "om_get (lm_buckets (snd (consume key now l))) key =
     Some (snd (decide (lm_cfg l) (refill (lm_cfg l) now (bucket_of key now l))))"
  by (simp add: consume_unfold Let_def)

lemma refill_ok: "cfg_ok c \<Longrightarrow> bucket_ok c b \<Longrightarrow> bucket_ok c (refill c now b)"
  by (auto simp: bucket_ok_def cfg_ok_def refill_def Let_def min_def)

lemma decide_ok: "bucket_ok c b \<Longrightarrow> bucket_ok c (snd (decide c b))"
  by (auto simp: bucket_ok_def decide_def Let_def)

lemma decide_allowed: "dec_allowed (fst (decide c b)) \<longleftrightarrow> 1 \<le> bk_tokens b"
  by (simp add: decide_def Let_def)

lemma decide_bucket:
  "snd (decide c b) = (if 1 \<le> bk_tokens b then b\<lparr>bk_tokens := bk_tokens b - 1\<rparr> else b)"
  by (simp add: decide_def Let_def)

text \<open>
  The account of a bucket: tokens spent and tokens left never exceed what it started with
  and what time has added.
\<close>

lemma refill_account:
  assumes "0 < lc_refillPerSec c"
    and "n + bk_tokens b \<le> cap + lc_refillPerSec c * of_int (bk_lastRefillMs b - t0) / 1000"
  shows "n + bk_tokens (refill c now b) \<le> cap + lc_refillPerSec c * of_int (bk_lastRefillMs (refill c now b) - t0) / 1000"
proof (cases "now - bk_lastRefillMs b \<le> 0")
  case True
  then show ?thesis using assms by (simp add: refill_def)
next
  case False
  have "n + bk_tokens (refill c now b) \<le> n + bk_tokens b + of_int (now - bk_lastRefillMs b) / 1000 * lc_refillPerSec c"
    using False by (simp add: refill_def Let_def)
  also have "\<dots> \<le> cap + lc_refillPerSec c * of_int (bk_lastRefillMs b - t0) / 1000
      + of_int (now - bk_lastRefillMs b) / 1000 * lc_refillPerSec c"
    using assms(2) by simp
  also have "\<dots> = cap + lc_refillPerSec c * of_int (now - t0) / 1000"
    by (simp add: field_simps)
  finally show ?thesis using False by (simp add: refill_def Let_def)
qed

section \<open>The whole limiter\<close>

text \<open>Every bucket in the map is in range.\<close>

definition limiter_inv :: "RateLimiter \<Rightarrow> bool" where
  "limiter_inv l \<longleftrightarrow> cfg_ok (lm_cfg l) \<and> om_wf (lm_buckets l)
     \<and> int (length (lm_buckets l)) \<le> lc_maxEntries (lm_cfg l)
     \<and> (\<forall>k b. om_get (lm_buckets l) k = Some b \<longrightarrow> bucket_ok (lm_cfg l) b)"

lemma limiter_inv_new: "new_limiter c r e t = Inr l \<Longrightarrow> limiter_inv l"
  by (auto simp: new_limiter_def limiter_inv_def cfg_ok_def Let_def not_le split: if_splits)

lemma bucket_of_ok: "limiter_inv l \<Longrightarrow> bucket_ok (lm_cfg l) (bucket_of key now l)"
  by (auto simp: limiter_inv_def bucket_of_def bucket_ok_def cfg_ok_def split: option.split)

lemma touch_get:
  assumes "om_get (lm_buckets (snd (touch key now l))) k = Some b"
  shows "k = key \<or> om_get (lm_buckets l) k = Some b"
  using assms by (auto simp: touch_def Let_def split: option.splits if_splits list.splits)

lemma touch_inv:
  assumes inv: "limiter_inv l"
  shows "om_wf (lm_buckets (snd (touch key now l)))
    \<and> int (length (lm_buckets (snd (touch key now l)))) \<le> lc_maxEntries (lm_cfg l)
    \<and> om_get (lm_buckets (snd (touch key now l))) key \<noteq> None"
proof (cases "om_get (lm_buckets l) key")
  case (Some b)
  have wf: "om_wf (lm_buckets l)" using inv by (simp add: limiter_inv_def)
  have "Suc (length (om_delete key (lm_buckets l))) = length (lm_buckets l)"
    using om_size_delete [OF wf, of key] Some by simp
  then show ?thesis
    using inv wf Some by (auto simp: touch_def limiter_inv_def om_size_set intro!: om_wf_set om_wf_delete)
next
  case None
  define bs where "bs = (if int (length (lm_buckets l)) \<ge> lc_maxEntries (lm_cfg l)
      then (case om_keys (lm_buckets l) of [] \<Rightarrow> lm_buckets l | oldest # _ \<Rightarrow> om_delete oldest (lm_buckets l))
      else lm_buckets l)"
  have "om_wf bs"
    using inv by (auto simp: bs_def limiter_inv_def intro!: om_wf_delete split: list.split)
  moreover have "int (length bs) < lc_maxEntries (lm_cfg l)"
  proof (cases "int (length (lm_buckets l)) \<ge> lc_maxEntries (lm_cfg l)")
    case True
    then obtain p ps where ps: "lm_buckets l = p # ps"
      using inv by (cases "lm_buckets l") (auto simp: limiter_inv_def cfg_ok_def)
    then have "Suc (length (om_delete (fst p) (lm_buckets l))) = length (lm_buckets l)"
      using inv by (intro om_size_delete) (auto simp: limiter_inv_def)
    then show ?thesis using True inv ps by (simp add: bs_def limiter_inv_def)
  next
    case False
    then show ?thesis by (simp add: bs_def)
  qed
  ultimately show ?thesis
    using None by (auto simp: touch_def Let_def bs_def [symmetric] om_size_set intro!: om_wf_set)
qed

lemma consume_inv:
  assumes inv: "limiter_inv l"
  shows "limiter_inv (snd (consume key now l))"
proof -
  let ?r = "decide (lm_cfg l) (refill (lm_cfg l) now (bucket_of key now l))"
  have ok: "bucket_ok (lm_cfg l) (snd ?r)"
    by (rule decide_ok, rule refill_ok) (use inv bucket_of_ok in \<open>auto simp: limiter_inv_def\<close>)
  let ?l1 = "snd (touch key now l)"
  have t: "om_wf (lm_buckets ?l1)" "int (length (lm_buckets ?l1)) \<le> lc_maxEntries (lm_cfg l)"
      "om_get (lm_buckets ?l1) key \<noteq> None"
    using touch_inv [OF inv, of key now] by auto
  have "length (om_set key (snd ?r) (lm_buckets ?l1)) = length (lm_buckets ?l1)"
    using t(3) by (simp add: om_size_set)
  moreover have "bucket_ok (lm_cfg l) b" if "om_get (om_set key (snd ?r) (lm_buckets ?l1)) k = Some b" for k b
    using that ok inv touch_get [of key now l k b] by (auto simp: limiter_inv_def split: if_splits)
  ultimately show ?thesis
    using t inv by (auto simp: consume_unfold Let_def limiter_inv_def touch_cfg intro!: om_wf_set)
qed

interpretation limiter: guarded_system "\<lambda>l r. snd (consume (fst r) (snd r) l)" limiter_inv
  by unfold_locales (rule consume_inv)

fun consume_all :: "(string \<times> int) list \<Rightarrow> RateLimiter \<Rightarrow> RateLimitDecision list \<times> RateLimiter" where
  "consume_all [] l = ([], l)"
| "consume_all ((k, t) # rs) l =
     (case consume k t l of (d, l1) \<Rightarrow> case consume_all rs l1 of (ds, l2) \<Rightarrow> (d # ds, l2))"

text \<open>How many requests of \<open>key\<close> were allowed.\<close>

definition granted :: "string \<Rightarrow> (string \<times> int) list \<Rightarrow> RateLimiter \<Rightarrow> nat" where
  "granted key rs l =
     length (filter (\<lambda>(r, d). fst r = key \<and> dec_allowed d) (zip rs (fst (consume_all rs l))))"

lemma granted_Nil: "granted key [] l = 0"
  by (simp add: granted_def)

lemma granted_Cons:
  "granted key ((k, t) # rs) l =
     (if k = key \<and> dec_allowed (fst (consume k t l)) then 1 else 0) + granted key rs (snd (consume k t l))"
  by (auto simp: granted_def split_beta)


lemma touch_keeps:
  assumes inv: "limiter_inv l" and K: "set (om_keys (lm_buckets l)) \<subseteq> K" "key \<in> K" "finite K"
    and card: "int (card K) \<le> lc_maxEntries (lm_cfg l)"
  shows "k \<noteq> key \<Longrightarrow> om_get (lm_buckets (snd (touch key now l))) k = om_get (lm_buckets l) k"
    and "set (om_keys (lm_buckets (snd (touch key now l)))) \<subseteq> K"
proof -
  have room: "\<not> int (length (lm_buckets l)) \<ge> lc_maxEntries (lm_cfg l)" if "om_get (lm_buckets l) key = None"
  proof -
    have "key \<notin> set (om_keys (lm_buckets l))" using that by (simp add: map_of_eq_None_iff)
    then have "card (set (om_keys (lm_buckets l))) < card K"
      using K by (intro psubset_card_mono) auto
    moreover have "card (set (om_keys (lm_buckets l))) = length (lm_buckets l)"
      using inv distinct_card [of "om_keys (lm_buckets l)"] by (simp add: limiter_inv_def)
    ultimately show ?thesis using card by simp
  qed
  show "k \<noteq> key \<Longrightarrow> om_get (lm_buckets (snd (touch key now l))) k = om_get (lm_buckets l) k"
    using room by (auto simp: touch_def Let_def split: option.split)
  show "set (om_keys (lm_buckets (snd (touch key now l)))) \<subseteq> K"
    using room K by (auto simp: touch_def Let_def set_om_keys_set set_om_keys_delete split: option.split)
qed

definition account :: "string \<Rightarrow> nat \<Rightarrow> int \<Rightarrow> int \<Rightarrow> RateLimiter \<Rightarrow> bool" where
  "account key n t0 t1 l \<longleftrightarrow>
     (case om_get (lm_buckets l) key of
        None \<Rightarrow> n = 0
      | Some b \<Rightarrow> of_nat n + bk_tokens b \<le> lc_capacity (lm_cfg l)
            + lc_refillPerSec (lm_cfg l) * of_int (bk_lastRefillMs b - t0) / 1000
          \<and> bk_lastRefillMs b \<le> t1)"

lemma account_other:
  assumes "limiter_inv l" and "set (om_keys (lm_buckets l)) \<subseteq> K" "k \<in> K" "finite K"
    and "int (card K) \<le> lc_maxEntries (lm_cfg l)" and "key \<noteq> k" and "account key n t0 t1 l"
  shows "account key n t0 t1 (snd (consume k t l))"
  using assms touch_keeps(1) [OF assms(1-5), of key t]
  by (auto simp: account_def consume_unfold Let_def touch_cfg split: option.split)

lemma account_same:
  assumes inv: "limiter_inv l" and acc: "account key n t0 t1 l" and t: "t0 \<le> t" "t \<le> t1"
  shows "account key (n + (if dec_allowed (fst (consume key t l)) then 1 else 0)) t0 t1 (snd (consume key t l))"
proof -
  let ?c = "lm_cfg l" and ?b = "bucket_of key t l"
  have pos: "0 < lc_refillPerSec ?c" using inv by (simp add: limiter_inv_def cfg_ok_def)
  have start: "of_nat n + bk_tokens ?b \<le> lc_capacity ?c + lc_refillPerSec ?c * of_int (bk_lastRefillMs ?b - t0) / 1000"
    and last: "bk_lastRefillMs ?b \<le> t1"
    using acc t pos by (auto simp: account_def bucket_of_def split: option.splits)
  have r: "of_nat n + bk_tokens (refill ?c t ?b) \<le> lc_capacity ?c
      + lc_refillPerSec ?c * of_int (bk_lastRefillMs (refill ?c t ?b) - t0) / 1000"
    by (rule refill_account [OF pos start])
  have l: "bk_lastRefillMs (refill ?c t ?b) \<le> t1"
    using last t by (simp add: refill_def Let_def)
  have all: "dec_allowed (fst (consume key t l)) \<longleftrightarrow> 1 \<le> bk_tokens (refill ?c t ?b)"
    by (simp add: consume_unfold Let_def decide_allowed)
  show ?thesis
    using r l by (auto simp: account_def consume_bucket consume_cfg all decide_bucket)
qed

lemma granted_bound:
  assumes "limiter_inv l" and "set (om_keys (lm_buckets l)) \<subseteq> K" and "fst ` set rs \<subseteq> K" and "finite K"
    and "int (card K) \<le> lc_maxEntries (lm_cfg l)"
    and "\<forall>(k, t) \<in> set rs. k = key \<longrightarrow> t0 \<le> t \<and> t \<le> t1"
    and "account key n t0 t1 l" and "t0 \<le> t1"
  shows "of_nat (n + granted key rs l) \<le> lc_capacity (lm_cfg l) + lc_refillPerSec (lm_cfg l) * of_int (t1 - t0) / 1000"
  using assms
proof (induction rs arbitrary: l n)
  case Nil
  have ok: "cfg_ok (lm_cfg l)" using Nil.prems(1) by (simp add: limiter_inv_def)
  show ?case
  proof (cases "om_get (lm_buckets l) key")
    case None
    then show ?thesis using Nil.prems ok by (simp add: account_def granted_Nil cfg_ok_def)
  next
    case (Some b)
    have "bucket_ok (lm_cfg l) b" using Some Nil.prems(1) by (auto simp: limiter_inv_def)
    moreover have "lc_refillPerSec (lm_cfg l) * of_int (bk_lastRefillMs b - t0) \<le> lc_refillPerSec (lm_cfg l) * of_int (t1 - t0)"
      using Some Nil.prems ok by (auto simp: account_def cfg_ok_def intro!: mult_left_mono)
    ultimately show ?thesis using Some Nil.prems(7) by (simp add: account_def granted_Nil bucket_ok_def)
  qed
next
  case (Cons r rs)
  obtain k t where r: "r = (k, t)" by force
  let ?l1 = "snd (consume k t l)" and ?n1 = "n + (if k = key \<and> dec_allowed (fst (consume k t l)) then 1 else 0)"
  have kK: "k \<in> K" using Cons.prems(3) by (simp add: r)
  have keys: "set (om_keys (lm_buckets ?l1)) \<subseteq> K"
    using touch_keeps(2) [OF Cons.prems(1,2) kK Cons.prems(4,5), of t] kK
    by (simp add: consume_unfold Let_def set_om_keys_set)
  have acc: "account key ?n1 t0 t1 ?l1"
  proof (cases "k = key")
    case True
    then show ?thesis using Cons.prems(6) account_same [OF Cons.prems(1,7), of t] by (simp add: r)
  next
    case False
    then show ?thesis
      using account_other [OF Cons.prems(1,2) kK Cons.prems(4,5) _ Cons.prems(7), of t] by simp
  qed
  have "of_nat (?n1 + granted key rs ?l1) \<le> lc_capacity (lm_cfg ?l1) + lc_refillPerSec (lm_cfg ?l1) * of_int (t1 - t0) / 1000"
    by (rule Cons.IH [OF consume_inv [OF Cons.prems(1)] keys _ _ _ _ acc])
      (use Cons.prems in \<open>auto simp: consume_cfg\<close>)
  then show ?case by (auto simp: r granted_Cons consume_cfg split: if_splits)
qed

section \<open>Properties\<close>

text \<open>C3: the limit holds. When no more addresses than \<open>maxEntries\<close> are seen, a client whose
  requests lie between \<open>t0\<close> and \<open>t1\<close> is granted at most \<open>capacity + refillPerSec * (t1 - t0) / 1000\<close>
  of them, however its requests and those of others interleave and even if clock readings go back.\<close>

theorem grants_bounded:
  assumes "new_limiter c r e tr = Inr l" and "int (card (fst ` set rs)) \<le> lc_maxEntries (lm_cfg l)"
    and "\<forall>(k, t) \<in> set rs. k = key \<longrightarrow> t0 \<le> t \<and> t \<le> t1" and "t0 \<le> t1"
  shows "of_nat (granted key rs l) \<le> lc_capacity (lm_cfg l) + lc_refillPerSec (lm_cfg l) * of_int (t1 - t0) / 1000"
proof -
  have b: "lm_buckets l = []" using assms(1) by (auto simp: new_limiter_def Let_def split: if_splits)
  have "of_nat (0 + granted key rs l) \<le> lc_capacity (lm_cfg l) + lc_refillPerSec (lm_cfg l) * of_int (t1 - t0) / 1000"
    by (rule granted_bound [where K = "fst ` set rs"])
      (use assms b limiter_inv_new [OF assms(1)] in \<open>auto simp: account_def\<close>)
  then show ?thesis by simp
qed

theorem grants_bounded_witness:
  "\<exists>l. new_limiter (Some 2) (Some 1) None None = Inr l \<and>
     of_nat (granted ''ip'' [(''ip'', 0), (''ip'', 1), (''ip'', 2), (''other'', 5), (''ip'', 500)] l) \<le> (2 :: rat) + 1 / 2"
proof -
  obtain l where l: "new_limiter (Some 2) (Some 1) None None = Inr l"
    by (simp add: new_limiter_def DEFAULT_RATE_LIMITER_CONFIG_def Let_def)
  then have "lc_capacity (lm_cfg l) = 2" "lc_refillPerSec (lm_cfg l) = 1" "lc_maxEntries (lm_cfg l) = 10000"
    by (auto simp: new_limiter_def DEFAULT_RATE_LIMITER_CONFIG_def Let_def)
  with grants_bounded [OF l, of "[(''ip'', 0), (''ip'', 1), (''ip'', 2), (''other'', 5), (''ip'', 500)]" "''ip''" 0 500] l
  show ?thesis by (auto simp: card_insert_if)
qed

text \<open>The map of buckets never outgrows \<open>maxEntries\<close>, keeps one bucket per address, and every
  bucket holds between no and \<open>capacity\<close> tokens, after any requests.\<close>

theorem buckets_bounded:
  assumes "new_limiter c r e tr = Inr l0"
  shows "limiter_inv (foldl (\<lambda>l q. snd (consume (fst q) (snd q) l)) l0 rs)
    \<and> int (limiter_size (foldl (\<lambda>l q. snd (consume (fst q) (snd q) l)) l0 rs)) \<le>
        lc_maxEntries (lm_cfg (foldl (\<lambda>l q. snd (consume (fst q) (snd q) l)) l0 rs))"
  using limiter.run_inv [OF limiter_inv_new [OF assms], of rs]
  by (simp add: limiter_inv_def limiter_size_def)

theorem buckets_bounded_witness:
  "\<exists>l0. new_limiter None None (Some 2) None = Inr l0 \<and>
     limiter_inv (foldl (\<lambda>l q. snd (consume (fst q) (snd q) l)) l0 [(''a'', 1), (''b'', 2), (''c'', 3)])"
proof -
  obtain l0 where l: "new_limiter None None (Some 2) None = Inr l0"
    by (simp add: new_limiter_def DEFAULT_RATE_LIMITER_CONFIG_def Let_def)
  with buckets_bounded [OF l] show ?thesis by blast
qed

text \<open>The retry hint is honest. With a capacity of at least one, a refused client that asks again
  \<open>retryAfterS\<close> seconds later, with nothing in between, is granted.\<close>

theorem retry_after_suffices:
  assumes "limiter_inv l" and "1 \<le> lc_capacity (lm_cfg l)" and "\<not> dec_allowed (fst (consume key now l))"
    and "bk_lastRefillMs (bucket_of key now l) \<le> now"
    and "later = now + 1000 * dec_retryAfterS (fst (consume key now l))"
  shows "0 < dec_retryAfterS (fst (consume key now l))
    \<and> dec_allowed (fst (consume key later (snd (consume key now l))))"
proof -
  let ?c = "lm_cfg l"
  define b where "b = refill ?c now (bucket_of key now l)"
  have pos: "0 < lc_refillPerSec ?c" using assms(1) by (simp add: limiter_inv_def cfg_ok_def)
  have b1: "\<not> 1 \<le> bk_tokens b"
    using assms(3) by (simp add: consume_unfold Let_def decide_allowed b_def)
  have last: "bk_lastRefillMs b = now" using assms(4) by (auto simp: b_def refill_def Let_def)
  define s where "s = dec_retryAfterS (fst (consume key now l))"
  have s: "s = max 1 \<lceil>(1 - bk_tokens b) / lc_refillPerSec ?c\<rceil>"
    using b1 by (simp add: s_def consume_unfold Let_def decide_def b_def)
  have "(1 - bk_tokens b) / lc_refillPerSec ?c \<le> of_int \<lceil>(1 - bk_tokens b) / lc_refillPerSec ?c\<rceil>"
    by (rule le_of_int_ceiling)
  also have "\<dots> \<le> of_int s" using s by simp
  finally have "1 - bk_tokens b \<le> of_int s * lc_refillPerSec ?c" using pos by (simp add: field_simps)
  then have enough: "1 \<le> bk_tokens b + of_int (later - now) / 1000 * lc_refillPerSec ?c"
    using assms(5) by (simp add: s_def [symmetric])
  have nxt: "bucket_of key later (snd (consume key now l)) = b"
    using b1 by (simp add: bucket_of_def consume_bucket decide_bucket b_def)
  have spos: "0 < s" using s by simp
  then have "later > now" using assms(5) by (simp add: s_def [symmetric])
  then have "1 \<le> bk_tokens (refill ?c later b)"
    using enough last assms(2) by (simp add: refill_def Let_def)
  then show ?thesis
    using spos nxt by (simp add: s_def consume_unfold [of key later] Let_def decide_allowed consume_cfg)
qed

theorem retry_after_suffices_witness:
  "dec_allowed (fst (consume ''ip'' 1000 (snd (consume ''ip'' 0
     \<lparr>lm_cfg = \<lparr>lc_capacity = 1, lc_refillPerSec = 1, lc_maxEntries = 10\<rparr>, lm_trustProxy = False,
      lm_buckets = [(''ip'', \<lparr>bk_tokens = 0, bk_lastRefillMs = 0\<rparr>)]\<rparr>))))"
proof -
  let ?l = "\<lparr>lm_cfg = \<lparr>lc_capacity = 1, lc_refillPerSec = 1, lc_maxEntries = 10\<rparr>, lm_trustProxy = False,
      lm_buckets = [(''ip'', \<lparr>bk_tokens = 0, bk_lastRefillMs = 0\<rparr>)]\<rparr>"
  have d: "fst (consume ''ip'' 0 ?l) = \<lparr>dec_allowed = False, dec_remaining = 0, dec_retryAfterS = 1\<rparr>"
    by (simp add: consume_unfold bucket_of_def refill_def decide_def Let_def)
  have "limiter_inv ?l" by (auto simp: limiter_inv_def cfg_ok_def bucket_ok_def split: if_splits)
  from retry_after_suffices [OF this, of "''ip''" 0 1000] d show ?thesis by (simp add: bucket_of_def)
qed

end
