(* ===== verification/Chairs.thy ===== *)
theory Chairs
  imports Kovael_Prelude
begin

text \<open>
  \<open>src/src/services/ChairRegistry.ts\<close>: who holds which chair. The claims live in an
  insertion-ordered map and, when a database is attached, in the table \<open>chair_claims\<close>
  (one row per \<open>agent_id\<close>, its primary key). \<open>uuid\<close> is the value \<open>crypto.randomUUID()\<close>
  returns to the call. The text column of the capabilities holds what \<open>JSON.stringify\<close>
  wrote, or text that \<open>JSON.parse\<close> refuses.
\<close>

section \<open>Data\<close>

datatype ChairStatus = Online | Stale | Offline

fun show_ChairStatus :: "ChairStatus \<Rightarrow> string" where
  "show_ChairStatus Online = ''online''"
| "show_ChairStatus Stale = ''stale''"
| "show_ChairStatus Offline = ''offline''"

record ChairClaim =
  ch_agentId :: string
  ch_sessionId :: string
  ch_provider :: string
  ch_capabilities :: "string list"
  ch_trustTier :: int
  ch_claimedAt :: int
  ch_lastBeaconAt :: int
  ch_status :: ChairStatus
  ch_host :: "string option"
  ch_note :: "string option"
  ch_inboxUrl :: "string option"

datatype ChairEventKind = EvClaimed | EvHeartbeat | EvReleased | EvStale | EvExpired

record ChairEvent =
  ev_kind :: ChairEventKind
  ev_agentId :: string
  ev_sessionId :: string
  ev_status :: ChairStatus
  ev_timestamp :: int
  ev_chair :: "ChairClaim option"
  ev_reason :: "string option"

record ChairRegistryConfig =
  reg_healthyMs :: int
  reg_offlineMs :: int
  reg_sweepIntervalMs :: int

definition DEFAULT_CHAIR_REGISTRY_CONFIG :: ChairRegistryConfig where
  "DEFAULT_CHAIR_REGISTRY_CONFIG =
     \<lparr>reg_healthyMs = 15000, reg_offlineMs = 30000, reg_sweepIntervalMs = 2500\<rparr>"

datatype json_text = JsonStrings "string list" | BadJson string

record ChairRow =
  row_session_id :: string
  row_provider :: string
  row_capabilities :: json_text
  row_trust_tier :: int
  row_claimed_at :: int
  row_last_beacon_at :: int
  row_status :: ChairStatus
  row_host :: "string option"
  row_note :: "string option"
  row_inbox_url :: "string option"

record ChairRegistry =
  reg_cfg :: ChairRegistryConfig
  chairs :: "(string, ChairClaim) omap"
  reg_sweeper :: bool
  reg_db :: "(string, ChairRow) omap option"
  chair_events :: "ChairEvent list"

record ChairClaimInput =
  in_agentId :: string
  in_provider :: string
  in_capabilities :: "string list option"
  in_trustTier :: "int option"
  in_host :: "string option"
  in_note :: "string option"
  in_inboxUrl :: "string option"

section \<open>Persistence\<close>

definition row_of :: "ChairClaim \<Rightarrow> ChairRow" where
  "row_of c =
     \<lparr>row_session_id = ch_sessionId c, row_provider = ch_provider c,
      row_capabilities = JsonStrings (ch_capabilities c), row_trust_tier = ch_trustTier c,
      row_claimed_at = ch_claimedAt c, row_last_beacon_at = ch_lastBeaconAt c,
      row_status = ch_status c, row_host = ch_host c, row_note = ch_note c,
      row_inbox_url = ch_inboxUrl c\<rparr>"

fun parse_capabilities :: "json_text \<Rightarrow> string list" where
  "parse_capabilities (JsonStrings cs) = cs"
| "parse_capabilities (BadJson _) = []"

definition claim_of_row :: "string \<Rightarrow> ChairRow \<Rightarrow> ChairClaim" where
  "claim_of_row a row =
     \<lparr>ch_agentId = a, ch_sessionId = row_session_id row, ch_provider = row_provider row,
      ch_capabilities = parse_capabilities (row_capabilities row), ch_trustTier = row_trust_tier row,
      ch_claimedAt = row_claimed_at row, ch_lastBeaconAt = row_last_beacon_at row, ch_status = Stale,
      ch_host = row_host row, ch_note = row_note row, ch_inboxUrl = row_inbox_url row\<rparr>"

definition persist :: "ChairClaim \<Rightarrow> ChairRegistry \<Rightarrow> ChairRegistry" where
  "persist c s = s\<lparr>reg_db := map_option (om_set (ch_agentId c) (row_of c)) (reg_db s)\<rparr>"

definition erase :: "string \<Rightarrow> ChairRegistry \<Rightarrow> ChairRegistry" where
  "erase a s = s\<lparr>reg_db := map_option (om_delete a) (reg_db s)\<rparr>"

definition set_chair :: "ChairClaim \<Rightarrow> ChairRegistry \<Rightarrow> ChairRegistry" where
  "set_chair c s = s\<lparr>chairs := om_set (ch_agentId c) c (chairs s)\<rparr>"

definition emit_chair :: "ChairEvent \<Rightarrow> ChairRegistry \<Rightarrow> ChairRegistry" where
  "emit_chair e s = s\<lparr>chair_events := chair_events s @ [e]\<rparr>"

definition hydrate_row :: "int \<Rightarrow> ChairRegistry \<Rightarrow> string \<times> ChairRow \<Rightarrow> ChairRegistry" where
  "hydrate_row now s p =
     (case p of (a, row) \<Rightarrow>
        if row_last_beacon_at row < now - reg_offlineMs (reg_cfg s) then erase a s
        else let c = claim_of_row a row in persist c (set_chair c s))"

definition hydrate :: "int \<Rightarrow> ChairRegistry \<Rightarrow> ChairRegistry" where
  "hydrate now s = (case reg_db s of None \<Rightarrow> s | Some rows \<Rightarrow> foldl (hydrate_row now) s rows)"

definition new_registry :: "int \<Rightarrow> ChairRegistryConfig \<Rightarrow> (string, ChairRow) omap option \<Rightarrow> ChairRegistry" where
  "new_registry now cfg db = hydrate now
     \<lparr>reg_cfg = cfg, chairs = [], reg_sweeper = False, reg_db = db, chair_events = []\<rparr>"

section \<open>Operations\<close>

definition reg_start :: "ChairRegistry \<Rightarrow> ChairRegistry" where
  "reg_start s = (if reg_sweeper s then s else s\<lparr>reg_sweeper := True\<rparr>)"

definition reg_stop :: "ChairRegistry \<Rightarrow> ChairRegistry" where
  "reg_stop s = (if reg_sweeper s then s\<lparr>reg_sweeper := False\<rparr> else s)"

definition claim_chair :: "int \<Rightarrow> string \<Rightarrow> ChairClaimInput \<Rightarrow> ChairRegistry \<Rightarrow> ChairClaim \<times> ChairRegistry" where
  "claim_chair now uuid inp s =
     (let s1 = (case om_get (chairs s) (in_agentId inp) of
          None \<Rightarrow> s
        | Some existing \<Rightarrow> emit_chair
            \<lparr>ev_kind = EvReleased, ev_agentId = ch_agentId existing, ev_sessionId = ch_sessionId existing,
             ev_status = Offline, ev_timestamp = now, ev_chair = None,
             ev_reason = Some ''superseded_by_new_claim''\<rparr> s);
        c = \<lparr>ch_agentId = in_agentId inp, ch_sessionId = uuid, ch_provider = in_provider inp,
             ch_capabilities = case_option [] id (in_capabilities inp),
             ch_trustTier = case_option 3 id (in_trustTier inp), ch_claimedAt = now,
             ch_lastBeaconAt = now, ch_status = Online, ch_host = in_host inp, ch_note = in_note inp,
             ch_inboxUrl = in_inboxUrl inp\<rparr>
      in (c, emit_chair
            \<lparr>ev_kind = EvClaimed, ev_agentId = ch_agentId c, ev_sessionId = ch_sessionId c,
             ev_status = ch_status c, ev_timestamp = now, ev_chair = Some c, ev_reason = None\<rparr>
            (persist c (set_chair c s1))))"

definition heartbeat :: "int \<Rightarrow> string \<Rightarrow> string \<Rightarrow> string option \<Rightarrow> ChairRegistry \<Rightarrow>
    ChairClaim option \<times> ChairRegistry" where
  "heartbeat now a sid note s =
     (case om_get (chairs s) a of
        None \<Rightarrow> (None, s)
      | Some chair \<Rightarrow>
          if ch_sessionId chair \<noteq> sid then (None, s)
          else
            let c1 = chair\<lparr>ch_lastBeaconAt := now\<rparr>;
                c2 = (if note \<noteq> None then c1\<lparr>ch_note := note\<rparr> else c1);
                previous = ch_status c2;
                c3 = c2\<lparr>ch_status := Online\<rparr>
            in (Some c3, emit_chair
                 \<lparr>ev_kind = (if previous = Online then EvHeartbeat else EvClaimed),
                  ev_agentId = ch_agentId c3, ev_sessionId = ch_sessionId c3, ev_status = ch_status c3,
                  ev_timestamp = now, ev_chair = Some c3,
                  ev_reason = (if previous \<noteq> Online then Some (''revived_from_'' @ show_ChairStatus previous) else None)\<rparr>
                 (persist c3 (set_chair c3 s))))"

definition release_chair :: "int \<Rightarrow> string \<Rightarrow> string \<Rightarrow> string \<Rightarrow> ChairRegistry \<Rightarrow> bool \<times> ChairRegistry" where
  "release_chair now a sid reason s =
     (case om_get (chairs s) a of
        None \<Rightarrow> (False, s)
      | Some chair \<Rightarrow>
          if ch_sessionId chair \<noteq> sid then (False, s)
          else (True, emit_chair
                 \<lparr>ev_kind = EvReleased, ev_agentId = a, ev_sessionId = sid, ev_status = Offline,
                  ev_timestamp = now, ev_chair = None, ev_reason = Some reason\<rparr>
                 (erase a (s\<lparr>chairs := om_delete a (chairs s)\<rparr>))))"

definition chairs_snapshot :: "ChairRegistry \<Rightarrow> ChairClaim list" where
  "chairs_snapshot s = om_values (chairs s)"

definition chair_get :: "string \<Rightarrow> ChairRegistry \<Rightarrow> ChairClaim option" where
  "chair_get a s = om_get (chairs s) a"

definition sweep_chair :: "int \<Rightarrow> ChairRegistry \<Rightarrow> ChairClaim \<Rightarrow> ChairRegistry" where
  "sweep_chair now s c =
     (let age = now - ch_lastBeaconAt c in
      if age \<ge> reg_offlineMs (reg_cfg s) then
        emit_chair \<lparr>ev_kind = EvExpired, ev_agentId = ch_agentId c, ev_sessionId = ch_sessionId c,
                    ev_status = Offline, ev_timestamp = now, ev_chair = None,
                    ev_reason = Some (''ttl_exceeded:age_ms='' @ show_int age)\<rparr>
          (erase (ch_agentId c) (s\<lparr>chairs := om_delete (ch_agentId c) (chairs s)\<rparr>))
      else if age \<ge> reg_healthyMs (reg_cfg s) \<and> ch_status c \<noteq> Stale then
        let c1 = c\<lparr>ch_status := Stale\<rparr> in
        emit_chair \<lparr>ev_kind = EvStale, ev_agentId = ch_agentId c1, ev_sessionId = ch_sessionId c1,
                    ev_status = Stale, ev_timestamp = now, ev_chair = Some c1,
                    ev_reason = Some (''beacon_age_ms='' @ show_int age)\<rparr>
          (persist c1 (set_chair c1 s))
      else s)"

definition chairs_sweep :: "int \<Rightarrow> ChairRegistry \<Rightarrow> ChairRegistry" where
  "chairs_sweep now s = foldl (sweep_chair now) s (om_values (chairs s))"

definition chairs_stats :: "ChairRegistry \<Rightarrow> nat \<times> nat \<times> nat" where
  "chairs_stats s = (length (chairs s),
     length (filter (\<lambda>c. ch_status c = Online) (om_values (chairs s))),
     length (filter (\<lambda>c. ch_status c = Stale) (om_values (chairs s))))"

datatype ChairOp =
    ChClaim int string ChairClaimInput
  | ChHeartbeat int string string "string option"
  | ChRelease int string string string
  | ChSweep int

fun chair_step :: "ChairRegistry \<Rightarrow> ChairOp \<Rightarrow> ChairRegistry" where
  "chair_step s (ChClaim now uuid inp) = snd (claim_chair now uuid inp s)"
| "chair_step s (ChHeartbeat now a sid note) = snd (heartbeat now a sid note s)"
| "chair_step s (ChRelease now a sid reason) = snd (release_chair now a sid reason s)"
| "chair_step s (ChSweep now) = chairs_sweep now s"

section \<open>The registry and its table\<close>

text \<open>
  The invariant: one claim per agent, under its own id, never stored as offline, and the
  table, when there is one, holds exactly the rows of the claims.
\<close>

definition mirrored :: "(string, ChairClaim) omap \<Rightarrow> (string, ChairRow) omap \<Rightarrow> bool" where
  "mirrored cs d \<longleftrightarrow> om_wf d \<and> (\<forall>a. om_get d a = map_option row_of (om_get cs a))"

definition registry_inv :: "ChairRegistry \<Rightarrow> bool" where
  "registry_inv s \<longleftrightarrow> om_wf (chairs s)
     \<and> (\<forall>a c. om_get (chairs s) a = Some c \<longrightarrow> ch_agentId c = a \<and> ch_status c \<noteq> Offline)
     \<and> pred_option (mirrored (chairs s)) (reg_db s)"

lemma registry_inv_put:
  assumes "registry_inv s" and "ch_status c \<noteq> Offline"
  shows "registry_inv (persist c (set_chair c s))"
  using assms
  by (auto simp: registry_inv_def persist_def set_chair_def mirrored_def option.pred_map comp_def
      intro!: om_wf_set elim!: option.pred_mono_strong)

lemma registry_inv_remove:
  assumes "registry_inv s"
  shows "registry_inv (erase a (s\<lparr>chairs := om_delete a (chairs s)\<rparr>))"
  using assms
  by (auto simp: registry_inv_def erase_def mirrored_def option.pred_map comp_def
      intro!: om_wf_delete elim!: option.pred_mono_strong split: if_splits)

lemma registry_inv_emit: "registry_inv (emit_chair e s) = registry_inv s"
  by (simp add: registry_inv_def emit_chair_def)

lemma registry_inv_claim: "registry_inv s \<Longrightarrow> registry_inv (snd (claim_chair now uuid inp s))"
  by (auto simp: claim_chair_def Let_def registry_inv_emit intro!: registry_inv_put split: option.split)

lemma registry_inv_heartbeat: "registry_inv s \<Longrightarrow> registry_inv (snd (heartbeat now a sid note s))"
  by (auto simp: heartbeat_def Let_def registry_inv_emit intro!: registry_inv_put split: option.split)

lemma registry_inv_release: "registry_inv s \<Longrightarrow> registry_inv (snd (release_chair now a sid r s))"
  by (auto simp: release_chair_def registry_inv_emit registry_inv_remove split: option.split)

lemma registry_inv_sweep_chair: "registry_inv s \<Longrightarrow> registry_inv (sweep_chair now s c)"
  by (auto simp: sweep_chair_def Let_def registry_inv_emit registry_inv_remove intro!: registry_inv_put)

lemma registry_inv_sweep: "registry_inv s \<Longrightarrow> registry_inv (chairs_sweep now s)"
proof -
  have "registry_inv s \<Longrightarrow> registry_inv (foldl (sweep_chair now) s cs)" for cs
    by (induction cs arbitrary: s) (simp_all add: registry_inv_sweep_chair)
  then show "registry_inv s \<Longrightarrow> registry_inv (chairs_sweep now s)" by (simp add: chairs_sweep_def)
qed

interpretation registry: guarded_system chair_step registry_inv
proof
  fix s :: ChairRegistry and e :: ChairOp
  assume "registry_inv s"
  then show "registry_inv (chair_step s e)"
    by (cases e) (simp_all add: registry_inv_claim registry_inv_heartbeat registry_inv_release registry_inv_sweep)
qed

section \<open>Sweeping and hydrating, row by row\<close>

definition swept :: "ChairRegistryConfig \<Rightarrow> int \<Rightarrow> ChairClaim \<Rightarrow> ChairClaim option" where
  "swept cfg now c =
     (if reg_offlineMs cfg \<le> now - ch_lastBeaconAt c then None
      else if reg_healthyMs cfg \<le> now - ch_lastBeaconAt c then Some (c\<lparr>ch_status := Stale\<rparr>)
      else Some c)"

lemma sweep_chair_effect:
  assumes "om_get (chairs s) (ch_agentId c) = Some c"
  shows "om_get (chairs (sweep_chair now s c)) a =
      (if a = ch_agentId c then swept (reg_cfg s) now c else om_get (chairs s) a)"
    and "reg_cfg (sweep_chair now s c) = reg_cfg s"
  using assms
  by (auto simp: sweep_chair_def swept_def Let_def emit_chair_def erase_def persist_def set_chair_def)

lemma sweep_all_chairs:
  assumes "distinct (map ch_agentId cs)"
    and "\<And>c. c \<in> set cs \<Longrightarrow> om_get (chairs s) (ch_agentId c) = Some c"
  shows "om_get (chairs (foldl (sweep_chair now) s cs)) a =
      (if a \<in> ch_agentId ` set cs then Option.bind (om_get (chairs s) a) (swept (reg_cfg s) now)
       else om_get (chairs s) a)"
  using assms
proof (induction cs arbitrary: s)
  case Nil
  then show ?case by simp
next
  case (Cons c cs)
  have c: "om_get (chairs s) (ch_agentId c) = Some c" using Cons.prems(2) by simp
  note eff = sweep_chair_effect [OF c, of now]
  have ne: "ch_agentId c' \<noteq> ch_agentId c" if "c' \<in> set cs" for c'
    using Cons.prems(1) that by (auto simp: image_iff)
  have IH: "om_get (chairs (foldl (sweep_chair now) (sweep_chair now s c) cs)) a =
      (if a \<in> ch_agentId ` set cs
       then Option.bind (om_get (chairs (sweep_chair now s c)) a) (swept (reg_cfg (sweep_chair now s c)) now)
       else om_get (chairs (sweep_chair now s c)) a)"
    by (rule Cons.IH) (use Cons.prems ne in \<open>auto simp: eff\<close>)
  show ?case
    using c IH Cons.prems(1) by (cases "a = ch_agentId c") (auto simp: eff)
qed

lemma registry_values:
  assumes "registry_inv s"
  shows "map ch_agentId (om_values (chairs s)) = om_keys (chairs s)"
    and "c \<in> set (om_values (chairs s)) \<Longrightarrow> om_get (chairs s) (ch_agentId c) = Some c"
proof -
  have key: "ch_agentId c = a" if "(a, c) \<in> set (chairs s)" for a c
    using assms that by (simp add: registry_inv_def map_of_eq_Some_iff)
  then show "map ch_agentId (om_values (chairs s)) = om_keys (chairs s)" by auto
  show "c \<in> set (om_values (chairs s)) \<Longrightarrow> om_get (chairs s) (ch_agentId c) = Some c"
    using assms key by (auto simp: registry_inv_def map_of_eq_Some_iff)
qed

lemma sweep_get:
  assumes "registry_inv s"
  shows "om_get (chairs (chairs_sweep now s)) a = Option.bind (om_get (chairs s) a) (swept (reg_cfg s) now)"
proof -
  have "om_get (chairs s) a = None" if "a \<notin> ch_agentId ` set (om_values (chairs s))"
  proof -
    have "set (map ch_agentId (om_values (chairs s))) = fst ` set (chairs s)"
      using registry_values(1) [OF assms] by simp
    with that show ?thesis by (metis map_of_eq_None_iff set_map)
  qed
  moreover have "distinct (map ch_agentId (om_values (chairs s)))"
    unfolding registry_values(1) [OF assms] using assms by (simp add: registry_inv_def)
  ultimately show ?thesis
    using sweep_all_chairs [of "om_values (chairs s)" s now a] registry_values(2) [OF assms]
    by (auto simp: chairs_sweep_def)
qed

definition revived :: "ChairRegistryConfig \<Rightarrow> int \<Rightarrow> string \<Rightarrow> ChairRow \<Rightarrow> ChairClaim option" where
  "revived cfg now a row =
     (if row_last_beacon_at row < now - reg_offlineMs cfg then None else Some (claim_of_row a row))"

lemma hydrate_row_effect:
  "om_get (chairs (hydrate_row now s (a, row))) b =
     (if b = a then (case revived (reg_cfg s) now a row of Some c \<Rightarrow> Some c | None \<Rightarrow> om_get (chairs s) a)
      else om_get (chairs s) b)"
  "reg_cfg (hydrate_row now s (a, row)) = reg_cfg s"
  "reg_db s = Some d \<Longrightarrow> \<exists>d'. reg_db (hydrate_row now s (a, row)) = Some d' \<and> (om_wf d \<longrightarrow> om_wf d') \<and>
     om_get d' = (om_get d)(a := map_option row_of (revived (reg_cfg s) now a row))"
  by (auto simp: hydrate_row_def revived_def Let_def erase_def persist_def set_chair_def claim_of_row_def
      intro!: om_wf_set om_wf_delete)

lemma hydrate_rows:
  assumes "om_wf rows" and "\<forall>a \<in> fst ` set rows. om_get (chairs s) a = None" and "reg_db s = Some d" and "om_wf d"
  shows "\<exists>d'. reg_db (foldl (hydrate_row now) s rows) = Some d' \<and> om_wf d' \<and>
     (\<forall>a. om_get (chairs (foldl (hydrate_row now) s rows)) a =
        (case om_get rows a of None \<Rightarrow> om_get (chairs s) a | Some row \<Rightarrow> revived (reg_cfg s) now a row)) \<and>
     (\<forall>a. om_get d' a =
        (case om_get rows a of None \<Rightarrow> om_get d a
         | Some row \<Rightarrow> map_option row_of (revived (reg_cfg s) now a row)))"
  using assms
proof (induction rows arbitrary: s d)
  case Nil
  then show ?case by simp
next
  case (Cons p rows)
  obtain a row where p: "p = (a, row)" by force
  let ?s1 = "hydrate_row now s (a, row)"
  obtain d1 where d1: "reg_db ?s1 = Some d1" "om_wf d1"
      "om_get d1 = (om_get d)(a := map_option row_of (revived (reg_cfg s) now a row))"
    using hydrate_row_effect(3) [OF Cons.prems(3), of now a row] Cons.prems(4) by auto
  have notin: "om_get rows a = None" using Cons.prems(1) by (simp add: p map_of_eq_None_iff)
  have fresh: "\<forall>b \<in> fst ` set rows. om_get (chairs ?s1) b = None"
    using Cons.prems(1,2) by (force simp: p hydrate_row_effect(1))
  have wf: "om_wf rows" using Cons.prems(1) by (simp add: p)
  note IH = Cons.IH [OF wf fresh d1(1,2), unfolded hydrate_row_effect(2)]
  from IH obtain d' where d': "reg_db (foldl (hydrate_row now) ?s1 rows) = Some d'" "om_wf d'"
      "\<And>b. om_get (chairs (foldl (hydrate_row now) ?s1 rows)) b =
        (case om_get rows b of None \<Rightarrow> om_get (chairs ?s1) b | Some row \<Rightarrow> revived (reg_cfg s) now b row)"
      "\<And>b. om_get d' b = (case om_get rows b of None \<Rightarrow> om_get d1 b
         | Some row \<Rightarrow> map_option row_of (revived (reg_cfg s) now b row))"
    by blast
  have "om_get (chairs s) a = None" using Cons.prems(2) by (simp add: p)
  then show ?case
    by (intro exI [of _ d'] conjI allI)
      (use d' notin in \<open>simp_all add: p hydrate_row_effect d1(3) split: option.split\<close>)
qed

text \<open>What a restart makes of a claim that was in the table.\<close>

definition after_restart :: "ChairRegistryConfig \<Rightarrow> int \<Rightarrow> ChairClaim \<Rightarrow> ChairClaim option" where
  "after_restart cfg now c =
     (if ch_lastBeaconAt c < now - reg_offlineMs cfg then None else Some (c\<lparr>ch_status := Stale\<rparr>))"

lemma revived_row_of:
  "ch_agentId c = a \<Longrightarrow> revived cfg now a (row_of c) = after_restart cfg now c"
  by (cases c) (simp add: revived_def after_restart_def claim_of_row_def row_of_def)

section \<open>Sessions\<close>

definition not_session :: "string \<Rightarrow> string \<Rightarrow> ChairRegistry \<Rightarrow> bool" where
  "not_session a sid s \<longleftrightarrow> registry_inv s \<and> (\<forall>c. om_get (chairs s) a = Some c \<longrightarrow> ch_sessionId c \<noteq> sid)"

fun other_session :: "string \<Rightarrow> string \<Rightarrow> ChairOp \<Rightarrow> bool" where
  "other_session a sid (ChClaim now uuid inp) = (uuid \<noteq> sid)"
| "other_session a sid _ = True"

lemma not_session_claim:
  assumes "not_session a sid s" and "uuid \<noteq> sid"
  shows "not_session a sid (snd (claim_chair now uuid inp s))"
  using assms registry_inv_claim [of s now uuid inp]
  by (auto simp: not_session_def claim_chair_def Let_def emit_chair_def persist_def set_chair_def split: option.splits if_splits)

interpretation sessions: trapping_system chair_step "not_session a sid" "other_session a sid" for a sid
proof
  fix s :: ChairRegistry and e :: ChairOp
  assume ns: "not_session a sid s" and o: "other_session a sid e"
  have inv: "registry_inv s" using ns by (simp add: not_session_def)
  then have key: "ch_agentId c = b" if "om_get (chairs s) b = Some c" for b c
    using that by (simp add: registry_inv_def)
  show "not_session a sid (chair_step s e)"
  proof (cases e)
    case (ChClaim now uuid inp)
    then show ?thesis using ns o by (simp add: not_session_claim)
  next
    case (ChHeartbeat now b sd nt)
    then show ?thesis
      using ns registry_inv_heartbeat [OF inv, of now b sd nt]
      by (auto dest: key simp: not_session_def heartbeat_def Let_def emit_chair_def persist_def set_chair_def split: option.splits if_splits)
  next
    case (ChRelease now b sd r)
    then show ?thesis
      using ns registry_inv_release [OF inv, of now b sd r]
      by (auto simp: not_session_def release_chair_def emit_chair_def erase_def split: option.splits if_splits)
  next
    case (ChSweep now)
    have "ch_sessionId c = ch_sessionId c0" if "swept cfg now c0 = Some c" for c0 c cfg
      using that by (auto simp: swept_def split: if_splits)
    then show ?thesis
      using ns registry_inv_sweep [OF inv, of now] ChSweep
      by (fastforce simp: not_session_def sweep_get [OF inv] bind_eq_Some_conv)
  qed
qed

section \<open>Properties\<close>

text \<open>A sweep does to every chair what its age asks for: at \<open>offlineMs\<close> it is evicted, from
  \<open>healthyMs\<close> on it is stale, and otherwise it is left as it was; the table follows.\<close>

theorem sweep_by_age:
  assumes "registry_inv s"
  shows "om_get (chairs (chairs_sweep now s)) a = Option.bind (om_get (chairs s) a) (swept (reg_cfg s) now)
    \<and> registry_inv (chairs_sweep now s)"
  using sweep_get [OF assms] registry_inv_sweep [OF assms] by simp

theorem sweep_by_age_witness:
  "om_get (chairs (chairs_sweep 40000
      \<lparr>reg_cfg = DEFAULT_CHAIR_REGISTRY_CONFIG, chairs = [], reg_sweeper = True, reg_db = None, chair_events = []\<rparr>)) ''x'' = None"
proof -
  have "registry_inv \<lparr>reg_cfg = DEFAULT_CHAIR_REGISTRY_CONFIG, chairs = [], reg_sweeper = True, reg_db = None, chair_events = []\<rparr>"
    by (simp add: registry_inv_def)
  from sweep_by_age [OF this, of 40000 "''x''"] show ?thesis by simp
qed

text \<open>C4: stale sessions are fenced off. Once another session holds the chair, a heartbeat or a
  release with the old session id is refused and changes nothing, whatever calls come in between,
  as long as no later claim is given that id again.\<close>

theorem stale_session_fenced:
  assumes "registry_inv s" and "uuid \<noteq> sid" and "list_all (other_session (in_agentId inp) sid) es"
    and "s' = foldl chair_step (snd (claim_chair now uuid inp s)) es"
  shows "heartbeat t (in_agentId inp) sid note s' = (None, s')
    \<and> release_chair t (in_agentId inp) sid reason s' = (False, s')"
proof -
  have "not_session (in_agentId inp) sid (snd (claim_chair now uuid inp s))"
    using assms(1,2) registry_inv_claim [OF assms(1), of now uuid inp]
    by (auto simp: not_session_def claim_chair_def Let_def emit_chair_def persist_def set_chair_def split: option.splits)
  then have "not_session (in_agentId inp) sid s'"
    unfolding assms(4) by (rule sessions.run_trap) (rule assms(3))
  then show ?thesis
    by (auto simp: not_session_def heartbeat_def release_chair_def split: option.split)
qed

theorem stale_session_fenced_witness:
  "\<exists>s'. heartbeat 9 ''nyx'' ''old'' None s' = (None, s') \<and> chairs s' \<noteq> []"
proof -
  define inp where "inp = \<lparr>in_agentId = ''nyx'', in_provider = ''p'', in_capabilities = None, in_trustTier = None,
     in_host = None, in_note = None, in_inboxUrl = None\<rparr>"
  define s where "s = \<lparr>reg_cfg = DEFAULT_CHAIR_REGISTRY_CONFIG, chairs = [], reg_sweeper = True, reg_db = None, chair_events = []\<rparr>"
  have inv: "registry_inv s" by (simp add: registry_inv_def s_def)
  have agent: "in_agentId inp = ''nyx''" by (simp add: inp_def)
  from stale_session_fenced [OF inv, of "''new''" "''old''" inp "[]" _ 1 9 None "''r''"]
  have "heartbeat 9 ''nyx'' ''old'' None (snd (claim_chair 1 ''new'' inp s)) = (None, snd (claim_chair 1 ''new'' inp s))"
    by (simp add: agent)
  moreover have "chairs (snd (claim_chair 1 ''new'' inp s)) \<noteq> []"
    by (simp add: claim_chair_def Let_def emit_chair_def persist_def set_chair_def s_def)
  ultimately show ?thesis
    by blast
qed

text \<open>The table survives a restart. After any calls, opening a new registry on the table at time
  \<open>now\<close> brings back every claim whose last beacon is not older than \<open>offlineMs\<close>, unchanged but
  for its status, which is stale until it beats again; no other chair appears.\<close>

theorem restart_restores_claims:
  assumes "registry_inv s" and "reg_db s = Some d"
  shows "om_get (chairs (new_registry now cfg (Some d))) a = Option.bind (om_get (chairs s) a) (after_restart cfg now)"
proof -
  let ?s0 = "\<lparr>reg_cfg = cfg, chairs = [], reg_sweeper = False, reg_db = Some d, chair_events = []\<rparr> :: ChairRegistry"
  have d: "om_wf d" "om_get d b = map_option row_of (om_get (chairs s) b)" for b
    using assms by (auto simp: registry_inv_def mirrored_def)
  have "om_get (chairs (foldl (hydrate_row now) ?s0 d)) a =
      (case om_get d a of None \<Rightarrow> None | Some row \<Rightarrow> revived cfg now a row)"
    using hydrate_rows [of d ?s0 d now] d(1) by (auto split: option.splits)
  then show ?thesis
    using assms(1) d(2) [of a]
    by (cases "om_get (chairs s) a")
      (auto simp: new_registry_def hydrate_def registry_inv_def revived_row_of)
qed

theorem restart_restores_claims_witness:
  "om_get (chairs (new_registry 0 DEFAULT_CHAIR_REGISTRY_CONFIG (Some []))) ''x'' = None"
proof -
  have "registry_inv \<lparr>reg_cfg = DEFAULT_CHAIR_REGISTRY_CONFIG, chairs = [], reg_sweeper = True, reg_db = Some [], chair_events = []\<rparr>"
    by (simp add: registry_inv_def mirrored_def)
  from restart_restores_claims [OF this, of "[]" 0 DEFAULT_CHAIR_REGISTRY_CONFIG "''x''"] show ?thesis by simp
qed

end
