(* ===== verification/Consensus.thy ===== *)
theory Consensus
  imports Kovael_Prelude
begin

text \<open>
  \<open>src/src/services/ConsensusEngine.ts\<close>: the committee vote. Confidences and weights come in
  as JavaScript numbers and are clamped to finite ones. What is not under \<open>src/\<close> is a
  parameter: \<open>digest\<close> is the hexadecimal SHA-256 of a text, \<open>json\<close> the text
  \<open>JSON.stringify\<close> makes of the normalised votes and the trace parent, \<open>bytes\<close> the
  bytes of a SHA-256, \<open>uuid\<close> what \<open>crypto.randomUUID()\<close> returned.
\<close>

section \<open>Data\<close>

record TraceContextEnvelope =
  traceparent :: "string option"
  tracestate :: "string option"
  laneId :: "string option"
  te_mergeParentId :: "string option"

datatype CommitteeRole = Proponent | Critic | Judge

datatype Verdict = Approve | Reject | Abstain

record CommitteeVote =
  cv_agentId :: string
  cv_role :: CommitteeRole
  cv_verdict :: Verdict
  cv_confidence :: jsnum
  cv_weight :: "jsnum option"
  cv_rationale :: string
  cv_trace :: "TraceContextEnvelope option"

record NormalizedVote =
  nv_agentId :: string
  nv_role :: CommitteeRole
  nv_verdict :: Verdict
  nv_confidence :: rat
  nv_weight :: rat
  nv_rationale :: string
  nv_trace :: "TraceContextEnvelope option"

record CommitteeOptions =
  co_quorumThreshold :: "jsnum option"
  co_failureThreshold :: "jsnum option"
  co_sidecarCandidates :: "string list option"
  co_activeParticipants :: "string list option"
  co_traceparent :: "string option"
  co_tracestate :: "string option"

datatype CommitteeStatus = CommitteeAccepted | CommitteeFailed | NeedsSidecar

record CommitteeTrace =
  ct_traceparent :: "string option"
  ct_tracestate :: "string option"
  ct_mergeParentId :: string
  ct_lanes :: "TraceContextEnvelope list"

record CommitteeVerdict =
  vd_id :: string
  vd_status :: CommitteeStatus
  vd_quorumThreshold :: rat
  vd_failureThreshold :: rat
  vd_supportScore :: rat
  vd_confidenceMean :: rat
  vd_weightedVotes :: rat
  vd_approveWeight :: rat
  vd_rejectWeight :: rat
  vd_abstainWeight :: rat
  vd_dissent :: "NormalizedVote list"
  vd_sidecars :: "string list"
  vd_trace :: CommitteeTrace

definition DEFAULT_QUORUM :: jsnum where "DEFAULT_QUORUM = Num (85 / 100)"
definition DEFAULT_FAILURE :: jsnum where "DEFAULT_FAILURE = Num (1 / 2)"
definition MIN_QUORUM :: rat where "MIN_QUORUM = 6 / 10"
definition MIN_FAILURE :: rat where "MIN_FAILURE = 1 / 2"

section \<open>Numbers\<close>

definition clampRange :: "jsnum \<Rightarrow> rat \<Rightarrow> rat \<Rightarrow> rat" where
  "clampRange v lo hi = (case v of Num q \<Rightarrow> min hi (max lo q) | _ \<Rightarrow> lo)"

definition clamp01 :: "jsnum \<Rightarrow> rat" where
  "clamp01 v = clampRange v 0 1"

definition round4 :: "rat \<Rightarrow> rat" where
  "round4 q = of_int (js_round (q * 10000)) / 10000"

section \<open>Trace context\<close>

text \<open>\<open>TRACEPARENT_RE.exec\<close>: the three groups of a match.\<close>

definition traceparent_re :: "string \<Rightarrow> (string \<times> string \<times> string) option" where
  "traceparent_re s =
     (if length s = 55 \<and> take 3 s = ''00-'' \<and> list_all is_hex (take 32 (drop 3 s)) \<and> s ! 35 = CHR ''-''
         \<and> list_all is_hex (take 16 (drop 36 s)) \<and> s ! 52 = CHR ''-'' \<and> list_all is_hex (drop 53 s)
      then Some (take 32 (drop 3 s), take 16 (drop 36 s), drop 53 s) else None)"

definition all_zero :: "string \<Rightarrow> bool" where
  "all_zero s \<longleftrightarrow> s \<noteq> [] \<and> list_all (\<lambda>c. c = CHR ''0'') s"

definition sanitizeTraceparent :: "string option \<Rightarrow> string option" where
  "sanitizeTraceparent value =
     (case value of None \<Rightarrow> None
      | Some v \<Rightarrow>
          let trimmed = toLowerCase (trim v) in
          (case traceparent_re trimmed of None \<Rightarrow> None
           | Some (tid, sid, flags) \<Rightarrow> if all_zero tid \<or> all_zero sid then None else Some trimmed))"

definition sanitizeTracestate :: "string option \<Rightarrow> string option" where
  "sanitizeTracestate value =
     (case value of None \<Rightarrow> None
      | Some v \<Rightarrow>
          let trimmed = trim v in
          if trimmed = [] \<or> 512 < length trimmed \<or> list_ex (\<lambda>c. c = CHR 0x0D \<or> c = CHR 0x0A) trimmed then None
          else Some trimmed)"

definition makeLaneTraceparent :: "(string \<Rightarrow> string) \<Rightarrow> string option \<Rightarrow> string \<Rightarrow> nat \<Rightarrow> string option" where
  "makeLaneTraceparent digest parent mergeId index =
     (case parent of None \<Rightarrow> None
      | Some p \<Rightarrow>
          if p = [] then None
          else case traceparent_re p of None \<Rightarrow> None
          | Some (tid, _, flags) \<Rightarrow>
              let span = take 16 (digest (mergeId @ '':'' @ show_nat index));
                  span' = (if all_zero span then ''0000000000000001'' else span)
              in Some (''00-'' @ tid @ ''-'' @ span' @ ''-'' @ flags))"

section \<open>Votes\<close>

definition vote_by_agent :: "CommitteeVote list \<Rightarrow> (string, CommitteeVote) omap" where
  "vote_by_agent votes = foldl (\<lambda>m v. om_set (cv_agentId v) v m) [] votes"

definition missing_vote :: "nat \<Rightarrow> string \<Rightarrow> CommitteeVote" where
  "missing_vote index a =
     \<lparr>cv_agentId = a, cv_role = (if index = 0 then Proponent else Critic), cv_verdict = Abstain,
      cv_confidence = Num 0, cv_weight = Some (Num 1),
      cv_rationale = ''missing committee vote counted as abstain'', cv_trace = None\<rparr>"

definition completeParticipantVotes :: "CommitteeVote list \<Rightarrow> string list option \<Rightarrow> CommitteeVote list" where
  "completeParticipantVotes votes activeParticipants =
     (case activeParticipants of None \<Rightarrow> votes
      | Some ps \<Rightarrow>
          if ps = [] then votes
          else map (\<lambda>(index, a). case om_get (vote_by_agent votes) a of Some v \<Rightarrow> v | None \<Rightarrow> missing_vote index a)
                 (enumerate 0 ps)
               @ filter (\<lambda>v. cv_agentId v \<notin> set ps) votes)"

definition normalizeVote :: "CommitteeVote \<Rightarrow> NormalizedVote" where
  "normalizeVote v =
     \<lparr>nv_agentId = cv_agentId v, nv_role = cv_role v, nv_verdict = cv_verdict v,
      nv_confidence = clamp01 (cv_confidence v),
      nv_weight = max 0 (let w = case_option (Num 1) id (cv_weight v) in if isFinite w then fin_value w else 1),
      nv_rationale = take 500 (cv_rationale v), nv_trace = cv_trace v\<rparr>"

definition total_weight :: "NormalizedVote list \<Rightarrow> rat" where
  "total_weight vs = (\<Sum>v\<leftarrow>vs. nv_weight v)"

definition approve_weight :: "NormalizedVote list \<Rightarrow> rat" where
  "approve_weight vs = (\<Sum>v\<leftarrow>vs. if nv_verdict v = Approve then nv_weight v * nv_confidence v else 0)"

definition reject_weight :: "NormalizedVote list \<Rightarrow> rat" where
  "reject_weight vs = (\<Sum>v\<leftarrow>vs. if nv_verdict v = Reject then nv_weight v * nv_confidence v else 0)"

definition abstain_weight :: "NormalizedVote list \<Rightarrow> rat" where
  "abstain_weight vs = (\<Sum>v\<leftarrow>vs. if nv_verdict v = Abstain then nv_weight v else 0)"

definition support_score :: "NormalizedVote list \<Rightarrow> rat" where
  "support_score vs = (if total_weight vs = 0 then 0 else approve_weight vs / total_weight vs)"

definition confidence_mean :: "NormalizedVote list \<Rightarrow> rat" where
  "confidence_mean vs = (if vs = [] then 0 else (\<Sum>v\<leftarrow>vs. nv_confidence v) / of_nat (length vs))"

definition committee_status :: "rat \<Rightarrow> rat \<Rightarrow> NormalizedVote list \<Rightarrow> CommitteeStatus" where
  "committee_status quorum failure vs =
     (if support_score vs \<ge> quorum \<and> confidence_mean vs \<ge> quorum then CommitteeAccepted
      else if support_score vs < failure \<or> confidence_mean vs < failure then NeedsSidecar
      else CommitteeFailed)"

definition committee_lane :: "(string \<Rightarrow> string) \<Rightarrow> string option \<Rightarrow> string option \<Rightarrow> string \<Rightarrow> nat \<Rightarrow>
    NormalizedVote \<Rightarrow> TraceContextEnvelope" where
  "committee_lane digest tp ts mergeId index v =
     \<lparr>traceparent = makeLaneTraceparent digest
         (case sanitizeTraceparent (Option.bind (nv_trace v) traceparent) of Some p \<Rightarrow> Some p | None \<Rightarrow> tp)
         mergeId index,
      tracestate = (case sanitizeTracestate (Option.bind (nv_trace v) tracestate) of Some x \<Rightarrow> Some x | None \<Rightarrow> ts),
      laneId = Some (case Option.bind (nv_trace v) laneId of Some l \<Rightarrow> l
          | None \<Rightarrow> ''committee-lane-'' @ show_nat (index + 1)),
      te_mergeParentId = Some mergeId\<rparr>"

definition evaluateCommittee ::
    "(string \<Rightarrow> string) \<Rightarrow> (NormalizedVote list \<Rightarrow> string \<Rightarrow> string) \<Rightarrow> string \<Rightarrow>
     CommitteeVote list \<Rightarrow> CommitteeOptions \<Rightarrow> CommitteeVerdict" where
  "evaluateCommittee digest json uuid votes opts =
     (let quorum = clampRange (case_option DEFAULT_QUORUM id (co_quorumThreshold opts)) MIN_QUORUM 1;
          failure = clampRange (case_option DEFAULT_FAILURE id (co_failureThreshold opts)) MIN_FAILURE quorum;
          normalized = map normalizeVote (completeParticipantVotes votes (co_activeParticipants opts));
          status = committee_status quorum failure normalized;
          active = (case co_activeParticipants opts of Some ps \<Rightarrow> ps | None \<Rightarrow> map nv_agentId normalized);
          sidecars = (if status = NeedsSidecar
                      then take 2 (filter (\<lambda>c. c \<notin> set active) (case_option [] id (co_sidecarCandidates opts)))
                      else []);
          tp = sanitizeTraceparent (co_traceparent opts);
          ts = sanitizeTracestate (co_tracestate opts);
          mergeId = take 16 (digest (json normalized (case_option [] id tp)))
      in \<lparr>vd_id = uuid, vd_status = status, vd_quorumThreshold = quorum, vd_failureThreshold = failure,
          vd_supportScore = round4 (support_score normalized),
          vd_confidenceMean = round4 (confidence_mean normalized),
          vd_weightedVotes = round4 (total_weight normalized),
          vd_approveWeight = round4 (approve_weight normalized),
          vd_rejectWeight = round4 (reject_weight normalized),
          vd_abstainWeight = round4 (abstain_weight normalized),
          vd_dissent = filter (\<lambda>v. nv_verdict v \<noteq> Approve) normalized,
          vd_sidecars = sidecars,
          vd_trace = \<lparr>ct_traceparent = tp, ct_tracestate = ts, ct_mergeParentId = mergeId,
            ct_lanes = map (\<lambda>(index, v). committee_lane digest tp ts mergeId index v) (enumerate 0 normalized)\<rparr>\<rparr>)"

definition synthesizeVotes :: "(string \<Rightarrow> nat list) \<Rightarrow> string \<Rightarrow> string list \<Rightarrow> string option \<Rightarrow>
    string option \<Rightarrow> CommitteeVote list" where
  "synthesizeVotes bytes goal participants tp ts =
     (let parent = sanitizeTraceparent tp; state = sanitizeTracestate ts in
      map (\<lambda>(index, a).
        let hash = bytes (goal @ '':'' @ a @ '':'' @ show_nat index);
            confidence = 62 / 100 + (of_nat (hash ! 0) / 255) * (34 / 100);
            approve = (48 \<le> hash ! 1)
        in \<lparr>cv_agentId = a,
            cv_role = (if index = 0 then Proponent else if index = length participants - 1 then Judge else Critic),
            cv_verdict = (if approve then Approve else Reject),
            cv_confidence = Num (round4 confidence),
            cv_weight = Some (Num (if index = length participants - 1 then 135 / 100 else 1)),
            cv_rationale = (if approve then ''proposal clears local evidence gate''
                            else ''dissent retained for verifier review''),
            cv_trace = Some \<lparr>traceparent = parent, tracestate = state,
               laneId = Some (''committee-lane-'' @ show_nat (index + 1)), te_mergeParentId = None\<rparr>\<rparr>)
        (enumerate 0 participants))"

section \<open>Weights and scores\<close>

definition counted :: "CommitteeVote list \<Rightarrow> CommitteeOptions \<Rightarrow> NormalizedVote list" where
  "counted votes opts = map normalizeVote (completeParticipantVotes votes (co_activeParticipants opts))"

definition sane_vote :: "NormalizedVote \<Rightarrow> bool" where
  "sane_vote v \<longleftrightarrow> 0 \<le> nv_weight v \<and> 0 \<le> nv_confidence v \<and> nv_confidence v \<le> 1"

lemma clampRange_bounds: "lo \<le> hi \<Longrightarrow> lo \<le> clampRange v lo hi \<and> clampRange v lo hi \<le> hi"
  by (auto simp: clampRange_def split: jsnum.split)

lemma sane_normalizeVote: "sane_vote (normalizeVote v)"
  using clampRange_bounds [of 0 1 "cv_confidence v"] by (simp add: sane_vote_def normalizeVote_def clamp01_def)

lemma sane_counted: "v \<in> set (counted votes opts) \<Longrightarrow> sane_vote v"
  by (auto simp: counted_def sane_normalizeVote)

lemma weights_nonneg:
  assumes "\<And>v. v \<in> set vs \<Longrightarrow> sane_vote v"
  shows "0 \<le> approve_weight vs" and "0 \<le> reject_weight vs" and "0 \<le> abstain_weight vs" and "0 \<le> total_weight vs"
  using assms
  by (auto simp: approve_weight_def reject_weight_def abstain_weight_def total_weight_def sane_vote_def
      intro!: sum_list_nonneg)

lemma weights_add_up:
  assumes "\<And>v. v \<in> set vs \<Longrightarrow> sane_vote v"
  shows "approve_weight vs + reject_weight vs + abstain_weight vs \<le> total_weight vs"
  using assms
proof (induction vs)
  case Nil
  then show ?case by (simp add: approve_weight_def reject_weight_def abstain_weight_def total_weight_def)
next
  case (Cons v vs)
  have "nv_weight v * nv_confidence v \<le> nv_weight v" and "0 \<le> nv_weight v"
    using Cons.prems [of v] by (auto simp: sane_vote_def mult_left_le)
  moreover have "approve_weight vs + reject_weight vs + abstain_weight vs \<le> total_weight vs"
    using Cons by simp
  ultimately show ?case
    by (cases "nv_verdict v") (simp_all add: approve_weight_def reject_weight_def abstain_weight_def total_weight_def)
qed

lemma support_bounds:
  assumes "\<And>v. v \<in> set vs \<Longrightarrow> sane_vote v"
  shows "0 \<le> support_score vs \<and> support_score vs \<le> 1"
proof -
  have "0 \<le> approve_weight vs" and "0 \<le> total_weight vs" by (rule weights_nonneg; rule assms; assumption)+
  moreover have "0 \<le> reject_weight vs" and "0 \<le> abstain_weight vs" by (rule weights_nonneg; rule assms; assumption)+
  moreover have "approve_weight vs + reject_weight vs + abstain_weight vs \<le> total_weight vs"
    by (rule weights_add_up) (rule assms)
  ultimately have "0 \<le> approve_weight vs" "0 \<le> total_weight vs" "approve_weight vs \<le> total_weight vs" by linarith+
  then show ?thesis by (simp add: support_score_def divide_le_eq)
qed

lemma confidence_sum_bound:
  assumes "\<And>v. v \<in> set vs \<Longrightarrow> sane_vote v"
  shows "(\<Sum>v\<leftarrow>vs. nv_confidence v) \<le> of_nat (length (filter (\<lambda>v. nv_confidence v \<noteq> 0) vs))"
  using assms by (induction vs) (auto simp: sane_vote_def add_mono)

lemma mean_bounds:
  assumes "\<And>v. v \<in> set vs \<Longrightarrow> sane_vote v"
  shows "0 \<le> confidence_mean vs \<and> confidence_mean vs \<le> 1"
proof -
  have "(of_nat (length (filter (\<lambda>v. nv_confidence v \<noteq> 0) vs)) :: rat) \<le> of_nat (length vs)"
    by (simp add: length_filter_le)
  moreover have "0 \<le> (\<Sum>v\<leftarrow>vs. nv_confidence v)" using assms by (auto simp: sane_vote_def intro!: sum_list_nonneg)
  moreover have "(\<Sum>v\<leftarrow>vs. nv_confidence v) \<le> of_nat (length (filter (\<lambda>v. nv_confidence v \<noteq> 0) vs))"
    by (rule confidence_sum_bound) (rule assms)
  ultimately have "(\<Sum>v\<leftarrow>vs. nv_confidence v) \<le> of_nat (length vs)" "0 \<le> (\<Sum>v\<leftarrow>vs. nv_confidence v)" by linarith+
  then show ?thesis by (simp add: confidence_mean_def divide_le_eq)
qed

lemma round4_bounds: "0 \<le> q \<Longrightarrow> q \<le> 1 \<Longrightarrow> 0 \<le> round4 q \<and> round4 q \<le> 1"
  unfolding round4_def js_round_def by (simp add: le_floor_iff floor_le_iff)

lemma quorum_bounds:
  "MIN_QUORUM \<le> clampRange q MIN_QUORUM 1 \<and> clampRange q MIN_QUORUM 1 \<le> 1"
  "MIN_FAILURE \<le> clampRange f MIN_FAILURE (clampRange q MIN_QUORUM 1)
     \<and> clampRange f MIN_FAILURE (clampRange q MIN_QUORUM 1) \<le> clampRange q MIN_QUORUM 1"
proof -
  show q: "MIN_QUORUM \<le> clampRange q MIN_QUORUM 1 \<and> clampRange q MIN_QUORUM 1 \<le> 1"
    by (rule clampRange_bounds) (simp add: MIN_QUORUM_def)
  show "MIN_FAILURE \<le> clampRange f MIN_FAILURE (clampRange q MIN_QUORUM 1)
     \<and> clampRange f MIN_FAILURE (clampRange q MIN_QUORUM 1) \<le> clampRange q MIN_QUORUM 1"
    by (rule clampRange_bounds) (use q in \<open>simp add: MIN_QUORUM_def MIN_FAILURE_def\<close>)
qed

lemma vote_by_agent_get:
  "om_get (foldl (\<lambda>m v. om_set (cv_agentId v) v m) m vs) a =
     (case find (\<lambda>v. cv_agentId v = a) (rev vs) of Some v \<Rightarrow> Some v | None \<Rightarrow> om_get m a)"
proof (induction vs rule: rev_induct)
  case (snoc v vs)
  then show ?case by (auto split: option.split)
qed simp

lemma vote_missing: "a \<notin> cv_agentId ` set votes \<Longrightarrow> om_get (vote_by_agent votes) a = None"
proof -
  assume "a \<notin> cv_agentId ` set votes"
  then have "find (\<lambda>v. cv_agentId v = a) (rev votes) = None" by (auto simp: find_None_iff)
  then show ?thesis by (simp add: vote_by_agent_def vote_by_agent_get)
qed

text \<open>Every participant that did not vote is a counted vote of no confidence.\<close>

lemma silent_participants:
  assumes "co_activeParticipants opts = Some ps"
  shows "length (filter (\<lambda>a. a \<notin> cv_agentId ` set votes) ps)
    \<le> length (filter (\<lambda>v. nv_confidence v = 0) (counted votes opts))"
proof (cases "ps = []")
  case False
  have "length (filter (\<lambda>a. a \<notin> cv_agentId ` set votes) xs)
    \<le> length (filter (\<lambda>v. nv_confidence v = 0) (map normalizeVote
        (map (\<lambda>(index, a). case om_get (vote_by_agent votes) a of Some v \<Rightarrow> v | None \<Rightarrow> missing_vote index a)
          (enumerate n xs))))" for n xs
    by (induction xs arbitrary: n)
      (auto simp: vote_missing normalizeVote_def missing_vote_def clamp01_def clampRange_def le_SucI)
  from this [of ps 0] show ?thesis
    using False by (simp add: counted_def completeParticipantVotes_def assms del: map_map)
qed simp

section \<open>Trace parents\<close>

lemma traceparent_re_build:
  assumes "length a = 32" "length b = 16" "length c = 2" "list_all is_hex a" "list_all is_hex b" "list_all is_hex c"
  shows "traceparent_re (''00-'' @ a @ ''-'' @ b @ ''-'' @ c) = Some (a, b, c)"
  using assms by (simp add: traceparent_re_def nth_append)

lemma traceparent_re_parts:
  assumes "traceparent_re s = Some (a, b, c)"
  shows "s = ''00-'' @ a @ ''-'' @ b @ ''-'' @ c"
    and "length a = 32" "length b = 16" "length c = 2" "list_all is_hex a" "list_all is_hex b" "list_all is_hex c"
proof -
  have l: "length s = 55" and t: "take 3 s = ''00-''" and h: "s ! 35 = CHR ''-''" "s ! 52 = CHR ''-''"
    and abc: "a = take 32 (drop 3 s)" "b = take 16 (drop 36 s)" "c = drop 53 s"
    using assms by (auto simp: traceparent_re_def split: if_splits)
  have "s = take 35 s @ s ! 35 # drop 36 s" using id_take_nth_drop [of 35 s] l by simp
  moreover have "take 35 s = take 3 s @ take 32 (drop 3 s)" using take_add [of 3 32 s] by simp
  moreover have "drop 36 s = take 16 (drop 36 s) @ s ! 52 # drop 53 s"
    using id_take_nth_drop [of 16 "drop 36 s"] l by simp
  ultimately have "s = take 3 s @ take 32 (drop 3 s) @ [s ! 35] @ take 16 (drop 36 s) @ [s ! 52] @ drop 53 s"
    by (metis append.assoc append_Cons append_Nil)
  then show "s = ''00-'' @ a @ ''-'' @ b @ ''-'' @ c" by (simp add: t h abc)
  show "length a = 32" "length b = 16" "length c = 2" "list_all is_hex a" "list_all is_hex b" "list_all is_hex c"
    using assms l by (auto simp: traceparent_re_def split: if_splits)
qed

lemma sanitizeTraceparent_parts:
  assumes "sanitizeTraceparent v = Some p"
  obtains a b c where "traceparent_re p = Some (a, b, c)" "\<not> all_zero a" "\<not> all_zero b"
  using assms by (auto simp: sanitizeTraceparent_def Let_def split: option.splits if_splits)

lemma lower_char_marks: "lower_char CHR ''-'' = CHR ''-''" "lower_char CHR ''0'' = CHR ''0''"
  by (simp_all add: lower_char_def)

lemma sanitizeTraceparent_fix:
  assumes q: "traceparent_re q = Some (a, b, c)" and "\<not> all_zero a" and "\<not> all_zero b"
  shows "sanitizeTraceparent (Some q) = Some q"
proof -
  note parts = traceparent_re_parts [OF q]
  have "c \<noteq> []" using parts(4) by auto
  then have "is_hex (last c)" using parts(7) by (simp add: list_all_iff)
  then have "\<not> js_space (last q)"
    using \<open>c \<noteq> []\<close> hex_not_space [of "last c"] by (simp add: parts(1))
  moreover have "\<not> js_space (hd q)" "q \<noteq> []" by (simp_all add: parts(1) js_space_def)
  ultimately have "trim q = q" by (intro trim_id)
  moreover have "toLowerCase q = q"
    unfolding toLowerCase_def
    by (rule map_idI) (use parts(5-7) in \<open>auto simp: parts(1) list_all_iff lower_char_hex lower_char_marks\<close>)
  ultimately show ?thesis using assms by (simp add: sanitizeTraceparent_def)
qed

lemma makeLane_valid:
  assumes p: "traceparent_re p = Some (a, b, c)" and "\<not> all_zero a"
    and hex: "\<And>t. list_all is_hex (digest t) \<and> 16 \<le> length (digest t)"
  shows "\<exists>q. makeLaneTraceparent digest (Some p) m i = Some q \<and> sanitizeTraceparent (Some q) = Some q"
proof -
  let ?span = "take 16 (digest (m @ '':'' @ show_nat i))"
  let ?span' = "if all_zero ?span then ''0000000000000001'' else ?span"
  let ?q = "''00-'' @ a @ ''-'' @ ?span' @ ''-'' @ c"
  note parts = traceparent_re_parts [OF p]
  have "list_all is_hex ''0000000000000001''" by (simp add: is_hex_def)
  moreover have "list_all is_hex ?span" using hex by (auto simp: list_all_iff dest: in_set_takeD)
  ultimately have "list_all is_hex ?span'" by simp
  moreover have "length ?span' = 16" using hex by (simp add: min_absorb2)
  ultimately have "traceparent_re ?q = Some (a, ?span', c)"
    using parts(2,4,5,7) by (intro traceparent_re_build)
  moreover have "\<not> all_zero ?span'" by (simp add: all_zero_def)
  ultimately have "sanitizeTraceparent (Some ?q) = Some ?q"
    using \<open>\<not> all_zero a\<close> by (intro sanitizeTraceparent_fix)
  moreover have "p \<noteq> []" using parts(1) by auto
  then have "makeLaneTraceparent digest (Some p) m i = Some ?q"
    by (simp add: makeLaneTraceparent_def p Let_def)
  ultimately show ?thesis by blast
qed

section \<open>Properties\<close>

lemma status_accepted:
  "vd_status (evaluateCommittee digest json uuid votes opts) = CommitteeAccepted \<Longrightarrow>
     MIN_QUORUM \<le> support_score (counted votes opts) \<and> MIN_QUORUM \<le> confidence_mean (counted votes opts)"
  using quorum_bounds(1) [of "case_option DEFAULT_QUORUM id (co_quorumThreshold opts)"]
  by (auto simp: evaluateCommittee_def Let_def committee_status_def counted_def split: if_splits)

lemma mean_leaves_few_silent:
  assumes "\<And>v. v \<in> set vs \<Longrightarrow> sane_vote v" and "MIN_QUORUM \<le> confidence_mean vs"
  shows "5 * length (filter (\<lambda>v. nv_confidence v = 0) vs) \<le> 2 * length vs"
proof -
  let ?n = "length (filter (\<lambda>v. nv_confidence v \<noteq> 0) vs)"
  have "vs \<noteq> []" using assms(2) by (auto simp: confidence_mean_def MIN_QUORUM_def)
  then have "MIN_QUORUM * of_nat (length vs) \<le> (\<Sum>v\<leftarrow>vs. nv_confidence v)"
    using assms(2) by (simp add: confidence_mean_def le_divide_eq)
  also have "\<dots> \<le> of_nat ?n" by (rule confidence_sum_bound) (rule assms(1))
  finally have "of_nat (3 * length vs) \<le> (of_nat (5 * ?n) :: rat)" by (simp add: MIN_QUORUM_def)
  then have "3 * length vs \<le> 5 * ?n" by (simp only: of_nat_le_iff)
  moreover have "?n + length (filter (\<lambda>v. nv_confidence v = 0) vs) = length vs"
    using sum_length_filter_compl [of "\<lambda>v. nv_confidence v \<noteq> 0" vs] by simp
  ultimately show ?thesis by linarith
qed

section \<open>Properties\<close>

text \<open>An accepted verdict rests on real support: at least three fifths of the counted weight is
  approving confidence, refusals and abstentions hold at most two fifths, and of the named
  participants those that sent no vote are at most two fifths of the counted votes.\<close>

theorem accepted_needs_support:
  assumes acc: "vd_status (evaluateCommittee digest json uuid votes opts) = CommitteeAccepted"
    and ps: "co_activeParticipants opts = Some ps"
  shows "0 < total_weight (counted votes opts)
    \<and> 3 * total_weight (counted votes opts) \<le> 5 * approve_weight (counted votes opts)
    \<and> 5 * (reject_weight (counted votes opts) + abstain_weight (counted votes opts)) \<le> 2 * total_weight (counted votes opts)
    \<and> 5 * length (filter (\<lambda>a. a \<notin> cv_agentId ` set votes) ps) \<le> 2 * length (counted votes opts)"
proof -
  let ?vs = "counted votes opts"
  note acc = status_accepted [OF acc]
  have "0 \<le> total_weight ?vs" by (rule weights_nonneg) (rule sane_counted)
  then have pos: "0 < total_weight ?vs" and "MIN_QUORUM * total_weight ?vs \<le> approve_weight ?vs"
    using acc by (auto simp: support_score_def MIN_QUORUM_def le_divide_eq split: if_splits)
  moreover have "approve_weight ?vs + reject_weight ?vs + abstain_weight ?vs \<le> total_weight ?vs"
    by (rule weights_add_up) (rule sane_counted)
  moreover have "5 * length (filter (\<lambda>v. nv_confidence v = 0) ?vs) \<le> 2 * length ?vs"
    using acc by (intro mean_leaves_few_silent) (auto intro: sane_counted)
  ultimately show ?thesis
    using silent_participants [OF ps, of votes] by (simp add: MIN_QUORUM_def)
qed

text \<open>Whatever numbers the votes and the options carry, the thresholds stay in
  \<open>[0.6, 1]\<close> and \<open>[0.5, quorum]\<close>, the reported scores in \<open>[0, 1]\<close>, and sidecars
  are proposed only when needed, at most two, none of them already taking part.\<close>

theorem verdict_bounded:
  "let v = evaluateCommittee digest json uuid votes opts in
    3 / 5 \<le> vd_quorumThreshold v \<and> vd_quorumThreshold v \<le> 1
    \<and> 1 / 2 \<le> vd_failureThreshold v \<and> vd_failureThreshold v \<le> vd_quorumThreshold v
    \<and> 0 \<le> vd_supportScore v \<and> vd_supportScore v \<le> 1
    \<and> 0 \<le> vd_confidenceMean v \<and> vd_confidenceMean v \<le> 1
    \<and> length (vd_sidecars v) \<le> 2 \<and> (vd_status v = NeedsSidecar \<or> vd_sidecars v = [])
    \<and> set (vd_sidecars v) \<inter> set (case co_activeParticipants opts of Some ps \<Rightarrow> ps
         | None \<Rightarrow> map nv_agentId (counted votes opts)) = {}"
proof -
  let ?vs = "counted votes opts"
  have "0 \<le> support_score ?vs \<and> support_score ?vs \<le> 1" by (rule support_bounds) (rule sane_counted)
  moreover have "0 \<le> confidence_mean ?vs \<and> confidence_mean ?vs \<le> 1" by (rule mean_bounds) (rule sane_counted)
  ultimately have "0 \<le> round4 (support_score ?vs) \<and> round4 (support_score ?vs) \<le> 1"
    "0 \<le> round4 (confidence_mean ?vs) \<and> round4 (confidence_mean ?vs) \<le> 1"
    by (simp_all add: round4_bounds)
  then show ?thesis
    using quorum_bounds
    by (auto simp: evaluateCommittee_def Let_def counted_def MIN_QUORUM_def MIN_FAILURE_def
        dest!: in_set_takeD split: option.split)
qed

text \<open>Every lane of a verdict carries the verdict's merge parent and a trace parent that is
  absent or well formed (a sanitizer keeps it as it is); when the caller's own trace parent is
  accepted, no lane is without one. SHA-256 gives 64 hexadecimal digits.\<close>

theorem lanes_carry_trace:
  assumes hex: "\<And>t. list_all is_hex (digest t) \<and> 16 \<le> length (digest t)"
    and lane: "lane \<in> set (ct_lanes (vd_trace (evaluateCommittee digest json uuid votes opts)))"
  shows "te_mergeParentId lane = Some (ct_mergeParentId (vd_trace (evaluateCommittee digest json uuid votes opts)))
    \<and> sanitizeTraceparent (traceparent lane) = traceparent lane
    \<and> (sanitizeTraceparent (co_traceparent opts) \<noteq> None \<longrightarrow> traceparent lane \<noteq> None)"
proof -
  have valid: "sanitizeTraceparent (makeLaneTraceparent digest (Some p) m i) = makeLaneTraceparent digest (Some p) m i
      \<and> makeLaneTraceparent digest (Some p) m i \<noteq> None" if "sanitizeTraceparent v = Some p" for v p m i
    by (rule sanitizeTraceparent_parts [OF that]) (use makeLane_valid [where digest = digest and p = p and m = m and i = i, OF _ _ hex] in auto)
  have none: "sanitizeTraceparent (makeLaneTraceparent digest None m i) = makeLaneTraceparent digest None m i" for m i
    by (simp add: makeLaneTraceparent_def sanitizeTraceparent_def)
  let ?trace = "vd_trace (evaluateCommittee digest json uuid votes opts)"
  let ?tp = "sanitizeTraceparent (co_traceparent opts)"
  obtain i v where "lane = committee_lane digest ?tp (sanitizeTracestate (co_tracestate opts)) (ct_mergeParentId ?trace) i v"
    using lane by (auto simp: evaluateCommittee_def Let_def)
  then have lane_at: "te_mergeParentId lane = Some (ct_mergeParentId ?trace)"
      "traceparent lane = makeLaneTraceparent digest
         (case sanitizeTraceparent (Option.bind (nv_trace v) traceparent) of Some p \<Rightarrow> Some p | None \<Rightarrow> ?tp)
         (ct_mergeParentId ?trace) i"
    by (simp_all add: committee_lane_def)
  show ?thesis
  proof (cases "sanitizeTraceparent (Option.bind (nv_trace v) traceparent)")
    case None
    then show ?thesis using lane_at valid [of "co_traceparent opts"] none by (cases ?tp) simp_all
  next
    case (Some p)
    then show ?thesis using lane_at valid [OF Some] by simp
  qed
qed

definition example_votes :: "CommitteeVote list" where
  "example_votes =
     [\<lparr>cv_agentId = ''a'', cv_role = Proponent, cv_verdict = Approve, cv_confidence = Num (95 / 100), cv_weight = None,
       cv_rationale = ''yes'', cv_trace = None\<rparr>,
      \<lparr>cv_agentId = ''b'', cv_role = Judge, cv_verdict = Approve, cv_confidence = Num 2, cv_weight = Some NaN,
       cv_rationale = ''yes'', cv_trace = None\<rparr>]"

definition example_options :: CommitteeOptions where
  "example_options =
     \<lparr>co_quorumThreshold = None, co_failureThreshold = None, co_sidecarCandidates = None,
      co_activeParticipants = Some [''a'', ''b''],
      co_traceparent = Some ''00-0af7651916cd43dd8448eb211c80319c-b7ad6b7169203331-01'', co_tracestate = None\<rparr>"

lemma example_counted:
  "counted example_votes example_options =
     [\<lparr>nv_agentId = ''a'', nv_role = Proponent, nv_verdict = Approve, nv_confidence = 95 / 100, nv_weight = 1,
       nv_rationale = ''yes'', nv_trace = None\<rparr>,
      \<lparr>nv_agentId = ''b'', nv_role = Judge, nv_verdict = Approve, nv_confidence = 1, nv_weight = 1,
       nv_rationale = ''yes'', nv_trace = None\<rparr>]"
  by (simp add: counted_def example_votes_def example_options_def completeParticipantVotes_def
      vote_by_agent_def normalizeVote_def clamp01_def clampRange_def)

theorem accepted_needs_support_witness:
  "3 * total_weight (counted example_votes example_options) \<le> 5 * approve_weight (counted example_votes example_options)"
proof -
  have "committee_status (85 / 100) (1 / 2) (counted example_votes example_options) = CommitteeAccepted"
    by (simp add: example_counted committee_status_def support_score_def confidence_mean_def total_weight_def approve_weight_def)
  then have "vd_status (evaluateCommittee (\<lambda>_. []) (\<lambda>_ _. []) [] example_votes example_options) = CommitteeAccepted"
    by (simp add: evaluateCommittee_def Let_def counted_def example_options_def clampRange_def DEFAULT_QUORUM_def
        DEFAULT_FAILURE_def MIN_QUORUM_def MIN_FAILURE_def)
  from accepted_needs_support [OF this] show ?thesis by (simp add: example_options_def)
qed

theorem lanes_carry_trace_witness:
  "\<exists>lane \<in> set (ct_lanes (vd_trace (evaluateCommittee (\<lambda>_. replicate 64 CHR ''a'') (\<lambda>_ _. []) [] example_votes example_options))).
     traceparent lane \<noteq> None"
proof -
  let ?lanes = "ct_lanes (vd_trace (evaluateCommittee (\<lambda>_. replicate 64 CHR ''a'') (\<lambda>_ _. []) [] example_votes example_options))"
  have "?lanes \<noteq> []"
    using example_counted by (simp add: evaluateCommittee_def Let_def counted_def)
  then have lane: "hd ?lanes \<in> set ?lanes" by simp
  have "traceparent_re ''00-0af7651916cd43dd8448eb211c80319c-b7ad6b7169203331-01''
      = Some (''0af7651916cd43dd8448eb211c80319c'', ''b7ad6b7169203331'', ''01'')"
    by (simp add: traceparent_re_def is_hex_def)
  then have "sanitizeTraceparent (co_traceparent example_options) \<noteq> None"
    using sanitizeTraceparent_fix by (simp add: example_options_def all_zero_def)
  then have "traceparent (hd ?lanes) \<noteq> None"
    using lanes_carry_trace [OF _ lane] by (simp add: is_hex_def list_all_iff)
  with lane show ?thesis by blast
qed

end
