(* ===== verification/Learning.thy ===== *)
theory Learning
  imports Kovael_Prelude
begin

text \<open>
  \<open>src/src/services/LearningMatrix.ts\<close>: the file of past cycles. The file system is the state
  \<open>MatrixFile\<close>: no file, text the reader refuses, or what \<open>JSON.parse\<close> gives for it; a
  write that succeeds makes the next parse return what was written (finite numbers and strings
  only). \<open>writable\<close> says whether the write of a call succeeds.
\<close>

section \<open>Data\<close>

datatype MatrixStatus = MxVerified | MxFailed

record LearningMatrixEntry =
  lx_cycleId :: string
  lx_taskHash :: string
  lx_status :: MatrixStatus
  lx_latencyMs :: jsnum
  lx_tokenTotal :: jsnum
  lx_confidence :: jsnum
  lx_retryCount :: jsnum
  lx_recipeIds :: "string list option"
  lx_timestamp :: jsnum

datatype MatrixFile = NoFile | BadFile | ParsedFile int "LearningMatrixEntry list option"

definition MAX_SAFE_INTEGER :: int where "MAX_SAFE_INTEGER = 2 ^ 53 - 1"

section \<open>Operations\<close>

definition safeInt :: "jsnum \<Rightarrow> int \<Rightarrow> int \<Rightarrow> jsnum" where
  "safeInt v lo hi = Num (of_int (case v of Num q \<Rightarrow> min hi (max lo (js_round q)) | _ \<Rightarrow> lo))"

definition safeFloat :: "jsnum \<Rightarrow> rat \<Rightarrow> rat \<Rightarrow> jsnum" where
  "safeFloat v lo hi = Num (case v of Num q \<Rightarrow> min hi (max lo q) | _ \<Rightarrow> lo)"

definition clean_recipe :: "string \<Rightarrow> string" where
  "clean_recipe r = take 80 (trim (map (\<lambda>c. if c \<in> {CHR 0x0D, CHR 0x0A, CHR 0x09} then CHR '' '' else c) r))"

definition sanitizeEntry :: "LearningMatrixEntry \<Rightarrow> LearningMatrixEntry" where
  "sanitizeEntry e =
     \<lparr>lx_cycleId = take 128 (lx_cycleId e), lx_taskHash = take 128 (lx_taskHash e),
      lx_status = (if lx_status e = MxVerified then MxVerified else MxFailed),
      lx_latencyMs = safeInt (lx_latencyMs e) 0 86400000,
      lx_tokenTotal = safeInt (lx_tokenTotal e) 0 50000000,
      lx_confidence = safeFloat (lx_confidence e) 0 1,
      lx_retryCount = safeInt (lx_retryCount e) 0 100,
      lx_recipeIds = Some (case lx_recipeIds e of None \<Rightarrow> []
        | Some rs \<Rightarrow> take 16 (filter (\<lambda>r. r \<noteq> []) (map clean_recipe rs))),
      lx_timestamp = safeInt (lx_timestamp e) 0 MAX_SAFE_INTEGER\<rparr>"

definition matrix_read :: "nat \<Rightarrow> MatrixFile \<Rightarrow> LearningMatrixEntry list" where
  "matrix_read maxEntries f =
     (case f of NoFile \<Rightarrow> [] | BadFile \<Rightarrow> []
      | ParsedFile version entries \<Rightarrow>
          if version \<noteq> 1 then []
          else (case entries of None \<Rightarrow> [] | Some es \<Rightarrow> take maxEntries (map sanitizeEntry es)))"

definition matrix_record :: "nat \<Rightarrow> bool \<Rightarrow> LearningMatrixEntry \<Rightarrow> MatrixFile \<Rightarrow>
    LearningMatrixEntry list \<times> MatrixFile" where
  "matrix_record maxEntries writable e f =
     (let current = matrix_read maxEntries f;
          entries = take maxEntries (sanitizeEntry e # current)
      in if writable then (entries, ParsedFile 1 (Some entries)) else (current, f))"

definition matrix_stats :: "nat \<Rightarrow> MatrixFile \<Rightarrow> nat \<times> jsnum option" where
  "matrix_stats maxEntries f =
     (let es = matrix_read maxEntries f
      in (length es, case es of [] \<Rightarrow> None | e # _ \<Rightarrow> Some (lx_timestamp e)))"

section \<open>Sanitised entries\<close>

definition num_in :: "jsnum \<Rightarrow> rat \<Rightarrow> rat \<Rightarrow> bool" where
  "num_in v lo hi \<longleftrightarrow> isFinite v \<and> lo \<le> fin_value v \<and> fin_value v \<le> hi"

definition bounded_entry :: "LearningMatrixEntry \<Rightarrow> bool" where
  "bounded_entry e \<longleftrightarrow> length (lx_cycleId e) \<le> 128 \<and> length (lx_taskHash e) \<le> 128
     \<and> num_in (lx_latencyMs e) 0 86400000 \<and> num_in (lx_tokenTotal e) 0 50000000
     \<and> num_in (lx_confidence e) 0 1 \<and> num_in (lx_retryCount e) 0 100
     \<and> num_in (lx_timestamp e) 0 (of_int MAX_SAFE_INTEGER)
     \<and> (\<exists>rs. lx_recipeIds e = Some rs \<and> length rs \<le> 16 \<and> list_all (\<lambda>r. r \<noteq> [] \<and> length r \<le> 80) rs)"

lemma safeInt_in: "0 \<le> hi \<Longrightarrow> num_in (safeInt v 0 hi) 0 (of_int hi)"
  by (auto simp: num_in_def safeInt_def split: jsnum.split)

lemma safeFloat_in: "num_in (safeFloat v 0 1) 0 1"
  by (auto simp: num_in_def safeFloat_def split: jsnum.split)

lemma bounded_sanitizeEntry: "bounded_entry (sanitizeEntry e)"
  using safeInt_in [of 86400000] safeInt_in [of 50000000] safeInt_in [of 100] safeInt_in [of MAX_SAFE_INTEGER]
  by (auto simp: bounded_entry_def sanitizeEntry_def safeFloat_in MAX_SAFE_INTEGER_def list_all_iff clean_recipe_def
      split: option.split dest!: in_set_takeD)

lemma js_round_of_int: "js_round (of_int i) = i"
  unfolding js_round_def by (rule floor_unique) simp_all

lemma safeInt_idem: "lo \<le> hi \<Longrightarrow> safeInt (safeInt v lo hi) lo hi = safeInt v lo hi"
  by (auto simp: safeInt_def js_round_of_int split: jsnum.split)

lemma safeFloat_idem: "lo \<le> hi \<Longrightarrow> safeFloat (safeFloat v lo hi) lo hi = safeFloat v lo hi"
  by (auto simp: safeFloat_def split: jsnum.split)

text \<open>Truncation after \<open>trim\<close> can leave a blank at the end, so an id of more than 80
  characters may change once more when it is sanitised again.\<close>

definition short_recipes :: "LearningMatrixEntry \<Rightarrow> bool" where
  "short_recipes e \<longleftrightarrow> (case lx_recipeIds e of None \<Rightarrow> True | Some rs \<Rightarrow> list_all (\<lambda>r. length r \<le> 80) rs)"

lemma clean_recipe_idem:
  assumes "length r \<le> 80"
  shows "clean_recipe (clean_recipe r) = clean_recipe r"
proof -
  let ?blank = "\<lambda>c. if c \<in> {CHR 0x0D, CHR 0x0A, CHR 0x09} then CHR '' '' else c"
  let ?t = "trim (map ?blank r)"
  have "length ?t \<le> 80" using assms length_trim [of "map ?blank r"] by simp
  then have "clean_recipe r = ?t" by (simp add: clean_recipe_def)
  moreover have "map ?blank ?t = ?t"
    by (rule map_idI) (use set_trim [of "map ?blank r"] in auto)
  ultimately show ?thesis using \<open>length ?t \<le> 80\<close> by (simp add: clean_recipe_def trim_idem)
qed

text \<open>What a second sanitising changes: nothing, when the recipe ids were short.\<close>

definition stable_entry :: "LearningMatrixEntry \<Rightarrow> bool" where
  "stable_entry e \<longleftrightarrow> sanitizeEntry e = e"

lemma stable_sanitizeEntry:
  assumes "short_recipes e"
  shows "stable_entry (sanitizeEntry e)"
proof -
  have "take 16 (filter (\<lambda>r. r \<noteq> []) (map clean_recipe (take 16 (filter (\<lambda>r. r \<noteq> []) (map clean_recipe rs)))))
      = take 16 (filter (\<lambda>r. r \<noteq> []) (map clean_recipe rs))"
    if "lx_recipeIds e = Some rs" for rs
  proof -
    have "clean_recipe r = r \<and> r \<noteq> []" if "r \<in> set (take 16 (filter (\<lambda>r. r \<noteq> []) (map clean_recipe rs)))" for r
      using assms \<open>lx_recipeIds e = Some rs\<close> that
      by (auto simp: short_recipes_def list_all_iff clean_recipe_idem dest!: in_set_takeD)
    then have "map clean_recipe (take 16 (filter (\<lambda>r. r \<noteq> []) (map clean_recipe rs)))
        = take 16 (filter (\<lambda>r. r \<noteq> []) (map clean_recipe rs))"
      and "filter (\<lambda>r. r \<noteq> []) (take 16 (filter (\<lambda>r. r \<noteq> []) (map clean_recipe rs)))
        = take 16 (filter (\<lambda>r. r \<noteq> []) (map clean_recipe rs))"
      by (intro map_idI, blast, intro filter_True, blast)
    then have "filter (\<lambda>r. r \<noteq> []) (map clean_recipe (take 16 (filter (\<lambda>r. r \<noteq> []) (map clean_recipe rs))))
        = take 16 (filter (\<lambda>r. r \<noteq> []) (map clean_recipe rs))"
      by (simp only:)
    then show ?thesis by (simp only: take_take min.idem)
  qed
  then show ?thesis
    by (auto simp: stable_entry_def sanitizeEntry_def safeInt_idem safeFloat_idem MAX_SAFE_INTEGER_def
        split: option.split)
qed

definition stable_file :: "nat \<Rightarrow> MatrixFile \<Rightarrow> bool" where
  "stable_file maxEntries f \<longleftrightarrow> list_all stable_entry (matrix_read maxEntries f)"

lemma read_written: "matrix_read n (ParsedFile 1 (Some es)) = take n (map sanitizeEntry es)"
  by (simp add: matrix_read_def)

lemma record_effect:
  assumes "stable_file n f" and "short_recipes e"
  shows "matrix_read n (snd (matrix_record n True e f)) = take n (sanitizeEntry e # matrix_read n f)"
    and "stable_file n (snd (matrix_record n True e f))"
proof -
  have stable: "list_all stable_entry (take n (sanitizeEntry e # matrix_read n f))"
    by (rule list_all_take) (use assms stable_sanitizeEntry in \<open>simp add: stable_file_def\<close>)
  then have fixed: "map sanitizeEntry (take n (sanitizeEntry e # matrix_read n f)) = take n (sanitizeEntry e # matrix_read n f)"
    unfolding list_all_iff stable_entry_def by (intro map_idI) blast
  have "matrix_read n (snd (matrix_record n True e f))
      = take n (map sanitizeEntry (take n (sanitizeEntry e # matrix_read n f)))"
    by (simp only: matrix_record_def Let_def read_written if_True snd_conv)
  also have "\<dots> = take n (sanitizeEntry e # matrix_read n f)"
    by (simp only: fixed take_take min.idem)
  finally show read: "matrix_read n (snd (matrix_record n True e f)) = take n (sanitizeEntry e # matrix_read n f)" .
  show "stable_file n (snd (matrix_record n True e f))"
    unfolding stable_file_def read by (rule stable)
qed

text \<open>The file is a bounded store: however often it is written, a read returns at most
  \<open>maxEntries\<close> entries.\<close>

interpretation matrix: bounded_store "\<lambda>f. length (matrix_read n f)" "\<lambda>f (w, e). snd (matrix_record n w e f)" n for n
proof
  fix f :: MatrixFile and x :: "bool \<times> LearningMatrixEntry"
  have "length (matrix_read n g) \<le> n" for g
    by (simp add: matrix_read_def split: MatrixFile.split option.split)
  then show "length (matrix_read n (case x of (w, e) \<Rightarrow> snd (matrix_record n w e f))) \<le> n" .
qed

section \<open>Properties\<close>

text \<open>Whatever the file holds, every entry a read returns is within the bounds of the schema,
  and after any writes, successful or not, a read returns at most \<open>maxEntries\<close> of them.\<close>

theorem matrix_entries_bounded:
  "list_all bounded_entry (matrix_read n f)
    \<and> length (matrix_read n (foldl (\<lambda>f (w, e). snd (matrix_record n w e f)) NoFile ws)) \<le> n"
proof
  show "list_all bounded_entry (matrix_read n f)"
    by (auto simp: matrix_read_def list_all_iff bounded_sanitizeEntry split: MatrixFile.split option.split
        dest!: in_set_takeD)
  show "length (matrix_read n (foldl (\<lambda>f (w, e). snd (matrix_record n w e f)) NoFile ws)) \<le> n"
    by (rule matrix.adds_bounded) (simp add: matrix_read_def)
qed

text \<open>The file is a log of the latest cycles. Starting without a file, after recording the entries
  \<open>es\<close> a read returns the last \<open>maxEntries\<close> of them, the newest first, each
  sanitised once (recipe ids of at most 80 characters).\<close>

theorem matrix_keeps_latest:
  assumes "list_all short_recipes es"
  shows "matrix_read n (foldl (\<lambda>f e. snd (matrix_record n True e f)) NoFile es)
    = take n (rev (map sanitizeEntry es))"
proof -
  have "stable_file n (foldl (\<lambda>f e. snd (matrix_record n True e f)) NoFile es)
    \<and> matrix_read n (foldl (\<lambda>f e. snd (matrix_record n True e f)) NoFile es) = take n (rev (map sanitizeEntry es))"
    using assms
  proof (induction es rule: rev_induct)
    case Nil
    then show ?case by (simp add: stable_file_def matrix_read_def)
  next
    case (snoc e es)
    then have IH: "stable_file n (foldl (\<lambda>f e. snd (matrix_record n True e f)) NoFile es)"
      "matrix_read n (foldl (\<lambda>f e. snd (matrix_record n True e f)) NoFile es) = take n (rev (map sanitizeEntry es))"
      and e: "short_recipes e" by simp_all
    show ?case using record_effect [OF IH(1) e] by (simp add: IH(2) take_Cons' min_absorb2)
  qed
  then show ?thesis by simp
qed

theorem matrix_keeps_latest_witness:
  "map lx_cycleId (matrix_read 2 (foldl (\<lambda>f e. snd (matrix_record 2 True e f)) NoFile
     (map (\<lambda>c. \<lparr>lx_cycleId = c, lx_taskHash = ''t'', lx_status = MxVerified, lx_latencyMs = Num 5, lx_tokenTotal = NaN,
        lx_confidence = Num 2, lx_retryCount = Num 0, lx_recipeIds = Some [''r''], lx_timestamp = Num 9\<rparr>) [''a'', ''b'', ''c''])))
   = [''c'', ''b'']"
  by (subst matrix_keeps_latest) (simp_all add: short_recipes_def sanitizeEntry_def)

end
