(* ===== verification/ChairBridge.thy ===== *)
theory ChairBridge
  imports Kovael_Prelude
begin

text \<open>
  \<open>src/src/services/ChairBridgeProvider.ts\<close> with the reply proofs of
  \<open>ChairDispatchSecurity.ts\<close>: a prompt is posted to a chair's inbox and the stream waits for
  the reply that comes back over HTTP. The pending replies are a static map; the promise of a
  request is its entry in \<open>br_settled\<close>, which holds what it was first settled with.
  \<open>hmac key text\<close> is the hexadecimal HMAC-SHA-256; \<open>redact\<close> is
  \<open>redactSensitiveText\<close>. What the network does to attempt \<open>n\<close> is the argument
  \<open>env n\<close>.
\<close>

section \<open>Data\<close>

record DispatchPolicy =
  dp_dispatchTimeoutMs :: int
  dp_maxAttempts :: nat
  dp_baseBackoffMs :: int

definition DEFAULT_DISPATCH_POLICY :: DispatchPolicy where
  "DEFAULT_DISPATCH_POLICY = \<lparr>dp_dispatchTimeoutMs = 10000, dp_maxAttempts = 3, dp_baseBackoffMs = 250\<rparr>"

datatype ChairDispatchTelemetryEvent =
    DispatchStarted string string string string
  | DispatchAttempt string string string string nat int "nat option"
  | DispatchAccepted string string string string nat int

datatype ChairReplyStatus = ReplySucceeded | ReplyFailed

record ChairReplySubmission =
  sub_requestId :: string
  sub_agentId :: string
  sub_claimSessionId :: string
  sub_replyProof :: string
  sub_topicId :: "string option"
  sub_content :: "string option"
  sub_status :: "ChairReplyStatus option"
  sub_error :: "string option"

record ChairDispatchReceipt =
  rc_requestId :: string
  rc_topicId :: string
  rc_agentId :: string
  rc_claimSessionId :: string
  rc_status :: ChairReplyStatus
  rc_receivedAt :: int
  rc_proofVerified :: bool
  rc_dispatchAttempts :: "nat option"
  rc_dispatchLatencyMs :: "int option"
  rc_error :: "string option"

datatype ChairReplySubmitResult = SubmitOk ChairDispatchReceipt | SubmitRefused nat string

record DispatchDetails =
  dd_requestId :: string
  dd_topicId :: string
  dd_agentId :: string
  dd_claimSessionId :: string
  dd_dispatchAttempts :: nat
  dd_dispatchLatencyMs :: int

datatype chair_error =
    ChairBridgeReplyFailure string ChairDispatchReceipt
  | ChairBridgeDispatchFailure string DispatchDetails
  | ChairPlainError string

datatype Settlement = Resolved string ChairDispatchReceipt | Rejected chair_error

record PendingChairReply =
  pr_requestId :: string
  pr_topicId :: string
  pr_agentId :: string
  pr_claimSessionId :: string
  pr_replyProofSecret :: string
  pr_createdAt :: int
  pr_dispatchStartedAt :: "int option"
  pr_dispatchAttempts :: "nat option"
  pr_dispatchLatencyMs :: "int option"

record ChairBridge =
  br_pending :: "(string, PendingChairReply) omap"
  br_settled :: "(string, Settlement) omap"
  br_events :: "ChairDispatchTelemetryEvent list"

definition RETRYABLE_STATUS :: "nat list" where
  "RETRYABLE_STATUS = [429, 502, 503, 504]"

section \<open>Reply proofs\<close>

definition createChairReplyProof :: "(string \<Rightarrow> string \<Rightarrow> string) \<Rightarrow> string \<Rightarrow> string \<Rightarrow> string \<Rightarrow> string" where
  "createChairReplyProof hmac requestId claimSessionId secret =
     hmac (trim secret) (trim requestId @ [CHR 0x0A] @ trim claimSessionId)"

text \<open>\<open>Buffer.from(s, 'hex')\<close> decodes pairs of digits up to the first that are not.\<close>

fun hex_bytes :: "string \<Rightarrow> string list" where
  "hex_bytes (a # b # s) =
     (if is_hex (lower_char a) \<and> is_hex (lower_char b) then [lower_char a, lower_char b] # hex_bytes s else [])"
| "hex_bytes _ = []"

definition verifyChairReplyProof :: "(string \<Rightarrow> string \<Rightarrow> string) \<Rightarrow> string \<Rightarrow> string \<Rightarrow> string \<Rightarrow> string \<Rightarrow> bool" where
  "verifyChairReplyProof hmac requestId claimSessionId secret replyProof =
     (let expected = hex_bytes (createChairReplyProof hmac requestId claimSessionId secret);
          actual = hex_bytes (trim replyProof)
      in length actual = length expected \<and> actual = expected)"

section \<open>Settling\<close>

text \<open>\<open>resolve\<close> and \<open>reject\<close> of a pending reply first drop the entry; a promise keeps
  the value it was settled with first.\<close>

definition settle :: "string \<Rightarrow> Settlement \<Rightarrow> ChairBridge \<Rightarrow> ChairBridge" where
  "settle rid x s = s\<lparr>br_pending := om_delete rid (br_pending s),
     br_settled := (if om_has (br_settled s) rid then br_settled s else om_set rid x (br_settled s))\<rparr>"

definition cleanupPending :: "string \<Rightarrow> ChairBridge \<Rightarrow> ChairBridge" where
  "cleanupPending rid s = s\<lparr>br_pending := om_delete rid (br_pending s)\<rparr>"

definition submitReply :: "int \<Rightarrow> string \<Rightarrow> string \<Rightarrow> string \<Rightarrow> ChairBridge \<Rightarrow> bool \<times> ChairBridge" where
  "submitReply now topicId agentId content s =
     (let matches = filter (\<lambda>(_, p). pr_topicId p = topicId \<and> pr_agentId p = agentId) (br_pending s) in
      (case matches of
         [(rid, p)] \<Rightarrow> (True, settle rid (Resolved content
            \<lparr>rc_requestId = rid, rc_topicId = topicId, rc_agentId = agentId,
             rc_claimSessionId = pr_claimSessionId p, rc_status = ReplySucceeded, rc_receivedAt = now,
             rc_proofVerified = False, rc_dispatchAttempts = pr_dispatchAttempts p,
             rc_dispatchLatencyMs = pr_dispatchLatencyMs p, rc_error = None\<rparr>) s)
       | _ \<Rightarrow> (False, s)))"

definition reply_receipt :: "(string \<Rightarrow> string) \<Rightarrow> int \<Rightarrow> ChairReplySubmission \<Rightarrow> PendingChairReply \<Rightarrow> ChairDispatchReceipt" where
  "reply_receipt redact now inp p =
     \<lparr>rc_requestId = sub_requestId inp, rc_topicId = pr_topicId p, rc_agentId = pr_agentId p,
      rc_claimSessionId = pr_claimSessionId p, rc_status = case_option ReplySucceeded id (sub_status inp),
      rc_receivedAt = now, rc_proofVerified = True, rc_dispatchAttempts = pr_dispatchAttempts p,
      rc_dispatchLatencyMs = (case pr_dispatchLatencyMs p of Some l \<Rightarrow> Some l
         | None \<Rightarrow> map_option (\<lambda>t. now - t) (pr_dispatchStartedAt p)),
      rc_error = (case sub_error inp of None \<Rightarrow> None
         | Some e \<Rightarrow> if trim e \<noteq> [] then Some (redact (trim e)) else None)\<rparr>"

definition submitReplyForRequest :: "(string \<Rightarrow> string \<Rightarrow> string) \<Rightarrow> (string \<Rightarrow> string) \<Rightarrow> int \<Rightarrow> ChairReplySubmission \<Rightarrow>
    ChairBridge \<Rightarrow> ChairReplySubmitResult \<times> ChairBridge" where
  "submitReplyForRequest hmac redact now inp s =
     (case om_get (br_pending s) (sub_requestId inp) of
        None \<Rightarrow> (SubmitRefused 404 ''unknown_chair_dispatch_request'', s)
      | Some p \<Rightarrow>
          if pr_agentId p \<noteq> sub_agentId inp
             \<or> (case sub_topicId inp of None \<Rightarrow> False | Some t \<Rightarrow> pr_topicId p \<noteq> t) then
            (SubmitRefused 409 ''wrong_chair_dispatch_target'', s)
          else if pr_claimSessionId p \<noteq> sub_claimSessionId inp then
            (SubmitRefused 409 ''wrong_claim_session'', s)
          else if \<not> verifyChairReplyProof hmac (sub_requestId inp) (sub_claimSessionId inp)
                     (pr_replyProofSecret p) (sub_replyProof inp) then
            (SubmitRefused 401 ''invalid_reply_proof'', s)
          else
            let receipt = reply_receipt redact now inp p;
                outcome = (if rc_status receipt = ReplyFailed
                   then Rejected (ChairBridgeReplyFailure
                     (case rc_error receipt of Some e \<Rightarrow> e | None \<Rightarrow>
                       (case sub_content inp of Some c \<Rightarrow> c | None \<Rightarrow>
                         ''Chair Bridge runtime failure for agent '' @ [CHR 0x22] @ pr_agentId p @ [CHR 0x22] @ ''.''))
                     receipt)
                   else Resolved (case_option [] id (sub_content inp)) receipt)
            in (SubmitOk receipt, settle (sub_requestId inp) outcome s))"

definition pendingDispatchDetails :: "int \<Rightarrow> PendingChairReply \<Rightarrow> DispatchDetails" where
  "pendingDispatchDetails now p =
     \<lparr>dd_requestId = pr_requestId p, dd_topicId = pr_topicId p, dd_agentId = pr_agentId p,
      dd_claimSessionId = pr_claimSessionId p, dd_dispatchAttempts = case_option 0 id (pr_dispatchAttempts p),
      dd_dispatchLatencyMs = (case pr_dispatchLatencyMs p of Some l \<Rightarrow> l
         | None \<Rightarrow> (case pr_dispatchStartedAt p of Some t \<Rightarrow> now - t | None \<Rightarrow> 0))\<rparr>"

text \<open>The abort listener and the reply timer of a stream reject what is still pending.\<close>

definition reject_pending :: "int \<Rightarrow> string \<Rightarrow> string \<Rightarrow> ChairBridge \<Rightarrow> ChairBridge" where
  "reject_pending now rid msg s =
     (case om_get (br_pending s) rid of None \<Rightarrow> s
      | Some p \<Rightarrow> settle rid (Rejected (ChairBridgeDispatchFailure msg (pendingDispatchDetails now p))) s)"

definition replyTimeoutMs :: "jsnum \<Rightarrow> int" where
  "replyTimeoutMs parsed = (case parsed of Num q \<Rightarrow> max 5000 (min 600000 \<lfloor>q\<rfloor>) | _ \<Rightarrow> 30000)"

section \<open>Dispatching\<close>

definition emitDispatchEvent :: "ChairDispatchTelemetryEvent \<Rightarrow> ChairBridge \<Rightarrow> ChairBridge" where
  "emitDispatchEvent e s = s\<lparr>br_events := br_events s @ [e]\<rparr>"

definition note_attempt :: "string \<Rightarrow> nat \<Rightarrow> int \<Rightarrow> ChairBridge \<Rightarrow> ChairBridge" where
  "note_attempt rid attempts latency s =
     (case om_get (br_pending s) rid of None \<Rightarrow> s
      | Some p \<Rightarrow> s\<lparr>br_pending := om_set rid
          (p\<lparr>pr_dispatchAttempts := Some attempts, pr_dispatchLatencyMs := Some latency\<rparr>) (br_pending s)\<rparr>)"

text \<open>
  What the outside does around an attempt: whether the caller had aborted before it, the
  status of the response or the message of the exception \<open>fetch\<close> threw, whether the
  caller had aborted when it threw, and the latencies read off the clock.
\<close>

datatype FetchResult = Responded nat | FetchThrew string

record AttemptEnv =
  ae_abortedBefore :: bool
  ae_result :: FetchResult
  ae_abortedAfter :: bool
  ae_sinceStart :: int
  ae_sinceAttempt :: int

record DispatchTarget =
  dt_requestId :: string
  dt_topicId :: string
  dt_agentId :: string
  dt_claimSessionId :: string

definition dispatch_details :: "DispatchTarget \<Rightarrow> nat \<Rightarrow> int \<Rightarrow> DispatchDetails" where
  "dispatch_details t attempts latency =
     \<lparr>dd_requestId = dt_requestId t, dd_topicId = dt_topicId t, dd_agentId = dt_agentId t,
      dd_claimSessionId = dt_claimSessionId t, dd_dispatchAttempts = attempts, dd_dispatchLatencyMs = latency\<rparr>"

definition attempt_event :: "DispatchTarget \<Rightarrow> nat \<Rightarrow> int \<Rightarrow> nat option \<Rightarrow> ChairDispatchTelemetryEvent" where
  "attempt_event t attempt latency status =
     DispatchAttempt (dt_requestId t) (dt_topicId t) (dt_agentId t) (dt_claimSessionId t) attempt latency status"

definition response_ok :: "nat \<Rightarrow> bool" where
  "response_ok status \<longleftrightarrow> 200 \<le> status \<and> status \<le> 299"

text \<open>The loop of \<open>postWithRetry\<close> from attempt \<open>n\<close> on; \<open>lastErr\<close> is the message of
  the last failure, and the attempts made so far are \<open>n\<close>.\<close>

function post_loop :: "DispatchPolicy \<Rightarrow> DispatchTarget \<Rightarrow> (nat \<Rightarrow> AttemptEnv) \<Rightarrow> nat \<Rightarrow> string \<Rightarrow> ChairBridge \<Rightarrow>
    (chair_error + nat) \<times> ChairBridge" where
  "post_loop pol t env n lastErr s =
     (let failure = (\<lambda>msg attempts. Inl (ChairBridgeDispatchFailure msg (dispatch_details t attempts (ae_sinceStart (env n))))) in
      if \<not> n < dp_maxAttempts pol then (failure lastErr n, s)
      else if ae_abortedBefore (env n) then (failure ''chair bridge dispatch: aborted by caller'' n, s)
      else
        let s1 = note_attempt (dt_requestId t) (n + 1) (ae_sinceStart (env n)) s in
        (case ae_result (env n) of
           FetchThrew msg \<Rightarrow>
             if ae_abortedAfter (env n) then (failure msg (n + 1), s1)
             else post_loop pol t env (n + 1) msg
                    (emitDispatchEvent (attempt_event t (n + 1) (ae_sinceAttempt (env n)) None) s1)
         | Responded status \<Rightarrow>
             let s2 = emitDispatchEvent (attempt_event t (n + 1) (ae_sinceAttempt (env n)) (Some status))
                        (note_attempt (dt_requestId t) (n + 1) (ae_sinceStart (env n)) s1) in
             if response_ok status then (Inr (n + 1), s2)
             else if status \<notin> set RETRYABLE_STATUS
               then (failure (''upstream returned non-retryable '' @ show_nat status) (n + 1), s2)
             else post_loop pol t env (n + 1) (''upstream returned retryable '' @ show_nat status) s2))"
  by pat_completeness auto
termination by (relation "measure (\<lambda>(pol, t, env, n, lastErr, s). dp_maxAttempts pol - n)") auto

declare post_loop.simps [simp del]

definition postWithRetry :: "DispatchPolicy \<Rightarrow> DispatchTarget \<Rightarrow> (nat \<Rightarrow> AttemptEnv) \<Rightarrow> ChairBridge \<Rightarrow>
    (chair_error + nat) \<times> ChairBridge" where
  "postWithRetry pol t env s = post_loop pol t env 0 ''chair bridge dispatch: no attempts ran'' s"

text \<open>The steps of \<open>stream\<close>: registering the pending reply, the announcement and the
  POST, and the acceptance, or the clean-up and the rethrown error.\<close>

definition open_pending :: "int \<Rightarrow> DispatchTarget \<Rightarrow> string \<Rightarrow> ChairBridge \<Rightarrow> ChairBridge" where
  "open_pending now t secret s = s\<lparr>br_pending := om_set (dt_requestId t)
     \<lparr>pr_requestId = dt_requestId t, pr_topicId = dt_topicId t, pr_agentId = dt_agentId t,
      pr_claimSessionId = dt_claimSessionId t, pr_replyProofSecret = secret, pr_createdAt = now,
      pr_dispatchStartedAt = None, pr_dispatchAttempts = None, pr_dispatchLatencyMs = None\<rparr> (br_pending s)\<rparr>"

definition set_started :: "int \<Rightarrow> string \<Rightarrow> ChairBridge \<Rightarrow> ChairBridge" where
  "set_started now rid s =
     (case om_get (br_pending s) rid of None \<Rightarrow> s
      | Some p \<Rightarrow> s\<lparr>br_pending := om_set rid (p\<lparr>pr_dispatchStartedAt := Some now\<rparr>) (br_pending s)\<rparr>)"

fun rethrown :: "string \<Rightarrow> chair_error \<Rightarrow> chair_error" where
  "rethrown a (ChairBridgeDispatchFailure msg d) =
     ChairBridgeDispatchFailure (''Chair Bridge dispatch failed for agent '' @ [CHR 0x22] @ a @ [CHR 0x22] @ '': '' @ msg) d"
| "rethrown a (ChairBridgeReplyFailure msg _) =
     ChairPlainError (''Chair Bridge dispatch failed for agent '' @ [CHR 0x22] @ a @ [CHR 0x22] @ '': '' @ msg)"
| "rethrown a (ChairPlainError msg) =
     ChairPlainError (''Chair Bridge dispatch failed for agent '' @ [CHR 0x22] @ a @ [CHR 0x22] @ '': '' @ msg)"

definition dispatch_chair :: "DispatchPolicy \<Rightarrow> int \<Rightarrow> DispatchTarget \<Rightarrow> string \<Rightarrow> (nat \<Rightarrow> AttemptEnv) \<Rightarrow> int \<Rightarrow> bool \<Rightarrow>
    ChairBridge \<Rightarrow> (chair_error + nat) \<times> ChairBridge" where
  "dispatch_chair pol now t secret env latency aborted s =
     (let s1 = set_started now (dt_requestId t) (open_pending now t secret s);
          s2 = emitDispatchEvent (DispatchStarted (dt_requestId t) (dt_topicId t) (dt_agentId t) (dt_claimSessionId t)) s1
      in case postWithRetry pol t env s2 of
           (Inl e, s3) \<Rightarrow> (Inl (rethrown (dt_agentId t) e), cleanupPending (dt_requestId t) s3)
         | (Inr attempts, s3) \<Rightarrow>
             let s4 = emitDispatchEvent (DispatchAccepted (dt_requestId t) (dt_topicId t) (dt_agentId t)
                        (dt_claimSessionId t) attempts latency)
                      (note_attempt (dt_requestId t) attempts latency s3);
                 s5 = (if aborted then reject_pending now (dt_requestId t) ''chair bridge dispatch: aborted by caller'' s4
                       else s4)
             in (Inr attempts, s5))"

section \<open>The retry loop\<close>

definition retry_worthy :: "AttemptEnv \<Rightarrow> bool" where
  "retry_worthy e = (case ae_result e of FetchThrew _ \<Rightarrow> \<not> ae_abortedAfter e
     | Responded status \<Rightarrow> \<not> response_ok status \<and> status \<in> set RETRYABLE_STATUS)"

definition accepted_at :: "AttemptEnv \<Rightarrow> bool" where
  "accepted_at e = (case ae_result e of FetchThrew _ \<Rightarrow> False | Responded status \<Rightarrow> response_ok status)"

text \<open>The attempts that succeed after \<open>n\<close>: the first that is answered with 2xx, all before
  it being worth a retry and no abort seen before any of them.\<close>

definition succeeds_at :: "DispatchPolicy \<Rightarrow> (nat \<Rightarrow> AttemptEnv) \<Rightarrow> nat \<Rightarrow> nat \<Rightarrow> bool" where
  "succeeds_at pol env n k \<longleftrightarrow> n < k \<and> k \<le> dp_maxAttempts pol \<and> list_all (\<lambda>j. \<not> ae_abortedBefore (env j)) [n ..< k]
     \<and> list_all (\<lambda>j. retry_worthy (env j)) [n ..< k - 1] \<and> accepted_at (env (k - 1))"

lemma succeeds_at_step:
  "succeeds_at pol env n k \<longleftrightarrow> n < dp_maxAttempts pol \<and> \<not> ae_abortedBefore (env n)
     \<and> (if accepted_at (env n) \<and> k = Suc n then True else retry_worthy (env n) \<and> succeeds_at pol env (Suc n) k)"
proof (cases "n < k")
  case True
  then show ?thesis
    by (cases "k = Suc n") (auto simp: succeeds_at_def upt_conv_Cons)
qed (auto simp: succeeds_at_def)

lemma accepted_not_worthy: "accepted_at e \<Longrightarrow> \<not> retry_worthy e"
  by (auto simp: accepted_at_def retry_worthy_def split: FetchResult.splits)

lemma post_loop_result: "fst (post_loop pol t env n lastErr s) = Inr k \<longleftrightarrow> succeeds_at pol env n k"
proof (induction "dp_maxAttempts pol - n" arbitrary: n lastErr s rule: less_induct)
  case less
  show ?case
  proof (cases "n < dp_maxAttempts pol \<and> \<not> ae_abortedBefore (env n)")
    case False
    then show ?thesis by (subst post_loop.simps, subst succeeds_at_step) (auto simp: Let_def)
  next
    case True
    then have "dp_maxAttempts pol - Suc n < dp_maxAttempts pol - n" by arith
    note IH = less.hyps [OF this]
    show ?thesis
      using True
      by (subst post_loop.simps, subst succeeds_at_step)
        (auto simp: Let_def IH accepted_at_def retry_worthy_def split: FetchResult.split)
  qed
qed

lemma br_events_note_attempt [simp]: "br_events (note_attempt rid n l s) = br_events s"
  by (simp add: note_attempt_def split: option.split)

lemma br_events_emit [simp]: "br_events (emitDispatchEvent e s) = br_events s @ [e]"
  by (simp add: emitDispatchEvent_def)

lemma post_loop_events:
  "length (br_events (snd (post_loop pol t env n lastErr s))) \<le> length (br_events s) + (dp_maxAttempts pol - n)"
proof (induction "dp_maxAttempts pol - n" arbitrary: n lastErr s rule: less_induct)
  case less
  show ?case
  proof (cases "n < dp_maxAttempts pol \<and> \<not> ae_abortedBefore (env n)")
    case False
    then show ?thesis by (subst post_loop.simps) (auto simp: Let_def)
  next
    case True
    then have d: "dp_maxAttempts pol - Suc n < dp_maxAttempts pol - n" by arith
    have IH: "length (br_events (snd (post_loop pol t env (Suc n) e s'))) \<le> length (br_events s) + dp_maxAttempts pol - n"
      if "length (br_events s') = Suc (length (br_events s))" for e s'
      using less.hyps [OF d, of e s'] that d by arith
    show ?thesis
      using True by (subst post_loop.simps) (auto simp: Let_def IH split: FetchResult.split)
  qed
qed

section \<open>Requests under interleaving\<close>

text \<open>
  The calls that touch the pending replies, in any order: streams open requests, note
  attempts, reject or clean up; replies come in. An invariant: what is settled is not pending.
\<close>

datatype BridgeOp =
    BrOpen int DispatchTarget string
  | BrStarted int string
  | BrNote string nat int
  | BrSubmit int string string string
  | BrSubmitFor int ChairReplySubmission
  | BrReject int string string
  | BrCleanup string

fun bridge_step :: "(string \<Rightarrow> string \<Rightarrow> string) \<Rightarrow> (string \<Rightarrow> string) \<Rightarrow> ChairBridge \<Rightarrow> BridgeOp \<Rightarrow> ChairBridge" where
  "bridge_step hmac redact s (BrOpen now t secret) = open_pending now t secret s"
| "bridge_step hmac redact s (BrStarted now rid) = set_started now rid s"
| "bridge_step hmac redact s (BrNote rid n l) = note_attempt rid n l s"
| "bridge_step hmac redact s (BrSubmit now topic a c) = snd (submitReply now topic a c s)"
| "bridge_step hmac redact s (BrSubmitFor now inp) = snd (submitReplyForRequest hmac redact now inp s)"
| "bridge_step hmac redact s (BrReject now rid msg) = reject_pending now rid msg s"
| "bridge_step hmac redact s (BrCleanup rid) = cleanupPending rid s"

fun reopens :: "string \<Rightarrow> BridgeOp \<Rightarrow> bool" where
  "reopens rid (BrOpen now t secret) = (dt_requestId t = rid)"
| "reopens rid _ = False"

definition settled_with :: "string \<Rightarrow> Settlement \<Rightarrow> ChairBridge \<Rightarrow> bool" where
  "settled_with rid x s \<longleftrightarrow> om_get (br_pending s) rid = None \<and> om_get (br_settled s) rid = Some x"

lemma settle_get:
  "om_get (br_pending (settle rid x s)) r = (if r = rid then None else om_get (br_pending s) r)"
  "om_get (br_settled (settle rid x s)) r =
     (if r = rid \<and> om_get (br_settled s) r = None then Some x else om_get (br_settled s) r)"
  by (auto simp: settle_def)

lemma settled_step: "settled_with rid x s \<Longrightarrow> \<not> reopens rid e \<Longrightarrow> settled_with rid x (bridge_step hmac redact s e)"
  by (cases e)
    (auto simp: settled_with_def open_pending_def set_started_def note_attempt_def submitReply_def Let_def
      submitReplyForRequest_def reject_pending_def cleanupPending_def settle_get
      split: option.splits list.splits if_splits)

interpretation settled: trapping_system "bridge_step hmac redact" "settled_with rid x" "\<lambda>e. \<not> reopens rid e"
  for hmac redact rid x
  by unfold_locales (rule settled_step)

lemma submit_ok_iff:
  "fst (submitReplyForRequest hmac redact now inp s) = SubmitOk r \<longleftrightarrow>
     (\<exists>p. om_get (br_pending s) (sub_requestId inp) = Some p \<and> pr_agentId p = sub_agentId inp
       \<and> (sub_topicId inp = None \<or> sub_topicId inp = Some (pr_topicId p))
       \<and> pr_claimSessionId p = sub_claimSessionId inp
       \<and> verifyChairReplyProof hmac (sub_requestId inp) (pr_claimSessionId p) (pr_replyProofSecret p) (sub_replyProof inp)
       \<and> r = reply_receipt redact now inp p)"
  by (auto simp: submitReplyForRequest_def Let_def split: option.splits)

lemma submit_ok_state:
  assumes "fst (submitReplyForRequest hmac redact now inp s) = SubmitOk r"
  shows "\<exists>x. snd (submitReplyForRequest hmac redact now inp s) = settle (sub_requestId inp) x s"
  using assms by (auto simp: submitReplyForRequest_def Let_def split: option.splits if_splits)

section \<open>Properties\<close>

text \<open>The POST of a dispatch succeeds exactly when some attempt within \<open>maxAttempts\<close> is
  answered with 2xx and every earlier one failed in a way worth a retry (a network error the
  caller did not cause, or 429, 502, 503, 504), with no abort seen on the way; the number it
  returns is that attempt, and at most \<open>maxAttempts\<close> attempts are reported.\<close>

theorem dispatch_retries_transient_failures:
  "(fst (postWithRetry pol t env s) = Inr k \<longleftrightarrow>
      0 < k \<and> k \<le> dp_maxAttempts pol \<and> accepted_at (env (k - 1))
      \<and> list_all (\<lambda>j. \<not> ae_abortedBefore (env j)) [0 ..< k] \<and> list_all (\<lambda>j. retry_worthy (env j)) [0 ..< k - 1])
    \<and> length (br_events (snd (postWithRetry pol t env s))) \<le> length (br_events s) + dp_maxAttempts pol"
  using post_loop_events [of pol t env 0] by (auto simp: postWithRetry_def post_loop_result succeeds_at_def)

text \<open>C10: through \<open>submitReplyForRequest\<close>, the call behind the HTTP route, a reply is taken only
  from the agent and the claim session the request was sent to, with a proof that verifies under
  the secret sent along, and only once: whatever calls follow, those of \<open>submitReply\<close> included (which
  asks for no proof), short of a new request under the same id, what the stream receives does not
  change and every further reply to it is answered with 404.\<close>

theorem reply_taken_once:
  assumes ok: "submitReplyForRequest hmac redact now inp s = (SubmitOk r, s1)"
    and "rid = sub_requestId inp" and fresh: "om_get (br_settled s) rid = None"
    and "list_all (\<lambda>e. \<not> reopens rid e) es" and "s2 = foldl (bridge_step hmac redact) s1 es"
    and "sub_requestId inp' = rid"
  shows "(\<exists>p. om_get (br_pending s) rid = Some p \<and> pr_agentId p = sub_agentId inp
      \<and> pr_claimSessionId p = sub_claimSessionId inp
      \<and> verifyChairReplyProof hmac rid (pr_claimSessionId p) (pr_replyProofSecret p) (sub_replyProof inp))
    \<and> om_get (br_settled s2) rid \<noteq> None \<and> om_get (br_settled s2) rid = om_get (br_settled s1) rid
    \<and> submitReplyForRequest hmac redact later inp' s2 = (SubmitRefused 404 ''unknown_chair_dispatch_request'', s2)"
proof -
  have ok': "fst (submitReplyForRequest hmac redact now inp s) = SubmitOk r" by (simp add: ok)
  then obtain x where "s1 = settle rid x s" using submit_ok_state [OF ok'] ok assms(2) by auto
  then have x: "settled_with rid x s1" using fresh by (simp add: settled_with_def settle_get)
  then have "settled_with rid x s2"
    unfolding assms(5) by (rule settled.run_trap) (rule assms(4))
  then show ?thesis
    using ok' [unfolded submit_ok_iff] x assms(2,6)
    by (auto simp: settled_with_def submitReplyForRequest_def)
qed

theorem reply_taken_once_witness:
  "\<exists>r s1. submitReplyForRequest (\<lambda>_ _. ''12'') id 5
      \<lparr>sub_requestId = ''r'', sub_agentId = ''nyx'', sub_claimSessionId = ''c'', sub_replyProof = ''12'', sub_topicId = None,
       sub_content = Some ''hi'', sub_status = None, sub_error = None\<rparr>
      \<lparr>br_pending = [(''r'', \<lparr>pr_requestId = ''r'', pr_topicId = ''t'', pr_agentId = ''nyx'', pr_claimSessionId = ''c'',
         pr_replyProofSecret = ''k'', pr_createdAt = 0, pr_dispatchStartedAt = None, pr_dispatchAttempts = Some 1,
         pr_dispatchLatencyMs = None\<rparr>)], br_settled = [], br_events = []\<rparr> = (SubmitOk r, s1)
    \<and> om_get (br_settled s1) ''r'' \<noteq> None"
proof -
  define inp where "inp = \<lparr>sub_requestId = ''r'', sub_agentId = ''nyx'', sub_claimSessionId = ''c'', sub_replyProof = ''12'',
       sub_topicId = None, sub_content = Some ''hi'', sub_status = None, sub_error = None\<rparr>"
  define s where "s = \<lparr>br_pending = [(''r'', \<lparr>pr_requestId = ''r'', pr_topicId = ''t'', pr_agentId = ''nyx'', pr_claimSessionId = ''c'',
         pr_replyProofSecret = ''k'', pr_createdAt = 0, pr_dispatchStartedAt = None, pr_dispatchAttempts = Some 1,
         pr_dispatchLatencyMs = None\<rparr>)], br_settled = [], br_events = []\<rparr>"
  have "verifyChairReplyProof (\<lambda>_ _. ''12'') ''r'' ''c'' ''k'' ''12''"
    by (simp add: verifyChairReplyProof_def createChairReplyProof_def trim_def js_space_def lower_char_def is_hex_def)
  then have "fst (submitReplyForRequest (\<lambda>_ _. ''12'') id 5 inp s) = SubmitOk (reply_receipt id 5 inp (snd (hd (br_pending s))))"
    unfolding submit_ok_iff by (simp add: inp_def s_def)
  then obtain r s1 where ok: "submitReplyForRequest (\<lambda>_ _. ''12'') id 5 inp s = (SubmitOk r, s1)" by (metis prod.collapse)
  have "om_get (br_settled s1) ''r'' \<noteq> None"
    using reply_taken_once [OF ok refl, of "[]" s1 inp] by (simp add: inp_def s_def)
  with ok show ?thesis unfolding inp_def s_def by blast
qed

end
