(* ===== verification/Egress.thy ===== *)
theory Egress
  imports Kovael_Prelude
begin

text \<open>
  \<open>src/src/services/UrlEgressGuard.ts\<close>: which addresses a chair URL may reach.
  \<open>isIP\<close> is \<open>net.isIP\<close> (0, 4 or 6), \<open>parse\<close> the WHATWG URL parser,
  \<open>pinned\<close> the \<open>href\<close> of a URL whose host name was replaced, and \<open>lookup\<close> the
  DNS answer (\<open>None\<close>: the resolver threw).
\<close>

section \<open>Addresses\<close>

text \<open>\<open>Number\<close> of a piece between dots: a decimal numeral, or not a number.\<close>

definition octet :: "string \<Rightarrow> nat option" where
  "octet s = (if list_all is_digit s then Some (number_in 10 s) else None)"

definition octets :: "string \<Rightarrow> nat option list" where
  "octets v4 = map octet (split_at CHR ''.'' v4)"

definition octet_at :: "nat \<Rightarrow> nat option list \<Rightarrow> nat option" where
  "octet_at i os = (if i < length os then os ! i else None)"

definition isBlockedV4 :: "bool \<Rightarrow> string \<Rightarrow> bool" where
  "isBlockedV4 blockPrivate v4 =
     (let o0 = octet_at 0 (octets v4); o1 = octet_at 1 (octets v4) in
      o0 = Some 169 \<and> o1 = Some 254
      \<or> v4 = ''0.0.0.0''
      \<or> (blockPrivate \<and> (o0 = Some 10
           \<or> (o0 = Some 172 \<and> (case o1 of Some n \<Rightarrow> 16 \<le> n \<and> n \<le> 31 | None \<Rightarrow> False))
           \<or> (o0 = Some 192 \<and> o1 = Some 168))))"

definition strip_brackets :: "string \<Rightarrow> string" where
  "strip_brackets s =
     (let s1 = (if s \<noteq> [] \<and> hd s = CHR ''['' then tl s else s)
      in if s1 \<noteq> [] \<and> last s1 = CHR '']'' then butlast s1 else s1)"

text \<open>The match of \<open>/^([0-9a-f]{1,4}):([0-9a-f]{1,4})$/\<close>.\<close>

definition hex_groups :: "string \<Rightarrow> (string \<times> string) option" where
  "hex_groups e =
     (case split_at CHR '':'' e of
        [a, b] \<Rightarrow> if a \<noteq> [] \<and> length a \<le> 4 \<and> list_all is_hex a \<and> b \<noteq> [] \<and> length b \<le> 4 \<and> list_all is_hex b
                  then Some (a, b) else None
      | _ \<Rightarrow> None)"

definition dotted :: "nat list \<Rightarrow> string" where
  "dotted ns = (case map show_nat ns of [] \<Rightarrow> [] | p # ps \<Rightarrow> p @ concat (map (\<lambda>q. CHR ''.'' # q) ps))"

definition embedded_v4 :: "string \<Rightarrow> string \<Rightarrow> string" where
  "embedded_v4 a b =
     (let hi = number_in 16 a; lo = number_in 16 b
      in dotted [(hi div 256) mod 256, hi mod 256, (lo div 256) mod 256, lo mod 256])"

definition isBlockedEgressIp :: "(string \<Rightarrow> nat) \<Rightarrow> bool \<Rightarrow> string \<Rightarrow> bool" where
  "isBlockedEgressIp isIP blockPrivate ip =
     (let addr = strip_brackets (toLowerCase ip); fam = isIP addr;
          rest = (addr = ''::'' \<or> addr = ''::0'' \<or> starts_with ''fe80:'' addr
                  \<or> (blockPrivate \<and> (starts_with ''fc'' addr \<or> starts_with ''fd'' addr)))
      in if fam = 4 then isBlockedV4 blockPrivate addr
         else if fam = 6 then
           (if starts_with ''::ffff:'' addr \<and> drop 7 addr \<noteq> [] then
              let e = drop 7 addr in
              (if isIP e = 4 then isBlockedV4 blockPrivate e
               else case hex_groups e of Some (a, b) \<Rightarrow> isBlockedV4 blockPrivate (embedded_v4 a b) | None \<Rightarrow> rest)
            else rest)
         else False)"

section \<open>URLs\<close>

record chair_url =
  url_protocol :: string
  url_hostname :: string

datatype egress_error = InvalidUrl | BadProtocol string | BlockedHost string | Unresolved string | BlockedAddress string
  | LookupFailed string

definition resolveSafeChairUrl ::
    "(string \<Rightarrow> nat) \<Rightarrow> (string \<Rightarrow> chair_url option) \<Rightarrow> (string \<Rightarrow> string \<Rightarrow> string) \<Rightarrow> (string \<Rightarrow> string list option) \<Rightarrow>
     bool \<Rightarrow> string \<Rightarrow> egress_error + string" where
  "resolveSafeChairUrl isIP parse pinned lookup blockPrivate s =
     (case parse s of None \<Rightarrow> Inl InvalidUrl
      | Some url \<Rightarrow>
          if url_protocol url \<noteq> ''http:'' \<and> url_protocol url \<noteq> ''https:'' then Inl (BadProtocol (url_protocol url))
          else let host = strip_brackets (url_hostname url) in
          if isIP host \<noteq> 0 then
            (if isBlockedEgressIp isIP blockPrivate host then Inl (BlockedHost host) else Inr s)
          else case lookup host of None \<Rightarrow> Inl (LookupFailed host)
          | Some addresses \<Rightarrow>
              if addresses = [] then Inl (Unresolved host)
              else case find (isBlockedEgressIp isIP blockPrivate) addresses of
                Some ip \<Rightarrow> Inl (BlockedAddress ip)
              | None \<Rightarrow>
                  if url_protocol url = ''http:'' then
                    let ip = hd addresses
                    in Inr (pinned s (if isIP ip = 6 then ''['' @ ip @ '']'' else ip))
                  else Inr s)"

section \<open>Renderings of an address\<close>

lemma digit_val_digit_char: "d < 10 \<Longrightarrow> digit_val (digit_char d) = d \<and> is_digit (digit_char d)"
proof -
  assume "d < 10"
  then have "d \<in> {0,1,2,3,4,5,6,7,8,9}" by auto
  then show ?thesis by (auto simp: digit_val_def digit_char_def is_digit_def)
qed

lemma show_nat_digits: "list_all is_digit (show_nat n) \<and> number_in 10 (show_nat n) = n"
proof (induction n rule: show_nat.induct)
  case (1 n)
  show ?case
  proof (cases "n < 10")
    case True
    then show ?thesis by (subst (1 2) show_nat.simps) (simp add: number_in_def digit_val_digit_char)
  next
    case False
    then have IH: "list_all is_digit (show_nat (n div 10))" "number_in 10 (show_nat (n div 10)) = n div 10"
      using "1.IH" by simp_all
    have "digit_val (digit_char (n mod 10)) = n mod 10 \<and> is_digit (digit_char (n mod 10))"
      by (rule digit_val_digit_char) simp
    then show ?thesis
      using False IH by (subst (1 2) show_nat.simps) (simp add: number_in_def)
  qed
qed

lemma show_nat_nonempty: "show_nat n \<noteq> []"
  by (subst show_nat.simps) simp

lemma not_digit_marks: "\<not> is_digit CHR ''.''" "\<not> is_digit CHR '':''" "\<not> is_digit CHR '']''" "\<not> is_digit CHR ''[''"
  by (simp_all add: is_digit_def)

lemma octets_dotted: "octets (dotted [a, b, c, d]) = [Some a, Some b, Some c, Some d]"
proof -
  have nodot: "CHR ''.'' \<notin> set (show_nat n)" for n
    using show_nat_digits [of n] not_digit_marks(1) by (auto simp: list_all_iff)
  have "octet (show_nat n) = Some n" for n using show_nat_digits [of n] by (simp add: octet_def)
  then show ?thesis by (simp add: octets_def dotted_def split_at_append nodot)
qed

lemma blocked_link_local: "isBlockedV4 bp (dotted [169, 254, c, d])"
  by (simp add: isBlockedV4_def octets_dotted octet_at_def)

lemma lower_char_digit: "is_digit c \<Longrightarrow> lower_char c = c"
  by (rule lower_char_hex) (auto simp: is_hex_def is_digit_def)

text \<open>A dotted quad and its mapped renderings are what lower-casing and the brackets leave.\<close>

definition quad :: "string \<Rightarrow> bool" where
  "quad s \<longleftrightarrow> (\<exists>a b c d. s = dotted [a, b, c, d])"

lemma dotted_nonempty: "dotted (n # ns) \<noteq> []"
  by (simp add: dotted_def show_nat_nonempty)

lemma dotted_chars: "c \<in> set (dotted ns) \<Longrightarrow> is_digit c \<or> c = CHR ''.''"
  using show_nat_digits by (auto simp: dotted_def list_all_iff split: list.splits if_splits)

lemma strip_brackets_id:
  assumes "s \<noteq> []" and "CHR ''['' \<notin> set s" and "CHR '']'' \<notin> set s"
  shows "strip_brackets s = s"
proof -
  have "hd s \<noteq> CHR ''[''" and "last s \<noteq> CHR '']''"
    using assms by (metis hd_in_set) (use assms in \<open>metis last_in_set\<close>)
  then show ?thesis by (simp add: strip_brackets_def)
qed

lemma plain_address:
  assumes "s \<noteq> []" and "\<And>c. c \<in> set s \<Longrightarrow> is_digit c \<or> is_hex c \<or> c = CHR ''.'' \<or> c = CHR '':''"
  shows "strip_brackets (toLowerCase s) = s" and "strip_brackets (toLowerCase (''['' @ s @ '']'')) = s"
proof -
  have marks: "lower_char CHR ''.'' = CHR ''.''" "lower_char CHR '':'' = CHR '':''"
    "lower_char CHR ''['' = CHR ''[''" "lower_char CHR '']'' = CHR '']''"
    by (simp_all add: lower_char_def)
  have low: "toLowerCase s = s"
    unfolding toLowerCase_def by (rule map_idI) (use assms(2) marks lower_char_hex lower_char_digit in blast)
  then show "strip_brackets (toLowerCase (''['' @ s @ '']'')) = s"
    by (simp add: strip_brackets_def toLowerCase_def marks)
  have "\<not> is_hex CHR ''[''" "\<not> is_hex CHR '']''" by (simp_all add: is_hex_def)
  then have "CHR ''['' \<notin> set s" "CHR '']'' \<notin> set s"
    using assms(2) not_digit_marks by blast+
  then show "strip_brackets (toLowerCase s) = s"
    using assms(1) unfolding low by (intro strip_brackets_id)
qed

lemma mapped_blocked:
  assumes "strip_brackets (toLowerCase s) = ''::ffff:'' @ e" and "isIP (''::ffff:'' @ e) = 6" and "e \<noteq> []"
  shows "isIP e = 4 \<Longrightarrow> isBlockedV4 bp e \<Longrightarrow> isBlockedEgressIp isIP bp s"
    and "isIP e \<noteq> 4 \<Longrightarrow> hex_groups e = Some (a, b) \<Longrightarrow> isBlockedV4 bp (embedded_v4 a b) \<Longrightarrow> isBlockedEgressIp isIP bp s"
  using assms by (simp_all add: isBlockedEgressIp_def starts_with_def)

section \<open>Properties\<close>

text \<open>C11: the link-local range \<open>169.254.0.0/16\<close>, which holds the cloud metadata service, is
  refused in the three forms the resolver and the URL parser give it: the dotted quad, the quad mapped
  into IPv6, and the mapped address with its last two groups in hexadecimal, bare or in brackets. (Other
  spellings of IPv6, uncompressed ones and \<open>fe81:\<close> to \<open>febf:\<close>, are not recognised by the guard.) (\<open>isIP\<close>
  knows a quad as version 4 and the mapped forms as version 6.)\<close>

theorem metadata_address_blocked:
  assumes v4: "\<And>a b c d. max (max a b) (max c d) \<le> 255 \<Longrightarrow> isIP (dotted [a, b, c, d]) = 4"
    and v6: "\<And>e. isIP e = 4 \<or> hex_groups e \<noteq> None \<Longrightarrow> isIP (''::ffff:'' @ e) = 6"
    and hex: "\<And>e. hex_groups e \<noteq> None \<Longrightarrow> isIP e \<noteq> 4"
    and lo: "hex_groups (''a9fe:'' @ g) = Some (''a9fe'', g)"
    and cd: "c \<le> 255" "d \<le> 255"
    and addr: "addr \<in> {dotted [169, 254, c, d], ''::ffff:'' @ dotted [169, 254, c, d], ''::ffff:a9fe:'' @ g}"
  shows "isBlockedEgressIp isIP bp addr \<and> isBlockedEgressIp isIP bp (''['' @ addr @ '']'')"
proof -
  have g: "list_all is_hex g" using lo by (auto simp: hex_groups_def split: list.splits if_splits)
  have "number_in 16 ''a9fe'' = 43518" by (simp add: number_in_def digit_val_def)
  then have emb: "isBlockedV4 bp (embedded_v4 ''a9fe'' g)"
    by (simp add: embedded_v4_def Let_def blocked_link_local)
  have v4: "isIP (dotted [169, 254, c, d]) = 4" using cd by (intro v4) simp
  have blocked: "isBlockedEgressIp isIP bp s" if s: "strip_brackets (toLowerCase s) = addr" for s
  proof -
    consider "addr = dotted [169, 254, c, d]" | "addr = ''::ffff:'' @ dotted [169, 254, c, d]" | "addr = ''::ffff:'' @ ''a9fe:'' @ g"
      using addr by auto
    then show ?thesis
    proof cases
      case 1
      then show ?thesis using s v4 by (simp add: isBlockedEgressIp_def blocked_link_local)
    next
      case 2
      show ?thesis
        by (rule mapped_blocked(1) [OF s [unfolded 2] v6 dotted_nonempty v4 blocked_link_local]) (simp add: v4)
    next
      case 3
      have "hex_groups (''a9fe:'' @ g) \<noteq> None" by (simp only: lo) simp
      then have six: "isIP (''::ffff:'' @ ''a9fe:'' @ g) = 6" and not4: "isIP (''a9fe:'' @ g) \<noteq> 4"
        using v6 [of "''a9fe:'' @ g"] hex [of "''a9fe:'' @ g"] by blast+
      show ?thesis
        by (rule mapped_blocked(2) [where e = "''a9fe:'' @ g", OF s [unfolded 3] six _ not4 lo emb]) simp
    qed
  qed
  let ?plain = "\<lambda>x. is_digit x \<or> is_hex x \<or> x = CHR ''.'' \<or> x = CHR '':''"
  have "list_all ?plain ''::ffff:''" and "list_all ?plain ''::ffff:a9fe:''" by (simp_all add: is_hex_def)
  moreover have "list_all ?plain g" using g by (auto simp: list_all_iff)
  moreover have "list_all ?plain (dotted [169, 254, c, d])" using dotted_chars by (auto simp: list_all_iff)
  ultimately have "list_all ?plain (''::ffff:'' @ dotted [169, 254, c, d])" "list_all ?plain (''::ffff:a9fe:'' @ g)"
    "list_all ?plain (dotted [169, 254, c, d])" by (simp_all only: list_all_append)
  then have "list_all ?plain addr" using addr by blast
  moreover have "addr \<noteq> []" using addr dotted_nonempty [of 169 "[254, c, d]"] by (elim insertE) simp_all
  ultimately have chars: "addr \<noteq> [] \<and> (\<forall>x \<in> set addr. ?plain x)" unfolding list_all_iff by blast
  show ?thesis
    using plain_address [of addr] chars by (auto intro: blocked)
qed

theorem metadata_address_blocked_witness:
  "isBlockedEgressIp (\<lambda>s. if starts_with ''::ffff:'' s then 6 else if CHR '':'' \<in> set s then 0 else 4) False
     ''[::ffff:169.254.169.254]''"
proof -
  let ?isIP = "\<lambda>s. if starts_with ''::ffff:'' s then 6 else if CHR '':'' \<in> set s then 0 else 4 :: nat"
  have meta: "dotted [169, 254, 169, 254] = ''169.254.169.254''"
    by (simp add: dotted_def show_nat.simps digit_char_def)
  have colon: "CHR '':'' \<notin> set (dotted ns)" for ns
    using dotted_chars [of "CHR '':''" ns] not_digit_marks(2) by auto
  have v4: "?isIP (dotted [a, b, c, d]) = 4" for a b c d
  proof -
    have "\<not> starts_with ''::ffff:'' (dotted [a, b, c, d])"
      using colon starts_with_set [of "''::ffff:''" "dotted [a, b, c, d]"] by auto
    then show ?thesis using colon by simp
  qed
  have hex: "?isIP e \<noteq> 4" if "hex_groups e \<noteq> None" for e
    using that split_at_append(2) [of "CHR '':''" e] by (auto simp: hex_groups_def split: list.splits if_splits)
  have lo: "hex_groups (''a9fe:'' @ ''0'') = Some (''a9fe'', ''0'')"
    by (simp add: hex_groups_def is_hex_def)
  have addr: "''::ffff:'' @ dotted [169, 254, 169, 254] \<in>
      {dotted [169, 254, 169, 254], ''::ffff:'' @ dotted [169, 254, 169, 254], ''::ffff:a9fe:'' @ ''0''}" by simp
  have "isBlockedEgressIp ?isIP False (''['' @ (''::ffff:'' @ dotted [169, 254, 169, 254]) @ '']'')"
    using metadata_address_blocked [where isIP = ?isIP and c = 169 and d = 254 and g = "''0''" and bp = False, OF v4 _ hex lo _ _ addr]
    by (simp add: starts_with_def)
  then show ?thesis by (simp add: meta)
qed

text \<open>The URL a dispatch fetches was checked: it is an http or https URL whose host is an address
  outside the blocked ranges, or whose host name resolved to addresses that are all outside them,
  and an http URL with a host name is pinned to the first of those addresses.\<close>

theorem dispatch_url_checked:
  "resolveSafeChairUrl isIP parse pinned lookup bp s = Inr u \<longleftrightarrow>
    (\<exists>url. parse s = Some url \<and> url_protocol url \<in> {''http:'', ''https:''} \<and>
      (let host = strip_brackets (url_hostname url) in
        (isIP host \<noteq> 0 \<and> \<not> isBlockedEgressIp isIP bp host \<and> u = s)
        \<or> (isIP host = 0 \<and> (\<exists>ip ips. lookup host = Some (ip # ips) \<and> list_all (\<lambda>a. \<not> isBlockedEgressIp isIP bp a) (ip # ips)
            \<and> u = (if url_protocol url = ''http:'' then pinned s (if isIP ip = 6 then ''['' @ ip @ '']'' else ip) else s)))))"
proof (cases "parse s")
  case (Some url)
  let ?bad = "isBlockedEgressIp isIP bp"
  have none: "find ?bad xs = None \<longleftrightarrow> list_all (\<lambda>a. \<not> ?bad a) xs" for xs
    by (auto simp: find_None_iff list_all_iff)
  show ?thesis
  proof (cases "lookup (strip_brackets (url_hostname url))")
    case None
    then show ?thesis by (auto simp: resolveSafeChairUrl_def Some Let_def)
  next
    case (Some ips)
    then show ?thesis
      using \<open>parse s = Some url\<close> none [of ips]
      by (cases ips; cases "find ?bad ips") (auto simp: resolveSafeChairUrl_def Let_def simp del: find.simps)
  qed
qed (simp add: resolveSafeChairUrl_def)

end
