(* ===== verification/Conversation.thy ===== *)
theory Conversation
  imports Chairs ChairBridge Consensus
begin

text \<open>
  \<open>src/src/services/ConversationBus.ts\<close>: topics, their messages, and the round-table loop
  \<open>convene\<close>. The tables \<open>conversation_topics\<close> and \<open>conversation_messages\<close> are a keyed
  map and the list of rows in \<open>rowid\<close> order; a message row needs its topic's row (the
  foreign key), and \<open>crypto.randomUUID()\<close> gives ids no row has. \<open>json_len\<close> is the length
  of the text \<open>JSON.stringify\<close> makes of a history. What the outside does during turn
  \<open>k\<close> of a round table, the chairs' registry, the circuit breaker's gate, the model's
  stream, the clock and the abort signal included, is the argument \<open>env k\<close>.
\<close>

section \<open>Data\<close>

datatype ChatRole = RoleSystem | RoleUser | RoleAssistant

record ChatMessage =
  cm_role :: ChatRole
  cm_content :: string
  cm_name :: string

record ActiveTopic =
  at_id :: string
  at_title :: string
  at_participants :: "string list"
  at_active :: bool
  at_tokenBudgets :: "(string, int) omap"
  at_aborted :: "bool option"

record ConversationTopic =
  tp_id :: string
  tp_title :: string
  tp_participants :: "string list"
  tp_active :: bool

record TopicRow =
  trow_title :: string
  trow_participants :: json_text
  trow_active :: bool

record ConversationMessage =
  ms_id :: string
  ms_topicId :: string
  ms_senderId :: string
  ms_role :: ChatRole
  ms_content :: string
  ms_timestamp :: int

datatype BusEvent =
    TopicOpened ConversationTopic
  | TopicClosed string
  | DispatchUnavailable string string string
  | MessageDelta string string string ChatRole string bool "TokenUsage option"
  | DispatchRerouted string string string
  | DispatchFailureEvent string string string "string option" "string option" "nat option" "int option"
  | DispatchReceiptEvent ChairDispatchReceipt
  | DispatchSuccessEvent string string "ChairDispatchReceipt option"
  | TelemetryEvent ChairDispatchTelemetryEvent
  | StoppingCriterion string string string rat
  | CommitteeStarted string string "string list" "string option" "string option"
  | CommitteeVoteEvent string CommitteeVote
  | CommitteeOutcome bool string CommitteeVerdict

record ConversationBus =
  bus_topics :: "(string, TopicRow) omap"
  bus_messages :: "ConversationMessage list"
  bus_activeTopics :: "(string, ActiveTopic) omap"
  bus_events :: "BusEvent list"

datatype bus_error = InactiveTopic string | CommitteeTopicNotActive | ForeignKeyViolation

section \<open>Topics and messages\<close>

definition bus_emit :: "BusEvent \<Rightarrow> ConversationBus \<Rightarrow> ConversationBus" where
  "bus_emit e b = b\<lparr>bus_events := bus_events b @ [e]\<rparr>"

definition bus_emits :: "BusEvent list \<Rightarrow> ConversationBus \<Rightarrow> ConversationBus" where
  "bus_emits es b = b\<lparr>bus_events := bus_events b @ es\<rparr>"

definition token_budgets :: "string list \<Rightarrow> (string, int) omap" where
  "token_budgets ps = foldl (\<lambda>m p. om_set p 4000 m) [] ps"

definition active_topic :: "string \<Rightarrow> string \<Rightarrow> string list \<Rightarrow> ActiveTopic" where
  "active_topic topicId title participants =
     \<lparr>at_id = topicId, at_title = title, at_participants = participants, at_active = True,
      at_tokenBudgets = token_budgets participants, at_aborted = None\<rparr>"

definition hydrateActiveTopics :: "ConversationBus \<Rightarrow> ConversationBus" where
  "hydrateActiveTopics b =
     b\<lparr>bus_activeTopics := foldl (\<lambda>m (topicId, row).
          om_set topicId (active_topic topicId (trow_title row) (parse_capabilities (trow_participants row))) m)
        (bus_activeTopics b) (filter (\<lambda>(_, row). trow_active row) (bus_topics b))\<rparr>"

definition new_bus :: "(string, TopicRow) omap \<Rightarrow> ConversationMessage list \<Rightarrow> ConversationBus" where
  "new_bus topics messages = hydrateActiveTopics
     \<lparr>bus_topics = topics, bus_messages = messages, bus_activeTopics = [], bus_events = []\<rparr>"

definition activeTopicCount :: "ConversationBus \<Rightarrow> nat" where
  "activeTopicCount b = length (bus_activeTopics b)"

definition createTopic :: "string \<Rightarrow> string \<Rightarrow> string list \<Rightarrow> ConversationBus \<Rightarrow> ConversationTopic \<times> ConversationBus" where
  "createTopic uuid title participants b =
     (let topic = \<lparr>tp_id = uuid, tp_title = title, tp_participants = participants, tp_active = True\<rparr>;
          b1 = b\<lparr>bus_topics := om_set uuid
                  \<lparr>trow_title = title, trow_participants = JsonStrings participants, trow_active = True\<rparr> (bus_topics b)\<rparr>;
          b2 = b1\<lparr>bus_activeTopics := om_set uuid (active_topic uuid title participants) (bus_activeTopics b1)\<rparr>
      in (topic, bus_emit (TopicOpened topic) b2))"

text \<open>Closing aborts the topic's controller, if it has one, and drops the entry that holds it.\<close>

definition closeTopic :: "string \<Rightarrow> ConversationBus \<Rightarrow> ConversationBus" where
  "closeTopic topicId b =
     (let b1 = (case om_get (bus_activeTopics b) topicId of None \<Rightarrow> b
          | Some _ \<Rightarrow> b\<lparr>bus_activeTopics := om_delete topicId (bus_activeTopics b)\<rparr>);
          b2 = b1\<lparr>bus_topics := (case om_get (bus_topics b1) topicId of None \<Rightarrow> bus_topics b1
            | Some row \<Rightarrow> om_set topicId (row\<lparr>trow_active := False\<rparr>) (bus_topics b1))\<rparr>
      in bus_emit (TopicClosed topicId) b2)"

definition getHistory :: "string \<Rightarrow> nat \<Rightarrow> ConversationBus \<Rightarrow> ChatMessage list" where
  "getHistory topicId limit b =
     (let rows = filter (\<lambda>m. ms_topicId m = topicId) (bus_messages b);
          newest_first = rev (sort_key ms_timestamp rows)
      in map (\<lambda>r. \<lparr>cm_role = ms_role r, cm_content = ms_content r, cm_name = ms_senderId r\<rparr>)
           (rev (take limit newest_first)))"

definition postMessage :: "string \<Rightarrow> int \<Rightarrow> string \<Rightarrow> string \<Rightarrow> ChatRole \<Rightarrow> string \<Rightarrow> ConversationBus \<Rightarrow>
    bus_error + ConversationMessage \<times> ConversationBus" where
  "postMessage uuid now topicId senderId role content b =
     (let msg = \<lparr>ms_id = uuid, ms_topicId = topicId, ms_senderId = senderId, ms_role = role,
                 ms_content = content, ms_timestamp = now\<rparr>
      in if om_has (bus_topics b) topicId then Inr (msg, b\<lparr>bus_messages := bus_messages b @ [msg]\<rparr>)
         else Inl ForeignKeyViolation)"

section \<open>Mentions\<close>

definition mention_char :: "char \<Rightarrow> bool" where
  "mention_char c \<longleftrightarrow> is_letter c \<or> is_digit c \<or> c = CHR ''_'' \<or> c = CHR ''-''"

function parseMentions :: "string \<Rightarrow> string list" where
  "parseMentions [] = []"
| "parseMentions (c # s) =
     (if c = CHR ''@'' \<and> takeWhile mention_char s \<noteq> []
      then takeWhile mention_char s # parseMentions (dropWhile mention_char s)
      else parseMentions s)"
  by pat_completeness auto
termination by (relation "measure length") (auto simp: le_imp_less_Suc length_dropWhile_le)

definition prioritize :: "string list \<Rightarrow> string list \<Rightarrow> string list" where
  "prioritize mentions queue = foldl (\<lambda>q m. m # remove1 m q) queue (rev mentions)"

section \<open>The round table\<close>

datatype TurnStream = StreamOk "string list" "ChairDispatchReceipt option" | StreamThrew "string list" chair_error

record TurnEnv =
  tn_aborted :: bool
  tn_chair :: "string \<Rightarrow> ChairClaim option"
  tn_gate :: "string \<Rightarrow> bool"
  tn_requireLive :: bool
  tn_messageId :: string
  tn_telemetry :: "ChairDispatchTelemetryEvent list"
  tn_stream :: TurnStream
  tn_gain :: rat
  tn_postId :: string
  tn_now :: int
  tn_abortedLate :: bool

record Convene =
  cv_bus :: ConversationBus
  cv_queue :: "string list"
  cv_turns :: nat
  cv_responded :: "string list"
  cv_live :: "string list"
  cv_presence :: "string list"
  cv_local :: "string list"
  cv_failed :: "string list"
  cv_confidences :: "rat list"

definition maxTurns :: nat where "maxTurns = 6"

fun error_message :: "chair_error \<Rightarrow> string" where
  "error_message (ChairBridgeReplyFailure msg _) = msg"
| "error_message (ChairBridgeDispatchFailure msg _) = msg"
| "error_message (ChairPlainError msg) = msg"

fun dispatchFailureRequestId :: "chair_error \<Rightarrow> string option" where
  "dispatchFailureRequestId (ChairBridgeReplyFailure _ r) = Some (rc_requestId r)"
| "dispatchFailureRequestId (ChairBridgeDispatchFailure _ d) = Some (dd_requestId d)"
| "dispatchFailureRequestId _ = None"

fun dispatchFailureClaimSessionId :: "chair_error \<Rightarrow> string option" where
  "dispatchFailureClaimSessionId (ChairBridgeReplyFailure _ r) = Some (rc_claimSessionId r)"
| "dispatchFailureClaimSessionId (ChairBridgeDispatchFailure _ d) = Some (dd_claimSessionId d)"
| "dispatchFailureClaimSessionId _ = None"

fun dispatchFailureAttempts :: "chair_error \<Rightarrow> nat option" where
  "dispatchFailureAttempts (ChairBridgeReplyFailure _ r) = rc_dispatchAttempts r"
| "dispatchFailureAttempts (ChairBridgeDispatchFailure _ d) = Some (dd_dispatchAttempts d)"
| "dispatchFailureAttempts _ = None"

fun dispatchFailureLatencyMs :: "chair_error \<Rightarrow> int option" where
  "dispatchFailureLatencyMs (ChairBridgeReplyFailure _ r) = rc_dispatchLatencyMs r"
| "dispatchFailureLatencyMs (ChairBridgeDispatchFailure _ d) = Some (dd_dispatchLatencyMs d)"
| "dispatchFailureLatencyMs _ = None"

datatype Flow = Continue | Break | Raise bus_error

definition delta_event :: "string \<Rightarrow> string \<Rightarrow> string \<Rightarrow> string \<Rightarrow> BusEvent" where
  "delta_event topicId messageId speaker d = MessageDelta topicId messageId speaker RoleAssistant d False None"

definition end_event :: "string \<Rightarrow> string \<Rightarrow> string \<Rightarrow> TokenUsage \<Rightarrow> BusEvent" where
  "end_event topicId messageId speaker usage = MessageDelta topicId messageId speaker RoleAssistant [] True (Some usage)"

definition unavailable_content :: "string \<Rightarrow> string" where
  "unavailable_content speaker = ''Chair '' @ speaker @
     '' is online for presence only; no dispatch inbox is registered, so no live agent handoff occurred.''"

text \<open>A chair that is online without an inbox: the turn is a notice.\<close>

definition presence_turn :: "string \<Rightarrow> string \<Rightarrow> TurnEnv \<Rightarrow> string \<Rightarrow> Convene \<Rightarrow> Flow \<times> Convene" where
  "presence_turn topicId goal e speaker c =
     (let content = unavailable_content speaker;
          usage = \<lparr>tu_input = tokens_of (length goal), tu_output = tokens_of (length content),
                   tu_total = tokens_of (length goal + length content), tu_runtimeMs = 0, tu_source = Estimated\<rparr>;
          b1 = bus_emits [DispatchUnavailable speaker topicId ''missing_inbox_url'',
                          delta_event topicId (tn_messageId e) speaker content,
                          end_event topicId (tn_messageId e) speaker usage] (cv_bus c)
      in case postMessage (tn_postId e) (tn_now e) topicId speaker RoleAssistant content b1 of
           Inl err \<Rightarrow> (Raise err, c\<lparr>cv_bus := b1\<rparr>)
         | Inr (_, b2) \<Rightarrow> (Continue, c\<lparr>cv_bus := b2, cv_responded := set_add speaker (cv_responded c),
             cv_presence := set_add speaker (cv_presence c), cv_turns := Suc (cv_turns c)\<rparr>))"

definition turn_failed :: "string \<Rightarrow> string \<Rightarrow> chair_error \<Rightarrow> Convene \<Rightarrow> Flow \<times> Convene" where
  "turn_failed topicId speaker err c =
     (let receipts = (case err of ChairBridgeReplyFailure _ r \<Rightarrow> [DispatchReceiptEvent r] | _ \<Rightarrow> []);
          failure = DispatchFailureEvent speaker topicId (error_message err) (dispatchFailureRequestId err)
            (dispatchFailureClaimSessionId err) (dispatchFailureAttempts err) (dispatchFailureLatencyMs err)
      in (Break, c\<lparr>cv_failed := set_add speaker (cv_failed c),
                   cv_bus := bus_emits (receipts @ [failure]) (cv_bus c)\<rparr>))"

definition next_queue :: "string list \<Rightarrow> string \<Rightarrow> string \<Rightarrow> nat \<Rightarrow> string list \<Rightarrow> string list" where
  "next_queue participants speaker content turns queue =
     (let valid = filter (\<lambda>m. m \<in> set participants \<and> m \<noteq> speaker) (parseMentions content);
          q = prioritize valid queue
      in if q = [] \<and> turns < maxTurns
         then (case find (\<lambda>p. p \<noteq> speaker) participants of Some p \<Rightarrow> if p \<noteq> [] then [p] else [] | None \<Rightarrow> [])
         else q)"

definition turn_confidence :: "nat \<Rightarrow> rat \<Rightarrow> rat" where
  "turn_confidence turns gain = min (98 / 100) (65 / 100 + of_nat turns * (8 / 100 + gain))"

text \<open>The hybrid stopping rule on the confidences so far; \<open>Some\<close> is the reason it stops.\<close>

definition stopping_reason :: "string list \<Rightarrow> string list \<Rightarrow> rat list \<Rightarrow> string option" where
  "stopping_reason participants responded confidences =
     (if length (set_of participants) \<le> length responded \<and> 2 \<le> length confidences then
        let current = last confidences;
            deltaConf = \<bar>current - confidences ! (length confidences - 2)\<bar>;
            verifierMet = (85 / 100 \<le> current);
            stabilityMet = (deltaConf < 5 / 100);
            disagreementLow = (deltaConf < 10 / 100)
        in if verifierMet \<and> (stabilityMet \<or> disagreementLow) then
             Some (''hybrid_stop:verifier='' @ toFixed4 current @ ''>=0.85,delta='' @ toFixed4 deltaConf @ '',method='' @
               (if stabilityMet then ''stability'' else ''disagreement''))
           else if \<not> verifierMet \<and> stabilityMet then
             Some (''adaptive_stability_reached:delta='' @ toFixed4 deltaConf @ ''<0.05'')
           else None
      else None)"

definition verifierId :: string where "verifierId = ''shaev''"

text \<open>A turn whose stream came to its end: what is emitted, stored, queued and decided.\<close>

definition completed_turn :: "(ChatMessage list \<Rightarrow> nat) \<Rightarrow> string \<Rightarrow> string list \<Rightarrow> TurnEnv \<Rightarrow> string \<Rightarrow> bool \<Rightarrow>
    ChatMessage list \<Rightarrow> string list \<Rightarrow> ChairDispatchReceipt option \<Rightarrow> Convene \<Rightarrow> Flow \<times> Convene" where
  "completed_turn json_len topicId participants e speaker live history deltas receipt c =
     (let content = concat deltas;
          inTok = tokens_of (json_len history); outTok = tokens_of (length content);
          usage = \<lparr>tu_input = inTok, tu_output = outTok, tu_total = inTok + outTok, tu_runtimeMs = 300, tu_source = Estimated\<rparr>;
          b1 = bus_emits (map (delta_event topicId (tn_messageId e) speaker) deltas @
                          [end_event topicId (tn_messageId e) speaker usage]) (cv_bus c)
      in case postMessage (tn_postId e) (tn_now e) topicId speaker RoleAssistant content b1 of
           Inl _ \<Rightarrow> turn_failed topicId speaker (ChairPlainError ''FOREIGN KEY constraint failed'') (c\<lparr>cv_bus := b1\<rparr>)
         | Inr (_, b2) \<Rightarrow>
             let b3 = (if live then bus_emits ((case receipt of Some r \<Rightarrow> [DispatchReceiptEvent r] | None \<Rightarrow> []) @
                          [DispatchSuccessEvent speaker topicId receipt]) b2 else b2);
                 turns = Suc (cv_turns c);
                 responded = set_add speaker (cv_responded c);
                 queue = next_queue participants speaker content turns (cv_queue c);
                 confidences = cv_confidences c @ [turn_confidence turns (tn_gain e)];
                 c1 = c\<lparr>cv_bus := b3, cv_turns := turns, cv_responded := responded, cv_queue := queue,
                        cv_live := (if live then set_add speaker (cv_live c) else cv_live c),
                        cv_confidences := confidences\<rparr>
             in case stopping_reason participants responded confidences of
                  Some reason \<Rightarrow> (Break, c1\<lparr>cv_bus :=
                    bus_emit (StoppingCriterion topicId verifierId reason (last confidences)) b3\<rparr>)
                | None \<Rightarrow> (if tn_abortedLate e then Break else Continue, c1))"

text \<open>Which provider takes the turn: a chair that is only present, one whose inbox is dispatched
  to (when the gate lets it), or the local fallback.\<close>

definition presence_only :: "TurnEnv \<Rightarrow> string \<Rightarrow> bool" where
  "presence_only e speaker = (case tn_chair e speaker of None \<Rightarrow> False
     | Some ch \<Rightarrow> ch_status ch \<noteq> Offline \<and> \<not> truthy_str (ch_inboxUrl ch))"

definition reachable :: "TurnEnv \<Rightarrow> string \<Rightarrow> bool" where
  "reachable e speaker = (case tn_chair e speaker of None \<Rightarrow> False
     | Some ch \<Rightarrow> truthy_str (ch_inboxUrl ch) \<and> ch_status ch \<noteq> Offline)"

definition liveDispatch :: "TurnEnv \<Rightarrow> string \<Rightarrow> bool" where
  "liveDispatch e speaker \<longleftrightarrow> reachable e speaker \<and> tn_gate e speaker"

definition unready_reason :: "TurnEnv \<Rightarrow> string \<Rightarrow> string" where
  "unready_reason e speaker = (case tn_chair e speaker of None \<Rightarrow> ''chair_not_dispatch_ready''
     | Some ch \<Rightarrow> if truthy_str (ch_inboxUrl ch) then ''dispatch_gate_closed'' else ''chair_not_dispatch_ready'')"

definition select_provider :: "string \<Rightarrow> TurnEnv \<Rightarrow> string \<Rightarrow> Convene \<Rightarrow> Convene" where
  "select_provider topicId e speaker c =
     (if liveDispatch e speaker then c\<lparr>cv_bus := bus_emits (map TelemetryEvent (tn_telemetry e)) (cv_bus c)\<rparr>
      else c\<lparr>cv_bus := bus_emits (if reachable e speaker then [DispatchRerouted speaker ''circuit_open'' topicId] else []) (cv_bus c),
             cv_local := set_add speaker (cv_local c)\<rparr>)"

definition convene_step :: "(ChatMessage list \<Rightarrow> nat) \<Rightarrow> string \<Rightarrow> string \<Rightarrow> string list \<Rightarrow> TurnEnv \<Rightarrow> string \<Rightarrow> Convene \<Rightarrow>
    Flow \<times> Convene" where
  "convene_step json_len topicId goal participants e speaker c =
     (let history = getHistory topicId 15 (cv_bus c) in
      if presence_only e speaker then presence_turn topicId goal e speaker c
      else if \<not> liveDispatch e speaker \<and> tn_requireLive e then
        (Continue, c\<lparr>cv_failed := set_add speaker (cv_failed c), cv_bus := bus_emit
           (DispatchFailureEvent speaker topicId (unready_reason e speaker) None None None None) (cv_bus c)\<rparr>)
      else
        let c1 = select_provider topicId e speaker c in
        case tn_stream e of
          StreamThrew deltas err \<Rightarrow> turn_failed topicId speaker err
            (c1\<lparr>cv_bus := bus_emits (map (delta_event topicId (tn_messageId e) speaker) deltas) (cv_bus c1)\<rparr>)
        | StreamOk deltas receipt \<Rightarrow>
            completed_turn json_len topicId participants e speaker (liveDispatch e speaker) history deltas receipt c1)"

text \<open>A step that goes on used a turn, or only took the speaker off the queue.\<close>

lemma convene_step_progress:
  assumes "convene_step json_len topicId goal participants e speaker c = (Continue, c')"
  shows "cv_turns c' = Suc (cv_turns c) \<or> cv_turns c' = cv_turns c \<and> cv_queue c' = cv_queue c"
  using assms
  by (auto simp: convene_step_def presence_turn_def completed_turn_def turn_failed_def select_provider_def Let_def
      split: if_splits option.splits sum.splits TurnStream.splits)

function convene_loop :: "(ChatMessage list \<Rightarrow> nat) \<Rightarrow> string \<Rightarrow> string \<Rightarrow> string list \<Rightarrow> (nat \<Rightarrow> TurnEnv) \<Rightarrow> nat \<Rightarrow> Convene \<Rightarrow>
    bus_error option \<times> Convene" where
  "convene_loop json_len topicId goal participants env k c =
     (case cv_queue c of [] \<Rightarrow> (None, c)
      | speaker # queue \<Rightarrow>
          if \<not> cv_turns c < maxTurns \<or> tn_aborted (env k) then (None, c)
          else case convene_step json_len topicId goal participants (env k) speaker (c\<lparr>cv_queue := queue\<rparr>) of
                 (Continue, c') \<Rightarrow> convene_loop json_len topicId goal participants env (Suc k) c'
               | (Break, c') \<Rightarrow> (None, c')
               | (Raise err, c') \<Rightarrow> (Some err, c'))"
  by pat_completeness auto
termination
proof (relation "measures [\<lambda>(_, _, _, _, _, _, c). maxTurns - cv_turns c, \<lambda>(_, _, _, _, _, _, c). length (cv_queue c)]",
    goal_cases)
  case (2 json_len topicId goal participants env k c speaker queue flow c')
  then show ?case using convene_step_progress [of json_len topicId goal participants "env k" speaker "c\<lparr>cv_queue := queue\<rparr>" c']
    by (auto simp: maxTurns_def)
qed simp

declare convene_loop.simps [simp del]

definition show_set :: "string list \<Rightarrow> string" where
  "show_set items = (if set_of items = [] then ''none'' else join_with '', '' (set_of items))"

definition result_content :: "string \<Rightarrow> string list \<Rightarrow> Convene \<Rightarrow> string" where
  "result_content title participants c = join_with [CHR 0x0A]
     [''RESULT: Convener completed '' @ [CHR 0x22] @ title @ [CHR 0x22] @ ''.'',
      ''Selected chairs: '' @ show_set participants @ ''.'',
      ''Live handoffs: '' @ show_set (cv_live c) @ ''.'',
      ''Presence-only chairs: '' @ show_set (cv_presence c) @ ''.'',
      ''Local fallback turns: '' @ show_set (cv_local c) @ ''.'',
      ''Failed turns: '' @ show_set (cv_failed c) @ ''.'',
      (if length (cv_presence c) = length participants
       then ''No selected chair registered a dispatch inbox, so the run produced availability receipts instead of live agent answers.''
       else ''Completed turns: '' @ show_nat (cv_turns c) @ ''.'')]"

definition emitConvenerResult :: "string \<Rightarrow> int \<Rightarrow> string \<Rightarrow> string \<Rightarrow> string \<Rightarrow> string list \<Rightarrow> Convene \<Rightarrow> ConversationBus \<Rightarrow>
    bus_error option \<times> ConversationBus" where
  "emitConvenerResult messageId now postId topicId title participants c b =
     (let content = result_content title participants c;
          usage = \<lparr>tu_input = length participants, tu_output = tokens_of (length content),
                   tu_total = length participants + tokens_of (length content), tu_runtimeMs = 0, tu_source = Estimated\<rparr>;
          b1 = bus_emits [MessageDelta topicId messageId ''convener'' RoleSystem content False None,
                          MessageDelta topicId messageId ''convener'' RoleSystem [] True (Some usage)] b
      in case postMessage postId now topicId ''convener'' RoleSystem content b1 of
           Inl err \<Rightarrow> (Some err, b1) | Inr (_, b2) \<Rightarrow> (None, b2))"

text \<open>The ids and clock readings of a round table outside its turns.\<close>

record ConveneIds =
  ci_goalId :: string
  ci_goalAt :: int
  ci_resultMessageId :: string
  ci_resultId :: string
  ci_resultAt :: int

definition start_convene :: "string list \<Rightarrow> ConversationBus \<Rightarrow> Convene" where
  "start_convene participants b =
     \<lparr>cv_bus = b, cv_queue = participants, cv_turns = 0, cv_responded = [], cv_live = [], cv_presence = [],
      cv_local = [], cv_failed = [], cv_confidences = []\<rparr>"

definition convene :: "(ChatMessage list \<Rightarrow> nat) \<Rightarrow> ConveneIds \<Rightarrow> (nat \<Rightarrow> TurnEnv) \<Rightarrow> string \<Rightarrow> string \<Rightarrow> ConversationBus \<Rightarrow>
    bus_error option \<times> ConversationBus" where
  "convene json_len ids env topicId goal b =
     (case om_get (bus_activeTopics b) topicId of
        None \<Rightarrow> (Some (InactiveTopic topicId), b)
      | Some active \<Rightarrow>
          let b0 = b\<lparr>bus_activeTopics := om_set topicId (active\<lparr>at_aborted := Some False\<rparr>) (bus_activeTopics b)\<rparr>;
              participants = at_participants active
          in if participants = [] then (None, b0)
             else case postMessage (ci_goalId ids) (ci_goalAt ids) topicId ''user'' RoleUser goal b0 of
               Inl err \<Rightarrow> (Some err, b0)
             | Inr (_, b1) \<Rightarrow>
                 (case convene_loop json_len topicId goal participants env 0 (start_convene participants b1) of
                    (Some err, c) \<Rightarrow> (Some err, cv_bus c)
                  | (None, c) \<Rightarrow>
                      let b2 = (if maxTurns \<le> cv_turns c
                                then bus_emit (StoppingCriterion topicId ''nyx-antigravity'' ''hard_cap_reached:max_rounds=6'' (95 / 100)) (cv_bus c)
                                else cv_bus c)
                      in case emitConvenerResult (ci_resultMessageId ids) (ci_resultAt ids) (ci_resultId ids) topicId
                                (at_title active) participants c b2 of
                           (Some err, b3) \<Rightarrow> (Some err, b3)
                         | (None, b3) \<Rightarrow> (None, closeTopic topicId b3)))"

section \<open>Committees\<close>

definition conveneCommittee :: "(string \<Rightarrow> string) \<Rightarrow> (NormalizedVote list \<Rightarrow> string \<Rightarrow> string) \<Rightarrow> (string \<Rightarrow> nat list) \<Rightarrow> string \<Rightarrow> string \<Rightarrow>
    int \<Rightarrow> string \<Rightarrow> string \<Rightarrow> CommitteeOptions \<Rightarrow> CommitteeVote list option \<Rightarrow> ConversationBus \<Rightarrow>
    (bus_error + CommitteeVerdict) \<times> ConversationBus" where
  "conveneCommittee digest json bytes verdictId postId now topicId goal opts given b =
     (case om_get (bus_activeTopics b) topicId of
        None \<Rightarrow> (Inl CommitteeTopicNotActive, b)
      | Some active \<Rightarrow>
          let participants = at_participants active;
              votes = (case given of Some vs \<Rightarrow> vs
                | None \<Rightarrow> synthesizeVotes bytes goal participants (co_traceparent opts) (co_tracestate opts));
              b1 = bus_emits (CommitteeStarted topicId (take 160 goal) participants (co_traceparent opts) (co_tracestate opts)
                     # map (CommitteeVoteEvent topicId) votes) b;
              verdict = evaluateCommittee digest json verdictId votes (opts\<lparr>co_activeParticipants := Some participants,
                co_sidecarCandidates := Some (case co_sidecarCandidates opts of Some cs \<Rightarrow> cs
                  | None \<Rightarrow> [''nyx-openclaw'', ''shaev'', ''nyx-codex''])\<rparr>);
              b2 = bus_emit (CommitteeOutcome (vd_status verdict = CommitteeAccepted) topicId verdict) b1;
              status = (case vd_status verdict of CommitteeAccepted \<Rightarrow> ''accepted'' | CommitteeFailed \<Rightarrow> ''failed''
                | NeedsSidecar \<Rightarrow> ''needs_sidecar'')
          in case postMessage postId now topicId ''committee'' RoleSystem
                    (''Committee '' @ status @ '': support='' @ show_dec4 (vd_supportScore verdict) @ '', confidence='' @
                     show_dec4 (vd_confidenceMean verdict)) b2 of
               Inl err \<Rightarrow> (Inl err, b2)
             | Inr (_, b3) \<Rightarrow> (Inr verdict, b3))"

section \<open>Frames\<close>

lemma bus_emit_simps [simp]:
  "bus_topics (bus_emit e b) = bus_topics b" "bus_messages (bus_emit e b) = bus_messages b"
  "bus_activeTopics (bus_emit e b) = bus_activeTopics b" "bus_events (bus_emit e b) = bus_events b @ [e]"
  "bus_topics (bus_emits es b) = bus_topics b" "bus_messages (bus_emits es b) = bus_messages b"
  "bus_activeTopics (bus_emits es b) = bus_activeTopics b" "bus_events (bus_emits es b) = bus_events b @ es"
  by (simp_all add: bus_emit_def bus_emits_def)

lemma postMessage_ok:
  assumes "om_has (bus_topics b) topicId"
  shows "postMessage uuid now topicId sender role content b =
    (let msg = \<lparr>ms_id = uuid, ms_topicId = topicId, ms_senderId = sender, ms_role = role, ms_content = content, ms_timestamp = now\<rparr>
     in Inr (msg, b\<lparr>bus_messages := bus_messages b @ [msg]\<rparr>))"
  using assms by (simp add: postMessage_def Let_def)

section \<open>What a round table keeps\<close>

definition first_pass_done :: "string list \<Rightarrow> Convene \<Rightarrow> bool" where
  "first_pass_done ps c \<longleftrightarrow> length (set_of ps) \<le> length (cv_responded c)"

fun verifier_stop :: "BusEvent \<Rightarrow> bool" where
  "verifier_stop (StoppingCriterion t a r q) = (a = verifierId)"
| "verifier_stop _ = False"

text \<open>
  What a step adds to a round table: at most one message, of the speaker, exactly when it
  counts a turn; the speaker is then among those that responded. Nothing else of the bus
  changes but the events, and a verifier's stop is among them only after the first pass.
\<close>

definition turn_ok :: "string \<Rightarrow> string list \<Rightarrow> string \<Rightarrow> Convene \<Rightarrow> Convene \<Rightarrow> ConversationMessage list \<Rightarrow> BusEvent list \<Rightarrow> bool" where
  "turn_ok topicId ps speaker c c' added evs \<longleftrightarrow>
     bus_messages (cv_bus c') = bus_messages (cv_bus c) @ added \<and> bus_events (cv_bus c') = bus_events (cv_bus c) @ evs
     \<and> bus_topics (cv_bus c') = bus_topics (cv_bus c) \<and> bus_activeTopics (cv_bus c') = bus_activeTopics (cv_bus c)
     \<and> length added \<le> 1 \<and> cv_turns c' = cv_turns c + length added
     \<and> list_all (\<lambda>m. ms_topicId m = topicId \<and> ms_senderId m = speaker \<and> ms_role m = RoleAssistant) added
     \<and> cv_responded c' = (if added = [] then cv_responded c else set_add speaker (cv_responded c))
     \<and> set (cv_queue c') \<subseteq> set (cv_queue c) \<union> set ps
     \<and> (list_ex verifier_stop evs \<longrightarrow> first_pass_done ps c')"

lemma presence_turn_ok:
  assumes "om_has (bus_topics (cv_bus c)) topicId"
  shows "\<exists>c' added evs. presence_turn topicId goal e speaker c = (Continue, c') \<and> turn_ok topicId ps speaker c c' added evs"
  using assms
  by (simp add: presence_turn_def Let_def postMessage_ok turn_ok_def delta_event_def end_event_def)

lemma turn_failed_ok:
  "\<exists>c' evs. turn_failed topicId speaker err c = (Break, c') \<and> turn_ok topicId ps speaker c c' [] evs"
  by (auto simp: turn_failed_def Let_def turn_ok_def split: chair_error.split)

lemma prioritize_set: "set (prioritize ms q) \<subseteq> set q \<union> set ms"
proof -
  have "set (foldl (\<lambda>q m. m # remove1 m q) q ms) \<subseteq> set q \<union> set ms" for q and ms :: "string list"
  proof (induction ms arbitrary: q)
    case (Cons m ms)
    show ?case using Cons.IH [of "m # remove1 m q"] set_remove1_subset [of m q] by auto
  qed simp
  from this [of q "rev ms"] show ?thesis by (simp add: prioritize_def)
qed

lemma next_queue_set: "set (next_queue ps speaker content turns q) \<subseteq> set q \<union> set ps"
  using prioritize_set [of "filter (\<lambda>m. m \<in> set ps \<and> m \<noteq> speaker) (parseMentions content)" q]
  by (auto simp: next_queue_def Let_def find_Some_iff find_Some_iff2 split: option.splits if_splits)

lemma completed_turn_ok:
  assumes "om_has (bus_topics (cv_bus c)) topicId"
  shows "\<exists>fl c' added evs. completed_turn json_len topicId ps e speaker live history deltas receipt c = (fl, c')
    \<and> fl \<in> {Continue, Break} \<and> turn_ok topicId ps speaker c c' added evs"
proof -
  let ?content = "concat deltas"
  let ?q = "next_queue ps speaker ?content (Suc (cv_turns c)) (cv_queue c)"
  have q: "set ?q \<subseteq> set (cv_queue c) \<union> set ps" by (rule next_queue_set)
  have no_stop: "\<not> list_ex verifier_stop (map (delta_event topicId m speaker) deltas)" for m
    by (simp add: list_ex_iff delta_event_def)
  show ?thesis
    using assms q no_stop
    by (auto simp: completed_turn_def Let_def postMessage_ok turn_ok_def end_event_def stopping_reason_def first_pass_done_def
        split: option.split)
qed

lemma turn_ok_before:
  assumes "turn_ok topicId ps speaker c1 c' added evs"
    and "cv_bus c1 = bus_emits es (cv_bus c)" and "\<not> list_ex verifier_stop es"
    and "cv_turns c1 = cv_turns c" "cv_responded c1 = cv_responded c" "cv_queue c1 = cv_queue c"
  shows "turn_ok topicId ps speaker c c' added (es @ evs)"
  using assms by (simp add: turn_ok_def)

lemma convene_step_ok:
  assumes "om_has (bus_topics (cv_bus c)) topicId"
  shows "\<exists>fl c' added evs. convene_step json_len topicId goal ps e speaker c = (fl, c')
    \<and> fl \<in> {Continue, Break} \<and> turn_ok topicId ps speaker c c' added evs"
proof -
  let ?live = "liveDispatch e speaker" and ?c1 = "select_provider topicId e speaker c"
  let ?ds = "\<lambda>deltas. map (delta_event topicId (tn_messageId e) speaker) deltas"
  define es where "es = (if ?live then map TelemetryEvent (tn_telemetry e)
     else if reachable e speaker then [DispatchRerouted speaker ''circuit_open'' topicId] else [])"
  have es: "cv_bus ?c1 = bus_emits es (cv_bus c)" "\<not> list_ex verifier_stop es"
      "cv_turns ?c1 = cv_turns c" "cv_responded ?c1 = cv_responded c" "cv_queue ?c1 = cv_queue c"
    by (simp_all add: select_provider_def es_def list_ex_iff)
  have has1: "om_has (bus_topics (cv_bus ?c1)) topicId" using assms by (simp add: es(1))
  have thrown: "\<exists>c' added evs. turn_failed topicId speaker err (?c1\<lparr>cv_bus := bus_emits (?ds deltas) (cv_bus ?c1)\<rparr>) = (Break, c')
      \<and> turn_ok topicId ps speaker c c' added evs" for err deltas
  proof -
    let ?c2 = "?c1\<lparr>cv_bus := bus_emits (?ds deltas) (cv_bus ?c1)\<rparr>"
    obtain c' evs where t: "turn_failed topicId speaker err ?c2 = (Break, c')" "turn_ok topicId ps speaker ?c2 c' [] evs"
      using turn_failed_ok by blast
    have "bus_emits (?ds deltas) (bus_emits es b) = bus_emits (es @ ?ds deltas) b" for b by (simp add: bus_emits_def)
    then have "turn_ok topicId ps speaker c c' [] ((es @ ?ds deltas) @ evs)"
      using es by (intro turn_ok_before [OF t(2)]) (auto simp: list_ex_iff delta_event_def)
    with t(1) show ?thesis by blast
  qed
  have finished: "\<exists>fl c' added evs. completed_turn json_len topicId ps e speaker ?live history deltas receipt ?c1 = (fl, c')
      \<and> fl \<in> {Continue, Break} \<and> turn_ok topicId ps speaker c c' added evs" for history deltas receipt
  proof -
    obtain fl c' added evs where
      "completed_turn json_len topicId ps e speaker ?live history deltas receipt ?c1 = (fl, c')"
      "fl \<in> {Continue, Break}" "turn_ok topicId ps speaker ?c1 c' added evs"
      using completed_turn_ok [OF has1] by blast
    with turn_ok_before [OF _ es] show ?thesis by blast
  qed
  consider (presence) "presence_only e speaker"
    | (unready) "\<not> presence_only e speaker" "\<not> ?live \<and> tn_requireLive e"
    | (stream) "\<not> presence_only e speaker" "\<not> (\<not> ?live \<and> tn_requireLive e)" by blast
  then show ?thesis
  proof cases
    case presence
    then have "convene_step json_len topicId goal ps e speaker c = presence_turn topicId goal e speaker c"
      by (simp add: convene_step_def)
    then show ?thesis using presence_turn_ok [OF assms, of goal e speaker ps] by auto
  next
    case unready
    then show ?thesis by (auto simp: convene_step_def turn_ok_def)
  next
    case stream
    show ?thesis
    proof (cases "tn_stream e")
      case (StreamThrew deltas err)
      then show ?thesis using stream thrown [of err deltas] by (auto simp: convene_step_def Let_def)
    next
      case (StreamOk deltas receipt)
      then show ?thesis
        using stream finished [of "getHistory topicId 15 (cv_bus c)" deltas receipt] by (auto simp: convene_step_def Let_def)
    qed
  qed
qed

text \<open>The invariant of the loop, relative to the bus it started on.\<close>

definition table_inv :: "string \<Rightarrow> string list \<Rightarrow> ConversationBus \<Rightarrow> Convene \<Rightarrow> ConversationMessage list \<Rightarrow> BusEvent list \<Rightarrow> bool" where
  "table_inv topicId ps b c turns evs \<longleftrightarrow>
     bus_messages (cv_bus c) = bus_messages b @ turns \<and> bus_events (cv_bus c) = bus_events b @ evs
     \<and> bus_topics (cv_bus c) = bus_topics b \<and> bus_activeTopics (cv_bus c) = bus_activeTopics b
     \<and> length turns = cv_turns c \<and> cv_turns c \<le> maxTurns
     \<and> list_all (\<lambda>m. ms_topicId m = topicId \<and> ms_senderId m \<in> set ps \<and> ms_role m = RoleAssistant) turns
     \<and> set (cv_responded c) = ms_senderId ` set turns \<and> distinct (cv_responded c)
     \<and> set (cv_queue c) \<subseteq> set ps
     \<and> (list_ex verifier_stop evs \<longrightarrow> first_pass_done ps c)"

lemma table_inv_step:
  assumes "table_inv topicId ps b c turns evs" and "cv_queue c = speaker # queue" and "cv_turns c < maxTurns"
    and "turn_ok topicId ps speaker (c\<lparr>cv_queue := queue\<rparr>) c' added evs'"
  shows "table_inv topicId ps b c' (turns @ added) (evs @ evs')"
proof -
  have "added = [] \<or> (\<exists>m. added = [m])" using assms(4) by (cases added) (auto simp: turn_ok_def)
  moreover have "length (cv_responded c) \<le> length (cv_responded c')"
    using assms(4) by (auto simp: turn_ok_def set_add_def)
  ultimately show ?thesis
    using assms by (auto simp: turn_ok_def table_inv_def first_pass_done_def maxTurns_def)
qed

lemma convene_loop_inv:
  assumes "table_inv topicId ps b c turns evs" and "om_has (bus_topics b) topicId"
  shows "\<exists>c' turns' evs'. convene_loop json_len topicId goal ps env k c = (None, c') \<and> table_inv topicId ps b c' turns' evs'"
  using assms
proof (induction json_len topicId goal ps env k c arbitrary: turns evs rule: convene_loop.induct)
  case (1 json_len topicId goal ps env k c)
  show ?case
  proof (cases "cv_queue c")
    case Nil
    then show ?thesis using "1.prems" by (subst convene_loop.simps) auto
  next
    case (Cons speaker queue)
    show ?thesis
    proof (cases "\<not> cv_turns c < maxTurns \<or> tn_aborted (env k)")
      case True
      then show ?thesis using "1.prems" Cons by (subst convene_loop.simps) auto
    next
      case False
      let ?c0 = "c\<lparr>cv_queue := queue\<rparr>"
      have "om_has (bus_topics (cv_bus ?c0)) topicId" using "1.prems" by (simp add: table_inv_def)
      from convene_step_ok [OF this] obtain fl c' added evs' where
        step: "convene_step json_len topicId goal ps (env k) speaker ?c0 = (fl, c')" "fl \<in> {Continue, Break}"
          "turn_ok topicId ps speaker ?c0 c' added evs'" by blast
      have inv: "table_inv topicId ps b c' (turns @ added) (evs @ evs')"
        using table_inv_step [OF "1.prems"(1) Cons _ step(3)] False by simp
      show ?thesis
      proof (cases "fl = Continue")
        case True
        then show ?thesis
          using "1.IH" [OF Cons False step(1) [symmetric]] inv "1.prems"(2) step(1) Cons False
          by (subst convene_loop.simps) simp
      next
        case brk: False
        then show ?thesis
          using step(1,2) inv Cons False by (subst convene_loop.simps) auto
      qed
    qed
  qed
qed

lemma table_inv_start: "table_inv topicId ps b (start_convene ps b) [] []"
  by (simp add: table_inv_def start_convene_def)

lemma first_pass_covers:
  assumes "table_inv topicId ps b c turns evs" and "first_pass_done ps c"
  shows "set ps \<subseteq> ms_senderId ` set turns"
proof -
  have sub: "set (cv_responded c) \<subseteq> set ps" and d: "distinct (cv_responded c)"
    and resp: "set (cv_responded c) = ms_senderId ` set turns"
    using assms(1) by (auto simp: table_inv_def list_all_iff)
  have "card (set ps) = length (set_of ps)"
    using distinct_card [OF set_of_distinct, of ps] by (simp add: set_of_set)
  moreover have "card (set (cv_responded c)) = length (cv_responded c)" using d by (rule distinct_card)
  ultimately have "card (set ps) \<le> card (set (cv_responded c))" using assms(2) by (simp add: first_pass_done_def)
  then have "set (cv_responded c) = set ps" using sub by (intro card_seteq) auto
  with resp show ?thesis by simp
qed

section \<open>The bus and its tables\<close>

definition bus_inv :: "ConversationBus \<Rightarrow> bool" where
  "bus_inv b \<longleftrightarrow> om_wf (bus_topics b) \<and>
     (\<forall>t. map_option (\<lambda>a. a\<lparr>at_aborted := None\<rparr>) (om_get (bus_activeTopics b) t) =
        (case om_get (bus_topics b) t of None \<Rightarrow> None
         | Some row \<Rightarrow> if trow_active row
             then Some (active_topic t (trow_title row) (parse_capabilities (trow_participants row))) else None))"

lemma foldl_om_set_get:
  assumes "om_wf rows"
  shows "om_get (foldl (\<lambda>m (k, r). om_set k (f k r) m) m rows) x =
    (case om_get rows x of None \<Rightarrow> om_get m x | Some r \<Rightarrow> Some (f x r))"
  using assms
proof (induction rows arbitrary: m)
  case (Cons p rows)
  obtain a r where p: "p = (a, r)" by force
  have "om_get rows a = None" using Cons.prems by (simp add: p map_of_eq_None_iff)
  then show ?case using Cons.IH [of "om_set a (f a r) m"] Cons.prems by (auto simp: p split: option.split)
qed simp

lemma filter_get: "om_wf m \<Longrightarrow> om_get (filter (\<lambda>(_, v). P v) m) k =
    (case om_get m k of None \<Rightarrow> None | Some v \<Rightarrow> if P v then Some v else None)"
proof (induction m)
  case (Cons p m)
  obtain a r where p: "p = (a, r)" by force
  have "om_get m a = None" using Cons.prems by (simp add: p map_of_eq_None_iff)
  then show ?case using Cons by (auto simp: p split: option.split)
qed simp

lemma om_wf_filter: "om_wf m \<Longrightarrow> om_wf (filter P m)"
  by (rule distinct_map_filter)

lemma hydrated_get:
  assumes "om_wf topics"
  shows "om_get (bus_activeTopics (new_bus topics messages)) t =
    (case om_get topics t of None \<Rightarrow> None
     | Some row \<Rightarrow> if trow_active row
         then Some (active_topic t (trow_title row) (parse_capabilities (trow_participants row))) else None)"
  using assms
  by (auto simp: new_bus_def hydrateActiveTopics_def foldl_om_set_get om_wf_filter filter_get split: option.split)

lemma bus_inv_new: "om_wf topics \<Longrightarrow> bus_inv (new_bus topics messages)"
  using hydrated_get [of topics messages]
  by (auto simp: bus_inv_def active_topic_def split: option.split) (simp_all add: new_bus_def hydrateActiveTopics_def)

lemma bus_inv_create:
  assumes "bus_inv b" and "om_get (bus_topics b) uuid = None"
  shows "bus_inv (snd (createTopic uuid title ps b))"
  using assms by (auto simp: bus_inv_def createTopic_def Let_def active_topic_def)

lemma bus_inv_close: "bus_inv b \<Longrightarrow> bus_inv (closeTopic t b)"
  by (auto simp: bus_inv_def closeTopic_def Let_def split: option.splits if_splits)

lemma bus_inv_frame:
  "bus_topics b' = bus_topics b \<Longrightarrow> bus_activeTopics b' = bus_activeTopics b \<Longrightarrow> bus_inv b' = bus_inv b"
  by (simp add: bus_inv_def)

lemma bus_inv_active_row:
  assumes "bus_inv b" and "om_get (bus_activeTopics b) t = Some a"
  shows "om_has (bus_topics b) t"
proof -
  have "map_option (\<lambda>a. a\<lparr>at_aborted := None\<rparr>) (om_get (bus_activeTopics b) t) \<noteq> None" using assms(2) by simp
  then show ?thesis using assms(1) unfolding bus_inv_def by (auto split: option.splits)
qed

lemma bus_inv_abortable:
  assumes "bus_inv b" and "om_get (bus_activeTopics b) t = Some a"
  shows "bus_inv (b\<lparr>bus_activeTopics := om_set t (a\<lparr>at_aborted := x\<rparr>) (bus_activeTopics b)\<rparr>)"
proof -
  have "map_option (\<lambda>a. a\<lparr>at_aborted := None\<rparr>) (om_get (om_set t (a\<lparr>at_aborted := x\<rparr>) (bus_activeTopics b)) u) =
      map_option (\<lambda>a. a\<lparr>at_aborted := None\<rparr>) (om_get (bus_activeTopics b) u)" for u
    using assms(2) by simp
  then show ?thesis using assms(1) by (simp add: bus_inv_def)
qed

text \<open>What a round table on an active topic does, as a whole.\<close>

lemma convene_effect:
  assumes inv: "bus_inv b" and act: "om_get (bus_activeTopics b) t = Some a" and ps: "at_participants a \<noteq> []"
  shows "\<exists>b' b1 c turns evs tail g r.
     convene json_len ids env t goal b = (None, b') \<and> table_inv t (at_participants a) b1 c turns evs
     \<and> bus_messages b' = bus_messages b @ g # turns @ [r]
     \<and> ms_senderId g = ''user'' \<and> ms_content g = goal \<and> ms_senderId r = ''convener''
     \<and> ms_content r = result_content (at_title a) (at_participants a) c
     \<and> bus_events b' = bus_events b @ evs @ tail \<and> \<not> list_ex verifier_stop tail
     \<and> bus_inv b' \<and> om_get (bus_activeTopics b') t = None"
proof -
  let ?ps = "at_participants a"
  define b0 where "b0 = b\<lparr>bus_activeTopics := om_set t (a\<lparr>at_aborted := Some False\<rparr>) (bus_activeTopics b)\<rparr>"
  define g where "g = \<lparr>ms_id = ci_goalId ids, ms_topicId = t, ms_senderId = ''user'', ms_role = RoleUser,
    ms_content = goal, ms_timestamp = ci_goalAt ids\<rparr>"
  define b1 where "b1 = b0\<lparr>bus_messages := bus_messages b0 @ [g]\<rparr>"
  have inv1: "bus_inv b1"
    using bus_inv_abortable [OF inv act, of "Some False"] bus_inv_frame [of b1 b0] by (simp add: b1_def b0_def)
  have row: "om_has (bus_topics b) t" by (rule bus_inv_active_row [OF inv act])
  then have row1: "om_has (bus_topics b1) t" by (simp add: b1_def b0_def)
  obtain c turns evs where loop: "convene_loop json_len t goal ?ps env 0 (start_convene ?ps b1) = (None, c)"
      and table: "table_inv t ?ps b1 c turns evs"
    using convene_loop_inv [OF table_inv_start row1] by blast
  define cap where "cap = (if maxTurns \<le> cv_turns c then
    [StoppingCriterion t ''nyx-antigravity'' ''hard_cap_reached:max_rounds=6'' (95 / 100)] else [])"
  define b2 where "b2 = bus_emits cap (cv_bus c)"
  define content where "content = result_content (at_title a) ?ps c"
  define r where "r = \<lparr>ms_id = ci_resultId ids, ms_topicId = t, ms_senderId = ''convener'', ms_role = RoleSystem,
    ms_content = content, ms_timestamp = ci_resultAt ids\<rparr>"
  define deltas where "deltas = [MessageDelta t (ci_resultMessageId ids) ''convener'' RoleSystem content False None,
    MessageDelta t (ci_resultMessageId ids) ''convener'' RoleSystem [] True
      (Some \<lparr>tu_input = length ?ps, tu_output = tokens_of (length content),
             tu_total = length ?ps + tokens_of (length content), tu_runtimeMs = 0, tu_source = Estimated\<rparr>)]"
  define b3 where "b3 = (bus_emits deltas b2)\<lparr>bus_messages := bus_messages b2 @ [r]\<rparr>"
  have topics: "bus_topics b2 = bus_topics b1" "bus_activeTopics b2 = bus_activeTopics b1"
    using table by (simp_all add: b2_def table_inv_def)
  have result: "emitConvenerResult (ci_resultMessageId ids) (ci_resultAt ids) (ci_resultId ids) t (at_title a) ?ps c b2 = (None, b3)"
    using row1 topics(1)
    by (simp add: emitConvenerResult_def Let_def postMessage_ok b3_def r_def deltas_def content_def)
  have "(if maxTurns \<le> cv_turns c then bus_emit (StoppingCriterion t ''nyx-antigravity'' ''hard_cap_reached:max_rounds=6'' (95 / 100)) (cv_bus c)
      else cv_bus c) = b2"
    by (simp add: b2_def cap_def bus_emit_def bus_emits_def)
  then have run: "convene json_len ids env t goal b = (None, closeTopic t b3)"
    using act ps row loop result unfolding convene_def b0_def [symmetric]
    by (simp add: Let_def postMessage_ok b1_def g_def b0_def)
  have "bus_inv b3" using inv1 topics by (subst bus_inv_frame [of b3 b1]) (simp_all add: b3_def)
  then have "bus_inv (closeTopic t b3)" by (rule bus_inv_close)
  moreover have "bus_messages (closeTopic t b3) = bus_messages b @ g # turns @ [r]"
    using table by (auto simp: closeTopic_def Let_def b3_def b2_def table_inv_def b1_def b0_def split: option.split)
  moreover have "bus_events (closeTopic t b3) = bus_events b @ evs @ (cap @ deltas @ [TopicClosed t])"
    using table by (auto simp: closeTopic_def Let_def b3_def b2_def table_inv_def b1_def b0_def split: option.split)
  moreover have "\<not> list_ex verifier_stop (cap @ deltas @ [TopicClosed t])"
    by (simp add: cap_def deltas_def verifierId_def)
  moreover have "om_get (bus_activeTopics (closeTopic t b3)) t = None"
    by (auto simp: closeTopic_def Let_def split: option.split)
  ultimately show ?thesis
    using run table by (intro exI [of _ "closeTopic t b3"] exI [of _ b1] exI [of _ c] exI [of _ turns] exI [of _ evs]
      exI [of _ "cap @ deltas @ [TopicClosed t]"] exI [of _ g] exI [of _ r]) (simp add: g_def r_def content_def)
qed

lemma bus_inv_convene:
  assumes "bus_inv b"
  shows "bus_inv (snd (convene json_len ids env t goal b))"
proof (cases "om_get (bus_activeTopics b) t")
  case None
  then show ?thesis using assms by (simp add: convene_def)
next
  case (Some a)
  show ?thesis
  proof (cases "at_participants a = []")
    case True
    then show ?thesis using bus_inv_abortable [OF assms Some] by (simp add: convene_def Some)
  next
    case False
    then show ?thesis using convene_effect [OF assms Some] by (metis snd_conv)
  qed
qed

lemma bus_inv_committee:
  "bus_inv b \<Longrightarrow> bus_inv (snd (conveneCommittee digest json bytes vid pid now t goal opts given b))"
  by (auto simp: conveneCommittee_def Let_def postMessage_def bus_inv_def split: option.split)

text \<open>The calls on a bus, in any order; inserting a topic under an id that is taken throws and
  changes nothing.\<close>

datatype BusOp =
    BoCreate string string "string list"
  | BoClose string
  | BoPost string int string string ChatRole string
  | BoConvene ConveneIds "nat \<Rightarrow> TurnEnv" string string
  | BoCommittee string string int string string CommitteeOptions "CommitteeVote list option"

fun bus_step :: "(ChatMessage list \<Rightarrow> nat) \<Rightarrow> (string \<Rightarrow> string) \<Rightarrow> (NormalizedVote list \<Rightarrow> string \<Rightarrow> string) \<Rightarrow> (string \<Rightarrow> nat list) \<Rightarrow>
    ConversationBus \<Rightarrow> BusOp \<Rightarrow> ConversationBus" where
  "bus_step json_len digest json bytes b (BoCreate uuid title ps) =
     (if om_has (bus_topics b) uuid then b else snd (createTopic uuid title ps b))"
| "bus_step json_len digest json bytes b (BoClose t) = closeTopic t b"
| "bus_step json_len digest json bytes b (BoPost uuid now t sender role content) =
     (case postMessage uuid now t sender role content b of Inl _ \<Rightarrow> b | Inr (_, b') \<Rightarrow> b')"
| "bus_step json_len digest json bytes b (BoConvene ids env t goal) = snd (convene json_len ids env t goal b)"
| "bus_step json_len digest json bytes b (BoCommittee vid pid now t goal opts given) =
     snd (conveneCommittee digest json bytes vid pid now t goal opts given b)"

interpretation bus: guarded_system "bus_step json_len digest json bytes" bus_inv for json_len digest json bytes
proof
  fix b :: ConversationBus and e :: BusOp
  assume inv: "bus_inv b"
  show "bus_inv (bus_step json_len digest json bytes b e)"
  proof (cases e)
    case (BoPost uuid now t sender role content)
    then show ?thesis using inv by (auto simp: postMessage_def Let_def bus_inv_def)
  qed (use inv in \<open>auto simp: bus_inv_create bus_inv_close bus_inv_convene bus_inv_committee\<close>)
qed

lemma history_sorted:
  assumes "sorted (map ms_timestamp (bus_messages b))"
  shows "getHistory t n b = map (\<lambda>r. \<lparr>cm_role = ms_role r, cm_content = ms_content r, cm_name = ms_senderId r\<rparr>)
    (let rows = filter (\<lambda>m. ms_topicId m = t) (bus_messages b) in drop (length rows - n) rows)"
proof -
  let ?rows = "filter (\<lambda>m. ms_topicId m = t) (bus_messages b)"
  have "sorted (map ms_timestamp ?rows)" using assms by (rule sorted_filter)
  then have "sort_key ms_timestamp ?rows = ?rows" by (simp add: sort_key_id_if_sorted)
  then show ?thesis by (simp add: getHistory_def Let_def take_rev)
qed

section \<open>Properties\<close>

text \<open>C8: a round table on an active topic ends without an error, whatever its chairs and models do.
  With participants, and no one else on the bus meanwhile, the operator's goal, at most six turns by
  participants, and the convener's result are posted, in this order, and the topic is closed; without
  participants nothing is posted and the topic stays open.\<close>

theorem round_table_bounded:
  assumes "bus_inv b" and "om_get (bus_activeTopics b) t = Some a"
    and "convene json_len ids env t goal b = (err, b')"
  shows "err = None
    \<and> (if at_participants a = [] then bus_messages b' = bus_messages b \<and> om_get (bus_activeTopics b') t \<noteq> None
       else om_get (bus_activeTopics b') t = None
        \<and> (\<exists>g turns r. bus_messages b' = bus_messages b @ g # turns @ [r]
            \<and> ms_content g = goal \<and> ms_senderId r = ''convener'' \<and> length turns \<le> 6
            \<and> list_all (\<lambda>m. ms_topicId m = t \<and> ms_senderId m \<in> set (at_participants a)) turns))"
proof (cases "at_participants a = []")
  case True
  then show ?thesis using assms(2,3) by (auto simp: convene_def Let_def)
next
  case False
  obtain b1 c turns evs g r where eff: "err = None" "table_inv t (at_participants a) b1 c turns evs"
    "bus_messages b' = bus_messages b @ g # turns @ [r]" "ms_content g = goal" "ms_senderId r = ''convener''"
    "om_get (bus_activeTopics b') t = None"
    using convene_effect [OF assms(1,2) False, of json_len ids env goal] assms(3) by auto
  then show ?thesis using False by (auto simp: table_inv_def maxTurns_def list_all_iff)
qed

definition example_bus :: ConversationBus where
  "example_bus = snd (createTopic ''t'' ''demo'' [''nyx'', ''shaev''] (new_bus [] []))"

lemma example_bus_ok:
  "bus_inv example_bus" "om_get (bus_activeTopics example_bus) ''t'' = Some (active_topic ''t'' ''demo'' [''nyx'', ''shaev''])"
proof -
  have "bus_inv (new_bus [] [])" by (rule bus_inv_new) simp
  then show "bus_inv example_bus"
    unfolding example_bus_def by (rule bus_inv_create) (simp add: new_bus_def hydrateActiveTopics_def)
  show "om_get (bus_activeTopics example_bus) ''t'' = Some (active_topic ''t'' ''demo'' [''nyx'', ''shaev''])"
    by (simp add: example_bus_def createTopic_def Let_def)
qed

lemma example_participants: "at_participants (active_topic ''t'' ''demo'' [''nyx'', ''shaev'']) \<noteq> []"
  by (simp add: active_topic_def)

definition example_ids :: ConveneIds where
  "example_ids = \<lparr>ci_goalId = ''g'', ci_goalAt = 1, ci_resultMessageId = ''m'', ci_resultId = ''r'', ci_resultAt = 2\<rparr>"

theorem round_table_bounded_witness:
  "\<forall>env. om_get (bus_activeTopics (snd (convene (\<lambda>_. 0) example_ids env ''t'' ''go'' example_bus))) ''t'' = None"
proof
  fix env
  obtain err b' where run: "convene (\<lambda>_. 0) example_ids env ''t'' ''go'' example_bus = (err, b')" by force
  from round_table_bounded [OF example_bus_ok run] example_participants
  show "om_get (bus_activeTopics (snd (convene (\<lambda>_. 0) example_ids env ''t'' ''go'' example_bus))) ''t'' = None"
    by (simp add: run)
qed

text \<open>C9: the verifier never ends a round table early: when one of its stopping events is emitted,
  every participant has posted a turn.\<close>

theorem verifier_waits_for_first_pass:
  assumes "bus_inv b" and "om_get (bus_activeTopics b) t = Some a" and "at_participants a \<noteq> []"
    and "convene json_len ids env t goal b = (err, b')"
    and "list_ex verifier_stop (drop (length (bus_events b)) (bus_events b'))"
    and "p \<in> set (at_participants a)"
  shows "\<exists>m \<in> set (drop (length (bus_messages b)) (bus_messages b')). ms_senderId m = p"
proof -
  obtain b1 c turns evs tail g r where eff: "table_inv t (at_participants a) b1 c turns evs"
    "bus_messages b' = bus_messages b @ g # turns @ [r]" "bus_events b' = bus_events b @ evs @ tail" "\<not> list_ex verifier_stop tail"
    using convene_effect [OF assms(1-3), of json_len ids env goal] assms(4) by auto
  then have "first_pass_done (at_participants a) c" using assms(5) by (simp add: table_inv_def)
  from first_pass_covers [OF eff(1) this] show ?thesis using assms(6) eff(2) by auto
qed

definition example_turn :: TurnEnv where
  "example_turn = \<lparr>tn_aborted = False, tn_chair = (\<lambda>_. None), tn_gate = (\<lambda>_. False), tn_requireLive = False,
     tn_messageId = ''m'', tn_telemetry = [], tn_stream = StreamOk [] None, tn_gain = 4 / 100, tn_postId = ''p'',
     tn_now = 2, tn_abortedLate = False\<rparr>"

lemma example_step:
  "convene_step (\<lambda>_. 0) ''t'' ''go'' ps example_turn speaker c =
    completed_turn (\<lambda>_. 0) ''t'' ps example_turn speaker False (getHistory ''t'' 15 (cv_bus c)) [] None
      (c\<lparr>cv_bus := bus_emits [] (cv_bus c), cv_local := set_add speaker (cv_local c)\<rparr>)"
  by (simp add: convene_step_def presence_only_def liveDispatch_def reachable_def select_provider_def example_turn_def)

lemma example_turn_simps:
  "tn_aborted example_turn = False" "tn_gain example_turn = 4 / 100" "tn_abortedLate example_turn = False"
  by (simp_all add: example_turn_def)

lemmas example_eval = start_convene_def maxTurns_def example_step example_turn_simps completed_turn_def postMessage_ok Let_def
  next_queue_def prioritize_def stopping_reason_def set_of_def set_add_def turn_confidence_def

lemma example_loop:
  assumes "om_has (bus_topics b) ''t''"
  shows "\<exists>c. convene_loop (\<lambda>_. 0) ''t'' ''go'' [''nyx'', ''shaev''] (\<lambda>_. example_turn) 0 (start_convene [''nyx'', ''shaev''] b) = (None, c)
    \<and> list_ex verifier_stop (drop (length (bus_events b)) (bus_events (cv_bus c)))"
  using assms
  by (subst convene_loop.simps, simp add: example_eval, subst convene_loop.simps, simp add: example_eval,
      subst convene_loop.simps, simp add: example_eval)

theorem verifier_waits_for_first_pass_witness:
  "\<exists>m \<in> set (drop (length (bus_messages example_bus)) (bus_messages (snd (convene (\<lambda>_. 0) example_ids (\<lambda>_. example_turn) ''t'' ''go''
      example_bus)))). ms_senderId m = ''shaev''"
proof -
  obtain err b' where run: "convene (\<lambda>_. 0) example_ids (\<lambda>_. example_turn) ''t'' ''go'' example_bus = (err, b')" by force
  have row: "om_has (bus_topics example_bus) ''t''" by (rule bus_inv_active_row [OF example_bus_ok])
  define b1 where "b1 = example_bus\<lparr>bus_activeTopics := om_set ''t''
      (active_topic ''t'' ''demo'' [''nyx'', ''shaev'']\<lparr>at_aborted := Some False\<rparr>) (bus_activeTopics example_bus),
    bus_messages := bus_messages example_bus @ [\<lparr>ms_id = ''g'', ms_topicId = ''t'', ms_senderId = ''user'', ms_role = RoleUser,
      ms_content = ''go'', ms_timestamp = 1\<rparr>]\<rparr>"
  have "om_has (bus_topics b1) ''t''" using row by (simp add: b1_def)
  from example_loop [OF this] obtain c where
    loop: "convene_loop (\<lambda>_. 0) ''t'' ''go'' [''nyx'', ''shaev''] (\<lambda>_. example_turn) 0 (start_convene [''nyx'', ''shaev''] b1) = (None, c)"
    and stop: "list_ex verifier_stop (drop (length (bus_events b1)) (bus_events (cv_bus c)))" by blast
  have "\<exists>x. bus_events b' = bus_events (cv_bus c) @ x"
    using run row loop
    by (auto simp: convene_def example_bus_ok(2) active_topic_def example_ids_def Let_def postMessage_ok b1_def emitConvenerResult_def
        postMessage_def closeTopic_def split: option.splits if_splits sum.splits)
  with stop have "list_ex verifier_stop (drop (length (bus_events example_bus)) (bus_events b'))"
    by (auto simp: b1_def)
  from verifier_waits_for_first_pass [OF example_bus_ok example_participants run this, of "''shaev''"]
  show ?thesis by (simp add: run active_topic_def)
qed

text \<open>Topics survive a restart: after any calls, a bus opened on the same tables has exactly the
  topics that are active now, with their titles, participants and token budgets.\<close>

theorem topics_survive_restart:
  assumes "b = foldl (bus_step json_len digest json bytes) (new_bus [] []) es"
  shows "om_get (bus_activeTopics (new_bus (bus_topics b) messages)) t =
    map_option (\<lambda>a. a\<lparr>at_aborted := None\<rparr>) (om_get (bus_activeTopics b) t)"
proof -
  have "bus_inv b" unfolding assms by (rule bus.run_inv) (simp add: bus_inv_new)
  then show ?thesis using hydrated_get [of "bus_topics b" messages t] by (simp add: bus_inv_def)
qed

theorem topics_survive_restart_witness:
  "om_get (bus_activeTopics (new_bus (bus_topics (foldl (bus_step length id (\<lambda>_. id) (\<lambda>_. [])) (new_bus [] [])
      [BoCreate ''t'' ''demo'' [''nyx''], BoCreate ''u'' ''x'' [], BoClose ''u''])) [])) ''t''
    = Some (active_topic ''t'' ''demo'' [''nyx''])"
  by (subst topics_survive_restart [OF refl])
    (simp add: new_bus_def hydrateActiveTopics_def createTopic_def closeTopic_def Let_def active_topic_def)

text \<open>A history is the end of the conversation: with messages stored in the order of the clock it
  is the last \<open>limit\<close> messages of the topic, oldest first.\<close>

theorem history_is_tail:
  assumes "sorted (map ms_timestamp (bus_messages b))"
  shows "\<exists>older. map (\<lambda>r. \<lparr>cm_role = ms_role r, cm_content = ms_content r, cm_name = ms_senderId r\<rparr>)
      (filter (\<lambda>m. ms_topicId m = t) (bus_messages b)) = older @ getHistory t n b
    \<and> length (getHistory t n b) = min n (length (filter (\<lambda>m. ms_topicId m = t) (bus_messages b)))"
proof -
  let ?rows = "filter (\<lambda>m. ms_topicId m = t) (bus_messages b)"
  let ?chat = "\<lambda>r. \<lparr>cm_role = ms_role r, cm_content = ms_content r, cm_name = ms_senderId r\<rparr>"
  have "map ?chat ?rows = map ?chat (take (length ?rows - n) ?rows) @ getHistory t n b"
    using history_sorted [OF assms, of t n] by (simp only: Let_def flip: map_append) simp
  moreover have "length (getHistory t n b) = min n (length ?rows)"
    using history_sorted [OF assms, of t n] by (simp add: Let_def)
  ultimately show ?thesis by blast
qed

theorem history_is_tail_witness:
  "length (getHistory ''t'' 1 \<lparr>bus_topics = [], bus_messages = [], bus_activeTopics = [], bus_events = []\<rparr>) = 0"
  using history_is_tail [of "\<lparr>bus_topics = [], bus_messages = [], bus_activeTopics = [], bus_events = []\<rparr>" "''t''" 1] by simp

end
