(* ===== verification/Bridge.thy ===== *)
theory Bridge
  imports Triad RateTracker Retry
begin

text \<open>
  \<open>src/src/MevBridge.ts\<close> and \<open>src/src/services/WorkflowConfig.ts\<close>: routing, context sharding and the
  Architect, Operator, Verifier loop that issues a receipt. Context messages are objects: two
  of them are the same when their references are. \<open>digest\<close> is the hexadecimal SHA-256; the
  persona loader, when it is set, is the function that compiles an agent's system prompt. The
  tracing bridge only observes the phases and is not part of the state. The JSON texts the loop
  measures are written out.
\<close>

section \<open>Data\<close>

record ContextMessage =
  mx_ref :: nat
  mx_role :: "string option"
  mx_content :: "string option"

datatype ReceiptStatus = ReceiptVerified | ReceiptFailed

record Routing =
  ro_architectAgent :: string
  ro_rationale :: string
  ro_vramFreeMb :: int

record VerificationReceipt =
  vr_id :: string
  vr_cycleId :: string
  vr_timestamp :: int
  vr_architectId :: string
  vr_operatorId :: string
  vr_verifierId :: string
  vr_taskHash :: string
  vr_status :: ReceiptStatus
  vr_evidence :: string
  vr_routing :: Routing
  vr_phaseTrail :: "PhaseEvent list"
  vr_tokens :: "TokenUsage option"

datatype BridgeEvent = PhaseChange PhaseEvent | CycleComplete VerificationReceipt

record MevBridge =
  mb_vramFreeMb :: int
  mb_vramKnown :: bool
  mb_rateLimits :: "RateLimitTracker option"
  mb_vramFloorMb :: int
  mb_primaryArchitect :: string
  mb_fallbackAgent :: string
  mb_keepRecentTurns :: int
  mb_persona :: "(string \<Rightarrow> string) option"
  mb_receipts :: "VerificationReceipt list"
  mb_events :: "BridgeEvent list"

definition SHAEV_AGENT :: string where "SHAEV_AGENT = ''shaev''"
definition NYX_CLI_AGENT :: string where "NYX_CLI_AGENT = ''nyx-cli''"

definition new_bridge :: MevBridge where
  "new_bridge =
     \<lparr>mb_vramFreeMb = 0, mb_vramKnown = False, mb_rateLimits = None, mb_vramFloorMb = 8192,
      mb_primaryArchitect = SHAEV_AGENT, mb_fallbackAgent = NYX_CLI_AGENT, mb_keepRecentTurns = 3,
      mb_persona = None, mb_receipts = [], mb_events = []\<rparr>"

section \<open>Setters\<close>

definition setPersonaLoader :: "(string \<Rightarrow> string) \<Rightarrow> MevBridge \<Rightarrow> MevBridge" where
  "setPersonaLoader f b = b\<lparr>mb_persona := Some f\<rparr>"

definition setVramFree :: "int \<Rightarrow> bool \<Rightarrow> MevBridge \<Rightarrow> MevBridge" where
  "setVramFree free known b = b\<lparr>mb_vramFreeMb := free, mb_vramKnown := known\<rparr>"

definition setVramFloor :: "int \<Rightarrow> MevBridge \<Rightarrow> MevBridge" where
  "setVramFloor n b = b\<lparr>mb_vramFloorMb := n\<rparr>"

definition setRateLimitTracker :: "RateLimitTracker \<Rightarrow> MevBridge \<Rightarrow> MevBridge" where
  "setRateLimitTracker t b = b\<lparr>mb_rateLimits := Some t\<rparr>"

definition setPrimaryArchitect :: "string \<Rightarrow> MevBridge \<Rightarrow> MevBridge" where
  "setPrimaryArchitect a b = b\<lparr>mb_primaryArchitect := a\<rparr>"

definition setFallbackAgent :: "string \<Rightarrow> MevBridge \<Rightarrow> MevBridge" where
  "setFallbackAgent a b = b\<lparr>mb_fallbackAgent := a\<rparr>"

definition setKeepRecentTurns :: "int \<Rightarrow> MevBridge \<Rightarrow> MevBridge" where
  "setKeepRecentTurns n b = b\<lparr>mb_keepRecentTurns := n\<rparr>"

section \<open>Workflow configuration\<close>

text \<open>A front-matter value, of which the decoder keeps numbers and strings; counts and
  megabytes are whole numbers here, delays and factors exact rationals.\<close>

datatype 'n fm_value = FmNumber 'n | FmString string | FmOther

record WorkflowFrontMatter =
  fm_vram_floor_mb :: "int fm_value option"
  fm_primary_architect :: "int fm_value option"
  fm_fallback_agent :: "int fm_value option"
  fm_keep_recent_turns :: "int fm_value option"
  fm_max_attempts :: "int fm_value option"
  fm_backoff_base_ms :: "rat fm_value option"
  fm_backoff_factor :: "rat fm_value option"

fun fm_number :: "'n fm_value option \<Rightarrow> 'n option" where
  "fm_number (Some (FmNumber n)) = Some n"
| "fm_number _ = None"

fun fm_string :: "'n fm_value option \<Rightarrow> string option" where
  "fm_string (Some (FmString s)) = Some s"
| "fm_string _ = None"

record DecodedWorkflowConfig =
  dw_vramFloor :: "int option"
  dw_primaryArchitect :: "string option"
  dw_fallbackAgent :: "string option"
  dw_keepRecentTurns :: "int option"
  dw_retry :: PartialRetryConfig

definition decodeWorkflowConfig :: "WorkflowFrontMatter \<Rightarrow> DecodedWorkflowConfig" where
  "decodeWorkflowConfig fm =
     \<lparr>dw_vramFloor = fm_number (fm_vram_floor_mb fm),
      dw_primaryArchitect = fm_string (fm_primary_architect fm),
      dw_fallbackAgent = fm_string (fm_fallback_agent fm),
      dw_keepRecentTurns = fm_number (fm_keep_recent_turns fm),
      dw_retry = \<lparr>pc_maxAttempts = fm_number (fm_max_attempts fm), pc_baseMs = fm_number (fm_backoff_base_ms fm),
                  pc_factor = fm_number (fm_backoff_factor fm), pc_sweepIntervalMs = None\<rparr>\<rparr>"

definition opt_apply :: "('a \<Rightarrow> 's \<Rightarrow> 's) \<Rightarrow> 'a option \<Rightarrow> 's \<Rightarrow> 's" where
  "opt_apply f x s = (case x of None \<Rightarrow> s | Some a \<Rightarrow> f a s)"

text \<open>The handler of \<open>workflow_loaded\<close>: the decoded values go to the bridge and the retry
  queue, which is told only when the document sets one of its values.\<close>

definition apply_workflow :: "WorkflowFrontMatter \<Rightarrow> MevBridge \<times> RetryQueue \<Rightarrow> MevBridge \<times> RetryQueue" where
  "apply_workflow fm s =
     (let cfg = decodeWorkflowConfig fm; r = dw_retry cfg in
      (opt_apply setKeepRecentTurns (dw_keepRecentTurns cfg)
         (opt_apply setFallbackAgent (dw_fallbackAgent cfg)
           (opt_apply setPrimaryArchitect (dw_primaryArchitect cfg)
             (opt_apply setVramFloor (dw_vramFloor cfg) (fst s)))),
       if pc_maxAttempts r \<noteq> None \<or> pc_baseMs r \<noteq> None \<or> pc_factor r \<noteq> None then updateConfig r (snd s) else snd s))"

section \<open>Context sharding and routing\<close>

definition is_system :: "ContextMessage \<Rightarrow> bool" where
  "is_system m \<longleftrightarrow> mx_role m = Some ''system''"

definition shardContext :: "ContextMessage list \<Rightarrow> int \<Rightarrow> ContextMessage list" where
  "shardContext history keepRecent =
     (let sys = find is_system history;
          tail = js_slice_from (- keepRecent) history;
          head = (case sys of None \<Rightarrow> [] | Some m \<Rightarrow> if mx_ref m \<in> mx_ref ` set tail then [] else [m])
      in head @ tail)"

definition routeArchitect :: "int \<Rightarrow> MevBridge \<Rightarrow> (string \<times> string) \<times> MevBridge" where
  "routeArchitect now b =
     (let primary = mb_primaryArchitect b; fallback = mb_fallbackAgent b;
          (allowed, limits) = (case mb_rateLimits b of None \<Rightarrow> (True, None)
            | Some t \<Rightarrow> (case tracker_canDispatch now primary t of (ok, t') \<Rightarrow> (ok, Some t')));
          b1 = b\<lparr>mb_rateLimits := limits\<rparr>;
          vram = ''vram_free_'' @ show_int (mb_vramFreeMb b) @ ''mb'';
          floor = show_int (mb_vramFloorMb b) @ ''mb:''
      in if \<not> allowed then ((fallback, primary @ ''_rate_limited:falling_back_to_'' @ fallback), b1)
         else if \<not> mb_vramKnown b then ((fallback, ''vram_unknown:defaulting_to_lightweight''), b1)
         else if mb_vramFreeMb b \<ge> mb_vramFloorMb b
           then ((primary, vram @ ''>='' @ floor @ primary @ ''_authorized''), b1)
         else ((fallback, vram @ ''<'' @ floor @ primary @ ''_gated''), b1))"

section \<open>JSON texts\<close>

definition hex_digit :: "nat \<Rightarrow> char" where
  "hex_digit d = ''0123456789abcdef'' ! d"

definition json_char :: "char \<Rightarrow> string" where
  "json_char c =
     (if c = CHR 0x22 then [CHR 0x5C, CHR 0x22] else if c = CHR 0x5C then [CHR 0x5C, CHR 0x5C]
      else if c = CHR 0x08 then [CHR 0x5C, CHR ''b''] else if c = CHR 0x0C then [CHR 0x5C, CHR ''f'']
      else if c = CHR 0x0A then [CHR 0x5C, CHR ''n''] else if c = CHR 0x0D then [CHR 0x5C, CHR ''r'']
      else if c = CHR 0x09 then [CHR 0x5C, CHR ''t'']
      else if (of_char c :: nat) < 32
        then [CHR 0x5C, CHR ''u'', CHR ''0'', CHR ''0'', hex_digit (of_char c div 16), hex_digit (of_char c mod 16)]
      else [c])"

definition json_string :: "string \<Rightarrow> string" where
  "json_string s = [CHR 0x22] @ concat (map json_char s) @ [CHR 0x22]"

definition json_field :: "string \<Rightarrow> string \<Rightarrow> string" where
  "json_field k v = json_string k @ '':'' @ v"

definition json_object :: "string list \<Rightarrow> string" where
  "json_object fs = ''{'' @ join_with '','' fs @ ''}''"

section \<open>The loop\<close>

record Blueprint =
  bp_taskId :: string
  bp_intent :: string
  bp_shardsUsed :: nat
  bp_routedAgent :: string
  bp_requirements :: "string list"

record ExecutionResult =
  er_status :: string
  er_payload :: string
  er_exitCode :: int

definition architect :: "string \<Rightarrow> string \<Rightarrow> ContextMessage list \<Rightarrow> string \<Rightarrow> Blueprint" where
  "architect uuid task context routedAgent =
     \<lparr>bp_taskId = uuid, bp_intent = task, bp_shardsUsed = length context, bp_routedAgent = routedAgent,
      bp_requirements = [''idempotency'', ''traceability'']\<rparr>"

definition operator :: "Blueprint \<Rightarrow> ExecutionResult" where
  "operator blueprint = \<lparr>er_status = ''success'', er_payload = ''Operation payload generated'', er_exitCode = 0\<rparr>"

definition verifier :: "ExecutionResult \<Rightarrow> bool" where
  "verifier result \<longleftrightarrow> er_exitCode result = 0 \<and> er_status result = ''success''"

definition json_blueprint :: "Blueprint \<Rightarrow> string" where
  "json_blueprint bp = json_object [json_field ''taskId'' (json_string (bp_taskId bp)), json_field ''intent'' (json_string (bp_intent bp)),
     json_field ''shardsUsed'' (show_nat (bp_shardsUsed bp)), json_field ''routedAgent'' (json_string (bp_routedAgent bp)),
     json_field ''requirements'' (''['' @ join_with '','' (map json_string (bp_requirements bp)) @ '']'')]"

definition json_result :: "ExecutionResult \<Rightarrow> string" where
  "json_result r = json_object [json_field ''status'' (json_string (er_status r)), json_field ''payload'' (json_string (er_payload r)),
     json_field ''exitCode'' (show_int (er_exitCode r))]"

definition json_details :: "string \<Rightarrow> string" where
  "json_details checksum = json_object [json_field ''intentMatched'' ''true'', json_field ''checksum'' (json_string checksum)]"

text \<open>What a cycle takes from outside: its ids, the checksum, the clock at its start and
  end, and whether the receipt's row could be inserted.\<close>

record CycleEnv =
  cy_cycleId :: string
  cy_taskId :: string
  cy_receiptId :: string
  cy_checksum :: string
  cy_start :: int
  cy_end :: int
  cy_stored :: bool

datatype cycle_error = CycleIllegal triad_error | CycleStoreFailed

definition bridge_emit :: "BridgeEvent list \<Rightarrow> MevBridge \<Rightarrow> MevBridge" where
  "bridge_emit es b = b\<lparr>mb_events := mb_events b @ es\<rparr>"

text \<open>Transitions one after the other, each with its routed agent and note; the first that is
  refused throws.\<close>

fun run_phases :: "int \<Rightarrow> (TriadPhase \<times> string option \<times> string option) list \<Rightarrow> TriadStateMachine \<Rightarrow>
    triad_error option \<times> TriadStateMachine" where
  "run_phases now [] m = (None, m)"
| "run_phases now ((p, agent, note) # ps) m =
     (case triad_transition now p agent note m of
        Inl e \<Rightarrow> (Some e, m)
      | Inr (_, m') \<Rightarrow> run_phases now ps m')"

definition cycle_phases :: "string \<Rightarrow> string \<Rightarrow> (TriadPhase \<times> string option \<times> string option) list" where
  "cycle_phases agent rationale =
     [(DispatchToArchitect, Some agent, Some rationale), (ArchitectStreaming, None, None), (DispatchToOperator, None, None),
      (OperatorExecuting, None, None), (DispatchToVerifier, None, None), (VerifierAuditing, None, None),
      (IssuingReceipt, None, None)]"

text \<open>The \<open>catch\<close> of the loop fails a machine that is not yet at an end.\<close>

definition fail_machine :: "int \<Rightarrow> string \<Rightarrow> string \<Rightarrow> TriadStateMachine \<Rightarrow> TriadStateMachine" where
  "fail_machine now agent msg m =
     (if isTerminal m then m
      else case triad_transition now Failed (Some agent) (Some msg) m of Inl _ \<Rightarrow> m | Inr (_, m') \<Rightarrow> m')"

definition personalize :: "(string \<Rightarrow> string) option \<Rightarrow> string \<Rightarrow> ContextMessage list \<Rightarrow> ContextMessage list" where
  "personalize persona agent context =
     (case persona of None \<Rightarrow> context
      | Some compile \<Rightarrow> map (\<lambda>m. if is_system m then m\<lparr>mx_content := Some (compile agent)\<rparr> else m) context)"

definition cycle_receipt :: "(string \<Rightarrow> string) \<Rightarrow> CycleEnv \<Rightarrow> string \<Rightarrow> ContextMessage list \<Rightarrow> string \<times> string \<Rightarrow> MevBridge \<Rightarrow>
    TriadStateMachine \<Rightarrow> VerificationReceipt" where
  "cycle_receipt digest e task context routing b m =
     (let blueprint = architect (cy_taskId e) task context (fst routing);
          result = operator blueprint;
          details = json_details (cy_checksum e);
          promptText = task @ join_with [CHR 0x0A] (map (\<lambda>m. case_option [] id (mx_content m)) context);
          responseText = json_blueprint blueprint @ json_result result @ details;
          inTok = tokens_of (length promptText); outTok = tokens_of (length responseText)
      in \<lparr>vr_id = cy_receiptId e, vr_cycleId = cy_cycleId e, vr_timestamp = cy_end e, vr_architectId = fst routing,
          vr_operatorId = ''operator-v1-nyx'', vr_verifierId = ''verifier-v1-nyx'', vr_taskHash = digest task,
          vr_status = (if verifier result then ReceiptVerified else ReceiptFailed),
          vr_evidence = json_object [json_field ''blueprintId'' (json_string (bp_taskId blueprint)),
            json_field ''verificationDetails'' details, json_field ''executionStatus'' (json_string (er_status result))],
          vr_routing = \<lparr>ro_architectAgent = fst routing, ro_rationale = snd routing, ro_vramFreeMb = mb_vramFreeMb b\<rparr>,
          vr_phaseTrail = trail m,
          vr_tokens = Some \<lparr>tu_input = inTok, tu_output = outTok, tu_total = inTok + outTok,
                           tu_runtimeMs = cy_end e - cy_start e, tu_source = Estimated\<rparr>\<rparr>)"

definition execute :: "(string \<Rightarrow> string) \<Rightarrow> CycleEnv \<Rightarrow> string \<Rightarrow> ContextMessage list \<Rightarrow> MevBridge \<Rightarrow>
    (cycle_error + VerificationReceipt) \<times> MevBridge" where
  "execute digest e task context b =
     (let machine = new_triad (cy_start e) (cy_cycleId e) (digest task);
          (routing, b1) = routeArchitect (cy_start e) b;
          agent = fst routing;
          b2 = b1\<lparr>mb_rateLimits := map_option (recordDispatch (cy_start e) agent) (mb_rateLimits b1)\<rparr>;
          ctx = personalize (mb_persona b2) agent (shardContext context (mb_keepRecentTurns b2))
      in case run_phases (cy_start e) (cycle_phases agent (snd routing)) machine of
           (Some err, m) \<Rightarrow> (Inl (CycleIllegal err),
              bridge_emit (map PhaseChange (tm_emitted (fail_machine (cy_end e) agent ''illegal'' m))) b2)
         | (None, m) \<Rightarrow>
             let receipt = cycle_receipt digest e task ctx routing b2 m;
                 last_phase = (if vr_status receipt = ReceiptVerified then Succeeded else Failed)
             in (case run_phases (cy_end e) [(last_phase, Some agent, None)] m of
                   (Some err, m') \<Rightarrow> (Inl (CycleIllegal err),
                      bridge_emit (map PhaseChange (tm_emitted (fail_machine (cy_end e) agent ''illegal'' m'))) b2)
                 | (None, m') \<Rightarrow>
                     let receipt' = receipt\<lparr>vr_phaseTrail := trail m'\<rparr>;
                         b3 = bridge_emit (map PhaseChange (tm_emitted m')) b2
                     in if cy_stored e
                        then (Inr receipt', bridge_emit [CycleComplete receipt'] (b3\<lparr>mb_receipts := mb_receipts b3 @ [receipt']\<rparr>))
                        else (Inl CycleStoreFailed, b3)))"

section \<open>A cycle, phase by phase\<close>

lemma cycle_phases_run:
  "\<exists>m. run_phases now (cycle_phases agent rationale) (new_triad now c h) = (None, m) \<and> tm_phase m = IssuingReceipt
     \<and> map pe_phase (tm_history m) = butlast pipeline \<and> tm_emitted m = tl (tm_history m) \<and> tm_history m \<noteq> []"
  by (simp add: cycle_phases_def triad_transition_def canTransition_def new_triad_def pipeline_def Let_def)

lemma last_phase_run:
  assumes "tm_phase m = IssuingReceipt"
  shows "\<exists>ev. run_phases now [(Succeeded, agent, note)] m =
    (None, m\<lparr>tm_phase := Succeeded, tm_history := tm_history m @ [ev], tm_emitted := tm_emitted m @ [ev]\<rparr>) \<and> pe_phase ev = Succeeded"
  using assms
  by (intro exI [of _ "\<lparr>pe_cycleId = tm_cycleId m, pe_taskHash = tm_taskHash m, pe_phase = Succeeded,
      pe_previous = Some IssuingReceipt, pe_timestamp = now, pe_routedAgent = agent, pe_note = note\<rparr>"])
    (simp add: triad_transition_def canTransition_def Let_def)

lemma verifier_accepts: "verifier (operator blueprint)"
  by (simp add: verifier_def operator_def)

lemma routed_agent:
  "fst (fst (routeArchitect now b)) =
     (if (case mb_rateLimits b of None \<Rightarrow> True | Some t \<Rightarrow> fst (tracker_canDispatch now (mb_primaryArchitect b) t))
         \<and> mb_vramKnown b \<and> mb_vramFloorMb b \<le> mb_vramFreeMb b
      then mb_primaryArchitect b else mb_fallbackAgent b)"
  by (auto simp: routeArchitect_def Let_def split: option.split prod.split)

lemma routed_frame:
  "mb_events (snd (routeArchitect now b)) = mb_events b" "mb_receipts (snd (routeArchitect now b)) = mb_receipts b"
  by (auto simp: routeArchitect_def Let_def split: option.split prod.split)

lemma bridge_emit_simps [simp]:
  "mb_events (bridge_emit es b) = mb_events b @ es" "mb_receipts (bridge_emit es b) = mb_receipts b"
  by (simp_all add: bridge_emit_def)

section \<open>Properties\<close>

lemma execute_unstored:
  assumes "\<not> cy_stored e"
  shows "fst (execute digest e task context b) = Inl CycleStoreFailed"
proof -
  obtain routing b1 where route: "routeArchitect (cy_start e) b = (routing, b1)" by (metis prod.collapse)
  obtain m where m: "run_phases (cy_start e) (cycle_phases (fst routing) (snd routing)) (new_triad (cy_start e) (cy_cycleId e) (digest task)) = (None, m)"
    "tm_phase m = IssuingReceipt"
    using cycle_phases_run by blast
  obtain ev where "run_phases (cy_end e) [(Succeeded, Some (fst routing), None)] m =
      (None, m\<lparr>tm_phase := Succeeded, tm_history := tm_history m @ [ev], tm_emitted := tm_emitted m @ [ev]\<rparr>)"
    using last_phase_run [OF m(2)] by blast
  then show ?thesis
    using assms m(1) by (simp add: execute_def route Let_def cycle_receipt_def verifier_accepts del: run_phases.simps)
qed

text \<open>A cycle goes through the whole pipeline. Its phases are emitted in order up to
  \<open>Succeeded\<close>; the primary architect is used only when it is not rate limited and the known
  free VRAM reaches the floor, and the fallback agent otherwise. When the receipt is stored it is
  verified, carries the full trail, is the one new row, and is announced last; when storing it
  fails the call throws, with \<open>Succeeded\<close> already announced and no receipt.\<close>

theorem cycle_issues_receipt:
  assumes "execute digest e task context b = (res, b')"
  shows "\<exists>evs. map pe_phase evs = tl pipeline \<and>
    (if cy_stored e then
       (\<exists>r. res = Inr r \<and> vr_status r = ReceiptVerified \<and> map pe_phase (vr_phaseTrail r) = pipeline
         \<and> vr_taskHash r = digest task
         \<and> vr_architectId r = (if (case mb_rateLimits b of None \<Rightarrow> True
               | Some t \<Rightarrow> fst (tracker_canDispatch (cy_start e) (mb_primaryArchitect b) t))
             \<and> mb_vramKnown b \<and> mb_vramFloorMb b \<le> mb_vramFreeMb b then mb_primaryArchitect b else mb_fallbackAgent b)
         \<and> mb_receipts b' = mb_receipts b @ [r] \<and> mb_events b' = mb_events b @ map PhaseChange evs @ [CycleComplete r])
     else res = Inl CycleStoreFailed \<and> mb_receipts b' = mb_receipts b \<and> mb_events b' = mb_events b @ map PhaseChange evs)"
proof -
  obtain routing b1 where route: "routeArchitect (cy_start e) b = (routing, b1)" by (metis prod.collapse)
  have frame: "mb_events b1 = mb_events b" "mb_receipts b1 = mb_receipts b"
    using routed_frame [of "cy_start e" b] by (simp_all add: route)
  obtain m where m: "run_phases (cy_start e) (cycle_phases (fst routing) (snd routing)) (new_triad (cy_start e) (cy_cycleId e) (digest task)) = (None, m)"
    "tm_phase m = IssuingReceipt" "map pe_phase (tm_history m) = butlast pipeline" "tm_emitted m = tl (tm_history m)" "tm_history m \<noteq> []"
    using cycle_phases_run by blast
  obtain ev where ev: "run_phases (cy_end e) [(Succeeded, Some (fst routing), None)] m =
      (None, m\<lparr>tm_phase := Succeeded, tm_history := tm_history m @ [ev], tm_emitted := tm_emitted m @ [ev]\<rparr>)" "pe_phase ev = Succeeded"
    using last_phase_run [OF m(2)] by blast
  have trail: "map pe_phase (tm_history m @ [ev]) = pipeline" using m(3) ev(2) by (simp add: pipeline_def)
  then have evs: "map pe_phase (tm_emitted m @ [ev]) = tl pipeline" using m(4,5) by (metis map_tl tl_append2)
  show ?thesis
    using assms m(1) ev(1) evs trail frame routed_agent [of "cy_start e" b]
    by (intro exI [of _ "tm_emitted m @ [ev]"])
      (auto simp: execute_def route Let_def cycle_receipt_def verifier_accepts trail_def simp del: run_phases.simps split: if_splits)
qed

definition example_cycle :: CycleEnv where
  "example_cycle = \<lparr>cy_cycleId = ''c'', cy_taskId = ''t'', cy_receiptId = ''r'', cy_checksum = ''00'', cy_start = 1, cy_end = 5, cy_stored = True\<rparr>"

theorem cycle_issues_receipt_witness:
  "\<exists>r. fst (execute id example_cycle ''go'' [] new_bridge) = Inr r \<and> vr_architectId r = ''nyx-cli''
    \<and> length (mb_events (snd (execute id example_cycle ''go'' [] new_bridge))) = 9"
proof -
  obtain res b' where run: "execute id example_cycle ''go'' [] new_bridge = (res, b')" by force
  from cycle_issues_receipt [OF run] obtain evs r where
    "map pe_phase evs = tl pipeline" "res = Inr r" "vr_architectId r = ''nyx-cli''"
    "mb_events b' = map PhaseChange evs @ [CycleComplete r]"
    by (auto simp: example_cycle_def new_bridge_def NYX_CLI_AGENT_def)
  moreover from this(1) have "length evs = 8" by (auto simp: pipeline_def dest: arg_cong [where f = length])
  ultimately show ?thesis by (simp add: run)
qed

text \<open>Sharding keeps the system prompt and the last \<open>keepRecent\<close> messages. For a positive
  \<open>keepRecent\<close> the result is the end of the history, preceded by its first system message when
  that is not in it, so it never has more than \<open>keepRecent + 1\<close> messages.\<close>

theorem shard_keeps_tail_and_system:
  assumes "0 < k"
  shows "\<exists>front. shardContext history (int k) = front @ drop (length history - k) history
    \<and> length (shardContext history (int k)) \<le> k + 1
    \<and> (case find is_system history of None \<Rightarrow> front = []
       | Some m \<Rightarrow> mx_ref m \<in> mx_ref ` set (shardContext history (int k)) \<and> (front = [] \<or> front = [m]))"
proof (cases "find is_system history")
  case None
  then show ?thesis using assms by (simp add: shardContext_def js_slice_from_tail Let_def)
next
  case (Some m)
  let ?tail = "drop (length history - k) history"
  have shard: "shardContext history (int k) = (if mx_ref m \<in> mx_ref ` set ?tail then [] else [m]) @ ?tail"
    using assms Some by (simp add: shardContext_def js_slice_from_tail Let_def)
  then show ?thesis using Some by (cases "mx_ref m \<in> mx_ref ` set ?tail") simp_all
qed

theorem shard_keeps_tail_and_system_witness:
  "length (shardContext [\<lparr>mx_ref = 0, mx_role = Some ''system'', mx_content = None\<rparr>, \<lparr>mx_ref = 1, mx_role = None, mx_content = None\<rparr>,
     \<lparr>mx_ref = 2, mx_role = None, mx_content = None\<rparr>] 1) \<le> 2"
proof -
  let ?h = "[\<lparr>mx_ref = 0, mx_role = Some ''system'', mx_content = None\<rparr>, \<lparr>mx_ref = 1, mx_role = None, mx_content = None\<rparr>,
     \<lparr>mx_ref = 2, mx_role = None, mx_content = None\<rparr>]"
  have "length (shardContext ?h (int 1)) \<le> 1 + 1"
    using shard_keeps_tail_and_system [of 1 ?h, OF zero_less_one] by blast
  then show ?thesis by simp
qed

text \<open>A \<open>keepRecent\<close> of 0 does not drop the turns: \<open>slice(-0)\<close> is the whole history.\<close>

lemma shard_zero_keeps_all:
  "shardContext history 0 = history"
  by (auto simp: shardContext_def js_slice_from_zero Let_def find_Some_iff split: option.split)

end
