(* ===== verification/Paths.thy ===== *)
theory Paths
  imports Kovael_Prelude
begin

text \<open>
  POSIX paths as \<open>node:path\<close> has them, and the checks on paths and addresses:
  \<open>src/src/services/SqlitePathSecurity.ts\<close> (where the databases may be),
  \<open>src/src/services/AgentPathProtection.ts\<close> (which files of a workspace are protected) and
  \<open>src/src/services/BindHostSecurity.ts\<close> (where the servers listen).
\<close>

section \<open>Paths\<close>

text \<open>\<open>path.resolve\<close>, \<open>join\<close> and \<open>relative\<close> on absolute paths, by their segments.\<close>

definition norm_step :: "string list \<Rightarrow> string \<Rightarrow> string list" where
  "norm_step segs p = (if p = [] \<or> p = ''.'' then segs else if p = ''..'' then butlast segs else segs @ [p])"

definition path_segs :: "string \<Rightarrow> string list" where
  "path_segs p = foldl norm_step [] (split_at CHR ''/'' p)"

definition path_of :: "string list \<Rightarrow> string" where
  "path_of segs = ''/'' @ join_with ''/'' segs"

definition path_resolve :: "string \<Rightarrow> string \<Rightarrow> string" where
  "path_resolve cwd p = path_of (path_segs (if starts_with ''/'' p then p else cwd @ ''/'' @ p))"

definition path_join :: "string \<Rightarrow> string \<Rightarrow> string" where
  "path_join a b = path_of (path_segs (a @ ''/'' @ b))"

fun relative_segs :: "string list \<Rightarrow> string list \<Rightarrow> string list" where
  "relative_segs (x # xs) (y # ys) =
     (if x = y then relative_segs xs ys else replicate (length (x # xs)) ''..'' @ y # ys)"
| "relative_segs xs ys = replicate (length xs) ''..'' @ ys"

definition path_relative :: "string \<Rightarrow> string \<Rightarrow> string" where
  "path_relative base p = join_with ''/'' (relative_segs (path_segs base) (path_segs p))"

section \<open>Paths that need not be absolute\<close>

text \<open>
  \<open>path.posix.join\<close>: the parts that are not empty, joined and normalised. A leading \<open>..\<close>
  stays when the path is not absolute, and a trailing slash is kept.
\<close>

definition norm_seg :: "bool \<Rightarrow> string list \<Rightarrow> string \<Rightarrow> string list" where
  "norm_seg absolute segs p =
     (if p = [] \<or> p = ''.'' then segs
      else if p = ''..'' then
        (if segs \<noteq> [] \<and> last segs \<noteq> ''..'' then butlast segs
         else if absolute then segs else segs @ [''..''])
      else segs @ [p])"

definition path_normalize :: "string \<Rightarrow> string" where
  "path_normalize p =
     (if p = [] then ''.''
      else
        let absolute = starts_with ''/'' p;
            body = join_with ''/'' (foldl (norm_seg absolute) [] (split_at CHR ''/'' p));
            slash = (if last p = CHR ''/'' then ''/'' else [])
        in if body = [] then (if absolute then ''/'' else ''.'' @ slash)
           else (if absolute then ''/'' else []) @ body @ slash)"

definition path_joins :: "string list \<Rightarrow> string" where
  "path_joins ps =
     (case filter (\<lambda>p. p \<noteq> []) ps of [] \<Rightarrow> ''.'' | qs \<Rightarrow> path_normalize (join_with ''/'' qs))"

text \<open>\<open>path.dirname\<close> of a path with a slash before its last segment.\<close>

definition path_dirname :: "string \<Rightarrow> string" where
  "path_dirname p =
     (let body = rev (dropWhile (\<lambda>c. c = CHR ''/'') (rev p));
          dir = rev (dropWhile (\<lambda>c. c = CHR ''/'') (dropWhile (\<lambda>c. c \<noteq> CHR ''/'') (rev body)))
      in if dir \<noteq> [] then dir else if starts_with ''/'' p then ''/'' else ''.'')"

section \<open>Where the databases may be\<close>

definition icloud_segments :: "string list" where
  "icloud_segments = [''onedrive'', ''dropbox'', ''google drive'', ''icloud drive'', ''icloudDrive'']"

definition defaultAgentHubDir :: "string \<Rightarrow> penv \<Rightarrow> string" where
  "defaultAgentHubDir homedir env =
     (let dataHome = (if truthy_str (env ''XDG_DATA_HOME'') then the (env ''XDG_DATA_HOME'')
                      else path_joins [homedir, ''.local'', ''share''])
      in path_joins [dataHome, ''kovael'', ''agents''])"

definition safe_char :: "char \<Rightarrow> bool" where
  "safe_char c \<longleftrightarrow> is_letter c \<or> is_digit c \<or> c \<in> {CHR ''.'', CHR ''_'', CHR ''-''}"

definition safePathSegment :: "string \<Rightarrow> string" where
  "safePathSegment v =
     (let cleaned = map (\<lambda>c. if safe_char c then c else CHR ''_'') v
      in if cleaned = [] \<or> list_all (\<lambda>c. c = CHR ''.'') cleaned then ''_'' else cleaned)"

definition isUncPath :: "string \<Rightarrow> bool" where
  "isUncPath v = starts_with [CHR 0x5C, CHR 0x5C] (map (\<lambda>c. if c = CHR ''/'' then CHR 0x5C else c) v)"

text \<open>\<open>s.split(/[..]+/)\<close>: a run of separators is one cut.\<close>

function split_runs :: "(char \<Rightarrow> bool) \<Rightarrow> string \<Rightarrow> string list" where
  "split_runs sep s =
     (case dropWhile (\<lambda>c. \<not> sep c) s of
        [] \<Rightarrow> [s]
      | _ # r \<Rightarrow> takeWhile (\<lambda>c. \<not> sep c) s # split_runs sep (dropWhile sep r))"
  by pat_completeness auto
termination
proof (relation "measure (\<lambda>(_, s). length s)")
  fix sep :: "char \<Rightarrow> bool" and s c r
  assume "dropWhile (\<lambda>c. \<not> sep c) s = c # r"
  then have "Suc (length r) \<le> length s" using length_dropWhile_le [of "\<lambda>c. \<not> sep c" s] by simp
  then show "((sep, dropWhile sep r), sep, s) \<in> measure (\<lambda>(_, s). length s)"
    using length_dropWhile_le [of sep r] by simp
qed simp

declare split_runs.simps [simp del]

definition looksCloudSynced :: "string \<Rightarrow> bool" where
  "looksCloudSynced v =
     (let parts = split_runs (\<lambda>c. c = CHR 0x5C \<or> c = CHR ''/'') (toLowerCase v)
      in list_ex (\<lambda>segment. toLowerCase segment \<in> set parts) icloud_segments)"

definition UNC_REASON :: string where
  "UNC_REASON = ''agent hub SQLite files must not live on UNC or network paths''"

definition CLOUD_REASON :: string where
  "CLOUD_REASON = ''agent hub SQLite files must not live under cloud-synced folders''"

text \<open>The check gives the reason of a refusal; \<open>unsafe_agent_hub_dir\<close> is its only code.\<close>

definition validateLocalSqlitePath :: "string \<Rightarrow> string \<Rightarrow> string option" where
  "validateLocalSqlitePath cwd dbPath =
     (if dbPath = '':memory:'' then None
      else if isUncPath dbPath then Some UNC_REASON
      else let resolved = path_resolve cwd dbPath in
        if isUncPath resolved then Some UNC_REASON
        else if looksCloudSynced resolved then Some CLOUD_REASON
        else None)"

datatype FsCall = MkDir string nat | ChMod string nat | CreateFile string nat

datatype prepare_error = PathUnsafe string | DirMode string nat | FileMode string nat

text \<open>
  \<open>existed\<close> is what \<open>existsSync\<close> says of the file, \<open>dirMode\<close> and \<open>fileMode\<close> the permission
  bits \<open>statSync\<close> finds after the changes. A \<open>chmod\<close> that fails is ignored.
\<close>

definition prepareLocalSqliteFile :: "string \<Rightarrow> string \<Rightarrow> bool \<Rightarrow> nat \<Rightarrow> nat \<Rightarrow> prepare_error option \<times> FsCall list" where
  "prepareLocalSqliteFile cwd dbPath existed dirMode fileMode =
     (case validateLocalSqlitePath cwd dbPath of
        Some reason \<Rightarrow> (Some (PathUnsafe reason), [])
      | None \<Rightarrow>
          if dbPath = '':memory:'' then (None, [])
          else
            let dir = path_dirname dbPath;
                made = [MkDir dir 448, ChMod dir 448]
            in if dirMode \<noteq> 448 then (Some (DirMode dir dirMode), made)
               else
                 let file = made @ [if existed then ChMod dbPath 384 else CreateFile dbPath 384]
                 in if fileMode \<noteq> 384 then (Some (FileMode dbPath fileMode), file) else (None, file))"

section \<open>Protected files of the workspace\<close>

definition PROTECTED_AGENT_DIRECTORY_NAME_LIST :: "string list" where
  "PROTECTED_AGENT_DIRECTORY_NAME_LIST = [''.claude'', ''.gemini'', ''.codex'', ''secrets'']"

definition PROTECTED_AGENT_FILE_NAME_LIST :: "string list" where
  "PROTECTED_AGENT_FILE_NAME_LIST = [''CLAUDE.local.md'', ''GEMINI.local.md'', ''AGENTS.local.md'', ''.env'']"

definition isProtectedAgentDirectoryName :: "string \<Rightarrow> bool" where
  "isProtectedAgentDirectoryName name \<longleftrightarrow> toLowerCase name \<in> set PROTECTED_AGENT_DIRECTORY_NAME_LIST"

definition isProtectedAgentFileName :: "string \<Rightarrow> bool" where
  "isProtectedAgentFileName name =
     (let normalized = toLowerCase name in
      normalized \<in> set (map toLowerCase PROTECTED_AGENT_FILE_NAME_LIST) \<or> starts_with ''.env.'' normalized)"

text \<open>The file system as the inspection reads it: \<open>existsSync\<close>, and the entries of a directory
  with whether each is a file (\<open>None\<close> when it cannot be read).\<close>

record FileSystem =
  fs_exists :: "string \<Rightarrow> bool"
  fs_entries :: "string \<Rightarrow> (string \<times> bool) list option"

definition ends_with :: "string \<Rightarrow> string \<Rightarrow> bool" where
  "ends_with w s \<longleftrightarrow> starts_with (rev w) (rev s)"

definition pathExists :: "FileSystem \<Rightarrow> string \<Rightarrow> bool" where
  "pathExists fs filePath =
     (if ends_with ''/.env.*'' filePath then
        (case fs_entries fs (path_dirname filePath) of
           None \<Rightarrow> False
         | Some entries \<Rightarrow> list_ex (\<lambda>(name, file). file \<and> starts_with ''.env.'' (toLowerCase name)) entries)
      else fs_exists fs filePath)"

record ProtectedLocalConfigPathStatus =
  pp_label :: string
  pp_exists :: bool

fun add_statuses :: "FileSystem \<Rightarrow> string \<Rightarrow> string list \<Rightarrow> (string \<times> string) list \<Rightarrow> ProtectedLocalConfigPathStatus list" where
  "add_statuses fs here seen [] = []"
| "add_statuses fs here seen ((label, filePath) # rest) =
     (let key = toLowerCase (path_resolve here filePath) in
      if key \<in> set seen then add_statuses fs here seen rest
      else \<lparr>pp_label = label, pp_exists = pathExists fs filePath\<rparr> # add_statuses fs here (seen @ [key]) rest)"

definition protected_paths :: "string \<Rightarrow> string \<Rightarrow> penv \<Rightarrow> (string \<times> string) list" where
  "protected_paths homedir cwd env =
     (let homeDir = (if truthy_str (env ''USERPROFILE'') then the (env ''USERPROFILE'')
                     else if truthy_str (env ''HOME'') then the (env ''HOME'') else homedir)
      in map (\<lambda>name. (''workspace:'' @ name, path_joins [cwd, name])) PROTECTED_AGENT_DIRECTORY_NAME_LIST
       @ map (\<lambda>name. (''workspace:'' @ name, path_joins [cwd, name])) PROTECTED_AGENT_FILE_NAME_LIST
       @ [(''workspace:.env.*'', path_joins [cwd, ''.env.*''])]
       @ (if homeDir \<noteq> [] then map (\<lambda>name. (''home:'' @ name, path_joins [homeDir, name])) [''.claude'', ''.gemini'', ''.codex'']
          else [])
       @ (if truthy_str (env ''APPDATA'') then
            [(''appdata:Claude'', path_joins [the (env ''APPDATA''), ''Claude'']),
             (''appdata:Codex'', path_joins [the (env ''APPDATA''), ''Codex''])]
          else []))"

text \<open>\<open>here\<close> is the working directory of the process, which \<open>path.resolve\<close> starts from.\<close>

definition inspectProtectedLocalConfigPaths ::
    "FileSystem \<Rightarrow> string \<Rightarrow> string \<Rightarrow> string \<Rightarrow> penv \<Rightarrow> ProtectedLocalConfigPathStatus list" where
  "inspectProtectedLocalConfigPaths fs here homedir cwd env = add_statuses fs here [] (protected_paths homedir cwd env)"

section \<open>Where the servers listen\<close>

datatype RemoteAccessMode = Loopback | TokenGatedBind

definition LOOPBACK_HOSTS :: "string list" where
  "LOOPBACK_HOSTS = [''127.0.0.1'', ''localhost'', ''::1'', ''[::1]'']"

definition isLoopbackBindHost :: "string \<Rightarrow> bool" where
  "isLoopbackBindHost host \<longleftrightarrow> toLowerCase (trim host) \<in> set LOOPBACK_HOSTS"

definition resolveBindHost :: "string option \<Rightarrow> penv \<Rightarrow> string + string \<times> RemoteAccessMode" where
  "resolveBindHost requestedHost env =
     (let bindHost = (if truthy_str (map_option trim requestedHost) then trim (the requestedHost) else ''127.0.0.1'') in
      if isLoopbackBindHost bindHost then Inr (bindHost, Loopback)
      else if \<not> truthy_str (map_option trim (env ''KOVAEL_API_TOKEN'')) then
        Inl (''KOVAEL_BIND_HOST='' @ bindHost @ '' requires KOVAEL_API_TOKEN. ''
          @ ''Use the default loopback bind with SSH local forwarding for remote access.'')
      else Inr (bindHost, TokenGatedBind))"

section \<open>Path lemmas\<close>

lemma split_at_snoc:
  "d \<notin> set c \<Longrightarrow> split_at d (p @ d # c) = split_at d p @ [c]"
proof (induction p)
  case Nil
  then show ?case by (simp add: split_at_append)
next
  case (Cons x p)
  have ne: "split_at d q \<noteq> []" for q by (cases q) (auto split: list.split)
  then obtain a as where "split_at d p = a # as" by (meson list.exhaust)
  with Cons show ?case by auto
qed

lemma split_at_pieces: "list_all (\<lambda>p. d \<notin> set p) (split_at d s)"
  by (induction s) (auto split: list.split)

definition clean_seg :: "string \<Rightarrow> bool" where
  "clean_seg p \<longleftrightarrow> p \<noteq> [] \<and> p \<noteq> ''.'' \<and> p \<noteq> ''..'' \<and> CHR ''/'' \<notin> set p"

lemma clean_norm: "list_all clean_seg acc \<Longrightarrow> list_all (\<lambda>p. CHR ''/'' \<notin> set p) ps \<Longrightarrow>
    list_all clean_seg (foldl norm_step acc ps)"
proof (induction ps arbitrary: acc)
  case (Cons p ps)
  have "list_all clean_seg (norm_step acc p)"
    using Cons.prems by (auto simp: norm_step_def clean_seg_def list_all_iff dest: in_set_butlastD)
  then show ?case using Cons by simp
qed simp

lemma clean_path_segs: "list_all clean_seg (path_segs p)"
  unfolding path_segs_def by (rule clean_norm) (simp_all add: split_at_pieces)

lemma norm_clean: "list_all clean_seg ps \<Longrightarrow> foldl norm_step acc ps = acc @ ps"
  by (induction ps arbitrary: acc) (simp_all add: norm_step_def clean_seg_def)

lemma split_at_join:
  "list_all (\<lambda>p. d \<notin> set p) ps \<Longrightarrow> ps \<noteq> [] \<Longrightarrow> split_at d (join_with [d] ps) = ps"
  by (induction "[d]" ps rule: join_with.induct) (auto simp: split_at_append)

lemma path_segs_of: "list_all clean_seg ps \<Longrightarrow> path_segs (path_of ps) = ps"
proof (cases "ps = []")
  case False
  assume c: "list_all clean_seg ps"
  then have "list_all (\<lambda>p. CHR ''/'' \<notin> set p) ps" by (auto simp: list_all_iff clean_seg_def)
  then have "split_at CHR ''/'' (path_of ps) = [] # ps" using False by (simp add: path_of_def split_at_join)
  then show ?thesis using c by (simp add: path_segs_def norm_clean norm_step_def)
qed (simp add: path_of_def path_segs_def norm_step_def)

lemma path_segs_join:
  assumes "CHR ''/'' \<notin> set c"
  shows "path_segs (path_join base c) = norm_step (path_segs base) c"
  using clean_path_segs [of "base @ CHR ''/'' # c"] assms
  by (simp add: path_join_def path_segs_of) (simp add: path_segs_def split_at_snoc)

lemma relative_segs_prefix: "relative_segs xs (xs @ ys) = ys"
  by (induction xs) simp_all

lemma relative_segs_up: "xs \<noteq> [] \<Longrightarrow> relative_segs xs (butlast xs) = [''..'']"
proof (induction xs)
  case (Cons x xs)
  then show ?case by (cases xs) simp_all
qed simp

section \<open>What the checks give\<close>

lemma safe_char_props: "safe_char c \<Longrightarrow> c \<noteq> CHR ''/'' \<and> c \<noteq> CHR 0x5C" "safe_char CHR ''_''"
  by (auto simp: safe_char_def is_letter_def is_digit_def lower_char_def)

lemma safe_segment_chars: "list_all safe_char (safePathSegment v)"
  using safe_char_props(2) by (auto simp: safePathSegment_def Let_def list_all_iff)

lemma safe_segment_clean: "clean_seg (safePathSegment v)"
proof -
  have "CHR ''/'' \<notin> set (safePathSegment v)"
    using safe_segment_chars [of v] safe_char_props(1) by (auto simp: list_all_iff)
  moreover have "safePathSegment v \<noteq> [] \<and> safePathSegment v \<noteq> ''.'' \<and> safePathSegment v \<noteq> ''..''"
    by (auto simp: safePathSegment_def Let_def)
  ultimately show ?thesis by (simp add: clean_seg_def)
qed

text \<open>A segment of allowed characters that is not all dots is kept.\<close>

lemma safe_segment_id:
  assumes "list_all safe_char v" and "v \<noteq> []" and "\<not> list_all (\<lambda>c. c = CHR ''.'') v"
  shows "safePathSegment v = v"
proof -
  have "map (\<lambda>c. if safe_char c then c else CHR ''_'') v = v"
    using assms(1) by (induction v) simp_all
  then show ?thesis using assms by (simp add: safePathSegment_def Let_def)
qed

lemma remote_needs_token:
  "resolveBindHost host env = Inr (h, TokenGatedBind) \<Longrightarrow> truthy_str (map_option trim (env ''KOVAEL_API_TOKEN''))"
  by (auto simp: resolveBindHost_def Let_def split: if_splits)

lemma norm_seg_absolute:
  "list_all clean_seg acc \<Longrightarrow> list_all (\<lambda>p. CHR ''/'' \<notin> set p) ps \<Longrightarrow> foldl (norm_seg True) acc ps = foldl norm_step acc ps"
proof (induction ps arbitrary: acc)
  case (Cons p ps)
  have l: "acc \<noteq> [] \<Longrightarrow> last acc \<noteq> ''..''" using Cons.prems(1) by (auto simp: list_all_iff clean_seg_def)
  have "norm_seg True acc p = norm_step acc p"
    using l by (cases "acc = []") (auto simp: norm_seg_def norm_step_def)
  moreover have "list_all clean_seg (norm_step acc p)"
    using clean_norm [OF Cons.prems(1), of "[p]"] Cons.prems(2) by simp
  ultimately show ?case using Cons by simp
qed simp

lemma path_segs_slash: "path_segs (''/'' @ p) = path_segs p" "path_segs (p @ ''/'') = path_segs p"
proof -
  show "path_segs (''/'' @ p) = path_segs p" by (simp add: path_segs_def norm_step_def)
  show "path_segs (p @ ''/'') = path_segs p" using split_at_snoc [of "CHR ''/''" "[]" p] by (simp add: path_segs_def norm_step_def)
qed

text \<open>Normalising an absolute path keeps its segments.\<close>

lemma path_segs_normalize:
  assumes "starts_with ''/'' p" shows "path_segs (path_normalize p) = path_segs p"
proof -
  have ne: "p \<noteq> []" using assms by (auto simp: starts_with_def)
  have "foldl (norm_seg True) [] (split_at CHR ''/'' p) = path_segs p"
    unfolding path_segs_def by (rule norm_seg_absolute) (simp_all add: split_at_pieces)
  then have n: "path_normalize p = (if join_with ''/'' (path_segs p) = [] then ''/''
      else ''/'' @ join_with ''/'' (path_segs p) @ (if last p = CHR ''/'' then ''/'' else []))"
    using assms ne by (simp add: path_normalize_def Let_def)
  have seg: "path_segs (''/'' @ join_with ''/'' (path_segs p)) = path_segs p"
    using path_segs_of [OF clean_path_segs, of p] by (simp add: path_of_def)
  show ?thesis
  proof (cases "join_with ''/'' (path_segs p) = []")
    case True
    then show ?thesis using seg n by simp
  next
    case False
    then show ?thesis using seg n path_segs_slash(2) [of "''/'' @ join_with ''/'' (path_segs p)"] by simp
  qed
qed

lemma path_segs_append: "list_all clean_seg ps \<Longrightarrow> ps \<noteq> [] \<Longrightarrow> path_segs (p @ ''/'' @ join_with ''/'' ps) = path_segs p @ ps"
proof (induction ps rule: rev_induct)
  case (snoc c ps)
  have c: "clean_seg c" "CHR ''/'' \<notin> set c" using snoc.prems by (simp_all add: clean_seg_def)
  have j: "ps \<noteq> [] \<Longrightarrow> join_with ''/'' (ps @ [c]) = join_with ''/'' ps @ ''/'' @ c"
    by (induction "''/''" ps rule: join_with.induct) auto
  show ?case
  proof (cases "ps = []")
    case True
    then show ?thesis using split_at_snoc [OF c(2), of p] c(1) by (simp add: path_segs_def norm_step_def clean_seg_def)
  next
    case False
    then have "path_segs (p @ ''/'' @ join_with ''/'' (ps @ [c])) = norm_step (path_segs (p @ ''/'' @ join_with ''/'' ps)) c"
      using split_at_snoc [OF c(2), of "p @ ''/'' @ join_with ''/'' ps"] by (simp add: path_segs_def j)
    then show ?thesis using snoc False c(1) by (simp add: norm_step_def clean_seg_def)
  qed
qed simp

lemma path_segs_joins:
  assumes "starts_with ''/'' dir" and "list_all clean_seg ps" and "ps \<noteq> []"
  shows "path_segs (path_joins (dir # ps)) = path_segs dir @ ps"
proof -
  have "dir \<noteq> []" using assms(1) by (auto simp: starts_with_def)
  moreover have "filter (\<lambda>p. p \<noteq> []) ps = ps" using assms(2) by (induction ps) (auto simp: clean_seg_def)
  ultimately have "path_joins (dir # ps) = path_normalize (dir @ ''/'' @ join_with ''/'' ps)"
    using assms(3) by (cases ps) (simp_all add: path_joins_def)
  moreover have "starts_with ''/'' (dir @ ''/'' @ join_with ''/'' ps)"
    using assms(1) by (cases dir) (simp_all add: starts_with_def)
  ultimately show ?thesis using path_segs_normalize path_segs_append [OF assms(2,3)] by simp
qed

end
