(* ===== verification/Hooks.thy ===== *)
theory Hooks
  imports Paths
begin

text \<open>
  \<open>src/src/services/HookRunner.ts\<close> and \<open>src/src/services/WorkspaceManager.ts\<close>: the life-cycle hooks
  of a cycle and its working directory. A handler is the function of its context that says
  how it ends and after how long; the handlers of an event do not change while they run. Paths
  are POSIX paths, the root of the workspaces is absolute, and what the file system answers
  (\<open>mkdirSync\<close> works, \<open>realpathSync\<close>) is an argument.
\<close>

section \<open>Hooks\<close>

datatype HookEvent = AfterCreate | BeforeRun | AfterRun | BeforeRemove

record HookContext =
  hx_cycleId :: string
  hx_taskHash :: "string option"
  hx_workspacePath :: "string option"

text \<open>A handler returns or throws before it gives up the thread, settles the promise it
  returned some milliseconds later, or never settles it. It ends with a value, with an error
  (and the \<open>message\<close> that has, if any), or with \<open>null\<close> or \<open>undefined\<close>, of which no property
  can be read.\<close>

datatype HookEnd = Fulfilled | RejectedWith "string option" | RejectedNullish

datatype HookRun = HookReturns int HookEnd | HookSettles nat HookEnd | HookNever

record HookHandler =
  hh_name :: string
  hh_event :: HookEvent
  hh_fn :: "HookContext \<Rightarrow> HookRun"
  hh_timeoutMs :: nat

record HookResult =
  hr_name :: string
  hr_event :: HookEvent
  hr_success :: bool
  hr_durationMs :: int
  hr_timedOut :: bool
  hr_error :: "string option"

record HookRunner =
  hk_handlers :: "(HookEvent, HookHandler list) omap"
  hk_events :: "HookResult list"

definition DEFAULT_TIMEOUT_MS :: nat where "DEFAULT_TIMEOUT_MS = 60000"

definition ABORT_ON_FAILURE :: "HookEvent list" where
  "ABORT_ON_FAILURE = [AfterCreate, BeforeRun]"

definition handlers_of :: "HookEvent \<Rightarrow> HookRunner \<Rightarrow> HookHandler list" where
  "handlers_of ev s = case_option [] id (om_get (hk_handlers s) ev)"

definition hook_register :: "string \<Rightarrow> HookEvent \<Rightarrow> (HookContext \<Rightarrow> HookRun) \<Rightarrow> nat option \<Rightarrow> HookRunner \<Rightarrow> HookRunner" where
  "hook_register name ev f timeout s =
     (let full = \<lparr>hh_name = name, hh_event = ev, hh_fn = f, hh_timeoutMs = case_option DEFAULT_TIMEOUT_MS id timeout\<rparr>
      in s\<lparr>hk_handlers := om_set ev (handlers_of ev s @ [full]) (hk_handlers s)\<rparr>)"

fun remove_named :: "string \<Rightarrow> HookHandler list \<Rightarrow> HookHandler list option" where
  "remove_named name [] = None"
| "remove_named name (h # hs) = (if hh_name h = name then Some hs else map_option ((#) h) (remove_named name hs))"

definition hook_unregister :: "HookEvent \<Rightarrow> string \<Rightarrow> HookRunner \<Rightarrow> bool \<times> HookRunner" where
  "hook_unregister ev name s =
     (case om_get (hk_handlers s) ev of
        None \<Rightarrow> (False, s)
      | Some hs \<Rightarrow> (case remove_named name hs of
            None \<Rightarrow> (False, s)
          | Some hs' \<Rightarrow> (True, s\<lparr>hk_handlers := om_set ev hs' (hk_handlers s)\<rparr>)))"

text \<open>The race of the handler against its timer. A timer of 0 fires after 1 millisecond, and
  the timer that is set first wins a tie. \<open>None\<close> is the exception of the \<open>catch\<close> itself, which
  reads \<open>message\<close> of what it caught.\<close>

definition runOne :: "HookHandler \<Rightarrow> HookContext \<Rightarrow> HookResult option" where
  "runOne h ctx =
     (let limit = max 1 (hh_timeoutMs h);
          res = (\<lambda>ms timedOut success err. Some \<lparr>hr_name = hh_name h, hr_event = hh_event h, hr_success = success,
                   hr_durationMs = ms, hr_timedOut = timedOut, hr_error = err\<rparr>);
          ended = (\<lambda>ms fin. case fin of
                     Fulfilled \<Rightarrow> res ms False True None
                   | RejectedWith message \<Rightarrow> res ms False False message
                   | RejectedNullish \<Rightarrow> None);
          late = res (int limit) True False (Some (''hook_timeout_'' @ show_nat (hh_timeoutMs h) @ ''ms''))
      in case hh_fn h ctx of
           HookReturns ms fin \<Rightarrow> ended ms fin
         | HookSettles ms fin \<Rightarrow> if ms < limit then ended (int ms) fin else late
         | HookNever \<Rightarrow> late)"

text \<open>The results so far, and whether an exception ended the run.\<close>

fun run_handlers :: "HookEvent \<Rightarrow> HookContext \<Rightarrow> HookHandler list \<Rightarrow> HookResult list \<times> bool" where
  "run_handlers ev ctx [] = ([], False)"
| "run_handlers ev ctx (h # hs) =
     (case runOne h ctx of
        None \<Rightarrow> ([], True)
      | Some r \<Rightarrow>
          if \<not> hr_success r \<and> ev \<in> set ABORT_ON_FAILURE then ([r], False)
          else (case run_handlers ev ctx hs of (rs, threw) \<Rightarrow> (r # rs, threw)))"

definition hook_run :: "HookEvent \<Rightarrow> HookContext \<Rightarrow> HookRunner \<Rightarrow> HookResult list option \<times> HookRunner" where
  "hook_run ev ctx s =
     (case run_handlers ev ctx (handlers_of ev s) of
        (results, threw) \<Rightarrow>
          (if threw then None else Some results, s\<lparr>hk_events := hk_events s @ results\<rparr>))"

definition shouldAbort :: "HookEvent \<Rightarrow> HookResult list \<Rightarrow> bool" where
  "shouldAbort ev results =
     (if ev \<notin> set ABORT_ON_FAILURE then False else list_ex (\<lambda>r. \<not> hr_success r) results)"

definition hook_stats :: "HookRunner \<Rightarrow> HookEvent \<Rightarrow> nat" where
  "hook_stats s ev = length (handlers_of ev s)"

section \<open>Workspaces\<close>

record WorkspaceConfig =
  wc_root :: string
  wc_cleanupOnRelease :: bool

datatype WorkspaceError = UnsafeId string | RootEscape string | NoWorkspace string | CwdEscape string | FileSystemError

record WorkspaceManager =
  ws_cfg :: WorkspaceConfig
  ws_active :: "(string, string) omap"
  ws_removed :: "string list"

definition DEFAULT_WORKSPACE_CONFIG :: "string \<Rightarrow> WorkspaceConfig" where
  "DEFAULT_WORKSPACE_CONFIG cwd = \<lparr>wc_root = path_resolve cwd ''.kovael/workspaces'', wc_cleanupOnRelease = False\<rparr>"

definition SAFE_ID :: "string \<Rightarrow> bool" where
  "SAFE_ID s \<longleftrightarrow> s \<noteq> [] \<and> list_all (\<lambda>c. is_letter c \<or> is_digit c \<or> c \<in> set ''._-'') s"

definition new_workspaces :: "string \<Rightarrow> string option \<Rightarrow> bool option \<Rightarrow> WorkspaceManager" where
  "new_workspaces cwd base cleanup =
     \<lparr>ws_cfg = \<lparr>wc_root = case_option (wc_root (DEFAULT_WORKSPACE_CONFIG cwd)) id base,
               wc_cleanupOnRelease = case_option False id cleanup\<rparr>, ws_active = [], ws_removed = []\<rparr>"

text \<open>A relative path that leaves its base.\<close>

definition outside :: "string \<Rightarrow> bool" where
  "outside rel \<longleftrightarrow> starts_with ''..'' rel \<or> starts_with ''/'' rel"

definition assertInsideRoot :: "string \<Rightarrow> WorkspaceManager \<Rightarrow> bool" where
  "assertInsideRoot candidate s \<longleftrightarrow> \<not> outside (path_relative (wc_root (ws_cfg s)) candidate)"

definition ws_acquire :: "bool \<Rightarrow> string \<Rightarrow> WorkspaceManager \<Rightarrow> WorkspaceError + string \<times> WorkspaceManager" where
  "ws_acquire mkdir_ok cycleId s =
     (if \<not> SAFE_ID cycleId then Inl (UnsafeId cycleId)
      else
        let wsPath = path_join (wc_root (ws_cfg s)) cycleId in
        if \<not> assertInsideRoot wsPath s then Inl (RootEscape wsPath)
        else if \<not> mkdir_ok then Inl FileSystemError
        else Inr (wsPath, s\<lparr>ws_active := om_set cycleId wsPath (ws_active s)\<rparr>))"

definition validateCwd :: "(string \<Rightarrow> string option) \<Rightarrow> string \<Rightarrow> string \<Rightarrow> string \<Rightarrow> WorkspaceManager \<Rightarrow> WorkspaceError + unit" where
  "validateCwd realpath cwd cycleId candidate s =
     (case om_get (ws_active s) cycleId of
        None \<Rightarrow> Inl (NoWorkspace cycleId)
      | Some ws \<Rightarrow>
          let resolved = case_option (path_resolve cwd candidate) id (realpath (path_resolve cwd candidate)) in
          (case realpath ws of
             None \<Rightarrow> Inl FileSystemError
           | Some resolvedWs \<Rightarrow>
               if outside (path_relative resolvedWs resolved) then Inl (CwdEscape candidate) else Inr ()))"

definition ws_release :: "string \<Rightarrow> WorkspaceManager \<Rightarrow> WorkspaceManager" where
  "ws_release cycleId s =
     (case om_get (ws_active s) cycleId of
        None \<Rightarrow> s
      | Some wsPath \<Rightarrow>
          let s1 = s\<lparr>ws_active := om_delete cycleId (ws_active s)\<rparr>
          in if wc_cleanupOnRelease (ws_cfg s) then s1\<lparr>ws_removed := ws_removed s1 @ [wsPath]\<rparr> else s1)"

definition ws_activeCount :: "WorkspaceManager \<Rightarrow> nat" where
  "ws_activeCount s = length (ws_active s)"

section \<open>Runs of hooks\<close>

text \<open>No handler rejects with \<open>null\<close> or \<open>undefined\<close>.\<close>

definition sound_hooks :: "HookRunner \<Rightarrow> bool" where
  "sound_hooks s \<longleftrightarrow> (\<forall>ev ctx. \<forall>h \<in> set (handlers_of ev s). runOne h ctx \<noteq> None)"

lemma handlers_of_run [simp]: "handlers_of ev (snd (hook_run ev' ctx s)) = handlers_of ev s"
  by (simp add: hook_run_def handlers_of_def split_beta)

lemma sound_hooks_run [simp]: "sound_hooks (snd (hook_run ev ctx s)) = sound_hooks s"
  by (simp add: sound_hooks_def)

lemma run_handlers_threw: "run_handlers ev ctx hs = (rs, True) \<Longrightarrow> \<exists>h \<in> set hs. runOne h ctx = None"
  by (induction hs arbitrary: rs) (auto split: option.splits if_splits prod.splits)

lemma run_handlers_results:
  "run_handlers ev ctx hs = (rs, False) \<Longrightarrow>
     map Some rs = map (\<lambda>h. runOne h ctx) (take (length rs) hs)
     \<and> (if ev \<in> set ABORT_ON_FAILURE \<and> list_ex (\<lambda>r. \<not> hr_success r) rs
        then rs \<noteq> [] \<and> list_all hr_success (butlast rs) \<and> \<not> hr_success (last rs) else length rs = length hs)"
  by (induction hs arbitrary: rs) (auto split: option.splits if_splits prod.splits)

lemma sound_run: "sound_hooks s \<Longrightarrow> \<exists>rs. fst (hook_run ev ctx s) = Some rs"
proof (cases "run_handlers ev ctx (handlers_of ev s)")
  case (Pair rs threw)
  assume "sound_hooks s"
  then have "\<forall>h \<in> set (handlers_of ev s). runOne h ctx \<noteq> None" unfolding sound_hooks_def by blast
  then have "\<not> threw" using Pair run_handlers_threw [of ev ctx "handlers_of ev s" rs] by (cases threw) auto
  then show ?thesis by (simp add: hook_run_def Pair)
qed

section \<open>Path lemmas\<close>

lemma SAFE_ID_no_slash: "SAFE_ID c \<Longrightarrow> CHR ''/'' \<notin> set c"
  by (auto simp: SAFE_ID_def list_all_iff is_letter_def lower_char_def is_digit_def)

lemma outside_simps: "\<not> outside []" "outside ''..''"
  by (simp_all add: outside_def starts_with_def)

lemma outside_id:
  assumes "SAFE_ID c" shows "outside c \<longleftrightarrow> starts_with ''..'' c"
proof -
  have "\<not> starts_with ''/'' c"
    using SAFE_ID_no_slash [OF assms] starts_with_set [of "''/''" c] by auto
  then show ?thesis by (simp add: outside_def)
qed

section \<open>Properties\<close>

text \<open>The hooks gate a cycle. A run gives no results only when a handler rejected with nothing.
  Otherwise a run of \<open>after_create\<close> or \<open>before_run\<close> asks for the cycle to be aborted exactly when
  one of the handlers it ran failed, which is then the last it ran; in every other case all
  handlers ran, in registration order.\<close>

theorem hook_gate:
  "case fst (hook_run ev ctx s) of
     None \<Rightarrow> \<exists>h \<in> set (handlers_of ev s). runOne h ctx = None
   | Some rs \<Rightarrow> map Some rs = map (\<lambda>h. runOne h ctx) (take (length rs) (handlers_of ev s))
     \<and> (shouldAbort ev rs \<longleftrightarrow> ev \<in> {AfterCreate, BeforeRun} \<and> (\<exists>r \<in> set rs. \<not> hr_success r))
     \<and> (shouldAbort ev rs \<longrightarrow> rs \<noteq> [] \<and> list_all hr_success (butlast rs) \<and> \<not> hr_success (last rs))
     \<and> (\<not> shouldAbort ev rs \<longrightarrow> length rs = length (handlers_of ev s))"
proof (cases "run_handlers ev ctx (handlers_of ev s)")
  case (Pair rs threw)
  have ev: "ev \<in> set ABORT_ON_FAILURE \<longleftrightarrow> ev \<in> {AfterCreate, BeforeRun}" by (simp add: ABORT_ON_FAILURE_def)
  show ?thesis
  proof (cases threw)
    case True
    then show ?thesis using Pair run_handlers_threw by (simp add: hook_run_def)
  next
    case False
    then have run: "run_handlers ev ctx (handlers_of ev s) = (rs, False)" using Pair by simp
    show ?thesis
      using run_handlers_results [OF run] by (auto simp: hook_run_def run shouldAbort_def ev list_ex_iff)
  qed
qed

theorem hook_gate_witness:
  "case fst (hook_run BeforeRun \<lparr>hx_cycleId = ''c'', hx_taskHash = None, hx_workspacePath = None\<rparr>
      (hook_register ''slow'' BeforeRun (\<lambda>_. HookSettles 70000 Fulfilled) None \<lparr>hk_handlers = [], hk_events = []\<rparr>)) of
     None \<Rightarrow> False
   | Some rs \<Rightarrow> shouldAbort BeforeRun rs \<and> length rs = 1"
proof -
  let ?s = "hook_register ''slow'' BeforeRun (\<lambda>_. HookSettles 70000 Fulfilled) None \<lparr>hk_handlers = [], hk_events = []\<rparr>"
  let ?ctx = "\<lparr>hx_cycleId = ''c'', hx_taskHash = None, hx_workspacePath = None\<rparr>"
  have hs: "handlers_of BeforeRun ?s = [\<lparr>hh_name = ''slow'', hh_event = BeforeRun, hh_fn = \<lambda>_. HookSettles 70000 Fulfilled, hh_timeoutMs = 60000\<rparr>]"
    by (simp add: hook_register_def handlers_of_def Let_def DEFAULT_TIMEOUT_MS_def)
  then show ?thesis
    using hook_gate [where ev = BeforeRun and s = ?s and ctx = ?ctx]
    by (simp add: hook_run_def ABORT_ON_FAILURE_def runOne_def Let_def shouldAbort_def)
qed

text \<open>C12: a workspace stays inside the root. When \<open>acquire\<close> gives a path, the path is the root's
  subdirectory named by the cycle id, or the root itself for the id \<open>.\<close>; an id that could climb
  out of the root is refused, and every other well-formed id is accepted when the directory
  can be made.\<close>

theorem workspace_inside_root:
  assumes "path_segs (wc_root (ws_cfg s)) \<noteq> []"
  shows "case ws_acquire mkdir_ok cycleId s of
      Inl _ \<Rightarrow> \<not> SAFE_ID cycleId \<or> starts_with ''..'' cycleId \<or> \<not> mkdir_ok
    | Inr (p, s') \<Rightarrow> SAFE_ID cycleId \<and> \<not> starts_with ''..'' cycleId
        \<and> path_segs p = path_segs (wc_root (ws_cfg s)) @ (if cycleId = ''.'' then [] else [cycleId])
        \<and> om_get (ws_active s') cycleId = Some p"
proof (cases "SAFE_ID cycleId")
  case True
  let ?r = "path_segs (wc_root (ws_cfg s))" and ?p = "path_join (wc_root (ws_cfg s)) cycleId"
  have segs: "path_segs ?p = norm_step ?r cycleId"
    by (rule path_segs_join) (rule SAFE_ID_no_slash [OF True])
  have ne: "cycleId \<noteq> []" using True by (simp add: SAFE_ID_def)
  have rel: "path_relative (wc_root (ws_cfg s)) ?p =
      (if cycleId = ''.'' then [] else if cycleId = ''..'' then ''..'' else cycleId)"
    using ne assms relative_segs_prefix [of ?r "[]"]
    by (simp add: path_relative_def segs norm_step_def relative_segs_prefix relative_segs_up)
  have inside: "assertInsideRoot ?p s \<longleftrightarrow> \<not> starts_with ''..'' cycleId"
  proof (cases "cycleId = ''.''")
    case dot: True
    then have "path_relative (wc_root (ws_cfg s)) ?p = []" using rel by simp
    then show ?thesis using dot by (simp add: assertInsideRoot_def outside_simps) (simp add: starts_with_def)
  next
    case False
    then have "path_relative (wc_root (ws_cfg s)) ?p = cycleId" using rel by simp
    then show ?thesis using outside_id [OF True] by (simp add: assertInsideRoot_def)
  qed
  have dd: "cycleId = ''..'' \<Longrightarrow> starts_with ''..'' cycleId" by (simp add: starts_with_def)
  show ?thesis
    using True inside dd ne by (auto simp: ws_acquire_def Let_def segs norm_step_def)
qed (simp add: ws_acquire_def)

theorem workspace_inside_root_witness:
  "let s = new_workspaces ''/srv'' None None in
     path_segs (wc_root (ws_cfg s)) \<noteq> [] \<and> (\<exists>p s'. ws_acquire True ''c1'' s = Inr (p, s')
       \<and> path_segs p = path_segs (wc_root (ws_cfg s)) @ [''c1''])"
proof -
  let ?s = "new_workspaces ''/srv'' None None"
  have h: "path_segs (wc_root (ws_cfg ?s)) \<noteq> []"
    by (simp add: new_workspaces_def DEFAULT_WORKSPACE_CONFIG_def path_resolve_def path_of_def path_segs_def
        starts_with_def norm_step_def)
  have "SAFE_ID ''c1''" "\<not> starts_with ''..'' ''c1''"
    by (simp_all add: SAFE_ID_def starts_with_def is_letter_def lower_char_def is_digit_def)
  then show ?thesis
    using h workspace_inside_root [OF h, where mkdir_ok = True and cycleId = "''c1''"]
    by (cases "ws_acquire True ''c1'' ?s") (auto simp: Let_def)
qed

end
