(* ===== verification/Orchestrator.thy ===== *)
theory Orchestrator
  imports Conversation Bridge Reconcile Circuits Resource Learning Hooks
begin

text \<open>
  \<open>src/src/MeshOrchestrator.ts\<close> with \<open>src/src/common/env-helpers.ts\<close>: the composition. The state holds
  the components the orchestrator owns and its own caches and counters; the handlers it
  registers run on each event a component emitted, in order. A call of \<open>injectTask\<close> that
  waits is an entry of \<open>mo_tasks\<close>: its local variables and the \<open>await\<close> it is at. Calls to
  parts that are not modelled, and the messages it composes for the web sockets, are kept in
  \<open>mo_out\<close> and \<open>mo_broadcasts\<close>; messages that only forward an event are that event, in the
  component's log.
\<close>

section \<open>Configuration from the environment\<close>

definition readBooleanEnv :: "(string \<Rightarrow> string option) \<Rightarrow> string \<Rightarrow> bool \<Rightarrow> bool" where
  "readBooleanEnv penv name fallback = readBoolean (penv name) fallback"

definition readPositiveIntEnv :: "(string \<Rightarrow> string option) \<Rightarrow> string \<Rightarrow> int \<Rightarrow> int" where
  "readPositiveIntEnv penv name fallback =
     (case parse_int (case_option [] id (penv name)) of Some n \<Rightarrow> if n > 0 then n else fallback | None \<Rightarrow> fallback)"

definition readNonNegativeIntEnv :: "(string \<Rightarrow> string option) \<Rightarrow> string \<Rightarrow> int \<Rightarrow> int" where
  "readNonNegativeIntEnv penv name fallback =
     (case parse_int (case_option [] id (penv name)) of Some n \<Rightarrow> if n \<ge> 0 then n else fallback | None \<Rightarrow> fallback)"

record ResourceModeConfig =
  rmc_enabled :: bool
  rmc_idleAfterMs :: int
  rmc_sweepIntervalMs :: int
  rmc_idleTaskCacheRetain :: int
  rmc_idleTraceRetain :: int

record ResourceModeOverrides =
  rmo_enabled :: "bool option"
  rmo_idleAfterMs :: "int option"
  rmo_sweepIntervalMs :: "int option"
  rmo_idleTaskCacheRetain :: "int option"
  rmo_idleTraceRetain :: "int option"

definition DEFAULT_RESOURCE_MODE_CONFIG :: ResourceModeConfig where
  "DEFAULT_RESOURCE_MODE_CONFIG =
     \<lparr>rmc_enabled = True, rmc_idleAfterMs = 10 * 60 * 1000, rmc_sweepIntervalMs = 5000,
      rmc_idleTaskCacheRetain = 20, rmc_idleTraceRetain = 20\<rparr>"

definition resolveResourceModeConfig :: "(string \<Rightarrow> string option) \<Rightarrow> ResourceModeOverrides \<Rightarrow> ResourceModeConfig" where
  "resolveResourceModeConfig penv ov =
     (let d = DEFAULT_RESOURCE_MODE_CONFIG in
      \<lparr>rmc_enabled = case_option (readBooleanEnv penv ''KOVAEL_RESOURCE_MODE_ENABLED'' (rmc_enabled d)) id (rmo_enabled ov),
       rmc_idleAfterMs = case_option (readPositiveIntEnv penv ''KOVAEL_RESOURCE_IDLE_AFTER_MS'' (rmc_idleAfterMs d)) id
         (rmo_idleAfterMs ov),
       rmc_sweepIntervalMs = case_option
         (readPositiveIntEnv penv ''KOVAEL_RESOURCE_SWEEP_INTERVAL_MS'' (rmc_sweepIntervalMs d)) id (rmo_sweepIntervalMs ov),
       rmc_idleTaskCacheRetain = case_option
         (readNonNegativeIntEnv penv ''KOVAEL_RESOURCE_IDLE_TASK_RETAIN'' (rmc_idleTaskCacheRetain d)) id
         (rmo_idleTaskCacheRetain ov),
       rmc_idleTraceRetain = case_option
         (readNonNegativeIntEnv penv ''KOVAEL_RESOURCE_IDLE_TRACE_RETAIN'' (rmc_idleTraceRetain d)) id
         (rmo_idleTraceRetain ov)\<rparr>)"

section \<open>State\<close>

datatype VramStatus = VramOk | VramUnavailable | VramError

record VramMetrics =
  vm_status :: VramStatus
  vm_timestamp :: int
  vm_freeMb :: int
  vm_usedMb :: int
  vm_totalMb :: int
  vm_utilizationPct :: int
  vm_devices :: nat
  vm_error :: "string option"

record TokenTotals =
  tt_input :: nat
  tt_output :: nat
  tt_total :: nat
  tt_runtimeMs :: int
  tt_cycles :: nat

record ChairDispatchMetrics =
  dm_attempts :: nat
  dm_retries :: nat
  dm_accepted :: nat
  dm_successes :: nat
  dm_failures :: nat
  dm_inflight :: nat

datatype OutCall =
    HardwareStart | HardwareStop | ChatStart | ChatStop | RuntimeStart string | RuntimeStop string
  | TraceTrim int | RepairFromReceipt VerificationReceipt | TaskRouted string VerificationReceipt

datatype Broadcast =
    BcHardware VramMetrics
  | BcPhase string PhaseEvent
  | BcTokens TokenUsage TokenTotals
  | BcReceipt VerificationReceipt
  | BcTask string VerificationReceipt
  | BcResourceMode ResourceGovernorSnapshot
  | BcTelemetry string string

datatype InjectStage =
    AtAfterCreate | AtBeforeRun | AtExecute | AtAfterRun VerificationReceipt | AtBeforeRemove VerificationReceipt

record CycleTask =
  ct_goal :: string
  ct_taskHash :: string
  ct_cycleId :: string
  ct_workspacePath :: "string option"
  ct_stage :: InjectStage

record MeshOrchestrator =
  mo_claims :: TaskClaimMachine
  mo_retry :: RetryQueue
  mo_reconciler :: Reconciler
  mo_breaker :: CircuitBreaker
  mo_chairs :: ChairRegistry
  mo_bus :: ConversationBus
  mo_bridge :: MevBridge
  mo_governor :: ResourceGovernor
  mo_workspaces :: WorkspaceManager
  mo_hooks :: HookRunner
  mo_matrix :: MatrixFile
  mo_resourceMode :: ResourceModeConfig
  mo_nodeCache :: "(string, string) omap"
  mo_taskCache :: "(string \<times> VerificationReceipt) list"
  mo_hardwareCache :: "VramMetrics option"
  mo_activeCycles :: "(string, PhaseEvent) omap"
  mo_tokenTotals :: TokenTotals
  mo_receiptsIssued :: nat
  mo_dispatchMetrics :: ChairDispatchMetrics
  mo_activeDispatches :: "string list"
  mo_wsClients :: nat
  mo_chatEnabled :: bool
  mo_parkOnIdle :: bool
  mo_tasks :: "CycleTask list"
  mo_out :: "OutCall list"
  mo_broadcasts :: "Broadcast list"

definition mesh_out :: "OutCall list \<Rightarrow> MeshOrchestrator \<Rightarrow> MeshOrchestrator" where
  "mesh_out cs s = s\<lparr>mo_out := mo_out s @ cs\<rparr>"

text \<open>\<open>WebSocketBus.broadcast\<close> first keeps what a client that connects later is sent.\<close>

definition broadcast :: "Broadcast \<Rightarrow> MeshOrchestrator \<Rightarrow> MeshOrchestrator" where
  "broadcast payload s =
     (let s1 = (case payload of
            BcTelemetry nodeId text \<Rightarrow> s\<lparr>mo_nodeCache := om_set nodeId text (mo_nodeCache s)\<rparr>
          | BcTask goal receipt \<Rightarrow>
              let tasks = mo_taskCache s @ [(goal, receipt)]
              in s\<lparr>mo_taskCache := (if length tasks > 100 then tl tasks else tasks)\<rparr>
          | _ \<Rightarrow> s)
      in s1\<lparr>mo_broadcasts := mo_broadcasts s1 @ [payload]\<rparr>)"

text \<open>The events a component emitted since \<open>old\<close> was its log, each given to a handler.\<close>

definition deliver :: "('e \<Rightarrow> 's \<Rightarrow> 's) \<Rightarrow> 'e list \<Rightarrow> 'e list \<Rightarrow> 's \<Rightarrow> 's" where
  "deliver handler old events s = foldl (\<lambda>s e. handler e s) s (drop (length old) events)"

section \<open>Handlers\<close>

definition MAX_ACTIVE_CYCLES :: nat where "MAX_ACTIVE_CYCLES = 512"

definition evict_oldest :: "nat \<Rightarrow> ('k, 'v) omap \<Rightarrow> ('k, 'v) omap" where
  "evict_oldest n m = (if length m > n then (case m of [] \<Rightarrow> m | (k, _) # _ \<Rightarrow> om_delete k m) else m)"

definition on_phase_change :: "PhaseEvent \<Rightarrow> MeshOrchestrator \<Rightarrow> MeshOrchestrator" where
  "on_phase_change evt s = broadcast (BcPhase (if truthy_str (pe_routedAgent evt) then the (pe_routedAgent evt) else ''triad'') evt)
     (s\<lparr>mo_activeCycles := evict_oldest MAX_ACTIVE_CYCLES (om_set (pe_cycleId evt) evt (mo_activeCycles s))\<rparr>)"

definition add_usage :: "TokenUsage \<Rightarrow> TokenTotals \<Rightarrow> TokenTotals" where
  "add_usage u t = \<lparr>tt_input = tt_input t + tu_input u, tt_output = tt_output t + tu_output u,
     tt_total = tt_total t + tu_total u, tt_runtimeMs = tt_runtimeMs t + tu_runtimeMs u, tt_cycles = tt_cycles t + 1\<rparr>"

definition learning_entry :: "VerificationReceipt \<Rightarrow> LearningMatrixEntry" where
  "learning_entry r =
     \<lparr>lx_cycleId = vr_cycleId r, lx_taskHash = vr_taskHash r,
      lx_status = (if vr_status r = ReceiptVerified then MxVerified else MxFailed),
      lx_latencyMs = Num (case vr_tokens r of None \<Rightarrow> 0 | Some u \<Rightarrow> of_int (tu_runtimeMs u)),
      lx_tokenTotal = Num (case vr_tokens r of None \<Rightarrow> 0 | Some u \<Rightarrow> of_nat (tu_total u)),
      lx_confidence = Num (if vr_status r = ReceiptVerified then 95 / 100 else 25 / 100),
      lx_retryCount = Num 0, lx_recipeIds = Some [], lx_timestamp = Num (of_int (vr_timestamp r))\<rparr>"

definition on_cycle_complete :: "bool \<Rightarrow> VerificationReceipt \<Rightarrow> MeshOrchestrator \<Rightarrow> MeshOrchestrator" where
  "on_cycle_complete writable r s =
     (let s1 = s\<lparr>mo_receiptsIssued := mo_receiptsIssued s + 1\<rparr>;
          s2 = (case vr_tokens r of None \<Rightarrow> s1
            | Some u \<Rightarrow> let totals = add_usage u (mo_tokenTotals s1)
                in broadcast (BcTokens u totals) (s1\<lparr>mo_tokenTotals := totals\<rparr>));
          s3 = broadcast (BcReceipt r) s2;
          s4 = s3\<lparr>mo_matrix := snd (matrix_record 1000 writable (learning_entry r) (mo_matrix s3))\<rparr>
      in if vr_status r = ReceiptFailed then mesh_out [RepairFromReceipt r] s4 else s4)"

fun on_bridge_event :: "bool \<Rightarrow> BridgeEvent \<Rightarrow> MeshOrchestrator \<Rightarrow> MeshOrchestrator" where
  "on_bridge_event writable (PhaseChange evt) s = on_phase_change evt s"
| "on_bridge_event writable (CycleComplete r) s = on_cycle_complete writable r s"

definition on_vram_metrics :: "VramMetrics \<Rightarrow> MeshOrchestrator \<Rightarrow> MeshOrchestrator" where
  "on_vram_metrics m s = broadcast (BcHardware m)
     (s\<lparr>mo_hardwareCache := Some m, mo_bridge := setVramFree (vm_freeMb m) (vm_status m = VramOk) (mo_bridge s)\<rparr>)"

definition show_ChairEventKind :: "ChairEventKind \<Rightarrow> string" where
  "show_ChairEventKind k = (case k of EvClaimed \<Rightarrow> ''claimed'' | EvHeartbeat \<Rightarrow> ''heartbeat''
     | EvReleased \<Rightarrow> ''released'' | EvStale \<Rightarrow> ''stale'' | EvExpired \<Rightarrow> ''expired'')"

definition on_chair_event :: "int \<Rightarrow> ChairEvent \<Rightarrow> MeshOrchestrator \<Rightarrow> MeshOrchestrator" where
  "on_chair_event now evt s =
     (if ev_kind evt = EvExpired \<or> ev_kind evt = EvStale
      then s\<lparr>mo_breaker := snd (recordFailure now (ev_agentId evt)
               (case ev_reason evt of Some why \<Rightarrow> why | None \<Rightarrow> show_ChairEventKind (ev_kind evt)) (mo_breaker s))\<rparr>
      else s)"

text \<open>The dispatch metrics. A request id that is empty counts as none.\<close>

definition finishChairDispatchMetric :: "string option \<Rightarrow> ChairDispatchMetrics \<times> string list \<Rightarrow>
    ChairDispatchMetrics \<times> string list" where
  "finishChairDispatchMetric requestId ma =
     (let active = (if truthy_str requestId then removeAll (the requestId) (snd ma) else tl (snd ma))
      in ((fst ma)\<lparr>dm_inflight := length active\<rparr>, active))"

fun recordChairDispatchMetric :: "BusEvent \<Rightarrow> ChairDispatchMetrics \<times> string list \<Rightarrow> ChairDispatchMetrics \<times> string list" where
  "recordChairDispatchMetric (TelemetryEvent (DispatchStarted requestId _ _ _)) (m, active) =
     (if requestId = [] then (m, active)
      else let active' = set_add requestId active in (m\<lparr>dm_inflight := length active'\<rparr>, active'))"
| "recordChairDispatchMetric (TelemetryEvent (DispatchAttempt _ _ _ _ attempt _ _)) (m, active) =
     (let m1 = m\<lparr>dm_attempts := dm_attempts m + 1\<rparr>
      in (if attempt > 1 then m1\<lparr>dm_retries := dm_retries m1 + 1\<rparr> else m1, active))"
| "recordChairDispatchMetric (TelemetryEvent (DispatchAccepted _ _ _ _ _ _)) (m, active) =
     (m\<lparr>dm_accepted := dm_accepted m + 1\<rparr>, active)"
| "recordChairDispatchMetric (DispatchSuccessEvent _ _ receipt) (m, active) =
     finishChairDispatchMetric (map_option rc_requestId receipt) (m\<lparr>dm_successes := dm_successes m + 1\<rparr>, active)"
| "recordChairDispatchMetric (DispatchFailureEvent _ _ _ requestId _ _ _) (m, active) =
     finishChairDispatchMetric requestId (m\<lparr>dm_failures := dm_failures m + 1\<rparr>, active)"
| "recordChairDispatchMetric _ (m, active) = (m, active)"

definition bus_breaker :: "int \<Rightarrow> BusEvent \<Rightarrow> CircuitBreaker \<Rightarrow> CircuitBreaker" where
  "bus_breaker now evt b = (case evt of
       DispatchFailureEvent agent _ reason _ _ _ _ \<Rightarrow> snd (recordFailure now agent reason b)
     | DispatchSuccessEvent agent _ _ \<Rightarrow> snd (recordSuccess now agent b)
     | _ \<Rightarrow> b)"

definition on_bus_event :: "int \<Rightarrow> BusEvent \<Rightarrow> MeshOrchestrator \<Rightarrow> MeshOrchestrator" where
  "on_bus_event now evt s =
     (let (m, active) = recordChairDispatchMetric evt (mo_dispatchMetrics s, mo_activeDispatches s)
      in s\<lparr>mo_dispatchMetrics := m, mo_activeDispatches := active, mo_breaker := bus_breaker now evt (mo_breaker s)\<rparr>)"

section \<open>Resource modes\<close>

definition hasInteractiveWork :: "MeshOrchestrator \<Rightarrow> bool" where
  "hasInteractiveWork s \<longleftrightarrow> mo_wsClients s > 0 \<or> activeTopicCount (mo_bus s) > 0
     \<or> claim_stats (mo_claims s) Claimed > 0 \<or> claim_stats (mo_claims s) Running > 0"

definition enterLightweightMode :: "MeshOrchestrator \<Rightarrow> MeshOrchestrator" where
  "enterLightweightMode s =
     (let s1 = mesh_out (HardwareStop # (if mo_chatEnabled s then [ChatStop] else [])) s;
          retain = rmc_idleTaskCacheRetain (mo_resourceMode s);
          dropped = max 0 (int (length (mo_taskCache s)) - retain);
          s2 = s1\<lparr>mo_nodeCache := [],
                  mo_taskCache := (if dropped > 0 then js_slice_from (- retain) (mo_taskCache s) else mo_taskCache s),
                  mo_hardwareCache := None, mo_activeCycles := []\<rparr>
      in mesh_out (TraceTrim (rmc_idleTraceRetain (mo_resourceMode s)) #
           (if mo_parkOnIdle s then [RuntimeStop ''resource_idle''] else [])) s2)"

definition enterActiveMode :: "int \<Rightarrow> MeshOrchestrator \<Rightarrow> MeshOrchestrator" where
  "enterActiveMode now s = broadcast (BcResourceMode (rg_snapshot now (mo_governor s)))
     (mesh_out (HardwareStart # (if mo_chatEnabled s then [ChatStart] else []) @ [RuntimeStart ''resource_active'']) s)"

definition on_mode_change :: "int \<Rightarrow> ResourceModeChange \<Rightarrow> MeshOrchestrator \<Rightarrow> MeshOrchestrator" where
  "on_mode_change now evt s = (if rm_mode evt = Idle then enterLightweightMode s else enterActiveMode now s)"

definition note_activity :: "int \<Rightarrow> string \<Rightarrow> MeshOrchestrator \<Rightarrow> MeshOrchestrator" where
  "note_activity now reason s =
     (let g = noteActivity now reason (mo_governor s)
      in deliver (on_mode_change now) (rg_events (mo_governor s)) (rg_events g) (s\<lparr>mo_governor := g\<rparr>))"

definition mesh_governor_sweep :: "int \<Rightarrow> MeshOrchestrator \<Rightarrow> MeshOrchestrator" where
  "mesh_governor_sweep now s =
     (let g = rg_sweep now (hasInteractiveWork s) (mo_governor s)
      in deliver (on_mode_change now) (rg_events (mo_governor s)) (rg_events g) (s\<lparr>mo_governor := g\<rparr>))"

section \<open>Injecting a task\<close>

datatype inject_error =
    DuplicateDispatch "ClaimState option"
  | HookAborted HookEvent
  | HookThrew HookEvent
  | ExecuteThrew cycle_error

text \<open>The part of \<open>injectTask\<close> that runs before its first \<open>await\<close>; on the claims alone it
  is \<open>inject_claims\<close>.\<close>

definition inject_claims :: "int \<Rightarrow> (string \<Rightarrow> string) \<Rightarrow> string \<Rightarrow> string \<Rightarrow> TaskClaimMachine \<Rightarrow> bool \<times> TaskClaimMachine" where
  "inject_claims now digest cycleId goal m =
     (let h = digest goal;
          m1 = snd (claim_register now h (Some (''inject:'' @ take 60 goal)) m)
      in case tryClaim now h cycleId (Some ''orchestrator_inject'') m1 of
           (claimed, m2) \<Rightarrow> if \<not> claimed then (False, m2) else (True, snd (markRunning now h cycleId m2)))"

definition inject_begin :: "(string \<Rightarrow> string) \<Rightarrow> int \<Rightarrow> string \<Rightarrow> bool \<Rightarrow> string \<Rightarrow> MeshOrchestrator \<Rightarrow>
    (inject_error + CycleTask) \<times> MeshOrchestrator" where
  "inject_begin digest now cycleId mkdir_ok goal s =
     (let s1 = note_activity now ''task:inject'' s;
          h = digest goal
      in case inject_claims now digest cycleId goal (mo_claims s1) of
           (claimed, m) \<Rightarrow>
             let s2 = s1\<lparr>mo_claims := m\<rparr> in
             if \<not> claimed then (Inl (DuplicateDispatch (state_of h m)), s2)
             else
               (case ws_acquire mkdir_ok cycleId (mo_workspaces s2) of
                  Inl _ \<Rightarrow> (Inr \<lparr>ct_goal = goal, ct_taskHash = h, ct_cycleId = cycleId, ct_workspacePath = None,
                                ct_stage = AtAfterCreate\<rparr>, s2)
                | Inr (p, w) \<Rightarrow> (Inr \<lparr>ct_goal = goal, ct_taskHash = h, ct_cycleId = cycleId, ct_workspacePath = Some p,
                                ct_stage = AtAfterCreate\<rparr>, s2\<lparr>mo_workspaces := w\<rparr>)))"

definition hook_ctx :: "CycleTask \<Rightarrow> HookContext" where
  "hook_ctx t = \<lparr>hx_cycleId = ct_cycleId t, hx_taskHash = Some (ct_taskHash t), hx_workspacePath = ct_workspacePath t\<rparr>"

definition release_workspace :: "CycleTask \<Rightarrow> MeshOrchestrator \<Rightarrow> MeshOrchestrator" where
  "release_workspace t s =
     (if truthy_str (ct_workspacePath t) then s\<lparr>mo_workspaces := ws_release (ct_cycleId t) (mo_workspaces s)\<rparr> else s)"

definition release_task :: "int \<Rightarrow> CycleTask \<Rightarrow> string \<Rightarrow> MeshOrchestrator \<Rightarrow> MeshOrchestrator" where
  "release_task now t reason s = s\<lparr>mo_claims := snd (claim_release now (ct_taskHash t) reason (mo_claims s))\<rparr>"

definition fail_task :: "int \<Rightarrow> CycleTask \<Rightarrow> string \<Rightarrow> MeshOrchestrator \<Rightarrow> MeshOrchestrator" where
  "fail_task now t reason s =
     (case enqueueFailure now (ct_taskHash t) (ct_goal t) reason (mo_retry s) (mo_claims s) of
        (_, q, m) \<Rightarrow> s\<lparr>mo_retry := q, mo_claims := m\<rparr>)"

datatype TaskResult = Continues CycleTask | Finished VerificationReceipt | Threw inject_error

definition gate_hook :: "int \<Rightarrow> HookEvent \<Rightarrow> string \<Rightarrow> InjectStage \<Rightarrow> CycleTask \<Rightarrow> MeshOrchestrator \<Rightarrow> TaskResult \<times> MeshOrchestrator" where
  "gate_hook now ev reason nxt t s =
     (case hook_run ev (hook_ctx t) (mo_hooks s) of
        (None, hooks) \<Rightarrow> (Threw (HookThrew ev), s\<lparr>mo_hooks := hooks\<rparr>)
      | (Some results, hooks) \<Rightarrow>
          let s1 = s\<lparr>mo_hooks := hooks\<rparr> in
          if shouldAbort ev results
          then (Threw (HookAborted ev), release_task now t reason (release_workspace t s1))
          else (Continues (t\<lparr>ct_stage := nxt\<rparr>), s1))"

definition NYX_CONTEXT :: "string \<Rightarrow> ContextMessage list" where
  "NYX_CONTEXT goal =
     [\<lparr>mx_ref = 0, mx_role = Some ''system'', mx_content = Some ''You are Nyx, the Sovereign Intelligence.''\<rparr>,
      \<lparr>mx_ref = 1, mx_role = Some ''user'', mx_content = Some (''Execute goal: '' @ goal)\<rparr>]"

text \<open>What a resumed call takes from outside: the clock, the cycle's environment, the text of
  an exception, and whether the learning matrix can be written.\<close>

record ResumeEnv =
  re_now :: int
  re_cycle :: CycleEnv
  re_errorText :: "cycle_error \<Rightarrow> string"
  re_writable :: bool

definition task_done :: "CycleTask \<Rightarrow> VerificationReceipt \<Rightarrow> MeshOrchestrator \<Rightarrow> TaskResult \<times> MeshOrchestrator" where
  "task_done t r s = (Finished r, broadcast (BcTask (ct_goal t) r) (mesh_out [TaskRouted (ct_goal t) r] s))"

definition run_execute :: "(string \<Rightarrow> string) \<Rightarrow> ResumeEnv \<Rightarrow> CycleTask \<Rightarrow> MeshOrchestrator \<Rightarrow>
    TaskResult \<times> MeshOrchestrator" where
  "run_execute digest e t s =
     (case execute digest (re_cycle e) (ct_goal t) (NYX_CONTEXT (ct_goal t)) (mo_bridge s) of
        (outcome, b) \<Rightarrow>
          let s1 = deliver (on_bridge_event (re_writable e)) (mb_events (mo_bridge s)) (mb_events b) (s\<lparr>mo_bridge := b\<rparr>)
          in (case outcome of
                Inl err \<Rightarrow> (Threw (ExecuteThrew err),
                  release_workspace t (fail_task (re_now e) t (''execute_threw:'' @ re_errorText e err) s1))
              | Inr receipt \<Rightarrow> (Continues (t\<lparr>ct_stage := AtAfterRun receipt\<rparr>), s1)))"

definition after_run :: "int \<Rightarrow> CycleTask \<Rightarrow> VerificationReceipt \<Rightarrow> MeshOrchestrator \<Rightarrow> TaskResult \<times> MeshOrchestrator" where
  "after_run now t receipt s =
     (let ran = hook_run AfterRun (hook_ctx t) (mo_hooks s);
          s1 = s\<lparr>mo_hooks := snd ran\<rparr>;
          s2 = (if vr_status receipt = ReceiptVerified then release_task now t ''cycle_succeeded'' s1
                else fail_task now t (''cycle_failed:'' @ vr_id receipt) s1)
      in if fst ran = None then (Threw (HookThrew AfterRun), s1)
         else if truthy_str (ct_workspacePath t) then (Continues (t\<lparr>ct_stage := AtBeforeRemove receipt\<rparr>), s2)
         else task_done t receipt s2)"

definition before_remove :: "CycleTask \<Rightarrow> VerificationReceipt \<Rightarrow> MeshOrchestrator \<Rightarrow> TaskResult \<times> MeshOrchestrator" where
  "before_remove t receipt s =
     (let ran = hook_run BeforeRemove (hook_ctx t) (mo_hooks s);
          s1 = s\<lparr>mo_hooks := snd ran\<rparr>
      in if fst ran = None then (Threw (HookThrew BeforeRemove), s1)
         else task_done t receipt (release_workspace t s1))"

definition resume :: "(string \<Rightarrow> string) \<Rightarrow> ResumeEnv \<Rightarrow> CycleTask \<Rightarrow> MeshOrchestrator \<Rightarrow> TaskResult \<times> MeshOrchestrator" where
  "resume digest e t s =
     (case ct_stage t of
        AtAfterCreate \<Rightarrow> gate_hook (re_now e) AfterCreate ''hook_after_create_aborted'' AtBeforeRun t s
      | AtBeforeRun \<Rightarrow> gate_hook (re_now e) BeforeRun ''hook_before_run_aborted'' AtExecute t s
      | AtExecute \<Rightarrow> run_execute digest e t s
      | AtAfterRun receipt \<Rightarrow> after_run (re_now e) t receipt s
      | AtBeforeRemove receipt \<Rightarrow> before_remove t receipt s)"

text \<open>A whole call: at most five stages follow the first. While it waits between two stages
  everything else may run, and \<open>others\<close> says what that makes of the orchestrator.\<close>

type_synonym interference = "nat \<Rightarrow> MeshOrchestrator \<Rightarrow> MeshOrchestrator"

fun resume_all :: "(string \<Rightarrow> string) \<Rightarrow> (nat \<Rightarrow> ResumeEnv) \<Rightarrow> interference \<Rightarrow> nat \<Rightarrow> TaskResult \<times> MeshOrchestrator \<Rightarrow>
    TaskResult \<times> MeshOrchestrator" where
  "resume_all digest env others 0 x = x"
| "resume_all digest env others (Suc n) (Continues t, s) =
     resume_all digest env others n (resume digest (env n) t (others n s))"
| "resume_all digest env others (Suc n) x = x"

definition injectTask :: "(string \<Rightarrow> string) \<Rightarrow> (nat \<Rightarrow> ResumeEnv) \<Rightarrow> interference \<Rightarrow> int \<Rightarrow> string \<Rightarrow> bool \<Rightarrow> string \<Rightarrow>
    MeshOrchestrator \<Rightarrow> TaskResult \<times> MeshOrchestrator" where
  "injectTask digest env others now cycleId mkdir_ok goal s =
     (case inject_begin digest now cycleId mkdir_ok goal s of
        (Inl err, s1) \<Rightarrow> (Threw err, s1)
      | (Inr t, s1) \<Rightarrow> resume_all digest env others 5 (Continues t, s1))"

end
