(* ===== verification/Mesh.thy ===== *)
theory Mesh
  imports Orchestrator
begin

text \<open>
  The orchestrator as a transition system: every interleaving of injected tasks, their
  resumptions, the retry and reconcile sweeps, the governor, the chairs, the bus, the gate and
  workflow reloads. The invariants of its reachable states, the interpretation of the retry
  queue's dispatcher contract on \<open>injectTask\<close>, and the properties that span components.
\<close>

section \<open>The retry sweep over the mesh\<close>

text \<open>The dispatcher bound to the queue is \<open>injectTask\<close>; a call it refuses rejects its promise,
  which the queue reports after the sweep.\<close>

definition mesh_sweep_one :: "(string \<Rightarrow> string) \<Rightarrow> int \<Rightarrow> (string \<Rightarrow> string) \<Rightarrow> (string \<Rightarrow> bool) \<Rightarrow>
    MeshOrchestrator \<Rightarrow> ClaimRecord \<Rightarrow> MeshOrchestrator" where
  "mesh_sweep_one digest now uuid mkdir_ok s r =
     (case om_get (rq_pending (mo_retry s)) (cr_taskHash r) of
        None \<Rightarrow> s\<lparr>mo_claims := snd (claim_release now (cr_taskHash r) ''retry_due_without_payload'' (mo_claims s))\<rparr>
      | Some (goal, d) \<Rightarrow>
          (case inject_begin digest now (uuid goal) (mkdir_ok goal) goal
              (s\<lparr>mo_retry := rq_emit (RetryDispatching d)
                  ((mo_retry s)\<lparr>rq_pending := om_delete (cr_taskHash r) (rq_pending (mo_retry s))\<rparr>)\<rparr>) of
             (Inl _, s1) \<Rightarrow> s1
           | (Inr t, s1) \<Rightarrow> s1\<lparr>mo_tasks := mo_tasks s1 @ [t]\<rparr>))"

definition mesh_retry_sweep :: "(string \<Rightarrow> string) \<Rightarrow> int \<Rightarrow> (string \<Rightarrow> string) \<Rightarrow> (string \<Rightarrow> bool) \<Rightarrow>
    MeshOrchestrator \<Rightarrow> MeshOrchestrator" where
  "mesh_retry_sweep digest now uuid mkdir_ok s =
     (if \<not> rq_bound (mo_retry s) then s
      else foldl (mesh_sweep_one digest now uuid mkdir_ok)
             (s\<lparr>mo_retry := prune_pending (mo_claims s) (mo_retry s)\<rparr>) (dueForRetry now (mo_claims s)))"

section \<open>Injecting, on the claims\<close>

lemma if_not_swap: "(if \<not> b then x else y) = (if b then y else x)"
  by simp

lemma inject_form:
  "\<exists>rs rs'. inject_claims now digest c g m =
     (case tryClaim now (digest g) c rs' (snd (claim_register now (digest g) rs m)) of
        (ok, m2) \<Rightarrow> if ok then (True, snd (markRunning now (digest g) c m2)) else (False, m2))"
  unfolding inject_claims_def Let_def
  by (intro exI, rule prod.case_cong [OF refl]) (simp only: if_not_swap)

lemma inject_claims_fst:
  "fst (inject_claims now digest c g m) \<longleftrightarrow> state_of (digest g) m \<in> {None, Some Unclaimed, Some RetryQueued}"
proof -
  obtain rs rs' where inj: "inject_claims now digest c g m =
     (case tryClaim now (digest g) c rs' (snd (claim_register now (digest g) rs m)) of
        (ok, m2) \<Rightarrow> if ok then (True, snd (markRunning now (digest g) c m2)) else (False, m2))"
    using inject_form by blast
  have "fst (inject_claims now digest c g m) = fst (tryClaim now (digest g) c rs' (snd (claim_register now (digest g) rs m)))"
    by (simp add: inj split: prod.split)
  then show ?thesis by (auto simp: tryClaim_state_of state_of_register)
qed

lemma profile_inject:
  "profile t (snd (inject_claims now digest c g m)) =
     (if t = digest g \<and> fst (inject_claims now digest c g m)
      then Some (Running, case profile t m of None \<Rightarrow> 1 | Some (_, a) \<Rightarrow> Suc a) else profile t m)"
proof -
  define h where "h = digest g"
  obtain rs rs' where form: "inject_claims now digest c g m =
     (case tryClaim now (digest g) c rs' (snd (claim_register now (digest g) rs m)) of
        (ok, m2) \<Rightarrow> if ok then (True, snd (markRunning now (digest g) c m2)) else (False, m2))"
    using inject_form by blast
  define m1 where "m1 = snd (claim_register now h rs m)"
  obtain ok m2 where tc: "tryClaim now h c rs' m1 = (ok, m2)" by fastforce
  have inj: "inject_claims now digest c g m = (if ok then (True, snd (markRunning now h c m2)) else (False, m2))"
    unfolding form h_def [symmetric] m1_def [symmetric] tc by simp
  have p1: "profile t' m1 = (if t' = h \<and> profile h m = None then Some (Unclaimed, 0) else profile t' m)" for t'
    by (simp add: m1_def profile_register)
  have p2: "profile t' m2 = (if t' = h \<and> ok then Some (Claimed, case profile h m1 of None \<Rightarrow> 1 | Some (_, a) \<Rightarrow> Suc a)
      else profile t' m1)" for t'
    using profile_tryClaim [of t' now h c rs' m1] by (simp add: tc)
  have okD: "\<not> ok \<Longrightarrow> profile h m \<noteq> None"
    using tryClaim_state_of(1) [of now h c rs' m1] by (auto simp: tc state_of_profile p1 split: if_splits)
  have run: "fst (claim_transition now h Running (Some c) None m2)" if ok
    using that p2 [of h] by (auto simp: claim_transition_fst profile_def)
  show ?thesis
    using p1 [of h] p1 [of t] p2 [of h] p2 [of t] okD run
    by (auto simp: inj h_def [symmetric] markRunning_def profile_transition split: if_splits)
qed

lemma transition_other:
  "t' \<noteq> t \<Longrightarrow> om_get (ledger (snd (claim_transition now t n c rs m))) t' = om_get (ledger m) t'"
  by (auto simp: claim_transition_def Let_def emit_claim_def split: option.split)

lemma register_other: "t' \<noteq> t \<Longrightarrow> om_get (ledger (snd (claim_register now t rs m))) t' = om_get (ledger m) t'"
  by (auto simp: claim_register_def Let_def emit_claim_def split: option.split)

lemma tryClaim_other: "t' \<noteq> t \<Longrightarrow> om_get (ledger (snd (tryClaim now t c rs m))) t' = om_get (ledger m) t'"
  by (subst tryClaim_unfold) (simp add: Let_def transition_other register_other)

lemma ledger_inject_other:
  assumes "t \<noteq> digest g"
  shows "om_get (ledger (snd (inject_claims now digest c g m))) t = om_get (ledger m) t"
proof -
  obtain rs rs' where "inject_claims now digest c g m =
     (case tryClaim now (digest g) c rs' (snd (claim_register now (digest g) rs m)) of
        (ok, m2) \<Rightarrow> if ok then (True, snd (markRunning now (digest g) c m2)) else (False, m2))"
    using inject_form by blast
  then show ?thesis
    using tryClaim_other [OF assms, of now c rs' "snd (claim_register now (digest g) rs m)"] assms
    by (auto simp: markRunning_def transition_other register_other split: prod.split)
qed

lemma claims_inv_inject:
  assumes "claims_inv m"
  shows "claims_inv (snd (inject_claims now digest c g m))"
proof -
  obtain rs rs' where "inject_claims now digest c g m =
     (case tryClaim now (digest g) c rs' (snd (claim_register now (digest g) rs m)) of
        (ok, m2) \<Rightarrow> if ok then (True, snd (markRunning now (digest g) c m2)) else (False, m2))"
    using inject_form by blast
  moreover have "claims_inv (snd (tryClaim now (digest g) c rs' (snd (claim_register now (digest g) rs m))))"
    using assms by (intro claims_inv_tryClaim claims_inv_register)
  ultimately show ?thesis by (auto simp: markRunning_def intro: claims_inv_transition split: prod.split)
qed

text \<open>\<open>injectTask\<close> meets the contract the retry queue has with its dispatcher.\<close>

interpretation inject: retry_dispatch digest "\<lambda>g m. snd (inject_claims now digest (uuid g) g m)" for digest now uuid
proof
  fix g :: string and m :: TaskClaimMachine and a :: nat
  assume "profile (digest g) m = Some (RetryQueued, a)"
  then show "profile (digest g) (snd (inject_claims now digest (uuid g) g m)) = Some (Running, Suc a)"
    by (simp add: profile_inject inject_claims_fst state_of_profile)
qed (simp_all add: ledger_inject_other claims_inv_inject)

section \<open>Projections to the queue and the claims\<close>

lemma deliver_frame:
  assumes "\<And>e s. f (handler e s) = f s"
  shows "f (deliver handler old events s) = f s"
proof -
  have "f (foldl (\<lambda>s e. handler e s) s es) = f s" for es
    by (induction es arbitrary: s) (simp_all add: assms)
  then show ?thesis by (simp add: deliver_def)
qed

text \<open>The part of the state the claims and retries live in.\<close>

definition core :: "MeshOrchestrator \<Rightarrow> RetryQueue \<times> TaskClaimMachine \<times> CycleTask list" where
  "core s = (mo_retry s, mo_claims s, mo_tasks s)"

lemma core_out [simp]: "core (mesh_out cs s) = core s" "core (broadcast p s) = core s"
  by (auto simp: core_def mesh_out_def broadcast_def Let_def split: Broadcast.split)

lemma core_handlers:
  "core (on_phase_change p s) = core s" "core (on_cycle_complete w r s) = core s"
  "core (on_vram_metrics v s) = core s" "core (on_chair_event now c s) = core s"
  "core (on_bus_event now b s) = core s" "core (on_mode_change now g s) = core s"
proof -
  have u: "core (s\<lparr>mo_activeCycles := x\<rparr>) = core s" "core (s\<lparr>mo_receiptsIssued := n\<rparr>) = core s"
    "core (s\<lparr>mo_tokenTotals := t\<rparr>) = core s" "core (s\<lparr>mo_matrix := f\<rparr>) = core s" for s x n t f
    by (simp_all add: core_def)
  show "core (on_phase_change p s) = core s" by (simp add: on_phase_change_def u)
  show "core (on_cycle_complete w r s) = core s"
    by (simp add: on_cycle_complete_def Let_def u split: option.split)
  show "core (on_vram_metrics v s) = core s" by (simp add: on_vram_metrics_def) (simp add: core_def)
  show "core (on_chair_event now c s) = core s" by (simp add: on_chair_event_def core_def)
  show "core (on_bus_event now b s) = core s" by (simp add: on_bus_event_def core_def split: prod.split)
  show "core (on_mode_change now g s) = core s"
    by (simp add: on_mode_change_def enterLightweightMode_def enterActiveMode_def Let_def) (simp add: core_def mesh_out_def)
qed

lemma core_bridge_event: "core (on_bridge_event w e s) = core s"
  by (cases e) (simp_all add: core_handlers)

lemma core_note_activity: "core (note_activity now why s) = core s"
  by (simp add: note_activity_def Let_def deliver_frame [where f = core] core_handlers) (simp add: core_def)

lemma core_governor_sweep: "core (mesh_governor_sweep now s) = core s"
  by (simp add: mesh_governor_sweep_def Let_def deliver_frame [where f = core] core_handlers) (simp add: core_def)

lemma inject_begin_core:
  "core (snd (inject_begin digest now c mk g s)) =
     (mo_retry s, snd (inject_claims now digest c g (mo_claims s)), mo_tasks s)"
proof -
  define s1 where "s1 = note_activity now ''task:inject'' s"
  have "core s1 = core s" unfolding s1_def by (rule core_note_activity)
  then have "mo_retry s1 = mo_retry s" "mo_claims s1 = mo_claims s" "mo_tasks s1 = mo_tasks s"
    by (simp_all add: core_def)
  then show ?thesis
    unfolding inject_begin_def Let_def s1_def [symmetric]
    by (auto simp: core_def split: prod.split sum.split)
qed

lemma inject_begin_result:
  "(case fst (inject_begin digest now c mk g s) of
      Inl err \<Rightarrow> \<not> fst (inject_claims now digest c g (mo_claims s))
        \<and> err = DuplicateDispatch (state_of (digest g) (snd (inject_claims now digest c g (mo_claims s))))
    | Inr t \<Rightarrow> fst (inject_claims now digest c g (mo_claims s)) \<and> ct_goal t = g \<and> ct_taskHash t = digest g
        \<and> ct_cycleId t = c \<and> ct_stage t = AtAfterCreate)"
proof -
  define s1 where "s1 = note_activity now ''task:inject'' s"
  have "core s1 = core s" unfolding s1_def by (rule core_note_activity)
  then have "mo_claims s1 = mo_claims s" by (simp add: core_def)
  then show ?thesis
    unfolding inject_begin_def Let_def s1_def [symmetric]
    by (auto split: prod.split sum.split)
qed

text \<open>The sweep over the mesh is the queue's sweep on the queue and the claims.\<close>

lemma mesh_sweep_one_refines:
  "(mo_retry (mesh_sweep_one digest now uuid mk s r), mo_claims (mesh_sweep_one digest now uuid mk s r)) =
     sweep_one now (\<lambda>g m. snd (inject_claims now digest (uuid g) g m)) (mo_retry s, mo_claims s) r"
proof (cases "om_get (rq_pending (mo_retry s)) (cr_taskHash r)")
  case None
  then show ?thesis by (simp add: mesh_sweep_one_def sweep_one_def Let_def)
next
  case (Some gd)
  obtain g d where gd: "gd = (g, d)" by fastforce
  define s1 where "s1 = s\<lparr>mo_retry := rq_emit (RetryDispatching d)
    ((mo_retry s)\<lparr>rq_pending := om_delete (cr_taskHash r) (rq_pending (mo_retry s))\<rparr>)\<rparr>"
  have c: "core (snd (inject_begin digest now (uuid g) (mk g) g s1)) =
      (mo_retry s1, snd (inject_claims now digest (uuid g) g (mo_claims s1)), mo_tasks s1)"
    by (rule inject_begin_core)
  have "mo_claims s1 = mo_claims s" by (simp add: s1_def)
  with c show ?thesis
    using Some gd unfolding mesh_sweep_one_def sweep_one_def Let_def
    by (auto simp: s1_def [symmetric] core_def split: prod.splits sum.splits)
      (simp_all add: s1_def)
qed

lemma mesh_sweep_refines:
  "(mo_retry (mesh_retry_sweep digest now uuid mk s), mo_claims (mesh_retry_sweep digest now uuid mk s)) =
     retry_sweep now (\<lambda>g m. snd (inject_claims now digest (uuid g) g m)) (mo_retry s) (mo_claims s)"
proof -
  let ?disp = "\<lambda>g m. snd (inject_claims now digest (uuid g) g m)"
  have fold: "(mo_retry (foldl (mesh_sweep_one digest now uuid mk) s rs), mo_claims (foldl (mesh_sweep_one digest now uuid mk) s rs))
      = foldl (sweep_one now ?disp) (mo_retry s, mo_claims s) rs" for rs s
    by (induction rs arbitrary: s) (simp_all add: mesh_sweep_one_refines)
  show ?thesis
    using fold [of "s\<lparr>mo_retry := prune_pending (mo_claims s) (mo_retry s)\<rparr>" "dueForRetry now (mo_claims s)"]
    by (auto simp: mesh_retry_sweep_def retry_sweep_def Let_def)
qed

section \<open>The invariant of claims and retries\<close>

definition ledger_ok :: "(string \<Rightarrow> string) \<Rightarrow> int \<Rightarrow> RetryQueue \<Rightarrow> TaskClaimMachine \<Rightarrow> bool" where
  "ledger_ok digest N q m \<longleftrightarrow> 1 \<le> N \<and> rc_maxAttempts (rq_cfg q) \<le> N \<and> rq_bound q
     \<and> claims_inv m \<and> attempts_inv N m \<and> coherent digest q m"

lemma coherent_claims:
  assumes "coherent digest q m"
    and "\<And>t. state_of t m' = Some RetryQueued \<Longrightarrow> state_of t m = Some RetryQueued"
  shows "coherent digest q m'"
  using assms by (auto simp: coherent_def)

lemma ledger_ok_step:
  assumes "ledger_ok digest N q m" and "not_retry_mark e"
    and "\<And>t. state_of t (claim_step m e) = Some RetryQueued \<Longrightarrow> state_of t m = Some RetryQueued"
  shows "ledger_ok digest N q (claim_step m e)"
  using assms claims.step_inv [of m e] attempts_inv_claim_step [of N m e] coherent_claims [of digest q m "claim_step m e"]
  by (simp add: ledger_ok_def)

lemma ledger_ok_release:
  assumes "ledger_ok digest N q m"
  shows "ledger_ok digest N q (snd (claim_release now t why m))"
proof -
  have "ledger_ok digest N q (claim_step m (now, OpRelease t why))"
    by (rule ledger_ok_step [OF assms]) (auto simp: claim_release_def state_of_transition split: if_splits)
  then show ?thesis by simp
qed

lemma ledger_ok_prune:
  assumes "ledger_ok digest N q m"
  shows "ledger_ok digest N q (snd (claim_prune t m))"
proof -
  have "ledger_ok digest N q (claim_step m (0, OpPrune t))"
    by (rule ledger_ok_step [OF assms]) (auto simp: state_of_prune split: if_splits)
  then show ?thesis by simp
qed

lemma ledger_ok_inject:
  assumes "ledger_ok digest N q m"
  shows "ledger_ok digest N q (snd (inject_claims now digest c g m))"
proof -
  let ?m = "snd (inject_claims now digest c g m)"
  have "attempts_inv N ?m"
    using assms by (fastforce simp: ledger_ok_def attempts_inv_def profile_inject inject_claims_fst state_of_profile split: if_splits option.splits)
  moreover have "coherent digest q ?m"
    by (rule coherent_claims [of _ _ m])
      (use assms in \<open>auto simp: ledger_ok_def state_of_profile profile_inject split: if_splits\<close>)
  ultimately show ?thesis using assms claims_inv_inject by (simp add: ledger_ok_def)
qed

lemma ledger_ok_enqueueFailure:
  assumes ok: "ledger_ok digest N q m" and "digest g = t"
  shows "ledger_ok digest N (fst (snd (enqueueFailure now t g why q m))) (snd (snd (enqueueFailure now t g why q m)))"
proof -
  obtain out q' m' where e: "enqueueFailure now t g why q m = (out, q', m')" by (metis prod_cases3)
  have m': "m' = (case claim_get t m of None \<Rightarrow> m | Some r \<Rightarrow>
      if int (cr_attempt r + 1) > rc_maxAttempts (rq_cfg q)
      then snd (claim_release now t (''retry_exhausted:'' @ why) m)
      else snd (markRetryQueued now t (backoff (rq_cfg q) (cr_attempt r))
             (Some (''attempt_'' @ show_nat (cr_attempt r) @ ''_failed:'' @ why)) m))"
    using enqueueFailure_claims [of now t g why q m] by (simp add: e)
  have cfg: "rq_cfg q' = rq_cfg q" using enqueueFailure_cfg [of now t g why q m] by (simp add: e)
  have bnd: "rq_bound q' = rq_bound q"
    using e by (auto simp: enqueueFailure_def Let_def rq_emit_def split: option.splits prod.splits if_splits)
  have pend: "rq_pending q' = (if out = RetryIt then om_set t (g, \<lparr>rd_taskHash = t, rd_attempt = cr_attempt (the (claim_get t m)) + 1,
      rd_backoffMs = backoff (rq_cfg q) (cr_attempt (the (claim_get t m))),
      rd_scheduledFor = of_int now + backoff (rq_cfg q) (cr_attempt (the (claim_get t m))), rd_reason = why\<rparr>) (rq_pending q)
      else rq_pending q)"
    using enqueueFailure_pending [of now t g why q m] by (simp add: e)
  have dec: "out = RetryIt \<longleftrightarrow> (\<exists>a. profile t m = Some (Running, a) \<and> int a < rc_maxAttempts (rq_cfg q))"
    using enqueueFailure_decision [of now t g why q m] by (simp add: e)
  have inv: "claims_inv m'"
    using ok unfolding m' by (auto simp: ledger_ok_def claim_release_def intro: claims_inv_transition claims_inv_markRetryQueued split: option.split)
  have att: "attempts_inv N m'"
    using ok unfolding m'
    by (auto simp: ledger_ok_def claim_release_def claim_get_def profile_def split: option.split
        intro!: attempts_inv_transition attempts_inv_markRetryQueued)
  have st: "state_of t' m' = Some RetryQueued \<Longrightarrow> state_of t' m = Some RetryQueued \<or> t' = t \<and> out = RetryIt" for t'
    unfolding m' dec
    by (auto simp: claim_release_def claim_get_def state_of_transition state_of_markRetryQueued markRetryQueued_iff
        profile_def state_of_def [of t] split: option.splits if_splits)
  have "coherent digest q' m'"
    using ok assms(2) st unfolding coherent_def ledger_ok_def pend by (auto split: if_splits)
  then show ?thesis using ok inv att by (simp add: e ledger_ok_def cfg bnd)
qed

lemma ledger_ok_reconcile:
  assumes "ledger_ok digest N q m"
  shows "ledger_ok digest N q (snd (reconciler_sweep now rec m))"
proof -
  have one: "ledger_ok digest N q (snd sm) \<Longrightarrow> ledger_ok digest N q (snd (reconcile_one now sm r))" for sm r
    by (auto simp: reconcile_one_def Let_def split_beta intro: ledger_ok_prune ledger_ok_release)
  have "ledger_ok digest N q (snd sm) \<Longrightarrow> ledger_ok digest N q (snd (foldl (reconcile_one now) sm rs))" for sm rs
    by (induction rs arbitrary: sm) (simp_all add: one)
  then show ?thesis using assms by (simp add: reconciler_sweep_def)
qed

lemma prune_pending_get:
  "om_get (rq_pending (prune_pending m q)) t = (if state_of t m = Some RetryQueued then om_get (rq_pending q) t else None)"
proof -
  have "map_of (filter (\<lambda>(t, _). case claim_get t m of None \<Rightarrow> False | Some r \<Rightarrow> cr_state r = RetryQueued) ps) t =
      (if state_of t m = Some RetryQueued then map_of ps t else None)" for ps :: "(string \<times> string \<times> RetryDispatch) list"
    by (induction ps) (auto simp: claim_get_def state_of_def split: option.splits)
  then show ?thesis by (simp add: prune_pending_def)
qed

lemma ledger_ok_prune_pending:
  assumes "ledger_ok digest N q m"
  shows "ledger_ok digest N (prune_pending m q) m"
proof -
  have "om_wf (rq_pending (prune_pending m q))"
    using assms by (simp add: ledger_ok_def coherent_def prune_pending_def distinct_map_filter)
  moreover have "rq_cfg (prune_pending m q) = rq_cfg q" "rq_bound (prune_pending m q) = rq_bound q"
    by (simp_all add: prune_pending_def)
  ultimately show ?thesis
    using assms by (auto simp: ledger_ok_def coherent_def prune_pending_get split: if_splits)
qed

lemma ledger_ok_sweep_one:
  assumes ok: "ledger_ok digest N (fst qm) (snd qm)"
  shows "ledger_ok digest N (fst (sweep_one now (\<lambda>g m. snd (inject_claims now digest (uuid g) g m)) qm r))
    (snd (sweep_one now (\<lambda>g m. snd (inject_claims now digest (uuid g) g m)) qm r))"
proof (cases "om_get (rq_pending (fst qm)) (cr_taskHash r)")
  case None
  then show ?thesis using ok by (simp add: sweep_one_def Let_def ledger_ok_release)
next
  case (Some gd)
  obtain g d where gd: "gd = (g, d)" by fastforce
  let ?m = "snd (inject_claims now digest (uuid g) g (snd qm))"
  have g: "digest g = cr_taskHash r" using ok Some gd by (auto simp: ledger_ok_def coherent_def)
  have inj: "ledger_ok digest N (fst qm) ?m" using ok by (rule ledger_ok_inject)
  have "state_of (cr_taskHash r) ?m \<noteq> Some RetryQueued"
    by (auto simp: state_of_profile profile_inject inject_claims_fst g split: if_splits)
  then show ?thesis
    using inj Some gd by (auto simp: sweep_one_def Let_def rq_emit_def ledger_ok_def coherent_def)
qed

lemma ledger_ok_retry_sweep:
  assumes "ledger_ok digest N q m"
  shows "ledger_ok digest N (fst (retry_sweep now (\<lambda>g m. snd (inject_claims now digest (uuid g) g m)) q m))
    (snd (retry_sweep now (\<lambda>g m. snd (inject_claims now digest (uuid g) g m)) q m))"
proof -
  let ?one = "sweep_one now (\<lambda>g m. snd (inject_claims now digest (uuid g) g m))"
  have "ledger_ok digest N (fst qm) (snd qm) \<Longrightarrow> ledger_ok digest N (fst (foldl ?one qm rs)) (snd (foldl ?one qm rs))" for qm rs
    by (induction rs arbitrary: qm) (simp_all add: ledger_ok_sweep_one)
  then show ?thesis
    using ledger_ok_prune_pending [OF assms] assms by (simp add: retry_sweep_def Let_def)
qed

lemma ledger_ok_updateConfig:
  assumes "ledger_ok digest N q m" and "\<And>n. pc_maxAttempts p = Some n \<Longrightarrow> n \<le> N"
  shows "ledger_ok digest N (updateConfig p q) m"
  using assms
  by (auto simp: ledger_ok_def coherent_def updateConfig_def Let_def merge_retry_config_def rq_start_def rq_stop_def split: option.split)

section \<open>The transition system\<close>

definition default_hooks :: "HookRunner" where
  "default_hooks =
     foldl (\<lambda>h (name, ev). hook_register (''kovael.sentinel.'' @ name) ev (\<lambda>_. HookReturns 0 Fulfilled) (Some 5000) h)
       \<lparr>hk_handlers = [], hk_events = []\<rparr>
       [(''after_create'', AfterCreate), (''before_run'', BeforeRun), (''after_run'', AfterRun), (''before_remove'', BeforeRemove)]"

text \<open>The constructor: the chairs and the bus are opened on the database, the tracker and the
  persona loader are handed to the bridge, the queue is bound to \<open>injectTask\<close>.\<close>

definition new_mesh :: "(string \<Rightarrow> string option) \<Rightarrow> string \<Rightarrow> int \<Rightarrow> PartialRetryConfig \<Rightarrow> ReconcilerConfig \<Rightarrow>
    ResourceModeOverrides \<Rightarrow> ChairRegistry \<Rightarrow> ConversationBus \<Rightarrow> (string \<Rightarrow> string) \<Rightarrow> MatrixFile \<Rightarrow> bool \<Rightarrow>
    range_error + MeshOrchestrator" where
  "new_mesh penv cwd now retry reconciler overrides registry bus persona matrix park =
     (let mode = resolveResourceModeConfig penv overrides in
      case new_retry_queue retry of
        Inl err \<Rightarrow> Inl err
      | Inr q \<Rightarrow> Inr
         \<lparr>mo_claims = new_claims, mo_retry = rq_start (rq_bind q),
          mo_reconciler = rec_start \<lparr>rec_cfg = reconciler, rec_timer = False, rec_sweepCount = 0, rec_actions = []\<rparr>,
          mo_breaker = new_breaker None None, mo_chairs = reg_start registry, mo_bus = bus,
          mo_bridge = setRateLimitTracker (new_tracker None None) (setPersonaLoader persona new_bridge),
          mo_governor = rg_start (new_governor now (Some (rmc_enabled mode)) (Some (Num (of_int (rmc_idleAfterMs mode))))
            (Some (Num (of_int (rmc_sweepIntervalMs mode))))),
          mo_workspaces = new_workspaces cwd None None, mo_hooks = default_hooks, mo_matrix = matrix,
          mo_resourceMode = mode, mo_nodeCache = [], mo_taskCache = [], mo_hardwareCache = None, mo_activeCycles = [],
          mo_tokenTotals = \<lparr>tt_input = 0, tt_output = 0, tt_total = 0, tt_runtimeMs = 0, tt_cycles = 0\<rparr>,
          mo_receiptsIssued = 0,
          mo_dispatchMetrics = \<lparr>dm_attempts = 0, dm_retries = 0, dm_accepted = 0, dm_successes = 0, dm_failures = 0, dm_inflight = 0\<rparr>,
          mo_activeDispatches = [], mo_wsClients = 0, mo_chatEnabled = False, mo_parkOnIdle = park, mo_tasks = [],
          mo_out = [HardwareStart, RuntimeStart ''orchestrator_listening''], mo_broadcasts = []\<rparr>)"

definition mesh_inject :: "(string \<Rightarrow> string) \<Rightarrow> int \<Rightarrow> string \<Rightarrow> bool \<Rightarrow> string \<Rightarrow> MeshOrchestrator \<Rightarrow> MeshOrchestrator" where
  "mesh_inject digest now cycleId mkdir_ok goal s =
     (case inject_begin digest now cycleId mkdir_ok goal s of
        (Inl _, s1) \<Rightarrow> s1
      | (Inr t, s1) \<Rightarrow> s1\<lparr>mo_tasks := mo_tasks s1 @ [t]\<rparr>)"

text \<open>A waiting call goes on; when it has returned or thrown it is gone.\<close>

definition mesh_resume :: "(string \<Rightarrow> string) \<Rightarrow> ResumeEnv \<Rightarrow> nat \<Rightarrow> MeshOrchestrator \<Rightarrow> MeshOrchestrator" where
  "mesh_resume digest e i s =
     (if i < length (mo_tasks s) then
        (case resume digest e (mo_tasks s ! i) s of
           (Continues t, s1) \<Rightarrow> s1\<lparr>mo_tasks := (mo_tasks s1)[i := t]\<rparr>
         | (_, s1) \<Rightarrow> s1\<lparr>mo_tasks := take i (mo_tasks s1) @ drop (Suc i) (mo_tasks s1)\<rparr>)
      else s)"

definition mesh_reconcile :: "int \<Rightarrow> MeshOrchestrator \<Rightarrow> MeshOrchestrator" where
  "mesh_reconcile now s =
     (case reconciler_sweep now (mo_reconciler s) (mo_claims s) of (r, m) \<Rightarrow> s\<lparr>mo_reconciler := r, mo_claims := m\<rparr>)"

definition mesh_chairs :: "int \<Rightarrow> ChairOp \<Rightarrow> MeshOrchestrator \<Rightarrow> MeshOrchestrator" where
  "mesh_chairs now op s =
     (let reg = chair_step (mo_chairs s) op
      in deliver (on_chair_event now) (chair_events (mo_chairs s)) (chair_events reg) (s\<lparr>mo_chairs := reg\<rparr>))"

definition mesh_bus :: "int \<Rightarrow> (ConversationBus \<Rightarrow> ConversationBus) \<Rightarrow> MeshOrchestrator \<Rightarrow> MeshOrchestrator" where
  "mesh_bus now op s =
     (let b = op (mo_bus s)
      in deliver (on_bus_event now) (bus_events (mo_bus s)) (bus_events b) (s\<lparr>mo_bus := b\<rparr>))"

definition mesh_gate :: "int \<Rightarrow> string \<Rightarrow> MeshOrchestrator \<Rightarrow> MeshOrchestrator" where
  "mesh_gate now agentId s = s\<lparr>mo_breaker := snd (breaker_canDispatch now agentId (mo_breaker s))\<rparr>"

definition mesh_workflow :: "WorkflowFrontMatter \<Rightarrow> MeshOrchestrator \<Rightarrow> MeshOrchestrator" where
  "mesh_workflow fm s =
     (case apply_workflow fm (mo_bridge s, mo_retry s) of (b, q) \<Rightarrow> s\<lparr>mo_bridge := b, mo_retry := q\<rparr>)"

inductive mesh_step :: "(string \<Rightarrow> string) \<Rightarrow> int \<Rightarrow> MeshOrchestrator \<Rightarrow> MeshOrchestrator \<Rightarrow> bool"
  for digest :: "string \<Rightarrow> string" and N :: int where
  Inject: "mesh_step digest N s (mesh_inject digest now cycleId mkdir_ok goal s)"
| Resume: "mesh_step digest N s (mesh_resume digest e i s)"
| RetrySweep: "mesh_step digest N s (mesh_retry_sweep digest now uuid mkdir s)"
| RetryRejected: "mesh_step digest N s (s\<lparr>mo_retry := dispatch_failed t goal err (mo_retry s)\<rparr>)"
| Reconcile: "mesh_step digest N s (mesh_reconcile now s)"
| GovernorSweep: "mesh_step digest N s (mesh_governor_sweep now s)"
| Activity: "mesh_step digest N s (note_activity now why s)"
| Chairs: "mesh_step digest N s (mesh_chairs now op s)"
| Bus: "mesh_step digest N s (mesh_bus now bop s)"
| Gate: "mesh_step digest N s (mesh_gate now agentId s)"
| Vram: "mesh_step digest N s (on_vram_metrics v s)"
| Client: "mesh_step digest N s (s\<lparr>mo_wsClients := n\<rparr>)"
| Telemetry: "mesh_step digest N s (broadcast (BcTelemetry node payload) s)"
| Workflow: "(\<And>n. pc_maxAttempts (dw_retry (decodeWorkflowConfig fm)) = Some n \<Longrightarrow> n \<le> N) \<Longrightarrow>
    mesh_step digest N s (mesh_workflow fm s)"

inductive mesh_reach :: "(string \<Rightarrow> string) \<Rightarrow> int \<Rightarrow> MeshOrchestrator \<Rightarrow> bool"
  for digest :: "string \<Rightarrow> string" and N :: int where
  Start: "new_mesh penv cwd now retry rc ov registry bus persona matrix park = Inr s \<Longrightarrow>
    rc_maxAttempts (rq_cfg (mo_retry s)) \<le> N \<Longrightarrow> mesh_reach digest N s"
| Step: "mesh_reach digest N s \<Longrightarrow> mesh_step digest N s s' \<Longrightarrow> mesh_reach digest N s'"

section \<open>Invariants of reachable states\<close>

definition mesh_inv :: "(string \<Rightarrow> string) \<Rightarrow> int \<Rightarrow> RetryQueue \<times> TaskClaimMachine \<times> CycleTask list \<Rightarrow> bool" where
  "mesh_inv digest N c \<longleftrightarrow> ledger_ok digest N (fst c) (fst (snd c))
     \<and> list_all (\<lambda>t. ct_taskHash t = digest (ct_goal t)) (snd (snd c))"

lemma ledger_ok_emit: "ledger_ok digest N (rq_emit e q) m = ledger_ok digest N q m"
  by (simp add: ledger_ok_def coherent_def rq_emit_def)

lemma new_mesh_inv:
  assumes "new_mesh penv cwd now retry rc ov registry bus persona matrix park = Inr s"
    and "rc_maxAttempts (rq_cfg (mo_retry s)) \<le> N"
  shows "mesh_inv digest N (core s)"
proof -
  obtain q where q: "new_retry_queue retry = Inr q" and r: "mo_retry s = rq_start (rq_bind q)"
    and rest: "mo_claims s = new_claims" "mo_tasks s = []"
    using assms(1) by (auto simp: new_mesh_def Let_def split: sum.splits)
  have "1 \<le> rc_maxAttempts (rq_cfg q)" "rq_pending q = []"
    using q by (auto simp: new_retry_queue_def Let_def split: if_splits)
  moreover have "rc_maxAttempts (rq_cfg q) \<le> N"
    using assms(2) by (simp add: r rq_start_def rq_bind_def split: if_splits)
  ultimately show ?thesis
    using rest claims_inv_new
    by (auto simp: mesh_inv_def core_def ledger_ok_def r rq_start_def rq_bind_def coherent_def attempts_inv_def
        profile_def state_of_def new_claims_def)
qed

lemma mesh_inv_inject:
  assumes "mesh_inv digest N (core s)"
  shows "mesh_inv digest N (core (mesh_inject digest now c mk g s))"
proof -
  obtain r s1 where i: "inject_begin digest now c mk g s = (r, s1)" by fastforce
  have "mesh_inv digest N (core s1)"
    using inject_begin_core [where digest = digest and now = now and c = c and mk = mk and g = g and s = s] assms by (simp add: i mesh_inv_def core_def ledger_ok_inject)
  then show ?thesis
    using inject_begin_result [where digest = digest and now = now and c = c and mk = mk and g = g and s = s] by (auto simp: mesh_inject_def i mesh_inv_def core_def split: sum.splits)
qed

lemma mesh_inv_sweep_one:
  assumes "mesh_inv digest N (core s)"
  shows "mesh_inv digest N (core (mesh_sweep_one digest now uuid mk s r))"
proof -
  let ?s = "mesh_sweep_one digest now uuid mk s r"
  have "ledger_ok digest N (mo_retry ?s) (mo_claims ?s)"
    using ledger_ok_sweep_one [where digest = digest and N = N and qm = "(mo_retry s, mo_claims s)" and now = now and uuid = uuid and r = r] assms
      mesh_sweep_one_refines [where digest = digest and now = now and uuid = uuid and mk = mk and s = s and r = r, symmetric] by (simp add: mesh_inv_def core_def)
  moreover have "list_all (\<lambda>t. ct_taskHash t = digest (ct_goal t)) (mo_tasks ?s)"
  proof (cases "om_get (rq_pending (mo_retry s)) (cr_taskHash r)")
    case None
    then show ?thesis using assms by (simp add: mesh_sweep_one_def mesh_inv_def core_def)
  next
    case (Some gd)
    obtain g d where gd: "gd = (g, d)" by fastforce
    define s0 where "s0 = s\<lparr>mo_retry := rq_emit (RetryDispatching d)
      ((mo_retry s)\<lparr>rq_pending := om_delete (cr_taskHash r) (rq_pending (mo_retry s))\<rparr>)\<rparr>"
    obtain x s1 where i: "inject_begin digest now (uuid g) (mk g) g s0 = (x, s1)" by fastforce
    have "mo_tasks s1 = mo_tasks s"
      using inject_begin_core [where digest = digest and now = now and c = "uuid g" and mk = "mk g" and g = g and s = s0] by (simp add: i core_def) (simp add: s0_def)
    then show ?thesis
      using assms Some gd inject_begin_result [where digest = digest and now = now and c = "uuid g" and mk = "mk g" and g = g and s = s0]
      by (auto simp: mesh_sweep_one_def s0_def [symmetric] i mesh_inv_def core_def split: sum.splits)
  qed
  ultimately show ?thesis by (simp add: mesh_inv_def core_def)
qed

lemma mesh_inv_retry_sweep:
  assumes "mesh_inv digest N (core s)"
  shows "mesh_inv digest N (core (mesh_retry_sweep digest now uuid mk s))"
proof -
  have "mesh_inv digest N (core s) \<Longrightarrow> mesh_inv digest N (core (foldl (mesh_sweep_one digest now uuid mk) s rs))" for rs s
    by (induction rs arbitrary: s) (simp_all add: mesh_inv_sweep_one)
  moreover have "mesh_inv digest N (core (s\<lparr>mo_retry := prune_pending (mo_claims s) (mo_retry s)\<rparr>))"
    using assms by (simp add: mesh_inv_def core_def ledger_ok_prune_pending)
  ultimately show ?thesis using assms by (simp add: mesh_retry_sweep_def)
qed

text \<open>The stages of a call, on the claims and retries.\<close>

lemma core_release_workspace [simp]: "core (release_workspace t s) = core s"
  by (simp add: release_workspace_def core_def)

lemma core_hooks [simp]: "core (s\<lparr>mo_hooks := h\<rparr>) = core s"
  by (simp add: core_def)

lemma core_release_task:
  "core (release_task now t why s) = (mo_retry s, snd (claim_release now (ct_taskHash t) why (mo_claims s)), mo_tasks s)"
  by (simp add: release_task_def core_def)

lemma core_fail_task:
  "core (fail_task now t why s) =
     (let r = snd (enqueueFailure now (ct_taskHash t) (ct_goal t) why (mo_retry s) (mo_claims s)) in (fst r, snd r, mo_tasks s))"
  by (simp add: fail_task_def core_def Let_def split_beta)

lemma core_task_done [simp]: "core (snd (task_done t r s)) = core s"
  by (simp add: task_done_def)

lemma core_deliver_bridge: "core (deliver (on_bridge_event w) old events s) = core s"
  by (rule deliver_frame) (rule core_bridge_event)

definition ledger_inv :: "(string \<Rightarrow> string) \<Rightarrow> int \<Rightarrow> MeshOrchestrator \<Rightarrow> bool" where
  "ledger_inv digest N s \<longleftrightarrow> ledger_ok digest N (mo_retry s) (mo_claims s)"

lemma ledger_inv_core: "core s' = core s \<Longrightarrow> ledger_inv digest N s' = ledger_inv digest N s"
  by (simp add: core_def ledger_inv_def)

lemma ledger_inv_release_task:
  "ledger_inv digest N s \<Longrightarrow> ledger_inv digest N (release_task now t why s)"
  by (simp add: ledger_inv_def release_task_def ledger_ok_release)

lemma ledger_inv_fail_task:
  "ledger_inv digest N s \<Longrightarrow> ct_taskHash t = digest (ct_goal t) \<Longrightarrow> ledger_inv digest N (fail_task now t why s)"
  using ledger_ok_enqueueFailure [of digest N "mo_retry s" "mo_claims s" "ct_goal t" "ct_taskHash t" now why]
  by (simp add: ledger_inv_def fail_task_def split_beta)

lemma tasks_frames [simp]:
  "mo_tasks (release_task now t why s) = mo_tasks s" "mo_tasks (fail_task now t why s) = mo_tasks s"
  by (simp_all add: release_task_def fail_task_def split_beta)

text \<open>What a resumption gives: the same call one stage on, or its end.\<close>

definition same_call :: "CycleTask \<Rightarrow> TaskResult \<Rightarrow> bool" where
  "same_call t res \<longleftrightarrow> (case res of Continues t' \<Rightarrow> ct_taskHash t' = ct_taskHash t \<and> ct_goal t' = ct_goal t
       \<and> ct_cycleId t' = ct_cycleId t \<and> ct_workspacePath t' = ct_workspacePath t | _ \<Rightarrow> True)"

lemma resume_keeps:
  assumes inv: "ledger_inv digest N s" and t: "ct_taskHash t = digest (ct_goal t)"
  shows "ledger_inv digest N (snd (resume digest e t s)) \<and> mo_tasks (snd (resume digest e t s)) = mo_tasks s
    \<and> same_call t (fst (resume digest e t s))"
proof -
  have tasks: "core x = core y \<Longrightarrow> mo_tasks x = mo_tasks y" for x y by (simp add: core_def)
  have gate: "ledger_inv digest N (snd (gate_hook now ev why nxt t s)) \<and> mo_tasks (snd (gate_hook now ev why nxt t s)) = mo_tasks s
      \<and> same_call t (fst (gate_hook now ev why nxt t s))" for now ev why nxt
    using inv tasks [OF core_release_workspace] ledger_inv_core [OF core_release_workspace] ledger_inv_core [OF core_hooks]
    by (auto simp: gate_hook_def Let_def same_call_def ledger_inv_release_task split: prod.split option.split)
  have ex: "ledger_inv digest N (snd (run_execute digest e t s)) \<and> mo_tasks (snd (run_execute digest e t s)) = mo_tasks s
      \<and> same_call t (fst (run_execute digest e t s))"
  proof -
    obtain out b where x: "execute digest (re_cycle e) (ct_goal t) (NYX_CONTEXT (ct_goal t)) (mo_bridge s) = (out, b)" by fastforce
    define s1 where "s1 = deliver (on_bridge_event (re_writable e)) (mb_events (mo_bridge s)) (mb_events b) (s\<lparr>mo_bridge := b\<rparr>)"
    have c: "core s1 = core s" by (simp add: s1_def core_deliver_bridge) (simp add: core_def)
    then have "ledger_inv digest N s1" "mo_tasks s1 = mo_tasks s"
      using inv ledger_inv_core [OF c] tasks [OF c] by simp_all
    then show ?thesis
      using t ledger_inv_core [OF core_release_workspace] tasks [OF core_release_workspace]
      unfolding run_execute_def x Let_def prod.case s1_def [symmetric]
      by (auto simp: same_call_def ledger_inv_fail_task split: sum.split)
  qed
  have fin: "ledger_inv digest N (snd (task_done t r s')) = ledger_inv digest N s'" "mo_tasks (snd (task_done t r s')) = mo_tasks s'"
    "same_call t (fst (task_done t r s'))" for r s'
    using ledger_inv_core [OF core_task_done] tasks [OF core_task_done] by (simp_all add: same_call_def task_done_def)
  have ar: "ledger_inv digest N (snd (after_run now t r s)) \<and> mo_tasks (snd (after_run now t r s)) = mo_tasks s
      \<and> same_call t (fst (after_run now t r s))" for now r
    using inv t ledger_inv_core [OF core_hooks]
    by (auto simp: after_run_def Let_def fin ledger_inv_release_task ledger_inv_fail_task) (simp_all add: same_call_def)
  have br: "ledger_inv digest N (snd (before_remove t r s)) \<and> mo_tasks (snd (before_remove t r s)) = mo_tasks s
      \<and> same_call t (fst (before_remove t r s))" for r
    using inv ledger_inv_core [OF core_hooks] ledger_inv_core [OF core_release_workspace] tasks [OF core_release_workspace]
    by (simp add: before_remove_def Let_def fin) (simp add: same_call_def)
  show ?thesis using gate ex ar br by (auto simp: resume_def split: InjectStage.split)
qed

lemma mesh_inv_ledger: "mesh_inv digest N (core s) \<longleftrightarrow> ledger_inv digest N s \<and> list_all (\<lambda>t. ct_taskHash t = digest (ct_goal t)) (mo_tasks s)"
  by (simp add: mesh_inv_def core_def ledger_inv_def)

lemma mesh_inv_resume:
  assumes "mesh_inv digest N (core s)"
  shows "mesh_inv digest N (core (mesh_resume digest e i s))"
proof (cases "i < length (mo_tasks s)")
  case True
  let ?t = "mo_tasks s ! i"
  have t: "ct_taskHash ?t = digest (ct_goal ?t)" using assms True by (simp add: mesh_inv_ledger list_all_length)
  obtain res s1 where r: "resume digest e ?t s = (res, s1)" by fastforce
  have k: "ledger_inv digest N s1" "mo_tasks s1 = mo_tasks s" "same_call ?t res"
    using resume_keeps [where digest = digest and N = N and s = s and t = ?t and e = e] assms t
    by (simp_all add: r mesh_inv_ledger)
  show ?thesis
    using assms True k t unfolding mesh_resume_def r prod.case if_P [OF True]
    by (cases res) (auto simp: mesh_inv_ledger ledger_inv_def same_call_def list_all_iff
        dest!: in_set_takeD in_set_dropD set_update_subset_insert [THEN subsetD])
qed (use assms in \<open>simp add: mesh_resume_def\<close>)

lemma core_frames:
  "core (mesh_chairs now op s) = core s" "core (mesh_bus now bop s) = core s" "core (mesh_gate now a s) = core s"
  "core (s\<lparr>mo_wsClients := n\<rparr>) = core s"
  by (simp_all add: mesh_chairs_def mesh_bus_def Let_def deliver_frame [where f = core] core_handlers)
    (simp_all add: core_def mesh_gate_def)

lemma mesh_inv_workflow:
  assumes "mesh_inv digest N (core s)"
    and "\<And>n. pc_maxAttempts (dw_retry (decodeWorkflowConfig fm)) = Some n \<Longrightarrow> n \<le> N"
  shows "mesh_inv digest N (core (mesh_workflow fm s))"
  using assms ledger_ok_updateConfig [where digest = digest and N = N and q = "mo_retry s" and m = "mo_claims s"
      and p = "dw_retry (decodeWorkflowConfig fm)"]
  by (simp add: mesh_workflow_def apply_workflow_def Let_def mesh_inv_def core_def)

theorem mesh_step_inv:
  assumes "mesh_step digest N s s'" and inv: "mesh_inv digest N (core s)"
  shows "mesh_inv digest N (core s')"
  using assms(1)
proof cases
  case (RetryRejected t goal err)
  then show ?thesis using inv by (simp add: mesh_inv_def core_def dispatch_failed_def ledger_ok_emit)
next
  case (Reconcile now)
  then show ?thesis
    using inv ledger_ok_reconcile [where now = now and rec = "mo_reconciler s" and m = "mo_claims s" and q = "mo_retry s"]
    by (simp add: mesh_inv_def core_def mesh_reconcile_def split_beta)
qed (use inv in \<open>simp_all add: mesh_inv_inject mesh_inv_resume mesh_inv_retry_sweep core_governor_sweep core_note_activity
       core_frames core_handlers mesh_inv_workflow\<close>)

lemma mesh_reach_inv: "mesh_reach digest N s \<Longrightarrow> mesh_inv digest N (core s)"
  by (induction rule: mesh_reach.induct) (auto intro: new_mesh_inv mesh_step_inv)

section \<open>A call from its first stage to its end\<close>

lemma workspaces_frames:
  "mo_workspaces (on_bridge_event w ev s) = mo_workspaces s" "mo_workspaces (on_mode_change now g s) = mo_workspaces s"
  "mo_workspaces (release_task now t why s) = mo_workspaces s" "mo_workspaces (fail_task now t why s) = mo_workspaces s"
proof -
  have b: "mo_workspaces (broadcast p s) = mo_workspaces s" "mo_workspaces (mesh_out cs s) = mo_workspaces s" for p cs s
    by (simp_all add: broadcast_def mesh_out_def Let_def split: Broadcast.split)
  show "mo_workspaces (on_bridge_event w ev s) = mo_workspaces s"
    by (cases ev) (simp_all add: on_phase_change_def on_cycle_complete_def Let_def b split: option.split)
  show "mo_workspaces (on_mode_change now g s) = mo_workspaces s"
    by (simp add: on_mode_change_def enterLightweightMode_def enterActiveMode_def Let_def b)
  show "mo_workspaces (release_task now t why s) = mo_workspaces s" by (simp add: release_task_def)
  show "mo_workspaces (fail_task now t why s) = mo_workspaces s" by (simp add: fail_task_def split_beta)
qed

lemma hooks_frames:
  "mo_hooks (on_bridge_event w ev s) = mo_hooks s" "mo_hooks (on_mode_change now g s) = mo_hooks s"
  "mo_hooks (release_task now t why s) = mo_hooks s" "mo_hooks (fail_task now t why s) = mo_hooks s"
proof -
  have b: "mo_hooks (broadcast p s) = mo_hooks s" "mo_hooks (mesh_out cs s) = mo_hooks s" for p cs s
    by (simp_all add: broadcast_def mesh_out_def Let_def split: Broadcast.split)
  show "mo_hooks (on_bridge_event w ev s) = mo_hooks s"
    by (cases ev) (simp_all add: on_phase_change_def on_cycle_complete_def Let_def b split: option.split)
  show "mo_hooks (on_mode_change now g s) = mo_hooks s"
    by (simp add: on_mode_change_def enterLightweightMode_def enterActiveMode_def Let_def b)
  show "mo_hooks (release_task now t why s) = mo_hooks s" by (simp add: release_task_def)
  show "mo_hooks (fail_task now t why s) = mo_hooks s" by (simp add: fail_task_def split_beta)
qed

lemma note_activity_frames:
  "mo_workspaces (note_activity now why s) = mo_workspaces s" "mo_claims (note_activity now why s) = mo_claims s"
  "mo_retry (note_activity now why s) = mo_retry s" "mo_tasks (note_activity now why s) = mo_tasks s"
  using core_note_activity [of now why s]
  by (simp_all add: note_activity_def Let_def deliver_frame [where f = mo_workspaces] workspaces_frames core_def)

definition settled :: "ClaimState option \<Rightarrow> bool" where
  "settled st \<longleftrightarrow> st = Some Released \<or> st = Some RetryQueued"

lemma release_task_settles:
  assumes "state_of (ct_taskHash t) (mo_claims s) = Some Running"
  shows "state_of (ct_taskHash t) (mo_claims (release_task now t why s)) = Some Released"
proof -
  have "fst (claim_transition now (ct_taskHash t) Released None rs (mo_claims s))" for rs
    using assms by (auto simp: claim_transition_fst state_of_def)
  then show ?thesis by (simp add: release_task_def claim_release_def state_of_transition)
qed

lemma fail_task_settles:
  assumes "state_of (ct_taskHash t) (mo_claims s) = Some Running"
  shows "settled (state_of (ct_taskHash t) (mo_claims (fail_task now t why s)))"
proof -
  obtain r where r: "om_get (ledger (mo_claims s)) (ct_taskHash t) = Some r" "cr_state r = Running"
    using assms by (auto simp: state_of_def)
  then have "fst (claim_transition now (ct_taskHash t) Released None rs (mo_claims s))" for rs
    by (simp add: claim_transition_fst)
  then show ?thesis
    using r assms
    by (simp add: fail_task_def split_beta enqueueFailure_claims claim_get_def settled_def claim_release_def
        state_of_transition state_of_markRetryQueued markRetryQueued_iff)
qed

lemma ws_release_gone: "om_get (ws_active (ws_release c w)) c = None"
  by (simp add: ws_release_def Let_def split: option.split)

text \<open>Where a call's task and workspace are between two stages.\<close>

definition stage_ok :: "CycleTask \<Rightarrow> MeshOrchestrator \<Rightarrow> bool" where
  "stage_ok t s \<longleftrightarrow>
     (case ct_stage t of
        AtBeforeRemove r \<Rightarrow> settled (state_of (ct_taskHash t) (mo_claims s))
          \<and> (vr_status r = ReceiptVerified \<longrightarrow> state_of (ct_taskHash t) (mo_claims s) = Some Released)
      | _ \<Rightarrow> state_of (ct_taskHash t) (mo_claims s) = Some Running)
     \<and> (om_get (ws_active (mo_workspaces s)) (ct_cycleId t) \<noteq> None \<longrightarrow> truthy_str (ct_workspacePath t))
     \<and> sound_hooks (mo_hooks s)"

definition ended_ok :: "CycleTask \<Rightarrow> TaskResult \<Rightarrow> MeshOrchestrator \<Rightarrow> bool" where
  "ended_ok t res s \<longleftrightarrow> settled (state_of (ct_taskHash t) (mo_claims s))
     \<and> om_get (ws_active (mo_workspaces s)) (ct_cycleId t) = None
     \<and> (\<forall>r. res = Finished r \<and> vr_status r = ReceiptVerified \<longrightarrow> state_of (ct_taskHash t) (mo_claims s) = Some Released)
     \<and> (\<forall>st. res \<noteq> Threw (DuplicateDispatch st))"

fun stages_left :: "InjectStage \<Rightarrow> nat" where
  "stages_left AtAfterCreate = 5"
| "stages_left AtBeforeRun = 4"
| "stages_left AtExecute = 3"
| "stages_left (AtAfterRun _) = 2"
| "stages_left (AtBeforeRemove _) = 1"

definition progress :: "CycleTask \<Rightarrow> TaskResult \<times> MeshOrchestrator \<Rightarrow> bool" where
  "progress t x \<longleftrightarrow> (case fst x of
       Continues t' \<Rightarrow> stage_ok t' (snd x) \<and> stages_left (ct_stage t') < stages_left (ct_stage t)
         \<and> ct_taskHash t' = ct_taskHash t \<and> ct_cycleId t' = ct_cycleId t
     | res \<Rightarrow> ended_ok t res (snd x))"

lemma released_ended:
  assumes "stage_ok t s" and "settled (state_of (ct_taskHash t) (mo_claims s'))"
    and "mo_workspaces s' = mo_workspaces s" and "res = Threw e" and "\<And>st. e \<noteq> DuplicateDispatch st"
  shows "ended_ok t res (release_workspace t s')"
  using assms by (auto simp: ended_ok_def release_workspace_def stage_ok_def ws_release_gone)

lemma gate_hook_progress:
  assumes "stage_ok t s" and "ct_stage t = AtAfterCreate \<and> nxt = AtBeforeRun \<or> ct_stage t = AtBeforeRun \<and> nxt = AtExecute"
  shows "progress t (gate_hook now ev why nxt t s)"
proof -
  have snd: "sound_hooks (mo_hooks s)" using assms(1) by (simp add: stage_ok_def)
  then obtain rs h where run: "hook_run ev (hook_ctx t) (mo_hooks s) = (Some rs, h)"
    using sound_run by (metis prod.collapse)
  have h: "sound_hooks h" using snd sound_hooks_run [of ev "hook_ctx t" "mo_hooks s"] by (simp add: run)
  let ?s = "release_workspace t (s\<lparr>mo_hooks := h\<rparr>)"
  have st: "state_of (ct_taskHash t) (mo_claims s) = Some Running" using assms by (auto simp: stage_ok_def)
  have "mo_claims ?s = mo_claims s" by (simp add: release_workspace_def)
  then have rel: "state_of (ct_taskHash t) (mo_claims (release_task now t why ?s)) = Some Released"
    using release_task_settles [of t ?s] st by simp
  have ws: "om_get (ws_active (mo_workspaces (release_task now t why ?s))) (ct_cycleId t) = None"
    using assms(1) by (auto simp: workspaces_frames release_workspace_def stage_ok_def ws_release_gone)
  show ?thesis
    using assms rel ws h by (auto simp: gate_hook_def run Let_def progress_def ended_ok_def settled_def stage_ok_def)
qed

lemma run_execute_progress:
  assumes ok: "stage_ok t s" and stg: "ct_stage t = AtExecute"
  shows "progress t (run_execute digest e t s)"
proof -
  obtain out b where x: "execute digest (re_cycle e) (ct_goal t) (NYX_CONTEXT (ct_goal t)) (mo_bridge s) = (out, b)" by fastforce
  define s1 where "s1 = deliver (on_bridge_event (re_writable e)) (mb_events (mo_bridge s)) (mb_events b) (s\<lparr>mo_bridge := b\<rparr>)"
  have "core s1 = core s" by (simp add: s1_def core_deliver_bridge) (simp add: core_def)
  then have c: "mo_claims s1 = mo_claims s" by (simp add: core_def)
  have w: "mo_workspaces s1 = mo_workspaces s"
    by (simp add: s1_def deliver_frame [where f = mo_workspaces] workspaces_frames)
  have hk: "mo_hooks s1 = mo_hooks s"
    by (simp add: s1_def deliver_frame [where f = mo_hooks] hooks_frames)
  have "settled (state_of (ct_taskHash t) (mo_claims (fail_task (re_now e) t why s1)))" for why
    using fail_task_settles [of t s1] ok stg c by (simp add: stage_ok_def)
  then have thr: "ended_ok t (Threw (ExecuteThrew err)) (release_workspace t (fail_task (re_now e) t why s1))" for err why
    by (intro released_ended [OF ok, where e = "ExecuteThrew err"]) (simp_all add: workspaces_frames w)
  show ?thesis
    using ok stg thr unfolding run_execute_def x Let_def prod.case s1_def [symmetric]
    by (auto simp: progress_def stage_ok_def c w hk split: sum.split)
qed

lemma task_done_ended:
  assumes "settled (state_of (ct_taskHash t) (mo_claims s))" and "om_get (ws_active (mo_workspaces s)) (ct_cycleId t) = None"
    and "vr_status r = ReceiptVerified \<Longrightarrow> state_of (ct_taskHash t) (mo_claims s) = Some Released"
  shows "progress t (task_done t r s)"
  using assms by (auto simp: progress_def task_done_def ended_ok_def broadcast_def mesh_out_def Let_def)

lemma after_run_progress:
  assumes ok: "stage_ok t s" and stg: "ct_stage t = AtAfterRun r"
  shows "progress t (after_run now t r s)"
proof -
  let ?s1 = "s\<lparr>mo_hooks := snd (hook_run AfterRun (hook_ctx t) (mo_hooks s))\<rparr>"
  define s2 where "s2 = (if vr_status r = ReceiptVerified then release_task now t ''cycle_succeeded'' ?s1
    else fail_task now t (''cycle_failed:'' @ vr_id r) ?s1)"
  have st: "state_of (ct_taskHash t) (mo_claims ?s1) = Some Running" using ok stg by (simp add: stage_ok_def)
  obtain rs where ran: "fst (hook_run AfterRun (hook_ctx t) (mo_hooks s)) = Some rs"
    using ok sound_run by (fastforce simp: stage_ok_def)
  have hk: "sound_hooks (mo_hooks s2)" using ok by (simp add: s2_def hooks_frames stage_ok_def)
  have set2: "settled (state_of (ct_taskHash t) (mo_claims s2))"
    and ver: "vr_status r = ReceiptVerified \<Longrightarrow> state_of (ct_taskHash t) (mo_claims s2) = Some Released"
    using release_task_settles [OF st] fail_task_settles [OF st] by (simp_all add: s2_def settled_def)
  have w: "mo_workspaces s2 = mo_workspaces s" by (simp add: s2_def workspaces_frames)
  show ?thesis
  proof (cases "truthy_str (ct_workspacePath t)")
    case True
    then show ?thesis using ok stg set2 ver w ran hk
      by (simp add: after_run_def Let_def s2_def [symmetric] progress_def stage_ok_def)
  next
    case False
    have "progress t (task_done t r s2)"
      using False ok set2 ver w by (intro task_done_ended) (auto simp: stage_ok_def)
    then show ?thesis using False ran by (simp add: after_run_def Let_def s2_def [symmetric])
  qed
qed

lemma before_remove_progress:
  assumes ok: "stage_ok t s" and stg: "ct_stage t = AtBeforeRemove r"
  shows "progress t (before_remove t r s)"
proof -
  obtain rs where "fst (hook_run BeforeRemove (hook_ctx t) (mo_hooks s)) = Some rs"
    using ok sound_run by (fastforce simp: stage_ok_def)
  moreover have "progress t (task_done t r (release_workspace t (s\<lparr>mo_hooks := h\<rparr>)))" for h
    by (rule task_done_ended) (use ok stg in \<open>auto simp: stage_ok_def release_workspace_def ws_release_gone\<close>)
  ultimately show ?thesis by (simp add: before_remove_def Let_def)
qed

lemma resume_progress: "stage_ok t s \<Longrightarrow> progress t (resume digest e t s)"
  unfolding resume_def
  by (cases "ct_stage t")
    (simp_all add: gate_hook_progress run_execute_progress after_run_progress before_remove_progress)

lemma resume_all_stop:
  "resume_all digest env others n (Finished r, s) = (Finished r, s)"
  "resume_all digest env others n (Threw err, s) = (Threw err, s)"
  by (cases n; simp)+

text \<open>What runs while a call waits may do anything but touch its claim and its workspace, and
  register hooks that reject with nothing.\<close>

definition leaves_alone :: "string \<Rightarrow> string \<Rightarrow> interference \<Rightarrow> bool" where
  "leaves_alone h c others \<longleftrightarrow> (\<forall>n u. state_of h (mo_claims (others n u)) = state_of h (mo_claims u)
     \<and> om_get (ws_active (mo_workspaces (others n u))) c = om_get (ws_active (mo_workspaces u)) c
     \<and> (sound_hooks (mo_hooks u) \<longrightarrow> sound_hooks (mo_hooks (others n u))))"

lemma stage_ok_others:
  assumes "stage_ok t s" and "leaves_alone (ct_taskHash t) (ct_cycleId t) others"
  shows "stage_ok t (others n s)"
  using assms by (auto simp: stage_ok_def leaves_alone_def split: InjectStage.splits)

lemma resume_all_ends:
  "stage_ok t s \<Longrightarrow> leaves_alone (ct_taskHash t) (ct_cycleId t) others \<Longrightarrow> stages_left (ct_stage t) \<le> n \<Longrightarrow>
     (case resume_all digest env others n (Continues t, s) of (res, s') \<Rightarrow> ended_ok t res s' \<and> (\<forall>t'. res \<noteq> Continues t'))"
proof (induction n arbitrary: t s env)
  case 0
  then show ?case by (cases "ct_stage t") auto
next
  case (Suc n)
  obtain res s1 where r: "resume digest (env n) t (others n s) = (res, s1)" by fastforce
  have p: "progress t (res, s1)"
    using resume_progress [OF stage_ok_others [OF Suc.prems(1,2)], of digest "env n" n] by (simp add: r)
  show ?case
  proof (cases res)
    case (Continues t')
    then have "case resume_all digest env others n (Continues t', s1) of (res, s') \<Rightarrow> ended_ok t' res s' \<and> (\<forall>t'. res \<noteq> Continues t')"
      using p Suc.prems(2,3) by (intro Suc.IH) (auto simp: progress_def)
    then show ?thesis using p Continues by (simp add: r progress_def ended_ok_def split_beta)
  qed (use p in \<open>simp_all add: r progress_def resume_all_stop\<close>)
qed

section \<open>The tasks a sweep starts\<close>

lemma due_records:
  assumes "claims_inv m"
  shows "distinct (map cr_taskHash (dueForRetry now m))"
    and "\<And>r. r \<in> set (dueForRetry now m) \<Longrightarrow> profile (cr_taskHash r) m = Some (RetryQueued, cr_attempt r)"
proof -
  have "distinct (map cr_taskHash (claim_snapshot m))"
    using assms snapshot_records(1) [OF assms] by (simp add: claims_inv_def)
  then show "distinct (map cr_taskHash (dueForRetry now m))"
    by (simp add: dueForRetry_def claim_snapshot_def distinct_map_filter)
  show "profile (cr_taskHash r) m = Some (RetryQueued, cr_attempt r)" if "r \<in> set (dueForRetry now m)" for r
  proof -
    have "r \<in> set (claim_snapshot m)" and "cr_state r = RetryQueued"
      using that by (auto simp: dueForRetry_def claim_snapshot_def)
    then show ?thesis using snapshot_records(2) [OF assms, of r] by (simp add: profile_def)
  qed
qed

lemma mesh_sweep_one_task:
  assumes "ledger_inv digest N s" and "state_of (cr_taskHash r) (mo_claims s) = Some RetryQueued"
  shows "map ct_taskHash (mo_tasks (mesh_sweep_one digest now uuid mk s r)) = map ct_taskHash (mo_tasks s) @ [cr_taskHash r]"
    and "t \<noteq> cr_taskHash r \<Longrightarrow>
      state_of t (mo_claims (mesh_sweep_one digest now uuid mk s r)) = state_of t (mo_claims s)"
proof -
  obtain g d where gd: "om_get (rq_pending (mo_retry s)) (cr_taskHash r) = Some (g, d)"
    using assms by (fastforce simp: ledger_inv_def ledger_ok_def coherent_def)
  then have g: "digest g = cr_taskHash r" using assms(1) by (auto simp: ledger_inv_def ledger_ok_def coherent_def)
  define s0 where "s0 = s\<lparr>mo_retry := rq_emit (RetryDispatching d)
      ((mo_retry s)\<lparr>rq_pending := om_delete (cr_taskHash r) (rq_pending (mo_retry s))\<rparr>)\<rparr>"
  obtain x s1 where i: "inject_begin digest now (uuid g) (mk g) g s0 = (x, s1)" by fastforce
  have "fst (inject_claims now digest (uuid g) g (mo_claims s0))"
    using assms(2) by (simp add: inject_claims_fst g s0_def)
  then obtain t0 where x: "x = Inr t0" "ct_taskHash t0 = digest g"
    using inject_begin_result [where digest = digest and now = now and c = "uuid g" and mk = "mk g" and g = g and s = s0]
    by (cases x) (simp_all add: i)
  have c: "core s1 = (mo_retry s0, snd (inject_claims now digest (uuid g) g (mo_claims s)), mo_tasks s)"
    using inject_begin_core [where digest = digest and now = now and c = "uuid g" and mk = "mk g" and g = g and s = s0]
    by (simp add: i) (simp add: s0_def)
  show "map ct_taskHash (mo_tasks (mesh_sweep_one digest now uuid mk s r)) = map ct_taskHash (mo_tasks s) @ [cr_taskHash r]"
    using gd c x g by (simp add: mesh_sweep_one_def s0_def [symmetric] i core_def)
  show "state_of t (mo_claims (mesh_sweep_one digest now uuid mk s r)) = state_of t (mo_claims s)" if "t \<noteq> cr_taskHash r"
    using gd c x g that by (simp add: mesh_sweep_one_def s0_def [symmetric] i core_def state_of_def ledger_inject_other)
qed

lemma mesh_sweep_tasks:
  "mesh_inv digest N (core s) \<Longrightarrow> distinct (map cr_taskHash rs) \<Longrightarrow>
     (\<And>r. r \<in> set rs \<Longrightarrow> state_of (cr_taskHash r) (mo_claims s) = Some RetryQueued) \<Longrightarrow>
     map ct_taskHash (mo_tasks (foldl (mesh_sweep_one digest now uuid mk) s rs)) = map ct_taskHash (mo_tasks s) @ map cr_taskHash rs"
proof (induction rs arbitrary: s)
  case (Cons r rs)
  let ?s = "mesh_sweep_one digest now uuid mk s r"
  have l: "ledger_inv digest N s" using Cons.prems(1) by (simp add: mesh_inv_ledger)
  note one = mesh_sweep_one_task [OF l Cons.prems(3) [of r, simplified], where now = now and uuid = uuid and mk = mk]
  have "map ct_taskHash (mo_tasks (foldl (mesh_sweep_one digest now uuid mk) ?s rs)) = map ct_taskHash (mo_tasks ?s) @ map cr_taskHash rs"
  proof (rule Cons.IH)
    show "mesh_inv digest N (core ?s)" using Cons.prems(1) by (rule mesh_inv_sweep_one)
    show "state_of (cr_taskHash r') (mo_claims ?s) = Some RetryQueued" if "r' \<in> set rs" for r'
      using one(2) [where t = "cr_taskHash r'"] Cons.prems(2,3) that by (auto simp: image_iff)
  qed (use Cons.prems(2) in simp)
  then show ?case using one(1) by simp
qed simp

section \<open>An example run\<close>

definition example_mesh :: MeshOrchestrator where
  "example_mesh = projr (new_mesh (\<lambda>_. None) ''/srv'' 0
     \<lparr>pc_maxAttempts = None, pc_baseMs = None, pc_factor = None, pc_sweepIntervalMs = None\<rparr> DEFAULT_RECONCILER_CONFIG
     \<lparr>rmo_enabled = None, rmo_idleAfterMs = None, rmo_sweepIntervalMs = None, rmo_idleTaskCacheRetain = None, rmo_idleTraceRetain = None\<rparr>
     (new_registry 0 DEFAULT_CHAIR_REGISTRY_CONFIG None) (new_bus [] []) (\<lambda>a. a) NoFile False)"

definition example_env :: ResumeEnv where
  "example_env = \<lparr>re_now = 10, re_cycle = \<lparr>cy_cycleId = ''c1'', cy_taskId = ''t'', cy_receiptId = ''r'', cy_checksum = ''ok'',
     cy_start = 5, cy_end = 9, cy_stored = False\<rparr>, re_errorText = (\<lambda>_. ''disk''), re_writable = True\<rparr>"

lemma example_mesh_new:
  "\<exists>penv cwd now retry rc ov registry bus persona matrix park.
     new_mesh penv cwd now retry rc ov registry bus persona matrix park = Inr example_mesh"
  and example_mesh_simps: "mo_claims example_mesh = new_claims" "rq_cfg (mo_retry example_mesh) = DEFAULT_RETRY_CONFIG"
    "mo_tasks example_mesh = []" "mo_hooks example_mesh = default_hooks" "ws_active (mo_workspaces example_mesh) = []"
    "rg_mode (mo_governor example_mesh) = Active"
proof -
  have q: "new_retry_queue \<lparr>pc_maxAttempts = None, pc_baseMs = None, pc_factor = None, pc_sweepIntervalMs = None\<rparr> =
      Inr \<lparr>rq_cfg = DEFAULT_RETRY_CONFIG, rq_pending = [], rq_timer = None, rq_bound = False, rq_events = []\<rparr>"
    by (simp add: new_retry_queue_def merge_retry_config_def DEFAULT_RETRY_CONFIG_def Let_def)
  show "mo_claims example_mesh = new_claims" "rq_cfg (mo_retry example_mesh) = DEFAULT_RETRY_CONFIG"
    "mo_tasks example_mesh = []" "mo_hooks example_mesh = default_hooks" "ws_active (mo_workspaces example_mesh) = []"
    "rg_mode (mo_governor example_mesh) = Active"
    unfolding example_mesh_def new_mesh_def q Let_def sum.case sum.sel
    by (simp_all add: rq_start_def rq_bind_def new_workspaces_def rg_start_def new_governor_def)
  have "\<exists>s. new_mesh (\<lambda>_. None) ''/srv'' 0
     \<lparr>pc_maxAttempts = None, pc_baseMs = None, pc_factor = None, pc_sweepIntervalMs = None\<rparr> DEFAULT_RECONCILER_CONFIG
     \<lparr>rmo_enabled = None, rmo_idleAfterMs = None, rmo_sweepIntervalMs = None, rmo_idleTaskCacheRetain = None, rmo_idleTraceRetain = None\<rparr>
     (new_registry 0 DEFAULT_CHAIR_REGISTRY_CONFIG None) (new_bus [] []) (\<lambda>a. a) NoFile False = Inr s"
    unfolding new_mesh_def q Let_def sum.case by blast
  then show "\<exists>penv cwd now retry rc ov registry bus persona matrix park.
     new_mesh penv cwd now retry rc ov registry bus persona matrix park = Inr example_mesh"
    unfolding example_mesh_def by (metis sum.sel(2))
qed

lemma example_reach: "mesh_reach digest 3 example_mesh"
proof -
  have "rc_maxAttempts (rq_cfg (mo_retry example_mesh)) \<le> 3"
    unfolding example_mesh_simps by (simp add: DEFAULT_RETRY_CONFIG_def)
  then show ?thesis using example_mesh_new mesh_reach.Start by blast
qed

text \<open>Hooks like the default ones never abort.\<close>

definition quiet_hooks :: "HookRunner \<Rightarrow> bool" where
  "quiet_hooks h \<longleftrightarrow> (\<forall>ev ctx. \<forall>f \<in> set (handlers_of ev h). \<exists>r. runOne f ctx = Some r \<and> hr_success r)"

lemma quiet_sound: "quiet_hooks h \<Longrightarrow> sound_hooks h"
  by (fastforce simp: quiet_hooks_def sound_hooks_def)

lemma quiet_run:
  assumes "quiet_hooks h"
  shows "\<exists>rs. fst (hook_run ev ctx h) = Some rs \<and> \<not> shouldAbort ev rs" and "quiet_hooks (snd (hook_run ev ctx h))"
proof -
  obtain rs where rs: "fst (hook_run ev ctx h) = Some rs" using sound_run [OF quiet_sound [OF assms]] by blast
  then have m: "map Some rs = map (\<lambda>f. runOne f ctx) (take (length rs) (handlers_of ev h))"
    and a: "shouldAbort ev rs \<longrightarrow> rs \<noteq> [] \<and> \<not> hr_success (last rs)"
    using hook_gate [where ev = ev and ctx = ctx and s = h] by simp_all
  have "hr_success r" if "r \<in> set rs" for r
  proof -
    have "Some r \<in> set (map (\<lambda>f. runOne f ctx) (take (length rs) (handlers_of ev h)))" using that m by (metis image_eqI list.set_map)
    then obtain f where "f \<in> set (handlers_of ev h)" "runOne f ctx = Some r" by (auto dest!: in_set_takeD)
    moreover from this(1) have "\<exists>r. runOne f ctx = Some r \<and> hr_success r" using assms unfolding quiet_hooks_def by blast
    ultimately show ?thesis by simp
  qed
  then show "\<exists>rs. fst (hook_run ev ctx h) = Some rs \<and> \<not> shouldAbort ev rs" using rs a last_in_set by metis
  show "quiet_hooks (snd (hook_run ev ctx h))" using assms by (simp add: quiet_hooks_def)
qed

lemma quiet_default: "quiet_hooks default_hooks"
proof -
  have "\<forall>f \<in> set (handlers_of ev default_hooks). \<exists>r. runOne f ctx = Some r \<and> hr_success r" for ev ctx
    by (cases ev) (simp_all add: default_hooks_def hook_register_def handlers_of_def runOne_def Let_def)
  then show ?thesis by (simp add: quiet_hooks_def)
qed

lemma gate_hook_quiet:
  assumes "quiet_hooks (mo_hooks s)"
  shows "\<exists>h. quiet_hooks h \<and> gate_hook now ev why nxt t s = (Continues (t\<lparr>ct_stage := nxt\<rparr>), s\<lparr>mo_hooks := h\<rparr>)"
  using quiet_run [OF assms, of ev "hook_ctx t"] by (auto simp: gate_hook_def Let_def split: prod.split)

lemma hooks_note_activity: "mo_hooks (note_activity now why s) = mo_hooks s"
  by (simp add: note_activity_def Let_def deliver_frame [where f = mo_hooks] hooks_frames)

lemma hooks_inject_begin: "mo_hooks (snd (inject_begin digest now c mk g s)) = mo_hooks s"
  using hooks_note_activity [of now "''task:inject''" s]
  unfolding inject_begin_def Let_def by (auto split: prod.split sum.split)

lemma mesh_resume_quiet:
  assumes "mo_tasks s = [t]" and "quiet_hooks (mo_hooks s)"
    and "ct_stage t = AtAfterCreate \<and> nxt = AtBeforeRun \<or> ct_stage t = AtBeforeRun \<and> nxt = AtExecute"
  shows "\<exists>h. quiet_hooks h \<and> mesh_resume digest e 0 s = s\<lparr>mo_hooks := h, mo_tasks := [t\<lparr>ct_stage := nxt\<rparr>]\<rparr>"
proof -
  obtain ev why where r: "resume digest e t s = gate_hook (re_now e) ev why nxt t s"
    using assms(3) by (auto simp: resume_def)
  obtain h where "quiet_hooks h" "gate_hook (re_now e) ev why nxt t s = (Continues (t\<lparr>ct_stage := nxt\<rparr>), s\<lparr>mo_hooks := h\<rparr>)"
    using gate_hook_quiet [OF assms(2)] by blast
  then show ?thesis using assms(1) r by (intro exI [of _ h]) (simp add: mesh_resume_def)
qed

lemma run_execute_unstored:
  assumes "\<not> cy_stored (re_cycle e)"
  shows "fst (run_execute digest e t s) = Threw (ExecuteThrew CycleStoreFailed)"
    and "\<exists>why. mo_claims (snd (run_execute digest e t s)) =
      snd (snd (enqueueFailure (re_now e) (ct_taskHash t) (ct_goal t) why (mo_retry s) (mo_claims s)))"
proof -
  obtain b where x: "execute digest (re_cycle e) (ct_goal t) (NYX_CONTEXT (ct_goal t)) (mo_bridge s) = (Inl CycleStoreFailed, b)"
    using execute_unstored [OF assms] by (metis prod.collapse)
  define s1 where "s1 = deliver (on_bridge_event (re_writable e)) (mb_events (mo_bridge s)) (mb_events b) (s\<lparr>mo_bridge := b\<rparr>)"
  have "core s1 = core s" by (simp add: s1_def core_deliver_bridge) (simp add: core_def)
  then have c: "mo_claims s1 = mo_claims s" "mo_retry s1 = mo_retry s" by (simp_all add: core_def)
  have w: "mo_claims (release_workspace t s') = mo_claims s'" for s' by (simp add: release_workspace_def)
  show "fst (run_execute digest e t s) = Threw (ExecuteThrew CycleStoreFailed)"
    unfolding run_execute_def x by (simp add: Let_def)
  show "\<exists>why. mo_claims (snd (run_execute digest e t s)) =
      snd (snd (enqueueFailure (re_now e) (ct_taskHash t) (ct_goal t) why (mo_retry s) (mo_claims s)))"
    unfolding run_execute_def x prod.case Let_def s1_def [symmetric]
    by (intro exI) (simp add: w fail_task_def split_beta c)
qed

lemma failed_is_due:
  assumes "om_get (ledger m) t = Some r" and "cr_state r = Running" and "int (cr_attempt r) < rc_maxAttempts (rq_cfg q)"
    and "of_int now + backoff (rq_cfg q) (cr_attempt r) \<le> of_int later" and "cr_taskHash r = t"
  shows "\<exists>r' \<in> set (dueForRetry later (snd (snd (enqueueFailure now t g why q m)))). cr_taskHash r' = t \<and> cr_attempt r' = cr_attempt r"
proof -
  let ?r = "r\<lparr>cr_state := RetryQueued, cr_updatedAt := now, cr_retryAfter := Some (of_int now + backoff (rq_cfg q) (cr_attempt r))\<rparr>"
  have "om_get (ledger (snd (snd (enqueueFailure now t g why q m)))) t = Some ?r"
    using get_markRetryQueued [OF assms(1,2)] assms(1,3) by (simp add: enqueueFailure_claims claim_get_def)
  then have "?r \<in> set (om_values (ledger (snd (snd (enqueueFailure now t g why q m)))))"
    by (force dest: map_of_SomeD)
  then show ?thesis using assms(4,5) by (intro bexI [of _ ?r]) (auto simp: dueForRetry_def)
qed

text \<open>A goal whose first cycle fails because its receipt cannot be stored is due again later.\<close>

lemma example_due:
  "\<exists>s. mesh_reach id 3 s \<and> (\<exists>r \<in> set (dueForRetry 5000 (mo_claims s)). cr_taskHash r = ''g'' \<and> cr_attempt r = 1)"
proof -
  obtain x s0 where i: "inject_begin id 1 ''c1'' False ''g'' example_mesh = (x, s0)" by fastforce
  have ok: "fst (inject_claims 1 id ''c1'' ''g'' (mo_claims example_mesh))"
    by (simp add: inject_claims_fst example_mesh_simps new_claims_def state_of_def)
  then obtain t where x: "x = Inr t" "ct_taskHash t = ''g''" "ct_goal t = ''g''" "ct_stage t = AtAfterCreate"
    using inject_begin_result [where digest = id and now = 1 and c = "''c1''" and mk = False and g = "''g''" and s = example_mesh]
    by (cases x) (simp_all add: i)
  have c0: "core s0 = (mo_retry example_mesh, snd (inject_claims 1 id ''c1'' ''g'' (mo_claims example_mesh)), [])"
    using inject_begin_core [where digest = id and now = 1 and c = "''c1''" and mk = False and g = "''g''" and s = example_mesh]
    by (simp add: i example_mesh_simps)
  define s1 where "s1 = s0\<lparr>mo_tasks := [t]\<rparr>"
  have s1: "mesh_inject id 1 ''c1'' False ''g'' example_mesh = s1"
    using c0 by (simp add: mesh_inject_def i x s1_def core_def)
  have r1: "mesh_reach id 3 s1" using mesh_reach.Step [OF example_reach mesh_step.Inject, of id 1 "''c1''" False "''g''"] by (simp add: s1)
  have q1: "quiet_hooks (mo_hooks s1)"
    using hooks_inject_begin [where digest = id and now = 1 and c = "''c1''" and mk = False and g = "''g''" and s = example_mesh]
    by (simp add: i s1_def example_mesh_simps quiet_default)
  obtain h2 where h2: "quiet_hooks h2" "mesh_resume id example_env 0 s1 = s1\<lparr>mo_hooks := h2, mo_tasks := [t\<lparr>ct_stage := AtBeforeRun\<rparr>]\<rparr>"
    using mesh_resume_quiet [OF _ q1, of t AtBeforeRun id example_env] x by (auto simp: s1_def)
  define s2 where "s2 = s1\<lparr>mo_hooks := h2, mo_tasks := [t\<lparr>ct_stage := AtBeforeRun\<rparr>]\<rparr>"
  have r2: "mesh_reach id 3 s2" using mesh_reach.Step [OF r1 mesh_step.Resume, of example_env 0] by (simp add: h2 s2_def)
  obtain h3 where h3: "mesh_resume id example_env 0 s2 = s2\<lparr>mo_hooks := h3, mo_tasks := [t\<lparr>ct_stage := AtExecute\<rparr>]\<rparr>"
    using mesh_resume_quiet [of s2 "t\<lparr>ct_stage := AtBeforeRun\<rparr>" AtExecute id example_env] h2(1) by (auto simp: s2_def)
  define s3 where "s3 = s2\<lparr>mo_hooks := h3, mo_tasks := [t\<lparr>ct_stage := AtExecute\<rparr>]\<rparr>"
  have r3: "mesh_reach id 3 s3" using mesh_reach.Step [OF r2 mesh_step.Resume, of example_env 0] by (simp add: h3 s3_def)
  let ?t = "t\<lparr>ct_stage := AtExecute\<rparr>"
  have unst: "\<not> cy_stored (re_cycle example_env)" "re_now example_env = 10" by (simp_all add: example_env_def)
  obtain why where why: "mo_claims (snd (run_execute id example_env ?t s3)) = snd (snd (enqueueFailure 10 ''g'' ''g'' why (mo_retry s3) (mo_claims s3)))"
    using run_execute_unstored(2) [OF unst(1), of id ?t s3] x unst(2) by auto
  have "mesh_resume id example_env 0 s3 = (snd (run_execute id example_env ?t s3))\<lparr>mo_tasks := []\<rparr>"
    using run_execute_unstored(1) [OF unst(1), of id ?t s3] resume_keeps [where digest = id and N = 3 and s = s3 and t = ?t and e = example_env]
      mesh_reach_inv [OF r3] x
    by (simp add: mesh_resume_def s3_def resume_def split_beta mesh_inv_ledger)
  then have r4: "mesh_reach id 3 ((snd (run_execute id example_env ?t s3))\<lparr>mo_tasks := []\<rparr>)"
    using mesh_reach.Step [OF r3 mesh_step.Resume, of example_env 0] by simp
  have m3: "mo_claims s3 = snd (inject_claims 1 id ''c1'' ''g'' (mo_claims example_mesh))" "mo_retry s3 = mo_retry example_mesh"
    using c0 by (simp_all add: s3_def s2_def s1_def core_def)
  have "profile ''g'' (mo_claims s3) = Some (Running, 1)"
    using ok by (simp add: m3 profile_inject) (simp add: example_mesh_simps new_claims_def profile_def)
  then obtain r where r: "om_get (ledger (mo_claims s3)) ''g'' = Some r" "cr_state r = Running" "cr_attempt r = 1"
    by (auto simp: profile_def)
  have "cr_taskHash r = ''g''"
    using r(1) mesh_reach_inv [OF r3] by (auto simp: mesh_inv_def core_def ledger_ok_def claims_inv_def record_ok_def)
  then have "\<exists>r' \<in> set (dueForRetry 5000 (mo_claims (snd (run_execute id example_env ?t s3)))). cr_taskHash r' = ''g'' \<and> cr_attempt r' = 1"
    using failed_is_due [OF r(1,2), of "mo_retry s3" 10 5000 "''g''" why] r(3)
    by (simp add: why m3 example_mesh_simps DEFAULT_RETRY_CONFIG_def backoff_def)
  then show ?thesis using r4 by (intro exI [of _ "(snd (run_execute id example_env ?t s3))\<lparr>mo_tasks := []\<rparr>"]) simp
qed

section \<open>Properties\<close>

text \<open>C5: no due retry is lost. In every reachable state a retry sweep starts a new call of
  \<open>injectTask\<close> for each claim that is due, in ledger order; afterwards each of these claims is
  running its next attempt, and every other claim is untouched.\<close>

theorem retries_dispatched:
  assumes reach: "mesh_reach digest N s"
  shows "let due = dueForRetry now (mo_claims s); s' = mesh_retry_sweep digest now uuid mkdir_ok s in
     (\<forall>r \<in> set due. profile (cr_taskHash r) (mo_claims s') = Some (Running, Suc (cr_attempt r)))
     \<and> (\<forall>t. t \<notin> cr_taskHash ` set due \<longrightarrow> om_get (ledger (mo_claims s')) t = om_get (ledger (mo_claims s)) t)
     \<and> map ct_taskHash (mo_tasks s') = map ct_taskHash (mo_tasks s) @ map cr_taskHash due"
proof -
  let ?disp = "\<lambda>g m. snd (inject_claims now digest (uuid g) g m)"
  define due where "due = dueForRetry now (mo_claims s)"
  define s' where "s' = mesh_retry_sweep digest now uuid mkdir_ok s"
  define q where "q = prune_pending (mo_claims s) (mo_retry s)"
  define s1 where "s1 = s\<lparr>mo_retry := q\<rparr>"
  have inv: "mesh_inv digest N (core s)" using reach by (rule mesh_reach_inv)
  then have ok: "ledger_ok digest N q (mo_claims s)" and bound: "rq_bound (mo_retry s)"
    by (simp_all add: mesh_inv_def core_def q_def ledger_ok_prune_pending) (simp add: ledger_ok_def)
  have cinv: "claims_inv (mo_claims s)" using ok by (simp add: ledger_ok_def)
  have st: "state_of (cr_taskHash r) (mo_claims s) = Some RetryQueued" if "r \<in> set due" for r
    using due_records(2) [OF cinv] that by (simp add: due_def state_of_profile)
  have sweep: "(mo_retry s', mo_claims s') = foldl (sweep_one now ?disp) (q, mo_claims s) due"
    using mesh_sweep_refines [where digest = digest and now = now and uuid = uuid and mk = mkdir_ok and s = s] bound
    by (simp add: s'_def retry_sweep_def q_def due_def Let_def)
  have all: "let (q', m') = foldl (sweep_one now ?disp) (q, mo_claims s) due in
     (\<forall>r \<in> set due. profile (cr_taskHash r) m' = Some (Running, Suc (cr_attempt r))) \<and>
     (\<forall>t. t \<notin> cr_taskHash ` set due \<longrightarrow> om_get (ledger m') t = om_get (ledger (mo_claims s)) t) \<and>
     (\<forall>t. om_get (rq_pending q') t = (if t \<in> cr_taskHash ` set due then None else om_get (rq_pending q) t)) \<and>
     claims_inv m' \<and> om_wf (rq_pending q') \<and> rq_cfg q' = rq_cfg q \<and> rq_bound q' = rq_bound q"
    by (rule inject.sweep_all)
      (use due_records [OF cinv] st ok cinv in \<open>auto simp: due_def ledger_ok_def coherent_def\<close>)
  have "mesh_inv digest N (core s1)" using inv ok by (simp add: s1_def mesh_inv_def core_def)
  then have "map ct_taskHash (mo_tasks (foldl (mesh_sweep_one digest now uuid mkdir_ok) s1 due)) = map ct_taskHash (mo_tasks s1) @ map cr_taskHash due"
    by (rule mesh_sweep_tasks) (use due_records(1) [OF cinv] st in \<open>simp_all add: due_def s1_def\<close>)
  moreover have "s' = foldl (mesh_sweep_one digest now uuid mkdir_ok) s1 due"
    using bound by (simp add: s'_def mesh_retry_sweep_def s1_def q_def due_def)
  ultimately show ?thesis
    using all unfolding due_def [symmetric] s'_def [symmetric] sweep [symmetric] Let_def prod.case
    by (simp add: s1_def)
qed

theorem retries_dispatched_witness:
  "\<exists>s. mesh_reach id 3 s \<and> (\<exists>r \<in> set (dueForRetry 5000 (mo_claims s)). cr_taskHash r = ''g'' \<and>
     profile ''g'' (mo_claims (mesh_retry_sweep id 5000 (\<lambda>_. ''c2'') (\<lambda>_. True) s)) = Some (Running, 2))"
proof -
  obtain s r where s: "mesh_reach id 3 s" "r \<in> set (dueForRetry 5000 (mo_claims s))" "cr_taskHash r = ''g''" "cr_attempt r = 1"
    using example_due by blast
  then have "profile ''g'' (mo_claims (mesh_retry_sweep id 5000 (\<lambda>_. ''c2'') (\<lambda>_. True) s)) = Some (Running, 2)"
    using retries_dispatched [OF s(1), where now = 5000 and uuid = "\<lambda>_. ''c2''" and mkdir_ok = "\<lambda>_. True"]
    by (simp add: Let_def) (metis One_nat_def numeral_2_eq_2)
  then show ?thesis using s by blast
qed

text \<open>C7: retries end. Let \<open>N\<close> be a number that no \<open>maxAttempts\<close> exceeds, neither the one the
  orchestrator started with nor one of a workflow reload. However many tasks are injected, fail, are
  swept, stalled, pruned and injected again, no claim of a reachable state has been attempted more
  than \<open>N\<close> times, and one that waits for a retry has been attempted less often.\<close>

theorem attempts_bounded:
  assumes "mesh_reach digest N s" and "r \<in> set (claim_snapshot (mo_claims s))"
  shows "int (cr_attempt r) \<le> N \<and> (cr_state r = RetryQueued \<longrightarrow> int (cr_attempt r) < N)"
proof -
  have ok: "ledger_ok digest N (mo_retry s) (mo_claims s)"
    using mesh_reach_inv [OF assms(1)] by (simp add: mesh_inv_def core_def)
  then have "claims_inv (mo_claims s)" "attempts_inv N (mo_claims s)" by (simp_all add: ledger_ok_def)
  then have "om_get (ledger (mo_claims s)) (cr_taskHash r) = Some r"
    using snapshot_records(2) assms(2) by blast
  then have "profile (cr_taskHash r) (mo_claims s) = Some (cr_state r, cr_attempt r)" by (simp add: profile_def)
  then show ?thesis using attempts_invD [OF \<open>attempts_inv N (mo_claims s)\<close>] by simp
qed

theorem attempts_bounded_witness:
  "\<exists>s r. mesh_reach id 3 s \<and> r \<in> set (claim_snapshot (mo_claims s)) \<and> cr_state r = RetryQueued \<and> int (cr_attempt r) < 3"
proof -
  obtain s r where s: "mesh_reach id 3 s" "r \<in> set (dueForRetry 5000 (mo_claims s))" using example_due by blast
  then have r: "r \<in> set (claim_snapshot (mo_claims s))" "cr_state r = RetryQueued" by (auto simp: dueForRetry_def claim_snapshot_def)
  show ?thesis using attempts_bounded [OF s(1) r(1)] s(1) r by blast
qed

text \<open>A goal is not run twice at a time. While the goal's task is claimed, running or
  released and not yet pruned, \<open>injectTask\<close> throws with that state, and claims, retries, waiting
  calls and workspaces stay as they are.\<close>

theorem duplicate_refused:
  assumes "state_of (digest goal) (mo_claims s) \<in> {Some Claimed, Some Running, Some Released}"
  shows "case inject_begin digest now cycleId mkdir_ok goal s of (res, s') \<Rightarrow>
     res = Inl (DuplicateDispatch (state_of (digest goal) (mo_claims s)))
     \<and> mo_claims s' = mo_claims s \<and> mo_retry s' = mo_retry s \<and> mo_tasks s' = mo_tasks s
     \<and> mo_workspaces s' = mo_workspaces s"
proof -
  obtain r where r: "om_get (ledger (mo_claims s)) (digest goal) = Some r" "cr_state r \<in> {Claimed, Running, Released}"
    using assms by (auto simp: state_of_def)
  then have refused: "inject_claims now digest cycleId goal (mo_claims s) = (False, mo_claims s)"
    by (auto simp: inject_claims_def Let_def claim_register_def tryClaim_def)
  define s1 where "s1 = note_activity now ''task:inject'' s"
  have f: "mo_claims s1 = mo_claims s" "mo_retry s1 = mo_retry s" "mo_tasks s1 = mo_tasks s" "mo_workspaces s1 = mo_workspaces s"
    unfolding s1_def by (rule note_activity_frames)+
  show ?thesis
    unfolding inject_begin_def Let_def s1_def [symmetric] f refused prod.case by (simp add: f)
qed

theorem duplicate_refused_witness:
  "\<exists>s s'. state_of ''g'' (mo_claims s) = Some Running
     \<and> inject_begin id 5 ''c2'' True ''g'' s = (Inl (DuplicateDispatch (Some Running)), s') \<and> mo_claims s' = mo_claims s"
proof -
  define s where "s = snd (inject_begin id 1 ''c1'' True ''g'' example_mesh)"
  have "mo_claims s = snd (inject_claims 1 id ''c1'' ''g'' (mo_claims example_mesh))"
    using inject_begin_core [where digest = id and now = 1 and c = "''c1''" and mk = True and g = "''g''" and s = example_mesh]
    by (simp add: s_def core_def)
  then have run: "state_of (id ''g'') (mo_claims s) = Some Running"
    by (simp add: state_of_profile profile_inject inject_claims_fst) (simp add: example_mesh_simps new_claims_def profile_def)
  then have "state_of (id ''g'') (mo_claims s) \<in> {Some Claimed, Some Running, Some Released}" by simp
  with duplicate_refused [where digest = id and goal = "''g''" and s = s and now = 5 and cycleId = "''c2''" and mkdir_ok = True] run
  show ?thesis by (intro exI [of _ s] exI [of _ "snd (inject_begin id 5 ''c2'' True ''g'' s)"]) (simp add: split_beta prod_eq_iff)
qed

text \<open>A call for another task, for one, leaves this one alone.\<close>

lemma inject_leaves_alone:
  assumes "digest g \<noteq> h" and "c' \<noteq> c"
  shows "leaves_alone h c (\<lambda>n. mesh_inject digest now c' mk g)"
proof -
  have "state_of h (mo_claims (mesh_inject digest now c' mk g u)) = state_of h (mo_claims u)
      \<and> om_get (ws_active (mo_workspaces (mesh_inject digest now c' mk g u))) c = om_get (ws_active (mo_workspaces u)) c
      \<and> mo_hooks (mesh_inject digest now c' mk g u) = mo_hooks u" for u
  proof -
    obtain x u1 where i: "inject_begin digest now c' mk g u = (x, u1)" by fastforce
    have "mo_claims u1 = snd (inject_claims now digest c' g (mo_claims u))"
      using inject_begin_core [where digest = digest and now = now and c = c' and mk = mk and g = g and s = u]
      by (simp add: i core_def)
    then have st: "state_of h (mo_claims u1) = state_of h (mo_claims u)"
      using ledger_inject_other [of h digest g] assms(1) by (simp add: state_of_def)
    have ws: "om_get (ws_active (mo_workspaces u1)) c = om_get (ws_active (mo_workspaces u)) c"
      using i assms(2) note_activity_frames(1) [of now "''task:inject''" u] unfolding inject_begin_def Let_def
      by (auto simp: ws_acquire_def Let_def split: prod.splits sum.splits if_splits)
    have "mo_hooks u1 = mo_hooks u"
      using hooks_inject_begin [where digest = digest and now = now and c = c' and mk = mk and g = g and s = u] by (simp add: i)
    then show ?thesis using st ws by (cases x) (simp_all add: mesh_inject_def i)
  qed
  then show ?thesis by (simp add: leaves_alone_def)
qed

text \<open>C6: a call of \<open>injectTask\<close> on a goal that is free always ends, and whatever happens on the
  way, an aborting hook, an exception of the bridge or a receipt of either kind, it leaves the
  claim released or queued for a retry, never held, released when the receipt is verified, and
  it leaves no workspace open. Two things are asked for: no hook rejects with \<open>null\<close> or
  \<open>undefined\<close>, and what runs while the call waits leaves its claim and its workspace alone.\<close>

theorem injected_task_settles:
  assumes "state_of (digest goal) (mo_claims s) \<in> {None, Some Unclaimed, Some RetryQueued}"
    and "om_get (ws_active (mo_workspaces s)) cycleId = None"
    and "sound_hooks (mo_hooks s)" and others: "leaves_alone (digest goal) cycleId others"
  shows "case injectTask digest env others now cycleId mkdir_ok goal s of (res, s') \<Rightarrow>
     (\<forall>t. res \<noteq> Continues t) \<and> (\<forall>st. res \<noteq> Threw (DuplicateDispatch st))
     \<and> state_of (digest goal) (mo_claims s') \<in> {Some Released, Some RetryQueued}
     \<and> (\<forall>r. res = Finished r \<and> vr_status r = ReceiptVerified \<longrightarrow> state_of (digest goal) (mo_claims s') = Some Released)
     \<and> om_get (ws_active (mo_workspaces s')) cycleId = None"
proof -
  obtain x s1 where i: "inject_begin digest now cycleId mkdir_ok goal s = (x, s1)" by fastforce
  have ok: "fst (inject_claims now digest cycleId goal (mo_claims s))" using assms(1) by (simp add: inject_claims_fst)
  then obtain t where x: "x = Inr t" "ct_taskHash t = digest goal" "ct_cycleId t = cycleId" "ct_stage t = AtAfterCreate"
    using inject_begin_result [where digest = digest and now = now and c = cycleId and mk = mkdir_ok and g = goal and s = s]
    by (cases x) (simp_all add: i)
  have "mo_claims s1 = snd (inject_claims now digest cycleId goal (mo_claims s))"
    using inject_begin_core [where digest = digest and now = now and c = cycleId and mk = mkdir_ok and g = goal and s = s]
    by (simp add: i core_def)
  then have run: "state_of (digest goal) (mo_claims s1) = Some Running"
    using ok by (simp add: state_of_profile profile_inject)
  have ws: "om_get (ws_active (mo_workspaces s1)) cycleId \<noteq> None \<longrightarrow> truthy_str (ct_workspacePath t)"
    using i x assms(2) note_activity_frames(1) [of now "''task:inject''" s]
    unfolding inject_begin_def Let_def
    by (cases t) (auto simp: ws_acquire_def Let_def path_join_def path_of_def split: prod.splits sum.splits if_splits)
  have "mo_hooks s1 = mo_hooks s"
    using hooks_inject_begin [where digest = digest and now = now and c = cycleId and mk = mkdir_ok and g = goal and s = s]
    by (simp add: i)
  then have "stage_ok t s1" using x run ws assms(3) by (simp add: stage_ok_def)
  then have "case resume_all digest env others 5 (Continues t, s1) of (res, s') \<Rightarrow> ended_ok t res s' \<and> (\<forall>t'. res \<noteq> Continues t')"
    by (rule resume_all_ends) (simp_all add: x others)
  then show ?thesis
    using x by (simp add: injectTask_def i split_beta ended_ok_def settled_def)
qed

theorem injected_task_settles_witness:
  "let x = injectTask id (\<lambda>_. example_env) (\<lambda>n. mesh_inject id 5 ''c2'' True ''other'') 1 ''c1'' True ''g'' example_mesh in
     state_of ''g'' (mo_claims (snd x)) \<in> {Some Released, Some RetryQueued} \<and> (\<forall>t. fst x \<noteq> Continues t)"
proof -
  have "state_of (id ''g'') (mo_claims example_mesh) \<in> {None, Some Unclaimed, Some RetryQueued}"
    "om_get (ws_active (mo_workspaces example_mesh)) ''c1'' = None" "sound_hooks (mo_hooks example_mesh)"
    "leaves_alone (id ''g'') ''c1'' (\<lambda>n. mesh_inject id 5 ''c2'' True ''other'')"
    by (simp_all add: example_mesh_simps new_claims_def state_of_def quiet_default quiet_sound inject_leaves_alone)
  with injected_task_settles [where digest = id and goal = "''g''" and s = example_mesh and cycleId = "''c1''"
      and env = "\<lambda>_. example_env" and others = "\<lambda>n. mesh_inject id 5 ''c2'' True ''other''" and now = 1 and mkdir_ok = True]
  show ?thesis by (simp add: Let_def split_beta)
qed

text \<open>A hook that rejects with nothing: the exception of the \<open>catch\<close> leaves \<open>injectTask\<close> with the
  claim and the workspace as they are.\<close>

lemma nullish_rejection_leaks:
  assumes "ct_stage t = AtAfterCreate" and "handlers_of AfterCreate (mo_hooks s) = [h]"
    and "hh_fn h (hook_ctx t) = HookReturns ms RejectedNullish"
  shows "fst (resume digest e t s) = Threw (HookThrew AfterCreate)
    \<and> mo_claims (snd (resume digest e t s)) = mo_claims s \<and> mo_workspaces (snd (resume digest e t s)) = mo_workspaces s"
  using assms by (simp add: resume_def gate_hook_def hook_run_def runOne_def Let_def)

end
