(* ===== verification/Json.thy ===== *)
theory Json
  imports Kovael_Prelude "HOL-Library.List_Lexorder" "HOL-Library.Char_ord" "HOL-Library.Multiset"
begin

text \<open>
  JSON values as the services hash, store and send them: \<open>JSON.stringify\<close> and
  \<open>JSON.parse\<close> of the run-time, and the canonical text \<open>stableStringify\<close> of
  \<open>src/src/services/AgentHubStore.ts\<close>. The numbers of a payload are integers here (times,
  counts, tiers), so a numeral with a fraction or an exponent is not parsed; the characters
  are those of one byte. The lemmas show that parsing undoes printing, and that two values
  have one canonical text exactly when they have the same members, \<open>__proto__\<close> left out.
\<close>

section \<open>Values and their text\<close>

datatype json = JNull | JBool bool | JNum int | JStr string | JArr "json list"
  | JObj "(string \<times> json) list"

definition hex_digit :: "nat \<Rightarrow> char" where
  "hex_digit d = ''0123456789abcdef'' ! d"

definition esc_char :: "char \<Rightarrow> string" where
  "esc_char c =
     (if c = CHR 0x22 then [CHR 0x5C, CHR 0x22]
      else if c = CHR 0x5C then [CHR 0x5C, CHR 0x5C]
      else if c = CHR 0x08 then [CHR 0x5C, CHR ''b'']
      else if c = CHR 0x0C then [CHR 0x5C, CHR ''f'']
      else if c = CHR 0x0A then [CHR 0x5C, CHR ''n'']
      else if c = CHR 0x0D then [CHR 0x5C, CHR ''r'']
      else if c = CHR 0x09 then [CHR 0x5C, CHR ''t'']
      else let n = of_char c :: nat in
        if n < 32 then CHR 0x5C # ''u00'' @ [hex_digit (n div 16), hex_digit (n mod 16)]
        else [c])"

definition quote :: "string \<Rightarrow> string" where
  "quote s = CHR 0x22 # concat (map esc_char s) @ [CHR 0x22]"

fun stringify :: "json \<Rightarrow> string"
  and print_elems :: "json list \<Rightarrow> string"
  and print_members :: "(string \<times> json) list \<Rightarrow> string" where
  "stringify JNull = ''null''"
| "stringify (JBool b) = (if b then ''true'' else ''false'')"
| "stringify (JNum i) = show_int i"
| "stringify (JStr s) = quote s"
| "stringify (JArr xs) = CHR ''['' # print_elems xs @ '']''"
| "stringify (JObj kvs) = CHR ''{'' # print_members kvs @ ''}''"
| "print_elems [] = []"
| "print_elems (x # xs) = stringify x @ (if xs = [] then [] else CHR '','' # print_elems xs)"
| "print_members [] = []"
| "print_members (kv # kvs) = quote (fst kv) @ CHR '':'' # stringify (snd kv)
     @ (if kvs = [] then [] else CHR '','' # print_members kvs)"

text \<open>
  The order in which an object lists its own keys: array indices by value, then the others
  as they were added.
\<close>

definition is_index :: "string \<Rightarrow> bool" where
  "is_index k \<longleftrightarrow> k \<noteq> [] \<and> list_all is_digit k \<and> (k = ''0'' \<or> hd k \<noteq> CHR ''0'')
     \<and> int (number_in 10 k) < 2 ^ 32 - 1"

definition own_order :: "(string \<times> 'a) list \<Rightarrow> (string \<times> 'a) list" where
  "own_order kvs = sort_key (\<lambda>kv. number_in 10 (fst kv)) (filter (\<lambda>kv. is_index (fst kv)) kvs)
     @ filter (\<lambda>kv. \<not> is_index (fst kv)) kvs"

section \<open>Parsing\<close>

definition is_ws :: "char \<Rightarrow> bool" where
  "is_ws c \<longleftrightarrow> c \<in> {CHR '' '', CHR 0x09, CHR 0x0A, CHR 0x0D}"

definition skip_ws :: "string \<Rightarrow> string" where
  "skip_ws s = dropWhile is_ws s"

definition hex_val :: "char \<Rightarrow> nat option" where
  "hex_val c = (if lower_char c \<in> set ''0123456789abcdef'' then Some (digit_val (lower_char c)) else None)"

definition unescape :: "char \<Rightarrow> char option" where
  "unescape c = map_of [(CHR 0x22, CHR 0x22), (CHR 0x5C, CHR 0x5C), (CHR ''/'', CHR ''/''),
     (CHR ''b'', CHR 0x08), (CHR ''f'', CHR 0x0C), (CHR ''n'', CHR 0x0A), (CHR ''r'', CHR 0x0D),
     (CHR ''t'', CHR 0x09)] c"

definition hex4 :: "char \<Rightarrow> char \<Rightarrow> char \<Rightarrow> char \<Rightarrow> char option" where
  "hex4 a b c d = (case (hex_val a, hex_val b, hex_val c, hex_val d) of
     (Some i, Some j, Some k, Some l) \<Rightarrow>
       let n = ((i * 16 + j) * 16 + k) * 16 + l in if n < 256 then Some (char_of n) else None
   | _ \<Rightarrow> None)"

text \<open>The rest of a string literal, after its opening quote.\<close>

fun parse_chars :: "string \<Rightarrow> (string \<times> string) option" where
  "parse_chars [] = None"
| "parse_chars (c # s) =
     (if c = CHR 0x22 then Some ([], s)
      else if c = CHR 0x5C then
        (case s of
           [] \<Rightarrow> None
         | e # s1 \<Rightarrow>
             if e = CHR ''u'' then
               (case s1 of
                  a # b # x # y # s2 \<Rightarrow>
                    (case hex4 a b x y of
                       None \<Rightarrow> None
                     | Some ch \<Rightarrow> map_option (\<lambda>(t, r). (ch # t, r)) (parse_chars s2))
                | _ \<Rightarrow> None)
             else (case unescape e of
                 None \<Rightarrow> None
               | Some ch \<Rightarrow> map_option (\<lambda>(t, r). (ch # t, r)) (parse_chars s1)))
      else if (of_char c :: nat) < 32 then None
      else map_option (\<lambda>(t, r). (c # t, r)) (parse_chars s))"

definition parse_digits :: "string \<Rightarrow> (nat \<times> string) option" where
  "parse_digits s =
     (let ds = takeWhile is_digit s in
      if ds = [] \<or> (hd ds = CHR ''0'' \<and> tl ds \<noteq> []) then None
      else Some (number_in 10 ds, dropWhile is_digit s))"

definition parse_number :: "string \<Rightarrow> (json \<times> string) option" where
  "parse_number s =
     (case s of
        c # t \<Rightarrow> if c = CHR ''-''
                 then map_option (\<lambda>(n, r). (JNum (- int n), r)) (parse_digits t)
                 else map_option (\<lambda>(n, r). (JNum (int n), r)) (parse_digits s)
      | [] \<Rightarrow> None)"

definition parse_word :: "string \<Rightarrow> json \<Rightarrow> string \<Rightarrow> (json \<times> string) option" where
  "parse_word w v s = (if starts_with w s then Some (v, drop (length w) s) else None)"

text \<open>
  Recursive descent; each call spends one unit of fuel. A repeated key keeps its place and
  takes the last value.
\<close>

fun parse_value :: "nat \<Rightarrow> string \<Rightarrow> (json \<times> string) option"
  and parse_elems :: "nat \<Rightarrow> string \<Rightarrow> (json list \<times> string) option"
  and parse_members :: "nat \<Rightarrow> (string \<times> json) list \<Rightarrow> string \<Rightarrow> ((string \<times> json) list \<times> string) option" where
  "parse_value 0 s = None"
| "parse_value (Suc n) s =
     (case skip_ws s of
        [] \<Rightarrow> None
      | c # t \<Rightarrow>
          if c = CHR 0x22 then map_option (\<lambda>(x, r). (JStr x, r)) (parse_chars t)
          else if c = CHR ''['' then
            (case skip_ws t of
               [] \<Rightarrow> None
             | d # u \<Rightarrow> if d = CHR '']'' then Some (JArr [], u)
                 else map_option (\<lambda>(xs, r). (JArr xs, r)) (parse_elems n (d # u)))
          else if c = CHR ''{'' then
            (case skip_ws t of
               [] \<Rightarrow> None
             | d # u \<Rightarrow> if d = CHR ''}'' then Some (JObj [], u)
                 else map_option (\<lambda>(kvs, r). (JObj (own_order kvs), r)) (parse_members n [] (d # u)))
          else if c = CHR ''t'' then parse_word ''true'' (JBool True) (c # t)
          else if c = CHR ''f'' then parse_word ''false'' (JBool False) (c # t)
          else if c = CHR ''n'' then parse_word ''null'' JNull (c # t)
          else parse_number (c # t))"
| "parse_elems 0 s = None"
| "parse_elems (Suc n) s =
     (case parse_value n s of
        None \<Rightarrow> None
      | Some (x, r) \<Rightarrow>
          (case skip_ws r of
             [] \<Rightarrow> None
           | d # u \<Rightarrow>
               if d = CHR '']'' then Some ([x], u)
               else if d = CHR '','' then map_option (\<lambda>(xs, r'). (x # xs, r')) (parse_elems n u)
               else None))"
| "parse_members 0 acc s = None"
| "parse_members (Suc n) acc s =
     (case skip_ws s of
        [] \<Rightarrow> None
      | c # t \<Rightarrow>
          (if c \<noteq> CHR 0x22 then None
           else (case parse_chars t of
               None \<Rightarrow> None
             | Some (k, r) \<Rightarrow>
                 (case skip_ws r of
                    [] \<Rightarrow> None
                  | e # r1 \<Rightarrow>
                      (if e \<noteq> CHR '':'' then None
                       else (case parse_value n r1 of
                           None \<Rightarrow> None
                         | Some (v, r2) \<Rightarrow>
                             (case skip_ws r2 of
                                [] \<Rightarrow> None
                              | d # u \<Rightarrow>
                                  (if d = CHR ''}'' then Some (om_set k v acc, u)
                                   else if d = CHR '','' then parse_members n (om_set k v acc) u
                                   else None))))))))"

definition JSON_parse :: "string \<Rightarrow> json option" where
  "JSON_parse s =
     (case parse_value (Suc (length s)) s of
        Some (v, r) \<Rightarrow> if skip_ws r = [] then Some v else None
      | None \<Rightarrow> None)"

section \<open>The canonical text\<close>

text \<open>What is left of an object that is copied by assignments to \<open>{}\<close>: an assignment to
  \<open>__proto__\<close> sets the prototype of the copy or does nothing, and adds no member.\<close>

definition own_members :: "(string \<times> 'a) list \<Rightarrow> (string \<times> 'a) list" where
  "own_members kvs = filter (\<lambda>kv. fst kv \<noteq> ''__proto__'') kvs"

lemma set_own_members [simp]: "set (own_members kvs) = {kv \<in> set kvs. fst kv \<noteq> ''__proto__''}"
  by (simp add: own_members_def)

lemma own_members_wf: "om_wf kvs \<Longrightarrow> om_wf (own_members kvs)"
  by (simp add: own_members_def distinct_map_filter)

lemma own_members_id: "\<forall>kv \<in> set kvs. fst kv \<noteq> ''__proto__'' \<Longrightarrow> own_members kvs = kvs"
  by (simp add: own_members_def)

fun stableValue :: "json \<Rightarrow> json" where
  "stableValue (JArr xs) = JArr (map stableValue xs)"
| "stableValue (JObj kvs) = JObj (own_order (map (\<lambda>kv. (fst kv, stableValue (snd kv))) (sort_key fst (own_members kvs))))"
| "stableValue v = v"

definition stableStringify :: "json \<Rightarrow> string" where
  "stableStringify v = stringify (stableValue v)"

text \<open>The same value: objects are compared by what each key holds, \<open>__proto__\<close> left out.\<close>

function same_json :: "json \<Rightarrow> json \<Rightarrow> bool" where
  "same_json (JArr xs) (JArr ys) \<longleftrightarrow> length xs = length ys \<and> (\<forall>p\<in>set (zip xs ys). same_json (fst p) (snd p))"
| "same_json (JObj a) (JObj b) \<longleftrightarrow> set (map fst (own_members a)) = set (map fst (own_members b))
     \<and> (\<forall>kv\<in>set (own_members a). \<forall>kw\<in>set (own_members b). fst kv = fst kw \<longrightarrow> same_json (snd kv) (snd kw))"
| "(\<forall>xs ys. (v, w) \<noteq> (JArr xs, JArr ys)) \<Longrightarrow> (\<forall>a b. (v, w) \<noteq> (JObj a, JObj b)) \<Longrightarrow>
     same_json v w \<longleftrightarrow> v = w"
  by (auto, metis json.exhaust)
termination
proof (relation "measure (\<lambda>(v, w). size v)", goal_cases)
  case (2 xs ys p)
  then have "fst p \<in> set xs" by (metis in_set_zipE prod.collapse)
  then have "size (fst p) \<le> size_list size xs" by (rule size_list_estimation') simp
  then show ?case by (simp add: case_prod_beta)
next
  case (3 a b kv kw)
  then have "size (snd kv) < size_list (size_prod (\<lambda>_. 0) size) a"
    by (intro size_list_estimation [of kv]) (auto simp: size_prod_simp)
  then show ?case by simp
qed simp

text \<open>Values a program can hold: each object has its keys once, in their order.\<close>

fun json_wf :: "json \<Rightarrow> bool" where
  "json_wf (JArr xs) \<longleftrightarrow> list_all json_wf xs"
| "json_wf (JObj kvs) \<longleftrightarrow> om_wf kvs \<and> own_order kvs = kvs \<and> list_all (\<lambda>kv. json_wf (snd kv)) kvs"
| "json_wf _ \<longleftrightarrow> True"

section \<open>Parsing undoes printing\<close>

lemma less_10_cases: "d < 10 \<Longrightarrow> P 0 \<Longrightarrow> P 1 \<Longrightarrow> P 2 \<Longrightarrow> P 3 \<Longrightarrow> P 4 \<Longrightarrow> P 5 \<Longrightarrow> P 6 \<Longrightarrow> P 7 \<Longrightarrow> P 8 \<Longrightarrow> P (9::nat) \<Longrightarrow> P d"
  by (cases "d \<le> 4") (auto simp: numeral_eq_Suc le_Suc_eq less_Suc_eq)

lemma digit_char_simps: "d < 10 \<Longrightarrow> digit_val (digit_char d) = d \<and> is_digit (digit_char d) \<and> (digit_char d = CHR ''0'' \<longleftrightarrow> d = 0)"
  by (rule less_10_cases [of d]) (simp_all add: digit_char_def digit_val_def is_digit_def)

lemma number_in_snoc: "number_in b (s @ [c]) = number_in b s * b + digit_val c"
  by (simp add: number_in_def)

lemma show_nat_reads: "list_all is_digit (show_nat n) \<and> show_nat n \<noteq> [] \<and> number_in 10 (show_nat n) = n
    \<and> (hd (show_nat n) = CHR ''0'' \<longleftrightarrow> n = 0)"
proof (induction n rule: show_nat.induct)
  case (1 n)
  show ?case
  proof (cases "n < 10")
    case True
    then show ?thesis using digit_char_simps [of n] by (simp add: show_nat.simps [of n] number_in_def)
  next
    case False
    then show ?thesis using 1 digit_char_simps [of "n mod 10"]
      by (subst (1 2 3 4) show_nat.simps) (auto simp: number_in_snoc)
  qed
qed

definition closes :: "string \<Rightarrow> bool" where
  "closes r \<longleftrightarrow> r = [] \<or> hd r \<in> {CHR '','', CHR '']'', CHR ''}''}"

lemma closes_no_digit: "closes r \<Longrightarrow> takeWhile is_digit r = [] \<and> dropWhile is_digit r = r"
  by (cases r) (auto simp: closes_def is_digit_def)

lemma parse_digits_show: "closes r \<Longrightarrow> parse_digits (show_nat n @ r) = Some (n, r)"
proof -
  assume "closes r"
  then have "takeWhile is_digit (show_nat n @ r) = show_nat n" and "dropWhile is_digit (show_nat n @ r) = r"
    using closes_no_digit [of r] show_nat_reads [of n]
    by (simp_all add: list_all_iff takeWhile_append2 dropWhile_append2)
  moreover have "n = 0 \<longrightarrow> tl (show_nat n) = []" by (simp add: show_nat.simps)
  ultimately show ?thesis using show_nat_reads [of n] by (auto simp: parse_digits_def Let_def)
qed

lemma digit_facts: "is_digit c \<Longrightarrow> \<not> is_ws c \<and> c \<notin> {CHR 0x22, CHR ''['', CHR '']'', CHR ''{'', CHR ''t'', CHR ''f'', CHR ''n'', CHR ''-''}"
  by (auto simp: is_digit_def is_ws_def)

lemma show_nat_Cons: "\<exists>c t. show_nat n = c # t \<and> is_digit c"
  using show_nat_reads [of n] by (cases "show_nat n") auto

lemma parse_number_show: "closes r \<Longrightarrow> parse_number (show_int i @ r) = Some (JNum i, r)"
proof (cases "i < 0")
  case True
  moreover assume "closes r"
  ultimately show ?thesis by (simp add: show_int_def parse_number_def parse_digits_show)
next
  case False
  moreover assume "closes r"
  moreover obtain c t where "show_nat (nat i) = c # t" and "is_digit c" using show_nat_Cons by blast
  ultimately show ?thesis
    using parse_digits_show [of r "nat i"] digit_facts [of c] by (simp add: show_int_def parse_number_def)
qed

lemma hex_val_digits: "list_all (\<lambda>d. hex_val (hex_digit d) = Some d) [0..<16]"
  by code_simp

lemma hex_val_digit: "d < 16 \<Longrightarrow> hex_val (hex_digit d) = Some d"
  using hex_val_digits by (simp add: list_all_iff)

lemma parse_chars_esc:
  "parse_chars (esc_char c @ s) = map_option (\<lambda>(t, r). (c # t, r)) (parse_chars s)"
proof (cases "c \<in> {CHR 0x22, CHR 0x5C, CHR 0x08, CHR 0x0C, CHR 0x0A, CHR 0x0D, CHR 0x09}")
  case True
  then show ?thesis by (elim insertE) (simp_all add: esc_char_def unescape_def)
next
  case False
  define n :: nat where "n = of_char c"
  show ?thesis
  proof (cases "n < 32")
    case True
    have "hex4 CHR ''0'' CHR ''0'' (hex_digit (n div 16)) (hex_digit (n mod 16)) = Some c"
      using True hex_val_digit [of 0] hex_val_digit [of "n div 16"] hex_val_digit [of "n mod 16"]
      by (simp add: hex4_def hex_digit_def [of 0]) (simp add: n_def)
    with True False show ?thesis by (simp add: esc_char_def Let_def n_def [symmetric])
  next
    case big: False
    with False show ?thesis by (simp add: esc_char_def Let_def n_def)
  qed
qed

lemma parse_chars_quote: "parse_chars (concat (map esc_char s) @ CHR 0x22 # r) = Some (s, r)"
  by (induction s) (simp_all add: parse_chars_esc)

lemma stringify_Cons:
  "\<exists>c t. stringify v = c # t \<and> \<not> is_ws c \<and> c \<noteq> CHR '']''"
proof (cases v)
  case (JNum i)
  obtain c t where "show_nat (nat i) = c # t" and "is_digit c" using show_nat_Cons by blast
  with JNum show ?thesis using digit_facts [of c] by (cases "i < 0") (auto simp: show_int_def is_ws_def)
qed (auto simp: is_ws_def quote_def)

lemma skip_ws_stringify: "skip_ws (stringify v @ r) = stringify v @ r"
  using stringify_Cons [of v] by (auto simp: skip_ws_def)

lemma skip_ws_closes: "closes r \<Longrightarrow> skip_ws r = r"
  by (cases r) (auto simp: closes_def skip_ws_def is_ws_def)

lemma skip_ws_Cons: "\<not> is_ws c \<Longrightarrow> skip_ws (c # r) = c # r"
  by (simp add: skip_ws_def)

lemma closes_Cons: "c \<in> {CHR '','', CHR '']'', CHR ''}''} \<Longrightarrow> closes (c # r)"
  by (simp add: closes_def)

lemma not_ws_marks: "\<not> is_ws CHR '','' \<and> \<not> is_ws CHR '']'' \<and> \<not> is_ws CHR ''}'' \<and> \<not> is_ws CHR '':''
    \<and> \<not> is_ws CHR ''['' \<and> \<not> is_ws CHR ''{'' \<and> \<not> is_ws CHR 0x22"
  by (simp add: is_ws_def)

lemma quote_Cons: "quote s @ r = CHR 0x22 # concat (map esc_char s) @ CHR 0x22 # r"
  by (simp add: quote_def)

lemma parse_value_num: "closes r \<Longrightarrow> parse_value (Suc n) (stringify (JNum i) @ r) = Some (JNum i, r)"
proof -
  assume cl: "closes r"
  obtain c t where ct: "stringify (JNum i) = c # t" and c: "is_digit c \<or> c = CHR ''-''"
    using show_nat_Cons [of "nat i"] by (cases "i < 0") (auto simp: show_int_def)
  have "parse_value (Suc n) (c # t @ r) = parse_number (c # t @ r)"
    using c digit_facts [of c] by (auto simp: skip_ws_Cons is_ws_def)
  then show ?thesis using parse_number_show [OF cl, of i] ct by simp
qed

lemma om_set_fresh: "k \<notin> fst ` set acc \<Longrightarrow> om_set k v acc = acc @ [(k, v)]"
  by (induction acc) auto

lemma parse_print:
  "json_wf v \<Longrightarrow> closes r \<Longrightarrow> length (stringify v) < n \<Longrightarrow> parse_value n (stringify v @ r) = Some (v, r)"
  "xs \<noteq> [] \<Longrightarrow> list_all json_wf xs \<Longrightarrow> length (print_elems xs) + 1 < n \<Longrightarrow>
     parse_elems n (print_elems xs @ CHR '']'' # r) = Some (xs, r)"
  "kvs \<noteq> [] \<Longrightarrow> list_all (\<lambda>kv. json_wf (snd kv)) kvs \<Longrightarrow> distinct (map fst (acc @ kvs)) \<Longrightarrow>
     length (print_members kvs) + 1 < n \<Longrightarrow>
     parse_members n acc (print_members kvs @ CHR ''}'' # r) = Some (acc @ kvs, r)"
proof (induction v and xs and kvs arbitrary: r n and r n and acc r n
    rule: stringify_print_elems_print_members.induct)
  case (3 i)
  then show ?case by (cases n) (simp, metis parse_value_num)
next
  case (4 s)
  then show ?case by (cases n) (simp_all add: quote_Cons skip_ws_Cons not_ws_marks parse_chars_quote)
next
  case (5 xs)
  then obtain m where n: "n = Suc m" by (cases n) auto
  show ?case
  proof (cases "xs = []")
    case True
    then show ?thesis using n by (simp add: skip_ws_Cons not_ws_marks)
  next
    case False
    then obtain x ys where xs: "xs = x # ys" by (cases xs) auto
    obtain c t where c: "print_elems xs = c # t" "\<not> is_ws c" "c \<noteq> CHR '']''"
      using stringify_Cons [of x] by (auto simp: xs)
    have "parse_elems m (print_elems xs @ CHR '']'' # r) = Some (xs, r)"
      using 5 n False by auto
    then show ?thesis using n c by (simp add: skip_ws_Cons not_ws_marks)
  qed
next
  case (6 kvs)
  then obtain m where n: "n = Suc m" by (cases n) auto
  show ?case
  proof (cases "kvs = []")
    case True
    then show ?thesis using n by (simp add: skip_ws_Cons not_ws_marks)
  next
    case False
    then obtain kv kws where kvs: "kvs = kv # kws" by (cases kvs) auto
    have c: "\<exists>t. print_members kvs = CHR 0x22 # t" by (auto simp: kvs quote_Cons)
    have "parse_members m [] (print_members kvs @ CHR ''}'' # r) = Some (kvs, r)"
      using 6 n False by auto
    moreover have "own_order kvs = kvs" using 6 by simp
    ultimately show ?thesis using n c by (auto simp: skip_ws_Cons not_ws_marks)
  qed
next
  case (8 x xs)
  then obtain m where n: "n = Suc m" by (cases n) auto
  show ?case
  proof (cases "xs = []")
    case True
    then show ?thesis using 8 n by (simp add: skip_ws_Cons not_ws_marks closes_Cons)
  next
    case False
    have "parse_value m (stringify x @ CHR '','' # print_elems xs @ CHR '']'' # r)
        = Some (x, CHR '','' # print_elems xs @ CHR '']'' # r)"
      using 8 n False by (intro "8.IH"(1)) (auto simp: closes_Cons)
    moreover have "parse_elems m (print_elems xs @ CHR '']'' # r) = Some (xs, r)"
      using 8 n False by (intro "8.IH"(2)) auto
    ultimately show ?thesis using n False by (simp add: skip_ws_Cons not_ws_marks)
  qed
next
  case (10 kv kvs)
  then obtain m where n: "n = Suc m" by (cases n) auto
  obtain k v where kv: "kv = (k, v)" by (cases kv)
  have fresh: "om_set k v acc = acc @ [(k, v)]" using 10 kv by (intro om_set_fresh) auto
  have head: "parse_members n acc (print_members (kv # kvs) @ CHR ''}'' # r) =
      (case parse_value m (stringify v @ (if kvs = [] then [] else CHR '','' # print_members kvs) @ CHR ''}'' # r) of
         None \<Rightarrow> None
       | Some (w, r2) \<Rightarrow> (case skip_ws r2 of [] \<Rightarrow> None
         | d # u \<Rightarrow> if d = CHR ''}'' then Some (om_set k w acc, u)
             else if d = CHR '','' then parse_members m (om_set k w acc) u else None))"
    by (simp add: n kv quote_Cons skip_ws_Cons not_ws_marks parse_chars_quote)
  show ?case
  proof (cases "kvs = []")
    case True
    have "parse_value m (stringify v @ CHR ''}'' # r) = Some (v, CHR ''}'' # r)"
      using 10 n kv by (intro "10.IH"(1) [unfolded kv snd_conv]) (auto simp: closes_Cons)
    with True show ?thesis using head kv fresh by (simp add: skip_ws_Cons not_ws_marks)
  next
    case False
    have "parse_value m (stringify v @ CHR '','' # print_members kvs @ CHR ''}'' # r)
        = Some (v, CHR '','' # print_members kvs @ CHR ''}'' # r)"
      using 10 n kv by (intro "10.IH"(1) [unfolded kv snd_conv]) (auto simp: closes_Cons)
    moreover have "parse_members m (acc @ [(k, v)]) (print_members kvs @ CHR ''}'' # r) = Some ((acc @ [(k, v)]) @ kvs, r)"
      using 10 n kv False by (intro "10.IH"(2)) (auto simp: quote_def)
    ultimately show ?thesis using False head kv fresh by (simp add: skip_ws_Cons not_ws_marks)
  qed
qed (auto simp: skip_ws_Cons is_ws_def parse_word_def starts_with_def gr0_conv_Suc elim!: less_natE)

lemma JSON_parse_stringify: "json_wf v \<Longrightarrow> JSON_parse (stringify v) = Some v"
  using parse_print(1) [of v "[]" "Suc (length (stringify v))"]
  by (simp add: JSON_parse_def closes_def skip_ws_def del: parse_value.simps)

section \<open>The canonical text decides sameness\<close>

declare set_own_members [simp del]

lemma json_members:
  assumes "json_wf (JObj kvs)"
  shows "om_wf (own_members kvs)" and "\<And>kv. kv \<in> set (own_members kvs) \<Longrightarrow> json_wf (snd kv)"
  using assms own_members_wf by (auto simp: list_all_iff set_own_members)

lemma own_order_set: "set (own_order kvs) = set kvs"
  by (auto simp: own_order_def)

lemma own_order_distinct: "om_wf (own_order kvs) = om_wf kvs"
proof -
  have "mset (own_order kvs) = mset kvs" by (simp add: own_order_def multiset_partition [symmetric])
  then have "mset (map fst (own_order kvs)) = mset (map fst kvs)" by (simp only: mset_map)
  then show ?thesis using mset_eq_imp_distinct_iff by blast
qed

lemma own_order_idem: "own_order (own_order kvs) = own_order kvs"
  by (simp add: own_order_def filter_sort [symmetric] sort_key_id_if_sorted)

lemma stable_members:
  fixes kvs
  defines "ms \<equiv> map (\<lambda>kv. (fst kv, stableValue (snd kv))) (sort_key fst (own_members kvs))"
  shows "map fst ms = map fst (sort_key fst (own_members kvs))" and "sorted (map fst ms)"
    and "set ms = (\<lambda>kv. (fst kv, stableValue (snd kv))) ` set (own_members kvs)" and "om_wf kvs \<Longrightarrow> om_wf ms"
proof -
  show k: "map fst ms = map fst (sort_key fst (own_members kvs))" by (simp add: ms_def)
  show "sorted (map fst ms)" unfolding k by simp
  show "set ms = (\<lambda>kv. (fst kv, stableValue (snd kv))) ` set (own_members kvs)" by (simp add: ms_def)
  have "mset (map fst (sort_key fst (own_members kvs))) = mset (map fst (own_members kvs))" by simp
  then show "om_wf kvs \<Longrightarrow> om_wf ms" unfolding k using mset_eq_imp_distinct_iff own_members_wf by blast
qed

lemma stableValue_wf: "json_wf v \<Longrightarrow> json_wf (stableValue v)"
proof (induction v)
  case (JObj kvs)
  then have "list_all (\<lambda>kv. json_wf (snd kv)) (own_order (map (\<lambda>kv. (fst kv, stableValue (snd kv))) (sort_key fst (own_members kvs))))"
    by (auto simp: list_all_iff own_order_set set_own_members)
  then show ?case using JObj stable_members(4) [of kvs] by (simp add: own_order_idem own_order_distinct)
qed (auto simp: list_all_iff)

lemma stable_members_eq:
  assumes "om_wf a" and "om_wf b"
    and "(\<lambda>kv. (fst kv, stableValue (snd kv))) ` set (own_members a) = (\<lambda>kv. (fst kv, stableValue (snd kv))) ` set (own_members b)"
  shows "map (\<lambda>kv. (fst kv, stableValue (snd kv))) (sort_key fst (own_members a))
      = map (\<lambda>kv. (fst kv, stableValue (snd kv))) (sort_key fst (own_members b))"
    (is "?a = ?b")
proof (rule map_sorted_distinct_set_unique [where f = fst])
  have "set ?a = set ?b" using assms(3) by simp
  moreover have "inj_on fst (set ?a)" using stable_members(4) [OF assms(1)] by (simp only: distinct_map)
  ultimately show "inj_on fst (set ?a \<union> set ?b)" by simp
  show "set ?a = set ?b" by fact
qed (simp_all only: stable_members(2) stable_members(4) [OF assms(1)] stable_members(4) [OF assms(2)])

lemma same_stable: "json_wf v \<Longrightarrow> json_wf w \<Longrightarrow> same_json v w \<Longrightarrow> stableValue v = stableValue w"
proof (induction v w rule: same_json.induct)
  case (1 xs ys)
  then have "list_all2 (\<lambda>x y. stableValue x = stableValue y) xs ys"
    by (auto simp: list_all2_iff list_all_iff) (metis fst_conv in_set_zipE snd_conv)
  then show ?case by (simp add: list_all2_map1 list_all2_map2 list.rel_eq [symmetric])
next
  case (2 a b)
  have sub: "(\<lambda>kv. (fst kv, stableValue (snd kv))) ` set (own_members a) = (\<lambda>kv. (fst kv, stableValue (snd kv))) ` set (own_members b)"
  proof -
    have eq: "stableValue (snd kv) = stableValue (snd kw)" if "kv \<in> set (own_members a)" "kw \<in> set (own_members b)" "fst kv = fst kw" for kv kw
      using 2(1)[OF that] that 2(4) json_members(2)[OF 2(2)] json_members(2)[OF 2(3)] by simp
    have keys: "fst ` set (own_members a) = fst ` set (own_members b)" using 2 by simp
    show ?thesis
    proof (intro equalityI subsetI; elim imageE; clarify)
      fix k v assume kv: "(k, v) \<in> set (own_members a)"
      then obtain w where "(k, w) \<in> set (own_members b)" using keys by (metis (no_types, lifting) fst_conv imageE imageI prod.collapse)
      then show "(fst (k, v), stableValue (snd (k, v))) \<in> (\<lambda>kv. (fst kv, stableValue (snd kv))) ` set (own_members b)"
        using eq [OF kv] by force
    next
      fix k v assume kv: "(k, v) \<in> set (own_members b)"
      then obtain w where "(k, w) \<in> set (own_members a)" using keys by (metis (no_types, lifting) fst_conv imageE imageI prod.collapse)
      then show "(fst (k, v), stableValue (snd (k, v))) \<in> (\<lambda>kv. (fst kv, stableValue (snd kv))) ` set (own_members a)"
        using eq [OF _ kv] by force
    qed
  qed
  then show ?case using 2 stable_members_eq [of a b] by simp
qed (auto split: json.splits)

lemma stable_same: "json_wf v \<Longrightarrow> json_wf w \<Longrightarrow> stableValue v = stableValue w \<Longrightarrow> same_json v w"
proof (induction v w rule: same_json.induct)
  case (1 xs ys)
  then have "length xs = length ys" by (metis json.inject(4) length_map stableValue.simps(1))
  moreover have "same_json (fst p) (snd p)" if p: "p \<in> set (zip xs ys)" for p
  proof -
    obtain i where "i < min (length xs) (length ys)" and "p = (xs ! i, ys ! i)"
      using p unfolding set_zip by blast
    then have i: "i < length xs" "i < length ys" "p = (xs ! i, ys ! i)" by simp_all
    have "stableValue (xs ! i) = stableValue (ys ! i)"
      using 1 i by (metis json.inject(4) nth_map stableValue.simps(1))
    then show ?thesis using 1 i p by (auto simp: list_all_iff)
  qed
  ultimately show ?case by simp
next
  case (2 a b)
  let ?m = "\<lambda>kv. (fst kv, stableValue (snd kv))"
  have ms: "?m ` set (own_members a) = ?m ` set (own_members b)"
  proof -
    have "own_order (map ?m (sort_key fst (own_members a))) = own_order (map ?m (sort_key fst (own_members b)))" using 2(4) by simp
    then have "set (map ?m (sort_key fst (own_members a))) = set (map ?m (sort_key fst (own_members b)))" by (metis own_order_set)
    then show ?thesis by simp
  qed
  have keys: "fst ` set (own_members a) = fst ` set (own_members b)"
  proof -
    have "fst ` ?m ` set (own_members a) = fst ` ?m ` set (own_members b)" by (simp only: ms)
    then show ?thesis by (simp only: image_image fst_conv)
  qed
  have "same_json (snd kv) (snd kw)" if "kv \<in> set (own_members a)" "kw \<in> set (own_members b)" "fst kv = fst kw" for kv kw
  proof -
    have "?m kv \<in> ?m ` set (own_members b)" using that ms by blast
    then obtain kx where kx: "kx \<in> set (own_members b)" "?m kv = ?m kx" by blast
    then have "kx = kw" using that json_members(1)[OF 2(3)] by (metis eq_key_imp_eq_value prod.collapse prod.inject)
    then have "stableValue (snd kv) = stableValue (snd kw)" using kx by simp
    then show ?thesis using 2(1)[OF that] that json_members(2)[OF 2(2)] json_members(2)[OF 2(3)] by simp
  qed
  then show ?case using keys by simp
next
  case (3 v w)
  then show ?case by (cases v; cases w) auto
qed

lemma sort_own_order:
  assumes "om_wf kvs" and "sorted (map fst kvs)"
  shows "sort_key fst (own_order kvs) = kvs"
proof (rule map_sorted_distinct_set_unique [where f = fst])
  show "set (sort_key fst (own_order kvs)) = set kvs" by (simp add: own_order_set)
  then show "inj_on fst (set (sort_key fst (own_order kvs)) \<union> set kvs)" using assms(1) by (simp add: distinct_map)
  have "mset (map fst (sort_key fst (own_order kvs))) = mset (map fst (own_order kvs))" by simp
  then show "om_wf (sort_key fst (own_order kvs))" using assms(1) own_order_distinct mset_eq_imp_distinct_iff by blast
qed (simp_all add: assms)

lemma stableValue_idem: "json_wf v \<Longrightarrow> stableValue (stableValue v) = stableValue v"
proof (induction v)
  case (JObj kvs)
  define ms where "ms = map (\<lambda>kv. (fst kv, stableValue (snd kv))) (sort_key fst (own_members kvs))"
  have "stableValue (snd kv) = snd kv" if "kv \<in> set ms" for kv
    using JObj that by (auto simp: ms_def list_all_iff set_own_members)
  then have "map (\<lambda>kv. (fst kv, stableValue (snd kv))) ms = ms" by (intro map_idI) simp
  moreover have "sort_key fst (own_order ms) = ms"
    unfolding ms_def by (rule sort_own_order) (use JObj stable_members [of kvs] in simp_all)
  moreover have "own_members (own_order ms) = own_order ms"
    by (rule own_members_id) (auto simp: own_order_set ms_def set_own_members)
  ultimately show ?case by (simp add: ms_def [symmetric])
qed (auto simp: list_all_iff)

lemma same_stableValue: "json_wf v \<Longrightarrow> same_json v (stableValue v)"
  by (rule stable_same) (simp_all add: stableValue_wf stableValue_idem)

lemma stable_text_iff:
  assumes "json_wf v" and "json_wf w"
  shows "stableStringify v = stableStringify w \<longleftrightarrow> same_json v w"
proof
  assume "stableStringify v = stableStringify w"
  then have "JSON_parse (stringify (stableValue v)) = JSON_parse (stringify (stableValue w))"
    by (simp add: stableStringify_def)
  then show "same_json v w"
    using assms by (intro stable_same) (simp_all add: JSON_parse_stringify stableValue_wf)
next
  assume "same_json v w"
  then show "stableStringify v = stableStringify w"
    using assms by (simp add: stableStringify_def same_stable [of v w])
qed

text \<open>C23: Two values have the same canonical text, so the same content hash, exactly when they
  have the same members, whatever order their keys were written in; members called \<open>__proto__\<close>
  do not count, since copying an object key by key drops them.\<close>

theorem stable_text_decides:
  assumes "json_wf v" and "json_wf w"
  shows "stableStringify v = stableStringify w \<longleftrightarrow> same_json v w"
  using assms by (rule stable_text_iff)

theorem stable_text_decides_witness:
  "stableStringify (JObj [(''a'', JNum 1), (''b'', JNull)]) =
     stableStringify (JObj [(''b'', JNull), (''__proto__'', JNull), (''a'', JNum 1)])
   \<and> stableStringify (JObj [(''a'', JNum 1)]) \<noteq> stableStringify (JObj [(''a'', JNum 2)])"
proof -
  let ?v = "JObj [(''a'', JNum 1), (''b'', JNull)]" and ?w = "JObj [(''b'', JNull), (''__proto__'', JNull), (''a'', JNum 1)]"
  have n: "\<not> is_index ''a''" "\<not> is_index ''b''" "\<not> is_index ''__proto__''" by (simp_all add: is_index_def is_digit_def)
  then have w: "json_wf ?v" "json_wf ?w" "json_wf (JObj [(''a'', JNum 1)])" "json_wf (JObj [(''a'', JNum 2)])"
    by (simp_all add: own_order_def)
  have "same_json ?v ?w" by (simp add: own_members_def insert_commute)
  moreover have "\<not> same_json (JObj [(''a'', JNum 1)]) (JObj [(''a'', JNum 2)])" by (simp add: own_members_def)
  ultimately show ?thesis unfolding stable_text_decides [OF w(1,2)] stable_text_decides [OF w(3,4)] by blast
qed

end
