(* ===== verification/Secrets.thy ===== *)
theory Secrets
  imports Json "HOL-Library.Sublist"
begin

text \<open>
  What keeps the secrets of the mesh in: \<open>src/src/services/RuntimeSecurity.ts\<close> (redaction of
  messages, the environments child processes get), \<open>src/src/services/ChairDispatchSecurity.ts\<close>
  (the encrypted dispatch envelope) and \<open>src/src/services/AgentHubCrypto.ts\<close> (sealed columns of
  the agent hub). AES-GCM, HKDF, scrypt and the digests are the record \<open>crypto\<close> of
  functions; binary values are in their base64url spelling. The regular expressions of the
  redaction run on a backtracking matcher. The lemmas show that sealing and opening are
  inverse, what an accepted dispatch body proves, and that a live secret does not survive redaction.
\<close>

section \<open>The environment\<close>

definition AGENT_HUB_SECRET_ENV :: string where
  "AGENT_HUB_SECRET_ENV = ''KOVAEL_AGENT_HUB_SECRET''"

definition AGENT_HUB_ENCRYPTION_ENV :: string where
  "AGENT_HUB_ENCRYPTION_ENV = ''KOVAEL_AGENT_HUB_ENCRYPTION''"

definition REQUIRED_HUB_ENCRYPTION :: string where
  "REQUIRED_HUB_ENCRYPTION = ''required''"

definition PLATFORM_ENV_ALLOWLIST :: "string list" where
  "PLATFORM_ENV_ALLOWLIST = [''PATH'', ''Path'', ''PATHEXT'', ''SystemRoot'', ''WINDIR'', ''TEMP'', ''TMP'',
     ''HOME'', ''USERPROFILE'', ''APPDATA'', ''LOCALAPPDATA'', ''XDG_CONFIG_HOME'', ''XDG_DATA_HOME'',
     ''XDG_CACHE_HOME'', ''SHELL'', ''COMSPEC'']"

definition PROXY_ENV_ALLOWLIST :: "string list" where
  "PROXY_ENV_ALLOWLIST = [''HTTP_PROXY'', ''HTTPS_PROXY'', ''ALL_PROXY'', ''NO_PROXY'', ''http_proxy'',
     ''https_proxy'', ''all_proxy'', ''no_proxy'']"

definition RUNTIME_LOCATOR_ENV_ALLOWLIST :: "string list" where
  "RUNTIME_LOCATOR_ENV_ALLOWLIST = [''KOVAEL_CODEX_BIN'', ''KOVAEL_CLAUDE_BIN'']"

definition isValidAgentHubSecret :: "string option \<Rightarrow> bool" where
  "isValidAgentHubSecret v = (case v of None \<Rightarrow> False | Some s \<Rightarrow> length (trim s) \<ge> 32)"

definition isHubEncryptionRequired :: "penv \<Rightarrow> bool" where
  "isHubEncryptionRequired env =
     (map_option (\<lambda>s. toLowerCase (trim s)) (env AGENT_HUB_ENCRYPTION_ENV) = Some REQUIRED_HUB_ENCRYPTION)"

fun copyAllowlisted :: "penv \<Rightarrow> (string, string) omap \<Rightarrow> string list \<Rightarrow> (string, string) omap" where
  "copyAllowlisted source target [] = target"
| "copyAllowlisted source target (name # names) =
     copyAllowlisted source (case source name of Some v \<Rightarrow> om_set name v target | None \<Rightarrow> target) names"

definition set_truthy :: "string \<Rightarrow> string option \<Rightarrow> (string, string) omap \<Rightarrow> (string, string) omap" where
  "set_truthy name v env = (if truthy_str v then om_set name (the v) env else env)"

definition buildAgentAdapterEnv :: "penv \<Rightarrow> bool \<Rightarrow> (string, string) omap" where
  "buildAgentAdapterEnv source requireHubEncryption =
     (let env = copyAllowlisted source [] PLATFORM_ENV_ALLOWLIST;
          env = copyAllowlisted source env PROXY_ENV_ALLOWLIST;
          env = copyAllowlisted source env RUNTIME_LOCATOR_ENV_ALLOWLIST;
          token = (case source ''KOVAEL_TOKEN'' of Some t \<Rightarrow> Some t | None \<Rightarrow> source ''KOVAEL_API_TOKEN'');
          env = set_truthy ''KOVAEL_TOKEN'' token env;
          env = set_truthy ''KOVAEL_CHAIR_DISPATCH_SECRET'' (source ''KOVAEL_CHAIR_DISPATCH_SECRET'') env;
          env = set_truthy AGENT_HUB_SECRET_ENV (source AGENT_HUB_SECRET_ENV) env
      in if requireHubEncryption then om_set AGENT_HUB_ENCRYPTION_ENV REQUIRED_HUB_ENCRYPTION env else env)"

definition buildAgentRuntimeEnv :: "penv \<Rightarrow> (string, string) omap" where
  "buildAgentRuntimeEnv source =
     copyAllowlisted source (copyAllowlisted source [] PLATFORM_ENV_ALLOWLIST) PROXY_ENV_ALLOWLIST"

section \<open>Regular expressions\<close>

text \<open>
  The shape of the patterns the redaction uses: a greedy repetition of a character class,
  an optional word, a word boundary, and the end of the first group.
\<close>

datatype ritem = Rep nat "nat option" "char \<Rightarrow> bool" | Maybe string | Bound | GroupEnd

definition word_char :: "char \<Rightarrow> bool" where
  "word_char c \<longleftrightarrow> is_letter c \<or> is_digit c \<or> c = CHR ''_''"

definition word_opt :: "char option \<Rightarrow> bool" where
  "word_opt c = (case c of None \<Rightarrow> False | Some d \<Rightarrow> word_char d)"

definition head_opt :: "'a list \<Rightarrow> 'a option" where
  "head_opt xs = (case xs of [] \<Rightarrow> None | x # _ \<Rightarrow> Some x)"

definition prev_after :: "nat \<Rightarrow> char option \<Rightarrow> string \<Rightarrow> char option" where
  "prev_after n prev s = (if n = 0 then prev else Some (s ! (n - 1)))"

fun first_some :: "('a \<Rightarrow> 'b option) \<Rightarrow> 'a list \<Rightarrow> 'b option" where
  "first_some f [] = None"
| "first_some f (x # xs) = (case f x of Some y \<Rightarrow> Some y | None \<Rightarrow> first_some f xs)"

text \<open>
  \<open>rmatch items prev s pos grp\<close> matches at the head of \<open>s\<close>, whose previous character is
  \<open>prev\<close>; the result is the end of the first group and the end of the match. \<open>Maybe w\<close> is
  an optional literal \<open>w\<close>.
\<close>

primrec rmatch :: "ritem list \<Rightarrow> char option \<Rightarrow> string \<Rightarrow> nat \<Rightarrow> nat \<Rightarrow> (nat \<times> nat) option" where
  "rmatch [] = (\<lambda>prev s pos grp. Some (grp, pos))"
| "rmatch (i # items) = (\<lambda>prev s pos grp.
     (case i of
        Bound \<Rightarrow> if word_opt prev \<noteq> word_opt (head_opt s) then rmatch items prev s pos grp else None
      | GroupEnd \<Rightarrow> rmatch items prev s pos pos
      | Maybe w \<Rightarrow>
          (case (if starts_with w s then rmatch items (prev_after (length w) prev s) (drop (length w) s) (pos + length w) grp
                 else None) of
             Some r \<Rightarrow> Some r
           | None \<Rightarrow> rmatch items prev s pos grp)
      | Rep lo hi p \<Rightarrow>
          (let run = length (takeWhile p s);
               most = (case hi of None \<Rightarrow> run | Some h \<Rightarrow> min h run)
           in first_some (\<lambda>n. rmatch items (prev_after n prev s) (drop n s) (pos + n) grp) (rev [lo..<Suc most]))))"

definition lit :: "string \<Rightarrow> ritem list" where
  "lit w = map (\<lambda>c. Rep 1 (Some 1) (\<lambda>x. x = c)) w"

definition lit_i :: "string \<Rightarrow> ritem list" where
  "lit_i w = map (\<lambda>c. Rep 1 (Some 1) (\<lambda>x. lower_char x = lower_char c)) w"

text \<open>\<open>s.replace(/re/g, f)\<close>: \<open>f\<close> gets the text of the first group.\<close>

function replace_all :: "ritem list \<Rightarrow> (string \<Rightarrow> string) \<Rightarrow> char option \<Rightarrow> string \<Rightarrow> string" where
  "replace_all items f prev [] = []"
| "replace_all items f prev (c # s) =
     (case rmatch items prev (c # s) 0 0 of
        Some (grp, e) \<Rightarrow>
          if 0 < e then f (take grp (c # s)) @ replace_all items f (prev_after e prev (c # s)) (drop e (c # s))
          else c # replace_all items f (Some c) s
      | None \<Rightarrow> c # replace_all items f (Some c) s)"
  by pat_completeness auto
termination by (relation "measure (\<lambda>(_, _, _, s). length s)") auto

text \<open>\<open>text.split(v).join(r)\<close> for a \<open>v\<close> that is not empty.\<close>

function split_join :: "string \<Rightarrow> string \<Rightarrow> string \<Rightarrow> string" where
  "split_join v r s =
     (if v = [] \<or> s = [] then s
      else if starts_with v s then r @ split_join v r (drop (length v) s)
      else hd s # split_join v r (tl s))"
  by pat_completeness auto
termination by (relation "measure (\<lambda>(_, _, s). length s)") auto

declare split_join.simps [simp del]

section \<open>Redaction\<close>

definition SECRET_VALUE_ENV_NAMES :: "string list" where
  "SECRET_VALUE_ENV_NAMES = [''KOVAEL_CHAIR_DISPATCH_SECRET'', AGENT_HUB_SECRET_ENV, ''KOVAEL_API_TOKEN'', ''KOVAEL_TOKEN'']"

definition no_quote_space :: "char \<Rightarrow> bool" where
  "no_quote_space c \<longleftrightarrow> \<not> js_space c \<and> c \<notin> {CHR 0x22, CHR 0x27, CHR 0x60}"

definition alnum :: "char \<Rightarrow> bool" where
  "alnum c \<longleftrightarrow> is_letter c \<or> is_digit c"

definition env_pattern :: "ritem list" where
  "env_pattern = Bound # lit_i ''KOVAEL_'' @ [Rep 0 None word_char, Rep 0 None js_space] @ lit ''=''
     @ [Rep 0 None js_space, GroupEnd, Rep 1 None no_quote_space]"

definition authorization_pattern :: "ritem list" where
  "authorization_pattern = Bound # lit_i ''authorization:'' @ [Rep 0 None js_space] @ lit_i ''bearer''
     @ [Rep 1 None js_space, GroupEnd, Rep 1 None no_quote_space]"

definition bearer_pattern :: "ritem list" where
  "bearer_pattern = Bound # lit_i ''bearer'' @ [Rep 1 None js_space,
     Rep 1 None (\<lambda>c. alnum c \<or> c \<in> set ''._~+/-''), Rep 0 None (\<lambda>c. c = CHR ''='')]"

definition api_key_pattern :: "ritem list" where
  "api_key_pattern = Bound # lit ''sk-'' @ [Maybe ''proj-'',
     Rep 24 None (\<lambda>c. alnum c \<or> c \<in> set ''_-''), Bound]"

definition hex_pattern :: "ritem list" where
  "hex_pattern = [Bound, Rep 48 None (\<lambda>c. is_hex (lower_char c)), Bound]"

definition token_pattern :: "ritem list" where
  "token_pattern = [Bound, Rep 64 None (\<lambda>c. alnum c \<or> c \<in> set ''+/_-''), Rep 0 (Some 2) (\<lambda>c. c = CHR ''=''), Bound]"

fun redact_values :: "penv \<Rightarrow> string list \<Rightarrow> string \<Rightarrow> string" where
  "redact_values env [] text = text"
| "redact_values env (name # names) text =
     redact_values env names
       (case env name of
          Some v \<Rightarrow> if length v \<ge> 8 then split_join v ''[REDACTED]'' text else text
        | None \<Rightarrow> text)"

definition redact_shapes :: "string \<Rightarrow> string" where
  "redact_shapes t =
     (let t = replace_all env_pattern (\<lambda>g. g @ ''[REDACTED]'') None t;
          t = replace_all authorization_pattern (\<lambda>g. g @ ''[REDACTED]'') None t;
          t = replace_all bearer_pattern (\<lambda>_. ''Bearer [REDACTED]'') None t;
          t = replace_all api_key_pattern (\<lambda>_. ''sk-[REDACTED]'') None t;
          t = replace_all hex_pattern (\<lambda>_. ''[REDACTED_HEX]'') None t
      in replace_all token_pattern (\<lambda>_. ''[REDACTED_TOKEN]'') None t)"

definition redactSensitiveText :: "penv \<Rightarrow> string \<Rightarrow> string" where
  "redactSensitiveText env value =
     take 1000 (redact_shapes (redact_values env SECRET_VALUE_ENV_NAMES value))"

definition safeRuntimeFailureMessage :: "(string \<Rightarrow> string) \<Rightarrow> penv \<Rightarrow> string \<Rightarrow> string \<Rightarrow> string" where
  "safeRuntimeFailureMessage sha env agentId err =
     ''Runtime error from '' @ agentId @ '': redacted failure '' @ take 12 (sha (redactSensitiveText env err))"

subsection \<open>A live secret does not survive\<close>

lemma sublist_break: "b \<notin> set v \<Longrightarrow> sublist v (xs @ b # ys) \<Longrightarrow> sublist v xs \<or> sublist v ys"
  by (auto simp: sublist_append sublist_Cons_right prefix_Cons suffix_Cons)

lemma split_join_hit: "u \<noteq> [] \<Longrightarrow> s \<noteq> [] \<Longrightarrow> starts_with u s \<Longrightarrow>
    split_join u r s = r @ split_join u r (drop (length u) s)"
  by (subst split_join.simps) simp

lemma split_join_miss: "u \<noteq> [] \<Longrightarrow> \<not> starts_with u (c # s) \<Longrightarrow> split_join u r (c # s) = c # split_join u r s"
  by (subst split_join.simps) simp

lemma split_join_Nil: "u = [] \<or> s = [] \<Longrightarrow> split_join u r s = s"
  by (subst split_join.simps) simp

definition label :: "string \<Rightarrow> bool" where
  "label L \<longleftrightarrow> L \<in> {''REDACTED'', ''REDACTED_HEX'', ''REDACTED_TOKEN''}"

definition secret_like :: "string \<Rightarrow> bool" where
  "secret_like v \<longleftrightarrow> length v \<ge> 8 \<and> list_all word_char v
     \<and> \<not> sublist v ''REDACTED_HEX'' \<and> \<not> sublist v ''REDACTED_TOKEN''"

lemma brackets_no_word: "\<not> word_char CHR ''['' \<and> \<not> word_char CHR '']'' \<and> \<not> word_char CHR '' '' \<and> \<not> word_char CHR ''-''"
  by (simp add: word_char_def is_letter_def is_digit_def lower_char_def)

lemma secret_like_label: "secret_like v \<Longrightarrow> label L \<Longrightarrow> \<not> sublist v L"
proof -
  have "sublist ''REDACTED'' ''REDACTED_HEX''" by simp
  then show "secret_like v \<Longrightarrow> label L \<Longrightarrow> \<not> sublist v L"
    unfolding secret_like_def label_def using sublist_order.order_trans by blast
qed

lemma secret_like_brackets: "secret_like v \<Longrightarrow> CHR ''['' \<notin> set v \<and> CHR '']'' \<notin> set v"
  using brackets_no_word by (auto simp: secret_like_def list_all_iff)

lemma sublist_label:
  assumes "secret_like v" and "label L" and "sublist v (K @ CHR ''['' # L @ CHR '']'' # out)"
  shows "sublist v K \<or> sublist v out"
proof -
  have "sublist v K \<or> sublist v (L @ CHR '']'' # out)"
    using secret_like_brackets [OF assms(1)] assms(3) by (intro sublist_break) auto
  moreover have "sublist v (L @ CHR '']'' # out) \<Longrightarrow> sublist v L \<or> sublist v out"
    using secret_like_brackets [OF assms(1)] by (intro sublist_break) auto
  ultimately show ?thesis using secret_like_label [OF assms(1,2)] by blast
qed

lemma redacted_label: "label ''REDACTED''"
  by (simp add: label_def)

lemma split_join_word:
  "list_all word_char y \<Longrightarrow> prefix y (split_join u ''[REDACTED]'' s) \<Longrightarrow> prefix y s"
proof (induction u "''[REDACTED]''" s arbitrary: y rule: split_join.induct)
  case (1 u s)
  consider "u = [] \<or> s = []" | "u \<noteq> []" "s \<noteq> []" "starts_with u s"
    | c s' where "u \<noteq> []" "s = c # s'" "\<not> starts_with u s" by (cases s) auto
  then show ?case
  proof cases
    case 1 then show ?thesis using "1.prems" by (simp add: split_join_Nil)
  next
    case 2 then show ?thesis using "1.prems" brackets_no_word by (cases y) (auto simp: split_join_hit)
  next
    case 3
    then show ?thesis using "1.prems" "1.hyps"(2) [of "tl y"] by (cases y) (auto simp: split_join_miss)
  qed
qed

lemma split_join_sublist:
  assumes v: "secret_like v"
  shows "sublist v (split_join u ''[REDACTED]'' s) \<Longrightarrow> sublist v s \<and> v \<noteq> u"
proof (induction u "''[REDACTED]''" s rule: split_join.induct)
  case (1 u s)
  have vne: "v \<noteq> []" using v by (auto simp: secret_like_def)
  consider "u = []" | "u \<noteq> []" "s = []" | "u \<noteq> []" "s \<noteq> []" "starts_with u s"
    | c s' where "u \<noteq> []" "s = c # s'" "\<not> starts_with u s" by (cases s) auto
  then show ?case
  proof cases
    case 1 then show ?thesis using "1.prems" vne by (simp add: split_join_Nil)
  next
    case 2 then show ?thesis using "1.prems" vne by (simp add: split_join_Nil)
  next
    case 3
    then have "sublist v ([] @ CHR ''['' # ''REDACTED'' @ CHR '']'' # split_join u ''[REDACTED]'' (drop (length u) s))"
      using "1.prems" by (simp add: split_join_hit)
    then have "sublist v (split_join u ''[REDACTED]'' (drop (length u) s))"
      using sublist_label [OF v redacted_label] vne by (metis sublist_Nil_right)
    then show ?thesis using "1.hyps"(1) 3 by (meson sublist_drop sublist_order.order_trans)
  next
    case 4
    then consider "prefix v (c # split_join u ''[REDACTED]'' s')" | "sublist v (split_join u ''[REDACTED]'' s')"
      using "1.prems" by (auto simp: split_join_miss sublist_Cons_right)
    then show ?thesis
    proof cases
      case 1
      then obtain v' where v': "v = c # v'" "prefix v' (split_join u ''[REDACTED]'' s')" using vne by (cases v) auto
      moreover have "list_all word_char v'" using v v' by (simp add: secret_like_def)
      ultimately have p: "prefix v s" using split_join_word 4 by auto
      then have "v \<noteq> u" using 4 by (auto simp: starts_with_def prefix_def)
      with p show ?thesis by (simp add: prefix_imp_sublist)
    next
      case 2
      then have "sublist v s' \<and> v \<noteq> u" using "1.hyps"(2) 4 by simp
      then show ?thesis using 4 by (simp add: sublist_Cons_right)
    qed
  qed
qed

text \<open>
  A rule is safe when what it puts for a match is a piece of the text or a short word, then a
  label in brackets, and only the label where the match continues a word.
\<close>

definition safe_rule :: "ritem list \<Rightarrow> (string \<Rightarrow> string) \<Rightarrow> bool" where
  "safe_rule items f \<longleftrightarrow> (\<forall>prev s g e. rmatch items prev s 0 0 = Some (g, e) \<longrightarrow>
     (\<exists>K L. f (take g s) = K @ CHR ''['' # L @ '']'' \<and> label L \<and> (prefix K s \<or> length K < 8)
        \<and> (word_opt prev \<longrightarrow> K = [])))"

lemma safe_ruleE:
  assumes "safe_rule items f" and "rmatch items prev s 0 0 = Some (g, e)"
  obtains K L where "f (take g s) = K @ CHR ''['' # L @ '']''" "label L" "prefix K s \<or> length K < 8" "word_opt prev \<longrightarrow> K = []"
  using assms unfolding safe_rule_def by blast

definition fires :: "ritem list \<Rightarrow> char option \<Rightarrow> string \<Rightarrow> bool" where
  "fires items prev s \<longleftrightarrow> (\<exists>g e. rmatch items prev s 0 0 = Some (g, e) \<and> 0 < e)"

lemma replace_all_miss: "\<not> fires items prev (c # s) \<Longrightarrow> replace_all items f prev (c # s) = c # replace_all items f (Some c) s"
  by (auto simp: fires_def split: option.splits)

lemma replace_all_word:
  "safe_rule items f \<Longrightarrow> word_opt prev \<Longrightarrow> list_all word_char y \<Longrightarrow> prefix y (replace_all items f prev s) \<Longrightarrow> prefix y s"
proof (induction items f prev s arbitrary: y rule: replace_all.induct)
  case (2 items f prev c s)
  show ?case
  proof (cases "fires items prev (c # s)")
    case True
    then obtain g e where m: "rmatch items prev (c # s) 0 0 = Some (g, e)" "0 < e" by (auto simp: fires_def)
    with 2 obtain L where "f (take g (c # s)) = CHR ''['' # L @ '']''" by (elim safe_ruleE [OF _ m(1)]) auto
    then have "y = []" using "2.prems" m brackets_no_word by (cases y) auto
    then show ?thesis by simp
  next
    case False
    have "prefix y (c # replace_all items f (Some c) s)" using "2.prems"(4) unfolding replace_all_miss [OF False] .
    then show ?thesis using "2.IH" "2.prems" False
      by (cases y) (auto simp: word_opt_def fires_def split: option.splits)
  qed
qed simp

lemma replace_all_sublist:
  assumes v: "secret_like v"
  shows "safe_rule items f \<Longrightarrow> sublist v (replace_all items f prev s) \<Longrightarrow> sublist v s"
proof (induction items f prev s rule: replace_all.induct)
  case (2 items f prev c s)
  have vne: "v \<noteq> []" using v by (auto simp: secret_like_def)
  show ?case
  proof (cases "fires items prev (c # s)")
    case True
    then obtain g e where m: "rmatch items prev (c # s) 0 0 = Some (g, e)" "0 < e" by (auto simp: fires_def)
    let ?rest = "replace_all items f (prev_after e prev (c # s)) (drop e (c # s))"
    obtain K L where K: "f (take g (c # s)) = K @ CHR ''['' # L @ '']''" "label L" "prefix K (c # s) \<or> length K < 8"
      by (rule safe_ruleE [OF "2.prems"(1) m(1)])
    have "sublist v (K @ CHR ''['' # L @ CHR '']'' # ?rest)" using "2.prems"(2) m K(1) by simp
    then consider "sublist v K" | "sublist v ?rest" using sublist_label [OF v K(2)] by blast
    then show ?thesis
    proof cases
      case 1
      then have "\<not> length K < 8" using v by (auto simp: secret_like_def dest: sublist_length_le)
      then show ?thesis using 1 K(3) by (meson prefix_imp_sublist sublist_order.order_trans)
    next
      case 2
      then have "sublist v (drop e (c # s))" using "2.IH"(2) [OF m(1) refl m(2) "2.prems"(1)] by simp
      then show ?thesis by (meson sublist_drop sublist_order.order_trans)
    qed
  next
    case False
    consider "prefix v (c # replace_all items f (Some c) s)" | "sublist v (replace_all items f (Some c) s)"
      using "2.prems"(2) unfolding replace_all_miss [OF False] sublist_Cons_right by blast
    then show ?thesis
    proof cases
      case 1
      then obtain v' where v': "v = c # v'" "prefix v' (replace_all items f (Some c) s)" using vne by (cases v) auto
      moreover have "word_opt (Some c)" and "list_all word_char v'" using v v' by (simp_all add: secret_like_def word_opt_def)
      ultimately have "prefix v (c # s)" using replace_all_word [OF "2.prems"(1)] by auto
      then show ?thesis by (rule prefix_imp_sublist)
    next
      case 2
      then have "sublist v s" using "2.IH"(1,3) "2.prems"(1) False
        by (cases "rmatch items prev (c # s) 0 0") (auto simp: fires_def)
      then show ?thesis by (simp add: sublist_Cons_right)
    qed
  qed
qed simp

text \<open>A pattern that starts a word does not match inside one.\<close>

lemma rmatch_in_word:
  assumes "word_opt prev" and "\<And>c. p c \<Longrightarrow> word_char c"
  shows "rmatch (Bound # Rep (Suc lo) hi p # items) prev s pos grp = None"
proof (cases s)
  case (Cons c s')
  show ?thesis
  proof (cases "p c")
    case True
    then show ?thesis using assms Cons by (simp add: word_opt_def head_opt_def)
  next
    case False
    then show ?thesis using Cons by (simp split: option.splits)
  qed
qed (simp split: option.splits)

lemma word_start_safe:
  assumes "\<And>c. p c \<Longrightarrow> word_char c" and "\<And>g. \<exists>K L. f g = K @ CHR ''['' # L @ '']'' \<and> label L \<and> (K = g \<or> length K < 8)"
  shows "safe_rule (Bound # Rep (Suc lo) hi p # items) f"
  unfolding safe_rule_def
proof (intro allI impI)
  fix prev s g e
  assume m: "rmatch (Bound # Rep (Suc lo) hi p # items) prev s 0 0 = Some (g, e)"
  have "\<not> word_opt prev" using m rmatch_in_word [OF _ assms(1)] by fastforce
  moreover obtain K L where "f (take g s) = K @ CHR ''['' # L @ '']''" "label L" "K = take g s \<or> length K < 8"
    using assms(2) by metis
  ultimately show "\<exists>K L. f (take g s) = K @ CHR ''['' # L @ '']'' \<and> label L \<and> (prefix K s \<or> length K < 8) \<and> (word_opt prev \<longrightarrow> K = [])"
    using take_is_prefix by blast
qed

lemma label_only_safe: "label L \<Longrightarrow> safe_rule items (\<lambda>_. CHR ''['' # L @ '']'')"
  unfolding safe_rule_def by (intro allI impI exI [of _ "[]"] exI [of _ L]) simp

lemma letter_word: "lower_char x = lower_char c \<Longrightarrow> is_letter c \<Longrightarrow> word_char x"
  by (simp add: word_char_def is_letter_def)

lemma pattern_safe:
  "safe_rule env_pattern (\<lambda>g. g @ ''[REDACTED]'')"
  "safe_rule authorization_pattern (\<lambda>g. g @ ''[REDACTED]'')"
  "safe_rule bearer_pattern (\<lambda>_. ''Bearer [REDACTED]'')"
  "safe_rule api_key_pattern (\<lambda>_. ''sk-[REDACTED]'')"
  "safe_rule hex_pattern (\<lambda>_. ''[REDACTED_HEX]'')"
  "safe_rule token_pattern (\<lambda>_. ''[REDACTED_TOKEN]'')"
proof -
  have K: "is_letter CHR ''K''" and a: "is_letter CHR ''a''" and b: "is_letter CHR ''b''" and s: "word_char CHR ''s''"
    by (simp_all add: is_letter_def lower_char_def word_char_def)
  have g: "\<exists>K L. g @ ''[REDACTED]'' = K @ CHR ''['' # L @ '']'' \<and> label L \<and> (K = g \<or> length K < 8)" for g
    by (intro exI [of _ g] exI [of _ "''REDACTED''"]) (simp add: label_def)
  show "safe_rule env_pattern (\<lambda>g. g @ ''[REDACTED]'')"
    unfolding env_pattern_def lit_i_def list.map append_Cons One_nat_def
    by (rule word_start_safe) (use K g letter_word in blast)+
  show "safe_rule authorization_pattern (\<lambda>g. g @ ''[REDACTED]'')"
    unfolding authorization_pattern_def lit_i_def list.map append_Cons One_nat_def
    by (rule word_start_safe) (use a g letter_word in blast)+
  show "safe_rule bearer_pattern (\<lambda>_. ''Bearer [REDACTED]'')"
    unfolding bearer_pattern_def lit_i_def list.map append_Cons One_nat_def
    by (rule word_start_safe, use b letter_word in blast)
      (intro exI [of _ "''Bearer ''"] exI [of _ "''REDACTED''"], simp add: label_def)
  show "safe_rule api_key_pattern (\<lambda>_. ''sk-[REDACTED]'')"
    unfolding api_key_pattern_def lit_def list.map append_Cons One_nat_def
    by (rule word_start_safe, use s in blast)
      (intro exI [of _ "''sk-''"] exI [of _ "''REDACTED''"], simp add: label_def)
  show "safe_rule hex_pattern (\<lambda>_. ''[REDACTED_HEX]'')" and "safe_rule token_pattern (\<lambda>_. ''[REDACTED_TOKEN]'')"
    using label_only_safe [of "''REDACTED_HEX''" hex_pattern] label_only_safe [of "''REDACTED_TOKEN''" token_pattern]
    by (simp_all add: label_def)
qed

lemma redact_shapes_sublist:
  assumes v: "secret_like v"
  shows "sublist v (redact_shapes t) \<Longrightarrow> sublist v t"
  unfolding redact_shapes_def Let_def
  apply (drule replace_all_sublist [OF v pattern_safe(6)])
  apply (drule replace_all_sublist [OF v pattern_safe(5)])
  apply (drule replace_all_sublist [OF v pattern_safe(4)])
  apply (drule replace_all_sublist [OF v pattern_safe(3)])
  apply (drule replace_all_sublist [OF v pattern_safe(2)])
  apply (erule replace_all_sublist [OF v pattern_safe(1)])
  done

lemma redact_values_sublist:
  "secret_like v \<Longrightarrow> sublist v (redact_values env names t) \<Longrightarrow>
     sublist v t \<and> (\<forall>name\<in>set names. env name \<noteq> Some v)"
proof (induction names arbitrary: t)
  case (Cons name names)
  have v: "8 \<le> length v" using Cons.prems by (simp add: secret_like_def)
  define t' where "t' = (case env name of Some u \<Rightarrow> if length u \<ge> 8 then split_join u ''[REDACTED]'' t else t | None \<Rightarrow> t)"
  have *: "sublist v t' \<and> (\<forall>name\<in>set names. env name \<noteq> Some v)"
    using Cons by (simp add: t'_def)
  have "sublist v t \<and> env name \<noteq> Some v"
  proof (cases "env name")
    case None
    then show ?thesis using * by (simp add: t'_def)
  next
    case (Some u)
    show ?thesis
    proof (cases "8 \<le> length u")
      case True
      then have "sublist v (split_join u ''[REDACTED]'' t)" using * Some by (simp add: t'_def)
      then show ?thesis using split_join_sublist [OF Cons.prems(1), of u t] Some by auto
    next
      case False
      then show ?thesis using * v Some by (auto simp: t'_def)
    qed
  qed
  with * show ?case by simp
qed simp

text \<open>C24: A secret the process holds does not occur in a redacted message: one of word characters,
  at least eight long and no part of a redaction label (a piece of it is not excluded).\<close>

theorem live_secret_redacted:
  assumes "name \<in> set SECRET_VALUE_ENV_NAMES" and "env name = Some v" and "secret_like v"
  shows "\<not> sublist v (redactSensitiveText env t)"
proof
  assume "sublist v (redactSensitiveText env t)"
  then have "sublist v (redact_shapes (redact_values env SECRET_VALUE_ENV_NAMES t))"
    unfolding redactSensitiveText_def by (meson sublist_take sublist_order.order_trans)
  then show False using assms redact_shapes_sublist redact_values_sublist by blast
qed

theorem live_secret_redacted_witness:
  "\<not> sublist ''a1b2c3d4'' (redactSensitiveText (\<lambda>n. if n = ''KOVAEL_TOKEN'' then Some ''a1b2c3d4'' else None) ''x a1b2c3d4 y'')"
proof (rule live_secret_redacted)
  show "''KOVAEL_TOKEN'' \<in> set SECRET_VALUE_ENV_NAMES" by (simp add: SECRET_VALUE_ENV_NAMES_def)
  show "secret_like ''a1b2c3d4''"
    by (auto simp: secret_like_def word_char_def is_letter_def is_digit_def lower_char_def dest!: set_mono_sublist)
qed simp

section \<open>Sealed columns of the agent hub\<close>

record crypto =
  cr_sha256 :: "string \<Rightarrow> string"
  cr_hmac :: "string \<Rightarrow> string \<Rightarrow> string"
  cr_scrypt :: "string \<Rightarrow> string \<Rightarrow> string"
  cr_hkdf :: "string \<Rightarrow> string \<Rightarrow> string \<Rightarrow> string"
  cr_seal :: "string \<Rightarrow> string \<Rightarrow> string \<Rightarrow> string \<Rightarrow> string \<times> string"
  cr_open :: "string \<Rightarrow> string \<Rightarrow> string \<Rightarrow> string \<Rightarrow> string \<Rightarrow> string option"
  cr_iv_ok :: "string \<Rightarrow> bool"
  cr_tag_ok :: "string \<Rightarrow> bool"

text \<open>
  \<open>cr_seal key iv aad text\<close> is the cipher text and the tag; \<open>cr_open key iv aad ciphertext tag\<close>
  is the text when the tag is right. What AES-GCM documents: opening undoes sealing under
  the same key, initial value and authenticated data.
\<close>

definition gcm_law :: "crypto \<Rightarrow> bool" where
  "gcm_law cr \<longleftrightarrow> (\<forall>key iv aad text.
     cr_open cr key iv aad (fst (cr_seal cr key iv aad text)) (snd (cr_seal cr key iv aad text)) = Some text)"

datatype crypto_error = NeedsSecret | AuthenticationFailed

definition NL :: string where
  "NL = [CHR 0x0A]"

definition ENCRYPTED_VALUE_MARKER :: string where
  "ENCRYPTED_VALUE_MARKER = ''__kovaelEncrypted''"

definition aadFor :: "string \<Rightarrow> string \<Rightarrow> string \<Rightarrow> string" where
  "aadFor table ident column = ''kovael-agent-hub-field-v1'' @ NL @ table @ NL @ ident @ NL @ column"

definition deriveEncryptionKey :: "crypto \<Rightarrow> string \<Rightarrow> string \<Rightarrow> string" where
  "deriveEncryptionKey cr secret salt = cr_scrypt cr secret salt"

definition sealSensitive :: "crypto \<Rightarrow> string \<Rightarrow> string option \<Rightarrow> string \<Rightarrow> string \<Rightarrow> string" where
  "sealSensitive cr iv key text aad =
     (case key of
        None \<Rightarrow> text
      | Some k \<Rightarrow>
          (case cr_seal cr k iv aad text of
             (ciphertext, tag) \<Rightarrow>
               stringify (JObj [(ENCRYPTED_VALUE_MARKER, JBool True), (''v'', JNum 1), (''alg'', JStr ''A256GCM''),
                 (''iv'', JStr iv), (''ciphertext'', JStr ciphertext), (''tag'', JStr tag)])))"

text \<open>Reading a member: a value that is not an object has none of these.\<close>

fun jget :: "json \<Rightarrow> string \<Rightarrow> json option" where
  "jget (JObj kvs) k = om_get kvs k"
| "jget _ k = None"

fun as_str :: "json option \<Rightarrow> string option" where
  "as_str (Some (JStr s)) = Some s"
| "as_str _ = None"

record envelope =
  env_iv :: string
  env_ciphertext :: string
  env_tag :: string

definition parseEncryptedEnvelope :: "string \<Rightarrow> envelope option" where
  "parseEncryptedEnvelope text =
     (case JSON_parse text of
        None \<Rightarrow> None
      | Some v \<Rightarrow>
          if jget v ENCRYPTED_VALUE_MARKER = Some (JBool True) \<and> jget v ''v'' = Some (JNum 1)
             \<and> jget v ''alg'' = Some (JStr ''A256GCM'')
          then (case (as_str (jget v ''iv''), as_str (jget v ''ciphertext''), as_str (jget v ''tag'')) of
              (Some i, Some c, Some t) \<Rightarrow> Some \<lparr>env_iv = i, env_ciphertext = c, env_tag = t\<rparr>
            | _ \<Rightarrow> None)
          else None)"

definition openSensitive :: "crypto \<Rightarrow> string option \<Rightarrow> string \<Rightarrow> string \<Rightarrow> crypto_error + string" where
  "openSensitive cr key text aad =
     (case parseEncryptedEnvelope text of
        None \<Rightarrow> Inr text
      | Some en \<Rightarrow>
          (case key of
             None \<Rightarrow> Inl NeedsSecret
           | Some k \<Rightarrow>
               (case cr_open cr k (env_iv en) aad (env_ciphertext en) (env_tag en) of
                  None \<Rightarrow> Inl AuthenticationFailed
                | Some t \<Rightarrow> Inr t)))"

text \<open>Field names that are not array indices keep the order of the object literal.\<close>

lemma literal_own_order: "list_all (\<lambda>kv. \<not> is_index (fst kv)) kvs \<Longrightarrow> own_order kvs = kvs"
  by (simp add: own_order_def list_all_iff filter_id_conv filter_empty_conv)

lemma not_index_letter: "\<not> is_digit (hd k) \<Longrightarrow> \<not> is_index k"
  by (cases k) (auto simp: is_index_def)

lemma not_index_fields:
  "\<not> is_index ENCRYPTED_VALUE_MARKER" "\<not> is_index ''v''" "\<not> is_index ''alg''" "\<not> is_index ''iv''"
  "\<not> is_index ''ciphertext''" "\<not> is_index ''tag''" "\<not> is_index ''version''" "\<not> is_index ''encrypted''"
  "\<not> is_index ''requestId''" "\<not> is_index ''timestamp''"
  by (rule not_index_letter, simp add: is_digit_def ENCRYPTED_VALUE_MARKER_def)+

lemma parse_sealed:
  "parseEncryptedEnvelope (sealSensitive cr iv (Some k) text aad) =
     Some \<lparr>env_iv = iv, env_ciphertext = fst (cr_seal cr k iv aad text), env_tag = snd (cr_seal cr k iv aad text)\<rparr>"
proof -
  define kvs where "kvs = [(ENCRYPTED_VALUE_MARKER, JBool True), (''v'', JNum 1), (''alg'', JStr ''A256GCM''),
      (''iv'', JStr iv), (''ciphertext'', JStr (fst (cr_seal cr k iv aad text))), (''tag'', JStr (snd (cr_seal cr k iv aad text)))]"
  have "own_order kvs = kvs" by (rule literal_own_order) (simp add: kvs_def not_index_fields)
  moreover have "om_wf kvs" by (simp add: kvs_def ENCRYPTED_VALUE_MARKER_def)
  moreover have "list_all (\<lambda>kv. json_wf (snd kv)) kvs" by (simp add: kvs_def)
  ultimately have "JSON_parse (stringify (JObj kvs)) = Some (JObj kvs)" by (intro JSON_parse_stringify) simp
  moreover have "sealSensitive cr iv (Some k) text aad = stringify (JObj kvs)"
    by (simp only: sealSensitive_def kvs_def option.case case_prod_beta)
  ultimately have "parseEncryptedEnvelope (sealSensitive cr iv (Some k) text aad) =
      (let v = JObj kvs in if jget v ENCRYPTED_VALUE_MARKER = Some (JBool True) \<and> jget v ''v'' = Some (JNum 1)
             \<and> jget v ''alg'' = Some (JStr ''A256GCM'')
          then (case (as_str (jget v ''iv''), as_str (jget v ''ciphertext''), as_str (jget v ''tag'')) of
              (Some i, Some c, Some t) \<Rightarrow> Some \<lparr>env_iv = i, env_ciphertext = c, env_tag = t\<rparr>
            | _ \<Rightarrow> None)
          else None)"
    by (simp only: parseEncryptedEnvelope_def option.case Let_def)
  then show ?thesis by (simp add: kvs_def ENCRYPTED_VALUE_MARKER_def)
qed

lemma sealed_opens:
  assumes "gcm_law cr" and "key = None \<Longrightarrow> parseEncryptedEnvelope text = None"
  shows "openSensitive cr key (sealSensitive cr iv key text aad) aad = Inr text"
proof (cases key)
  case None
  then show ?thesis using assms(2) by (simp add: openSensitive_def sealSensitive_def)
next
  case (Some k)
  then show ?thesis using assms(1) by (simp add: openSensitive_def parse_sealed gcm_law_def)
qed

section \<open>The dispatch envelope\<close>

definition CHAIR_DISPATCH_SECRET_ENV :: string where
  "CHAIR_DISPATCH_SECRET_ENV = ''KOVAEL_CHAIR_DISPATCH_SECRET''"

definition SECURITY_VERSION :: string where
  "SECURITY_VERSION = ''kovael-chair-v1''"

definition MAX_CLOCK_SKEW_MS :: int where
  "MAX_CLOCK_SKEW_MS = 300000"

definition currentSecret :: "penv \<Rightarrow> string option" where
  "currentSecret env =
     (case env CHAIR_DISPATCH_SECRET_ENV of
        None \<Rightarrow> None
      | Some s \<Rightarrow> if length (trim s) \<ge> 32 then Some (trim s) else None)"

definition keyFor :: "crypto \<Rightarrow> string \<Rightarrow> string" where
  "keyFor cr secret = cr_hkdf cr secret ''kovael-chair-dispatch-kdf'' (SECURITY_VERSION @ '':payload'')"

definition dispatch_aad :: "string \<Rightarrow> int \<Rightarrow> string" where
  "dispatch_aad requestId timestamp = SECURITY_VERSION @ NL @ requestId @ NL @ show_int timestamp"

record SecuredBody =
  sb_body :: string
  sb_headers :: "(string \<times> string) list"

definition envelope_json :: "string \<Rightarrow> int \<Rightarrow> string \<Rightarrow> string \<Rightarrow> string \<Rightarrow> json" where
  "envelope_json requestId timestamp iv ciphertext tag =
     JObj [(''version'', JStr SECURITY_VERSION), (''encrypted'', JBool True), (''alg'', JStr ''A256GCM''),
       (''requestId'', JStr requestId), (''timestamp'', JNum timestamp), (''iv'', JStr iv),
       (''ciphertext'', JStr ciphertext), (''tag'', JStr tag)]"

definition secureChairDispatchBody :: "crypto \<Rightarrow> penv \<Rightarrow> int \<Rightarrow> string \<Rightarrow> json \<Rightarrow> string \<Rightarrow> SecuredBody" where
  "secureChairDispatchBody cr env now iv payload requestId =
     (case currentSecret env of
        None \<Rightarrow> \<lparr>sb_body = stringify payload, sb_headers = [(''content-type'', ''application/json'')]\<rparr>
      | Some secret \<Rightarrow>
          let sealed = cr_seal cr (keyFor cr secret) iv (dispatch_aad requestId now) (stringify payload) in
          \<lparr>sb_body = stringify (envelope_json requestId now iv (fst sealed) (snd sealed)),
           sb_headers = [(''content-type'', ''application/json''), (''x-kovael-chair-security'', SECURITY_VERSION),
             (''x-kovael-request-id'', requestId)]\<rparr>)"

text \<open>\<open>String(v)\<close> of a parsed value.\<close>

fun js_String :: "json \<Rightarrow> string" and js_elems :: "json list \<Rightarrow> string list" where
  "js_String JNull = ''null''"
| "js_String (JBool b) = (if b then ''true'' else ''false'')"
| "js_String (JNum i) = show_int i"
| "js_String (JStr s) = s"
| "js_String (JArr xs) = join_with '','' (js_elems xs)"
| "js_String (JObj _) = ''[object Object]''"
| "js_elems [] = []"
| "js_elems (x # xs) = (if x = JNull then [] else js_String x) # js_elems xs"

definition string_or_empty :: "json option \<Rightarrow> string" where
  "string_or_empty v = (case v of None \<Rightarrow> [] | Some JNull \<Rightarrow> [] | Some j \<Rightarrow> js_String j)"

record ChairDispatchEnvelope =
  ce_requestId :: string
  ce_timestamp :: int
  ce_iv :: string
  ce_ciphertext :: string
  ce_tag :: string

text \<open>A \<open>ChairDispatchSecurityError\<close>: its status and code.\<close>

type_synonym dispatch_error = "nat \<times> string"

definition asEnvelope :: "int \<Rightarrow> json \<Rightarrow> dispatch_error + ChairDispatchEnvelope" where
  "asEnvelope now body =
     (case (jget body ''requestId'', jget body ''timestamp'') of
        (Some (JStr rid), Some (JNum ts)) \<Rightarrow>
          if jget body ''version'' \<noteq> Some (JStr SECURITY_VERSION) \<or> jget body ''encrypted'' \<noteq> Some (JBool True)
             \<or> jget body ''alg'' \<noteq> Some (JStr ''A256GCM'') \<or> rid = []
          then Inl (400, ''invalid_chair_dispatch_envelope'')
          else if \<bar>now - ts\<bar> > MAX_CLOCK_SKEW_MS then Inl (401, ''stale_chair_dispatch_envelope'')
          else Inr \<lparr>ce_requestId = rid, ce_timestamp = ts, ce_iv = string_or_empty (jget body ''iv''),
                 ce_ciphertext = string_or_empty (jget body ''ciphertext''), ce_tag = string_or_empty (jget body ''tag'')\<rparr>
      | _ \<Rightarrow> Inl (400, ''invalid_chair_dispatch_envelope''))"

definition unauthentic :: dispatch_error where
  "unauthentic = (401, ''invalid_chair_dispatch_ciphertext'')"

definition open_envelope :: "crypto \<Rightarrow> string \<Rightarrow> ChairDispatchEnvelope \<Rightarrow> dispatch_error + json" where
  "open_envelope cr secret en =
     (if ce_iv en = [] then Inl (400, ''invalid_chair_dispatch_envelope'')
      else if \<not> cr_iv_ok cr (ce_iv en) then Inl unauthentic
      else if ce_tag en = [] then Inl (400, ''invalid_chair_dispatch_envelope'')
      else if \<not> cr_tag_ok cr (ce_tag en) then Inl unauthentic
      else if ce_ciphertext en = [] then Inl (400, ''invalid_chair_dispatch_envelope'')
      else (case cr_open cr (keyFor cr secret) (ce_iv en) (dispatch_aad (ce_requestId en) (ce_timestamp en))
                   (ce_ciphertext en) (ce_tag en) of
          None \<Rightarrow> Inl unauthentic
        | Some plaintext \<Rightarrow>
            (case JSON_parse plaintext of
               None \<Rightarrow> Inl unauthentic
             | Some (JObj kvs) \<Rightarrow> Inr (JObj kvs)
             | Some _ \<Rightarrow> Inl (400, ''invalid_chair_dispatch_payload''))))"

definition openChairDispatchBody :: "crypto \<Rightarrow> penv \<Rightarrow> int \<Rightarrow> json \<Rightarrow> dispatch_error + json" where
  "openChairDispatchBody cr env now body =
     (case currentSecret env of
        None \<Rightarrow> Inr body
      | Some secret \<Rightarrow>
          if jget body ''encrypted'' \<noteq> Some (JBool True) then Inl (401, ''chair_dispatch_security_required'')
          else (case asEnvelope now body of
              Inl err \<Rightarrow> Inl err
            | Inr en \<Rightarrow> open_envelope cr secret en))"

definition gcm_texts :: "crypto \<Rightarrow> bool" where
  "gcm_texts cr \<longleftrightarrow> (\<forall>key iv aad text. text \<noteq> [] \<longrightarrow> fst (cr_seal cr key iv aad text) \<noteq> []
     \<and> snd (cr_seal cr key iv aad text) \<noteq> [] \<and> cr_tag_ok cr (snd (cr_seal cr key iv aad text)))"

lemma parse_envelope_json: "JSON_parse (stringify (envelope_json r t i c g)) = Some (envelope_json r t i c g)"
proof (rule JSON_parse_stringify)
  have "list_all (\<lambda>kv. \<not> is_index (fst kv)) [(''version'', JStr SECURITY_VERSION), (''encrypted'', JBool True),
      (''alg'', JStr ''A256GCM''), (''requestId'', JStr r), (''timestamp'', JNum t), (''iv'', JStr i),
      (''ciphertext'', JStr c), (''tag'', JStr g)]"
    by (simp add: not_index_fields)
  then show "json_wf (envelope_json r t i c g)" by (simp add: envelope_json_def literal_own_order)
qed

lemma asEnvelope_json:
  "r \<noteq> [] \<Longrightarrow> \<bar>now - t\<bar> \<le> MAX_CLOCK_SKEW_MS \<Longrightarrow> asEnvelope now (envelope_json r t i c g) =
     Inr \<lparr>ce_requestId = r, ce_timestamp = t, ce_iv = i, ce_ciphertext = c, ce_tag = g\<rparr>"
  by (simp add: asEnvelope_def envelope_json_def string_or_empty_def)

text \<open>What the orchestrator sends to a chair arrives as it was: with the same secret (or none) on
  both sides and clocks that differ by five minutes at most, the opened body is the payload.\<close>

theorem dispatch_body_delivered:
  assumes "gcm_law cr" and "gcm_texts cr" and "cr_iv_ok cr iv" and "iv \<noteq> []" and "requestId \<noteq> []"
    and payload: "payload = JObj kvs" "json_wf payload"
    and secret: "currentSecret env = currentSecret env'"
    and "\<bar>later - now\<bar> \<le> MAX_CLOCK_SKEW_MS"
  shows "\<exists>body. JSON_parse (sb_body (secureChairDispatchBody cr env now iv payload requestId)) = Some body
    \<and> openChairDispatchBody cr env' later body = Inr payload"
proof (cases "currentSecret env")
  case None
  then show ?thesis using secret payload(2)
    by (simp add: secureChairDispatchBody_def openChairDispatchBody_def JSON_parse_stringify)
next
  case (Some s)
  define sealed where "sealed = cr_seal cr (keyFor cr s) iv (dispatch_aad requestId now) (stringify payload)"
  have ne: "stringify payload \<noteq> []" by (simp add: payload(1))
  have ok: "fst sealed \<noteq> []" "snd sealed \<noteq> []" "cr_tag_ok cr (snd sealed)"
    using assms(2) ne by (simp_all add: gcm_texts_def sealed_def)
  have opened: "cr_open cr (keyFor cr s) iv (dispatch_aad requestId now) (fst sealed) (snd sealed) = Some (stringify payload)"
    using assms(1) by (simp add: gcm_law_def sealed_def)
  let ?body = "envelope_json requestId now iv (fst sealed) (snd sealed)"
  have "sb_body (secureChairDispatchBody cr env now iv payload requestId) = stringify ?body"
    using Some by (simp add: secureChairDispatchBody_def Let_def sealed_def)
  moreover have "currentSecret env' = Some s" and "jget ?body ''encrypted'' = Some (JBool True)"
    using secret Some by (simp_all add: envelope_json_def)
  then have "openChairDispatchBody cr env' later ?body =
      open_envelope cr s \<lparr>ce_requestId = requestId, ce_timestamp = now, ce_iv = iv, ce_ciphertext = fst sealed, ce_tag = snd sealed\<rparr>"
    using assms(5,9) by (simp add: openChairDispatchBody_def asEnvelope_json)
  moreover have "\<dots> = Inr payload"
    using ok opened assms(3,4) JSON_parse_stringify [OF payload(2)] payload(1)
    by (simp add: open_envelope_def del: stringify.simps)
  ultimately show ?thesis using parse_envelope_json by simp
qed

text \<open>C25: With a secret configured, a body is accepted only when it is an envelope of the last five
  minutes whose cipher text opens under the key with the request id and time it states.\<close>

theorem accepted_dispatch_authentic:
  assumes "currentSecret env = Some secret" and "openChairDispatchBody cr env now body = Inr payload"
  shows "\<exists>rid ts plaintext kvs. jget body ''requestId'' = Some (JStr rid) \<and> jget body ''timestamp'' = Some (JNum ts)
    \<and> \<bar>now - ts\<bar> \<le> 300000
    \<and> cr_open cr (keyFor cr secret) (string_or_empty (jget body ''iv'')) (dispatch_aad rid ts)
        (string_or_empty (jget body ''ciphertext'')) (string_or_empty (jget body ''tag'')) = Some plaintext
    \<and> JSON_parse plaintext = Some payload \<and> payload = JObj kvs"
proof -
  obtain en where en: "asEnvelope now body = Inr en" "open_envelope cr secret en = Inr payload"
    using assms by (auto simp: openChairDispatchBody_def split: if_splits sum.splits)
  obtain rid ts where rid: "jget body ''requestId'' = Some (JStr rid)" "jget body ''timestamp'' = Some (JNum ts)"
    using en(1) by (auto simp: asEnvelope_def split: option.splits json.splits)
  have e: "\<bar>now - ts\<bar> \<le> 300000" "ce_requestId en = rid" "ce_timestamp en = ts"
      "ce_iv en = string_or_empty (jget body ''iv'')" "ce_ciphertext en = string_or_empty (jget body ''ciphertext'')"
      "ce_tag en = string_or_empty (jget body ''tag'')"
    using en(1) rid by (auto simp: asEnvelope_def MAX_CLOCK_SKEW_MS_def split: if_splits)
  obtain plaintext kvs where "cr_open cr (keyFor cr secret) (ce_iv en) (dispatch_aad (ce_requestId en) (ce_timestamp en))
      (ce_ciphertext en) (ce_tag en) = Some plaintext" "JSON_parse plaintext = Some payload" "payload = JObj kvs"
    using en(2) by (auto simp: open_envelope_def unauthentic_def split: if_splits option.splits json.splits)
  with rid e show ?thesis by auto
qed

section \<open>An example of the cryptographic functions\<close>

text \<open>Not secure, but with the documented laws: the cipher text is the text after a mark.\<close>

definition plain_crypto :: crypto where
  "plain_crypto = \<lparr>cr_sha256 = (\<lambda>s. CHR ''h'' # s), cr_hmac = (\<lambda>k t. k @ t), cr_scrypt = (\<lambda>s t. s @ t), cr_hkdf = (\<lambda>s _ _. s),
     cr_seal = (\<lambda>k iv aad text. (CHR ''c'' # text, ''t'')), cr_open = (\<lambda>k iv aad c t. Some (tl c)),
     cr_iv_ok = (\<lambda>_. True), cr_tag_ok = (\<lambda>_. True)\<rparr>"

lemma plain_crypto_laws: "gcm_law plain_crypto \<and> gcm_texts plain_crypto"
  by (simp add: gcm_law_def gcm_texts_def plain_crypto_def)

definition example_secret :: string where
  "example_secret = replicate 32 CHR ''s''"

lemma example_secret_current: "currentSecret (\<lambda>_. Some example_secret) = Some example_secret"
proof -
  have "trim example_secret = example_secret"
    by (rule trim_id) (simp_all add: example_secret_def js_space_def)
  then show ?thesis by (simp add: currentSecret_def) (simp add: example_secret_def)
qed

theorem sealed_value_opens:
  assumes "gcm_law cr" and "key = None \<Longrightarrow> parseEncryptedEnvelope text = None"
  shows "openSensitive cr key (sealSensitive cr iv key text aad) aad = Inr text"
  using assms by (rule sealed_opens)

theorem sealed_value_opens_witness:
  "openSensitive plain_crypto (Some ''key'') (sealSensitive plain_crypto ''iv'' (Some ''key'') ''text'' ''aad'') ''aad'' = Inr ''text''"
  by (rule sealed_value_opens) (use plain_crypto_laws in simp_all)

theorem dispatch_body_delivered_witness:
  "\<exists>body. JSON_parse (sb_body (secureChairDispatchBody plain_crypto (\<lambda>_. Some example_secret) 5 ''iv'' (JObj []) ''r1'')) = Some body
    \<and> openChairDispatchBody plain_crypto (\<lambda>_. Some example_secret) 300005 body = Inr (JObj [])"
  using dispatch_body_delivered [of plain_crypto "''iv''" "''r1''" "JObj []" "[]" "\<lambda>_. Some example_secret"
      "\<lambda>_. Some example_secret" 300005 5] plain_crypto_laws
  by (simp add: MAX_CLOCK_SKEW_MS_def plain_crypto_def own_order_def)

theorem accepted_dispatch_authentic_witness:
  "\<exists>payload rid ts plaintext kvs. jget (envelope_json ''r1'' 5 ''iv'' ''c{}'' ''t'') ''requestId'' = Some (JStr rid)
    \<and> jget (envelope_json ''r1'' 5 ''iv'' ''c{}'' ''t'') ''timestamp'' = Some (JNum ts) \<and> \<bar>7 - ts\<bar> \<le> 300000
    \<and> JSON_parse plaintext = Some payload \<and> payload = JObj kvs"
proof -
  have "JSON_parse (stringify (JObj [])) = Some (JObj [])" by (rule JSON_parse_stringify) (simp add: own_order_def)
  then have "openChairDispatchBody plain_crypto (\<lambda>_. Some example_secret) 7 (envelope_json ''r1'' 5 ''iv'' ''c{}'' ''t'') = Inr (JObj [])"
    by (simp add: openChairDispatchBody_def example_secret_current asEnvelope_json MAX_CLOCK_SKEW_MS_def open_envelope_def
        plain_crypto_def) (simp add: envelope_json_def)
  from accepted_dispatch_authentic [OF example_secret_current this] show ?thesis by blast
qed

section \<open>Child environments\<close>

lemma copyAllowlisted_get:
  "om_get (copyAllowlisted source env names) k =
     (if k \<in> set names \<and> source k \<noteq> None then source k else om_get env k)"
  by (induction names arbitrary: env) (auto split: option.splits)

theorem runtime_env_stripped:
  "om_get (buildAgentRuntimeEnv source) k =
     (if k \<in> set (PLATFORM_ENV_ALLOWLIST @ PROXY_ENV_ALLOWLIST) then source k else None)
   \<and> (starts_with ''KOVAEL_'' k \<longrightarrow> om_get (buildAgentRuntimeEnv source) k = None)"
proof -
  have "om_get (buildAgentRuntimeEnv source) k =
      (if k \<in> set (PLATFORM_ENV_ALLOWLIST @ PROXY_ENV_ALLOWLIST) then source k else None)"
    by (auto simp: buildAgentRuntimeEnv_def copyAllowlisted_get)
  moreover have "\<not> starts_with ''KOVAEL_'' n" if "n \<in> set (PLATFORM_ENV_ALLOWLIST @ PROXY_ENV_ALLOWLIST)" for n
    using that by (auto simp: PLATFORM_ENV_ALLOWLIST_def PROXY_ENV_ALLOWLIST_def starts_with_def)
  ultimately show ?thesis by auto
qed

end
