(* ===== verification/Hub.thy ===== *)
theory Hub
  imports Secrets ChairBridge
begin

text \<open>
  \<open>src/src/services/AgentHubStore.ts\<close> with the schema of \<open>AgentHubSchema.ts\<close>: the edge log
  an agent keeps of the dispatches it got, the replies it owes (the outbox), the receipts of
  what it did, and its memory. A table is the list of its rows in the order of their row ids;
  dispatches and memory have their text key as the key of the list. An operation gives its
  result or the error it throws, and the state it leaves. What it draws at random (\<open>randomUUID\<close>,
  initial values) is \<open>he_draw\<close>, by the place of the call; the clock is read once for the
  operation (\<open>he_now\<close>) and once for its receipt (\<open>he_receipt_now\<close>).
\<close>

section \<open>Rows\<close>

datatype AgentDispatchStatus = DAccepted | DRunning | DSucceeded | DFailed

datatype AgentOutboxKind = KReply | KReceipt

datatype AgentOutboxStatus = OPending | OSending | OSent | OFailed | ODead

datatype AgentMemoryKind = MMemory | MCache

record DispatchRow =
  dr_topic_id :: string
  dr_agent_id :: string
  dr_status :: AgentDispatchStatus
  dr_received_at :: int
  dr_started_at :: "int option"
  dr_completed_at :: "int option"
  dr_payload_json :: string
  dr_payload_sha256 :: "string option"
  dr_reply_url :: "string option"
  dr_reply_content :: "string option"
  dr_error :: "string option"
  dr_duplicate_count :: nat
  dr_last_seen_at :: "int option"
  dr_runtime_attempts :: nat
  dr_last_runtime_started_at :: "int option"
  dr_replay_after :: "int option"

record OutboxRow =
  ob_id :: string
  ob_request_id :: string
  ob_kind :: AgentOutboxKind
  ob_dedupe_key :: string
  ob_target_url :: string
  ob_payload_body :: string
  ob_payload_sha256 :: string
  ob_status :: AgentOutboxStatus
  ob_attempts :: nat
  ob_next_attempt_at :: "int option"
  ob_last_error :: "string option"
  ob_created_at :: int
  ob_updated_at :: int
  ob_sent_at :: "int option"

record ReceiptRow =
  rc_id :: string
  rc_request_id :: "string option"
  rc_kind :: string
  rc_payload_body :: string
  rc_prev_hash :: "string option"
  rc_receipt_hash :: string
  rc_created_at :: int

record MemoryRow =
  mm_value_json :: string
  mm_updated_at :: int
  mm_kind :: AgentMemoryKind
  mm_created_at :: "int option"
  mm_expires_at :: "int option"
  mm_last_accessed_at :: "int option"
  mm_access_count :: nat
  mm_value_sha256 :: "string option"
  mm_size_bytes :: "nat option"

record AgentHub =
  hub_agentId :: string
  hub_key :: "string option"
  hub_meta :: "(string, string) omap"
  hub_dispatches :: "(string, DispatchRow) omap"
  hub_outbox :: "OutboxRow list"
  hub_receipts :: "ReceiptRow list"
  hub_memory :: "(string, MemoryRow) omap"

record HubEnv =
  he_crypto :: crypto
  he_env :: penv
  he_now :: int
  he_receipt_now :: int
  he_draw :: "nat \<Rightarrow> string"

datatype hub_error = FieldRequired string | WrongAgentHub | HashConflict | UnknownDispatch
  | UnknownOutbox | BadArgument string | CryptoFailed crypto_error | NotJson | ConstraintFailed
  | SecretTooShort

type_synonym 'a hub_op = "AgentHub \<Rightarrow> (hub_error + 'a) \<times> AgentHub"

definition withTransaction :: "'a hub_op \<Rightarrow> 'a hub_op" where
  "withTransaction f h = (case f h of (Inl err, _) \<Rightarrow> (Inl err, h) | (Inr x, h') \<Rightarrow> (Inr x, h'))"

section \<open>Helpers\<close>

definition requiredString :: "json option \<Rightarrow> string \<Rightarrow> hub_error + string" where
  "requiredString v field =
     (case v of
        Some (JStr s) \<Rightarrow> if trim s = [] then Inl (FieldRequired field) else Inr (trim s)
      | _ \<Rightarrow> Inl (FieldRequired field))"

definition stringOrNull :: "json option \<Rightarrow> string option" where
  "stringOrNull v = (case v of Some (JStr s) \<Rightarrow> if trim s = [] then None else Some (trim s) | _ \<Rightarrow> None)"

definition text_or_null :: "string option \<Rightarrow> string option" where
  "text_or_null v = stringOrNull (map_option JStr v)"

definition or_else :: "'a option \<Rightarrow> 'a option \<Rightarrow> 'a option" where
  "or_else a b = (case a of Some x \<Rightarrow> Some x | None \<Rightarrow> b)"

fun persistableDispatchPayload :: "json \<Rightarrow> json" where
  "persistableDispatchPayload (JObj kvs) = JObj (om_delete ''replyProofSecret'' kvs)"
| "persistableDispatchPayload v = v"

definition encodeSensitive :: "HubEnv \<Rightarrow> AgentHub \<Rightarrow> nat \<Rightarrow> string \<Rightarrow> string \<Rightarrow> string" where
  "encodeSensitive e h i text aad = sealSensitive (he_crypto e) (he_draw e i) (hub_key h) text aad"

definition decodeSensitive :: "HubEnv \<Rightarrow> AgentHub \<Rightarrow> string \<Rightarrow> string \<Rightarrow> hub_error + string" where
  "decodeSensitive e h text aad =
     (case openSensitive (he_crypto e) (hub_key h) text aad of
        Inl err \<Rightarrow> Inl (CryptoFailed err) | Inr t \<Rightarrow> Inr t)"

definition parsed :: "string \<Rightarrow> hub_error + json" where
  "parsed t = (case JSON_parse t of None \<Rightarrow> Inl NotJson | Some v \<Rightarrow> Inr v)"

definition payload_aad :: "string \<Rightarrow> string" where
  "payload_aad requestId = aadFor ''agent_dispatches'' requestId ''payload_json''"

definition reply_aad :: "string \<Rightarrow> string" where
  "reply_aad requestId = aadFor ''agent_dispatches'' requestId ''reply_content''"

definition error_aad :: "string \<Rightarrow> string" where
  "error_aad requestId = aadFor ''agent_dispatches'' requestId ''error''"

definition outbox_aad :: "string \<Rightarrow> string" where
  "outbox_aad dedupe = aadFor ''agent_outbox'' dedupe ''payload_body''"

definition receipt_aad :: "string \<Rightarrow> string" where
  "receipt_aad ident = aadFor ''agent_receipts'' ident ''payload_body''"

definition memory_aad :: "string \<Rightarrow> string" where
  "memory_aad key = aadFor ''agent_memory'' key ''value_json''"

section \<open>Receipts\<close>

text \<open>\<open>ORDER BY created_at DESC, rowid DESC LIMIT 1\<close> of the rows of a request.\<close>

fun latest_receipt :: "ReceiptRow option \<Rightarrow> string \<Rightarrow> ReceiptRow list \<Rightarrow> ReceiptRow option" where
  "latest_receipt best rid [] = best"
| "latest_receipt best rid (r # rs) =
     latest_receipt
       (if rc_request_id r = Some rid
           \<and> (case best of None \<Rightarrow> True | Some b \<Rightarrow> rc_created_at b \<le> rc_created_at r)
        then Some r else best) rid rs"

definition receiptHash :: "crypto \<Rightarrow> string option \<Rightarrow> string \<Rightarrow> int \<Rightarrow> string \<Rightarrow> string" where
  "receiptHash cr prev kind stamp body =
     cr_sha256 cr (case_option [] id prev @ NL @ kind @ NL @ show_int stamp @ NL @ body)"

text \<open>The two random values of a receipt are its id and the initial value of its body.\<close>

definition appendReceipt :: "HubEnv \<Rightarrow> string \<Rightarrow> string \<Rightarrow> json \<Rightarrow> unit hub_op" where
  "appendReceipt e requestId kind payload h =
     (let ident = he_draw e 0;
          createdAt = he_receipt_now e;
          body = stableStringify payload;
          prevHash = map_option rc_receipt_hash (latest_receipt None requestId (hub_receipts h))
      in if ident \<in> rc_id ` set (hub_receipts h) then (Inl ConstraintFailed, h)
         else (Inr (), h\<lparr>hub_receipts := hub_receipts h @
           [\<lparr>rc_id = ident, rc_request_id = Some requestId, rc_kind = kind,
             rc_payload_body = encodeSensitive e h 1 body (receipt_aad ident),
             rc_prev_hash = prevHash,
             rc_receipt_hash = receiptHash (he_crypto e) prevHash kind createdAt body,
             rc_created_at = createdAt\<rparr>]\<rparr>))"

section \<open>Dispatches\<close>

record DispatchInsertResult =
  in_requestId :: string
  in_duplicate :: bool
  in_payloadHash :: string

definition insert_dispatch :: "HubEnv \<Rightarrow> string \<Rightarrow> string \<Rightarrow> string \<Rightarrow> json \<Rightarrow> string \<Rightarrow> unit hub_op" where
  "insert_dispatch e requestId topicId agentId payload payloadHash h =
     appendReceipt e requestId ''dispatch_received''
       (JObj [(''requestId'', JStr requestId), (''topicId'', JStr topicId), (''agentId'', JStr agentId),
         (''payloadHash'', JStr payloadHash), (''status'', JStr ''accepted'')])
       (h\<lparr>hub_dispatches := om_set requestId
          \<lparr>dr_topic_id = topicId, dr_agent_id = agentId, dr_status = DAccepted, dr_received_at = he_now e,
           dr_started_at = None, dr_completed_at = None,
           dr_payload_json = encodeSensitive e h 2 (stableStringify (persistableDispatchPayload payload)) (payload_aad requestId),
           dr_payload_sha256 = Some payloadHash, dr_reply_url = stringOrNull (jget payload ''replyUrl''),
           dr_reply_content = None, dr_error = None, dr_duplicate_count = 0, dr_last_seen_at = Some (he_now e),
           dr_runtime_attempts = 0, dr_last_runtime_started_at = None, dr_replay_after = None\<rparr>
          (hub_dispatches h)\<rparr>)"

definition recordInboundDispatch :: "HubEnv \<Rightarrow> json \<Rightarrow> DispatchInsertResult hub_op" where
  "recordInboundDispatch e payload h =
     (case (requiredString (jget payload ''requestId'') ''requestId'',
            requiredString (jget payload ''topicId'') ''topicId'',
            requiredString (jget payload ''agentId'') ''agentId'') of
        (Inl err, _, _) \<Rightarrow> (Inl err, h)
      | (_, Inl err, _) \<Rightarrow> (Inl err, h)
      | (_, _, Inl err) \<Rightarrow> (Inl err, h)
      | (Inr requestId, Inr topicId, Inr agentId) \<Rightarrow>
          if agentId \<noteq> hub_agentId h then (Inl WrongAgentHub, h)
          else
            let payloadHash = cr_sha256 (he_crypto e) (stableStringify payload) in
            case om_get (hub_dispatches h) requestId of
              Some row \<Rightarrow>
                if truthy_str (dr_payload_sha256 row) \<and> dr_payload_sha256 row \<noteq> Some payloadHash
                then (Inl HashConflict, h)
                else (Inr \<lparr>in_requestId = requestId, in_duplicate = True, in_payloadHash = payloadHash\<rparr>,
                  h\<lparr>hub_dispatches := om_set requestId
                     (row\<lparr>dr_duplicate_count := dr_duplicate_count row + 1, dr_last_seen_at := Some (he_now e),
                       dr_payload_sha256 := or_else (dr_payload_sha256 row) (Some payloadHash)\<rparr>) (hub_dispatches h)\<rparr>)
            | None \<Rightarrow>
                (case withTransaction (insert_dispatch e requestId topicId agentId payload payloadHash) h of
                   (Inl err, h') \<Rightarrow> (Inl err, h')
                 | (Inr _, h') \<Rightarrow>
                     (Inr \<lparr>in_requestId = requestId, in_duplicate = False, in_payloadHash = payloadHash\<rparr>, h')))"

definition set_dispatch :: "string \<Rightarrow> DispatchRow \<Rightarrow> AgentHub \<Rightarrow> AgentHub" where
  "set_dispatch requestId row h = h\<lparr>hub_dispatches := om_set requestId row (hub_dispatches h)\<rparr>"

definition running_body :: "HubEnv \<Rightarrow> string \<Rightarrow> unit hub_op" where
  "running_body e requestId h =
     (case om_get (hub_dispatches h) requestId of
        None \<Rightarrow> (Inl UnknownDispatch, h)
      | Some row \<Rightarrow>
          let row' = row\<lparr>dr_status := DRunning, dr_started_at := or_else (dr_started_at row) (Some (he_now e)),
                dr_runtime_attempts := dr_runtime_attempts row + 1, dr_last_runtime_started_at := Some (he_now e),
                dr_replay_after := None, dr_error := None\<rparr>
          in appendReceipt e requestId ''runtime_started''
               (JObj [(''requestId'', JStr requestId), (''status'', JStr ''running''),
                 (''runtimeAttempts'', JNum (int (dr_runtime_attempts row'))), (''startedAt'', JNum (he_now e))])
               (set_dispatch requestId row' h))"

definition markDispatchRunning :: "HubEnv \<Rightarrow> string \<Rightarrow> unit hub_op" where
  "markDispatchRunning e requestId = withTransaction (running_body e requestId)"

definition scheduleDispatchReplay :: "string \<Rightarrow> jsnum \<Rightarrow> unit hub_op" where
  "scheduleDispatchReplay requestId replayAfter h =
     (if \<not> isFinite replayAfter \<or> fin_value replayAfter < 0 then (Inl (BadArgument ''replayAfter''), h)
      else (case om_get (hub_dispatches h) requestId of
          None \<Rightarrow> (Inl UnknownDispatch, h)
        | Some row \<Rightarrow> (Inr (), set_dispatch requestId (row\<lparr>dr_replay_after := Some \<lfloor>fin_value replayAfter\<rfloor>\<rparr>) h)))"

record DispatchRecord =
  dc_row :: DispatchRow
  dc_payload :: json
  dc_payloadHash :: string
  dc_replyContent :: "string option"
  dc_error :: "string option"

definition decode_opt :: "HubEnv \<Rightarrow> AgentHub \<Rightarrow> string option \<Rightarrow> string \<Rightarrow> hub_error + string option" where
  "decode_opt e h v aad =
     (case v of None \<Rightarrow> Inr None
      | Some t \<Rightarrow> (case decodeSensitive e h t aad of Inl err \<Rightarrow> Inl err | Inr x \<Rightarrow> Inr (Some x)))"

definition dispatchFromRow :: "HubEnv \<Rightarrow> AgentHub \<Rightarrow> string \<Rightarrow> DispatchRow \<Rightarrow> hub_error + DispatchRecord" where
  "dispatchFromRow e h requestId row =
     (case decodeSensitive e h (dr_payload_json row) (payload_aad requestId) of
        Inl err \<Rightarrow> Inl err
      | Inr payloadJson \<Rightarrow>
          (case decode_opt e h (dr_reply_content row) (reply_aad requestId) of
             Inl err \<Rightarrow> Inl err
           | Inr replyContent \<Rightarrow>
               (case parsed payloadJson of
                  Inl err \<Rightarrow> Inl err
                | Inr payload \<Rightarrow>
                    (case decode_opt e h (dr_error row) (error_aad requestId) of
                       Inl err \<Rightarrow> Inl err
                     | Inr er \<Rightarrow> Inr \<lparr>dc_row = row, dc_payload = payload,
                         dc_payloadHash = (case dr_payload_sha256 row of Some x \<Rightarrow> x
                                           | None \<Rightarrow> cr_sha256 (he_crypto e) payloadJson),
                         dc_replyContent = replyContent, dc_error = er\<rparr>))))"

definition getDispatch :: "HubEnv \<Rightarrow> string \<Rightarrow> AgentHub \<Rightarrow> hub_error + DispatchRecord option" where
  "getDispatch e requestId h =
     (case om_get (hub_dispatches h) requestId of
        None \<Rightarrow> Inr None
      | Some row \<Rightarrow> (case dispatchFromRow e h requestId row of Inl err \<Rightarrow> Inl err | Inr d \<Rightarrow> Inr (Some d)))"

section \<open>Replies and the outbox\<close>

record ProofFields =
  pf_claimSessionId :: "string option"
  pf_replyProofSecret :: "string option"

definition reply_payload :: "HubEnv \<Rightarrow> string \<Rightarrow> DispatchRow \<Rightarrow> json \<Rightarrow> ProofFields option \<Rightarrow> string \<Rightarrow>
    (string \<times> json) list \<Rightarrow> json" where
  "reply_payload e requestId row dispatchPayload proofFields content outcome =
     (let claim = or_else (text_or_null (Option.bind proofFields pf_claimSessionId))
                    (stringOrNull (jget dispatchPayload ''claimSessionId''));
          secret = or_else (text_or_null (Option.bind proofFields pf_replyProofSecret))
                     (stringOrNull (jget dispatchPayload ''replyProofSecret''))
      in JObj ([(''topicId'', JStr (dr_topic_id row)), (''agentId'', JStr (dr_agent_id row)),
           (''content'', JStr content), (''requestId'', JStr requestId)]
         @ (case claim of Some c \<Rightarrow> [(''claimSessionId'', JStr c)] | None \<Rightarrow> [])
         @ (case (claim, secret) of
              (Some c, Some k) \<Rightarrow> [(''replyProof'', JStr (createChairReplyProof (cr_hmac (he_crypto e)) requestId c k))]
            | _ \<Rightarrow> [])
         @ outcome))"

definition reply_key :: "string \<Rightarrow> string" where
  "reply_key requestId = ''reply:'' @ requestId"

text \<open>\<open>ON CONFLICT(dedupe_key) DO UPDATE\<close>: a reply that was sent is kept as it is.\<close>

definition overwrite_reply :: "OutboxRow \<Rightarrow> OutboxRow \<Rightarrow> OutboxRow" where
  "overwrite_reply new old =
     (if ob_status old = OSent then old
      else old\<lparr>ob_target_url := ob_target_url new, ob_payload_body := ob_payload_body new,
             ob_payload_sha256 := ob_payload_sha256 new, ob_status := OPending, ob_attempts := 0,
             ob_next_attempt_at := None, ob_updated_at := ob_updated_at new, ob_last_error := None\<rparr>)"

fun find_row :: "('r \<Rightarrow> bool) \<Rightarrow> 'r list \<Rightarrow> 'r option" where
  "find_row P [] = None"
| "find_row P (r # rs) = (if P r then Some r else find_row P rs)"

definition upsertOutboxReply :: "HubEnv \<Rightarrow> string \<Rightarrow> string \<Rightarrow> json \<Rightarrow> string hub_op" where
  "upsertOutboxReply e requestId targetUrl payload h =
     (let ident = he_draw e 3;
          body = stableStringify payload;
          new = \<lparr>ob_id = ident, ob_request_id = requestId, ob_kind = KReply, ob_dedupe_key = reply_key requestId,
                 ob_target_url = targetUrl,
                 ob_payload_body = encodeSensitive e h 4 body (outbox_aad (reply_key requestId)),
                 ob_payload_sha256 = cr_sha256 (he_crypto e) body, ob_status = OPending, ob_attempts = 0,
                 ob_next_attempt_at = None, ob_last_error = None, ob_created_at = he_now e,
                 ob_updated_at = he_now e, ob_sent_at = None\<rparr>
      in if ident \<in> ob_id ` set (hub_outbox h) then (Inl ConstraintFailed, h)
         else (case find_row (\<lambda>r. ob_dedupe_key r = reply_key requestId) (hub_outbox h) of
             Some old \<Rightarrow> (Inr (ob_id old),
               h\<lparr>hub_outbox := map (\<lambda>r. if ob_dedupe_key r = reply_key requestId then overwrite_reply new r else r) (hub_outbox h)\<rparr>)
           | None \<Rightarrow> (Inr ident, h\<lparr>hub_outbox := hub_outbox h @ [new]\<rparr>)))"

definition put_reply :: "HubEnv \<Rightarrow> string \<Rightarrow> DispatchRow \<Rightarrow> json \<Rightarrow> string option hub_op" where
  "put_reply e requestId row payload h =
     (if truthy_str (dr_reply_url row)
      then (case upsertOutboxReply e requestId (the (dr_reply_url row)) payload h of
          (Inl err, h') \<Rightarrow> (Inl err, h')
        | (Inr ident, h') \<Rightarrow> (Inr (Some ident), h'))
      else (Inr None, h))"

definition json_opt :: "string option \<Rightarrow> json" where
  "json_opt v = (case v of None \<Rightarrow> JNull | Some s \<Rightarrow> JStr s)"

definition succeeded_body :: "HubEnv \<Rightarrow> string \<Rightarrow> string \<Rightarrow> ProofFields option \<Rightarrow> string option hub_op" where
  "succeeded_body e requestId replyContent proofFields h =
     (case om_get (hub_dispatches h) requestId of
        None \<Rightarrow> (Inl UnknownDispatch, h)
      | Some row \<Rightarrow>
          (case dispatchFromRow e h requestId row of
             Inl err \<Rightarrow> (Inl err, h)
           | Inr d \<Rightarrow>
               (case put_reply e requestId row
                       (reply_payload e requestId row (dc_payload d) proofFields replyContent [(''status'', JStr ''succeeded'')]) h of
                  (Inl err, h1) \<Rightarrow> (Inl err, h1)
                | (Inr outboxId, h1) \<Rightarrow>
                    (case appendReceipt e requestId ''runtime_succeeded''
                        (JObj [(''requestId'', JStr requestId), (''status'', JStr ''succeeded''),
                           (''completedAt'', JNum (he_now e)), (''outboxId'', json_opt outboxId),
                           (''replyHash'', JStr (cr_sha256 (he_crypto e) replyContent))])
                        (set_dispatch requestId
                           (row\<lparr>dr_status := DSucceeded, dr_completed_at := Some (he_now e),
                              dr_reply_content := Some (encodeSensitive e h 2 replyContent (reply_aad requestId)),
                              dr_replay_after := None, dr_error := None\<rparr>) h1) of
                       (Inl err, h2) \<Rightarrow> (Inl err, h2)
                     | (Inr _, h2) \<Rightarrow> (Inr outboxId, h2)))))"

definition markDispatchSucceeded :: "HubEnv \<Rightarrow> string \<Rightarrow> string \<Rightarrow> ProofFields option \<Rightarrow> string option hub_op" where
  "markDispatchSucceeded e requestId replyContent proofFields =
     withTransaction (succeeded_body e requestId replyContent proofFields)"

definition failed_body :: "HubEnv \<Rightarrow> string \<Rightarrow> string \<Rightarrow> ProofFields option \<Rightarrow> string option hub_op" where
  "failed_body e requestId safeError proofFields h =
     (case om_get (hub_dispatches h) requestId of
        None \<Rightarrow> (Inl UnknownDispatch, h)
      | Some row \<Rightarrow>
          (case dispatchFromRow e h requestId row of
             Inl err \<Rightarrow> (Inl err, h)
           | Inr d \<Rightarrow>
               (case put_reply e requestId row
                       (reply_payload e requestId row (dc_payload d) proofFields safeError
                          [(''status'', JStr ''failed''), (''error'', JStr safeError)]) h of
                  (Inl err, h1) \<Rightarrow> (Inl err, h1)
                | (Inr outboxId, h1) \<Rightarrow>
                    (case appendReceipt e requestId ''runtime_failed''
                        (JObj [(''requestId'', JStr requestId), (''status'', JStr ''failed''),
                           (''completedAt'', JNum (he_now e)), (''error'', JStr safeError), (''outboxId'', json_opt outboxId)])
                        (set_dispatch requestId
                           (row\<lparr>dr_status := DFailed, dr_completed_at := Some (he_now e),
                              dr_error := Some (encodeSensitive e h 2 safeError (error_aad requestId))\<rparr>) h1) of
                       (Inl err, h2) \<Rightarrow> (Inl err, h2)
                     | (Inr _, h2) \<Rightarrow> (Inr outboxId, h2)))))"

definition markDispatchFailed :: "HubEnv \<Rightarrow> string \<Rightarrow> string \<Rightarrow> ProofFields option \<Rightarrow> string option hub_op" where
  "markDispatchFailed e requestId err proofFields =
     withTransaction (failed_body e requestId (redactSensitiveText (he_env e) err) proofFields)"

definition update_outbox :: "(OutboxRow \<Rightarrow> bool) \<Rightarrow> (OutboxRow \<Rightarrow> OutboxRow) \<Rightarrow> AgentHub \<Rightarrow> AgentHub" where
  "update_outbox P f h = h\<lparr>hub_outbox := map (\<lambda>r. if P r then f r else r) (hub_outbox h)\<rparr>"

record AgentOutboxRecord =
  ox_row :: OutboxRow
  ox_payload :: json

definition outboxFromRow :: "HubEnv \<Rightarrow> AgentHub \<Rightarrow> OutboxRow \<Rightarrow> hub_error + AgentOutboxRecord" where
  "outboxFromRow e h r =
     (case decodeSensitive e h (ob_payload_body r) (outbox_aad (ob_dedupe_key r)) of
        Inl err \<Rightarrow> Inl err
      | Inr t \<Rightarrow> (case parsed t of Inl err \<Rightarrow> Inl err | Inr v \<Rightarrow> Inr \<lparr>ox_row = r, ox_payload = v\<rparr>))"

fun map_result :: "('a \<Rightarrow> 'e + 'b) \<Rightarrow> 'a list \<Rightarrow> 'e + 'b list" where
  "map_result f [] = Inr []"
| "map_result f (x # xs) =
     (case f x of Inl err \<Rightarrow> Inl err
      | Inr y \<Rightarrow> (case map_result f xs of Inl err \<Rightarrow> Inl err | Inr ys \<Rightarrow> Inr (y # ys)))"

definition listOutbox :: "HubEnv \<Rightarrow> AgentOutboxStatus option \<Rightarrow> AgentHub \<Rightarrow> hub_error + AgentOutboxRecord list" where
  "listOutbox e status h =
     map_result (outboxFromRow e h)
       (sort_key ob_created_at
         (filter (\<lambda>r. case status of None \<Rightarrow> True | Some x \<Rightarrow> ob_status r = x) (hub_outbox h)))"

definition markOutboxSent :: "HubEnv \<Rightarrow> string \<Rightarrow> unit hub_op" where
  "markOutboxSent e ident h =
     (case find_row (\<lambda>r. ob_id r = ident) (hub_outbox h) of
        None \<Rightarrow> (Inl UnknownOutbox, h)
      | Some r \<Rightarrow>
          if ob_status r = OSent then (Inr (), h)
          else (Inr (), update_outbox (\<lambda>r. ob_id r = ident)
            (\<lambda>r. r\<lparr>ob_status := OSent, ob_sent_at := Some (he_now e), ob_updated_at := he_now e, ob_last_error := None\<rparr>) h))"

definition due_row :: "int \<Rightarrow> int \<Rightarrow> OutboxRow \<Rightarrow> bool" where
  "due_row stamp staleBefore r \<longleftrightarrow>
     (ob_status r \<in> {OPending, OFailed} \<and> (case ob_next_attempt_at r of None \<Rightarrow> True | Some t \<Rightarrow> t \<le> stamp))
     \<or> (ob_status r = OSending \<and> ob_updated_at r \<le> staleBefore)"

definition due_key :: "OutboxRow \<Rightarrow> int" where
  "due_key r = (case ob_next_attempt_at r of Some t \<Rightarrow> t | None \<Rightarrow> ob_created_at r)"

definition due_outbox :: "int \<Rightarrow> int \<Rightarrow> nat \<Rightarrow> AgentHub \<Rightarrow> OutboxRow list" where
  "due_outbox stamp staleBefore limit h =
     take limit (sort_key due_key (sort_key ob_created_at (filter (due_row stamp staleBefore) (hub_outbox h))))"

definition claim_body :: "HubEnv \<Rightarrow> nat \<Rightarrow> int \<Rightarrow> AgentOutboxRecord list hub_op" where
  "claim_body e limit lease h =
     (let ids = ob_id ` set (due_outbox (he_now e) (he_now e - lease) limit h);
          h' = update_outbox (\<lambda>r. ob_id r \<in> ids)
                 (\<lambda>r. r\<lparr>ob_status := OSending, ob_attempts := ob_attempts r + 1, ob_next_attempt_at := None,
                        ob_updated_at := he_now e\<rparr>) h
      in (map_result (outboxFromRow e h')
            (sort_key ob_created_at (filter (\<lambda>r. ob_id r \<in> ids) (hub_outbox h'))), h'))"

definition claimDueOutbox :: "HubEnv \<Rightarrow> jsnum \<Rightarrow> jsnum \<Rightarrow> AgentOutboxRecord list hub_op" where
  "claimDueOutbox e limit leaseMs h =
     (if \<not> isFinite limit \<or> fin_value limit \<le> 0 then (Inl (BadArgument ''limit''), h)
      else if \<not> isFinite leaseMs \<or> fin_value leaseMs \<le> 0 then (Inl (BadArgument ''leaseMs''), h)
      else withTransaction (claim_body e (nat \<lfloor>fin_value limit\<rfloor>) \<lfloor>fin_value leaseMs\<rfloor>) h)"

definition markOutboxDeliveryFailed :: "HubEnv \<Rightarrow> string \<Rightarrow> string \<Rightarrow> jsnum option \<Rightarrow> jsnum \<Rightarrow> unit hub_op" where
  "markOutboxDeliveryFailed e ident err retryAt maxAttempts h =
     (if \<not> isFinite maxAttempts \<or> fin_value maxAttempts \<le> 0 then (Inl (BadArgument ''maxAttempts''), h)
      else if (case retryAt of None \<Rightarrow> False | Some t \<Rightarrow> \<not> isFinite t \<or> fin_value t < 0) then (Inl (BadArgument ''retryAt''), h)
      else (case find_row (\<lambda>r. ob_id r = ident) (hub_outbox h) of
          None \<Rightarrow> (Inl UnknownOutbox, h)
        | Some row \<Rightarrow>
            let exhausted = int (ob_attempts row) \<ge> \<lfloor>fin_value maxAttempts\<rfloor>;
                terminal = (retryAt = None \<or> exhausted)
            in (Inr (), update_outbox (\<lambda>r. ob_id r = ident)
                 (\<lambda>r. r\<lparr>ob_status := (if terminal then ODead else OFailed),
                        ob_next_attempt_at := (if terminal then None else map_option (\<lambda>t. \<lfloor>fin_value t\<rfloor>) retryAt),
                        ob_last_error := Some (redactSensitiveText (he_env e) err),
                        ob_updated_at := he_now e\<rparr>) h)))"

section \<open>Memory\<close>

definition byteLength :: "string \<Rightarrow> nat" where
  "byteLength s = sum_list (map (\<lambda>c. if (of_char c :: nat) < 128 then 1 else 2) s)"

text \<open>A time to live is a finite number; \<open>None\<close> is one that was not given.\<close>

definition upsertMemoryValue :: "HubEnv \<Rightarrow> string \<Rightarrow> json \<Rightarrow> AgentMemoryKind \<Rightarrow> rat option \<Rightarrow> unit hub_op" where
  "upsertMemoryValue e key v kind ttlMs h =
     (if trim key = [] then (Inl (BadArgument ''key''), h)
      else
        let k = trim key;
            text = stableStringify v;
            expires = map_option (\<lambda>t. he_now e + \<lfloor>t\<rfloor>) ttlMs;
            stored = encodeSensitive e h 2 text (memory_aad k);
            row = (case om_get (hub_memory h) k of
                None \<Rightarrow> \<lparr>mm_value_json = stored, mm_updated_at = he_now e, mm_kind = kind,
                    mm_created_at = Some (he_now e), mm_expires_at = expires, mm_last_accessed_at = None,
                    mm_access_count = 0, mm_value_sha256 = Some (cr_sha256 (he_crypto e) text),
                    mm_size_bytes = Some (byteLength text)\<rparr>
              | Some old \<Rightarrow> old\<lparr>mm_value_json := stored, mm_updated_at := he_now e, mm_kind := kind,
                    mm_expires_at := expires, mm_value_sha256 := Some (cr_sha256 (he_crypto e) text),
                    mm_size_bytes := Some (byteLength text)\<rparr>)
        in (Inr (), h\<lparr>hub_memory := om_set k row (hub_memory h)\<rparr>))"

definition upsertMemory :: "HubEnv \<Rightarrow> string \<Rightarrow> json \<Rightarrow> rat option \<Rightarrow> unit hub_op" where
  "upsertMemory e key v ttlMs = upsertMemoryValue e key v MMemory ttlMs"

definition upsertCache :: "HubEnv \<Rightarrow> string \<Rightarrow> json \<Rightarrow> jsnum \<Rightarrow> unit hub_op" where
  "upsertCache e key v ttlMs h =
     (if \<not> isFinite ttlMs \<or> fin_value ttlMs \<le> 0 then (Inl (BadArgument ''ttlMs''), h)
      else upsertMemoryValue e key v MCache (Some (fin_value ttlMs)) h)"

text \<open>Nothing found is the value \<open>None\<close>.\<close>

definition getMemoryValue :: "HubEnv \<Rightarrow> string \<Rightarrow> AgentMemoryKind \<Rightarrow> json option hub_op" where
  "getMemoryValue e key kind h =
     (case om_get (hub_memory h) key of
        None \<Rightarrow> (Inr None, h)
      | Some row \<Rightarrow>
          if mm_kind row \<noteq> kind then (Inr None, h)
          else if (case mm_expires_at row of None \<Rightarrow> False | Some t \<Rightarrow> t \<le> he_now e) then (Inr None, h)
          else
            let h' = h\<lparr>hub_memory := om_set key
                  (row\<lparr>mm_last_accessed_at := Some (he_receipt_now e), mm_access_count := mm_access_count row + 1\<rparr>)
                  (hub_memory h)\<rparr>
            in (case decodeSensitive e h' (mm_value_json row) (memory_aad key) of
                  Inl err \<Rightarrow> (Inl err, h')
                | Inr t \<Rightarrow> (case parsed t of Inl err \<Rightarrow> (Inl err, h') | Inr v \<Rightarrow> (Inr (Some v), h'))))"

definition getMemory :: "HubEnv \<Rightarrow> string \<Rightarrow> json option hub_op" where
  "getMemory e key = getMemoryValue e key MMemory"

definition getCache :: "HubEnv \<Rightarrow> string \<Rightarrow> json option hub_op" where
  "getCache e key = getMemoryValue e key MCache"

section \<open>Lists, pruning and counts\<close>

record AgentReceiptRecord =
  rx_row :: ReceiptRow
  rx_payload :: json

definition receiptFromRow :: "HubEnv \<Rightarrow> AgentHub \<Rightarrow> ReceiptRow \<Rightarrow> hub_error + AgentReceiptRecord" where
  "receiptFromRow e h r =
     (case decodeSensitive e h (rc_payload_body r) (receipt_aad (rc_id r)) of
        Inl err \<Rightarrow> Inl err
      | Inr t \<Rightarrow> (case parsed t of Inl err \<Rightarrow> Inl err | Inr v \<Rightarrow> Inr \<lparr>rx_row = r, rx_payload = v\<rparr>))"

definition listReceipts :: "HubEnv \<Rightarrow> string option \<Rightarrow> AgentHub \<Rightarrow> hub_error + AgentReceiptRecord list" where
  "listReceipts e requestId h =
     map_result (receiptFromRow e h)
       (sort_key rc_created_at
         (filter (\<lambda>r. truthy_str requestId \<longrightarrow> rc_request_id r = requestId) (hub_receipts h)))"

definition pruneExpiredCache :: "HubEnv \<Rightarrow> AgentHub \<Rightarrow> nat \<times> AgentHub" where
  "pruneExpiredCache e h =
     (let gone = (\<lambda>kv. mm_kind (snd kv) = MCache
            \<and> (case mm_expires_at (snd kv) of None \<Rightarrow> False | Some t \<Rightarrow> t \<le> he_now e))
      in (length (filter gone (hub_memory h)), h\<lparr>hub_memory := filter (\<lambda>kv. \<not> gone kv) (hub_memory h)\<rparr>))"

definition terminal_before :: "int \<Rightarrow> OutboxRow \<Rightarrow> bool" where
  "terminal_before beforeTimestamp r \<longleftrightarrow> ob_status r \<in> {OSent, ODead} \<and> ob_updated_at r < beforeTimestamp"

definition pruneTerminalOutbox :: "int \<Rightarrow> AgentHub \<Rightarrow> nat \<times> AgentHub" where
  "pruneTerminalOutbox beforeTimestamp h =
     (length (filter (terminal_before beforeTimestamp) (hub_outbox h)),
      h\<lparr>hub_outbox := filter (\<lambda>r. \<not> terminal_before beforeTimestamp r) (hub_outbox h)\<rparr>)"

definition pruneOldReceipts :: "int \<Rightarrow> AgentHub \<Rightarrow> nat \<times> AgentHub" where
  "pruneOldReceipts beforeTimestamp h =
     (length (filter (\<lambda>r. rc_created_at r < beforeTimestamp) (hub_receipts h)),
      h\<lparr>hub_receipts := filter (\<lambda>r. \<not> rc_created_at r < beforeTimestamp) (hub_receipts h)\<rparr>)"

definition countDispatchStatus :: "AgentDispatchStatus \<Rightarrow> AgentHub \<Rightarrow> nat" where
  "countDispatchStatus x h = length (filter (\<lambda>kv. dr_status (snd kv) = x) (hub_dispatches h))"

definition countMemoryKind :: "AgentMemoryKind \<Rightarrow> AgentHub \<Rightarrow> nat" where
  "countMemoryKind x h = length (filter (\<lambda>kv. mm_kind (snd kv) = x) (hub_memory h))"

record AgentHubStats =
  hs_dispatches :: nat
  hs_accepted :: nat
  hs_running :: nat
  hs_succeeded :: nat
  hs_failed :: nat
  hs_memories :: nat
  hs_caches :: nat
  hs_outbox :: nat
  hs_receipts :: nat

definition hub_stats :: "AgentHub \<Rightarrow> AgentHubStats" where
  "hub_stats h = \<lparr>hs_dispatches = length (hub_dispatches h), hs_accepted = countDispatchStatus DAccepted h,
     hs_running = countDispatchStatus DRunning h, hs_succeeded = countDispatchStatus DSucceeded h,
     hs_failed = countDispatchStatus DFailed h, hs_memories = countMemoryKind MMemory h,
     hs_caches = countMemoryKind MCache h, hs_outbox = length (hub_outbox h), hs_receipts = length (hub_receipts h)\<rparr>"

section \<open>Opening the hub\<close>

definition readHubSecret :: "penv \<Rightarrow> string option \<Rightarrow> bool \<Rightarrow> hub_error + string option" where
  "readHubSecret env explicit required =
     (let trimmed = map_option trim (or_else explicit (env AGENT_HUB_SECRET_ENV)) in
      if required \<and> \<not> isValidAgentHubSecret trimmed then Inl SecretTooShort
      else Inr (if truthy_str trimmed then trimmed else None))"

text \<open>
  The data of a hub file: the tables without the key, which is derived again at each start.
  The salt is drawn once and kept in the meta table.
\<close>

definition SCHEMA_VERSION :: string where
  "SCHEMA_VERSION = ''2''"

definition initializeEncryptionKey :: "HubEnv \<Rightarrow> string option \<Rightarrow> AgentHub \<Rightarrow> AgentHub" where
  "initializeEncryptionKey e secret h =
     (case secret of
        None \<Rightarrow> h\<lparr>hub_key := None\<rparr>
      | Some s \<Rightarrow>
          (case om_get (hub_meta h) ''encryption_salt'' of
             Some salt \<Rightarrow> h\<lparr>hub_key := Some (deriveEncryptionKey (he_crypto e) s salt)\<rparr>
           | None \<Rightarrow> h\<lparr>hub_meta := om_set ''encryption_salt'' (he_draw e 5) (hub_meta h),
                 hub_key := Some (deriveEncryptionKey (he_crypto e) s (he_draw e 5))\<rparr>))"

definition safeJsonObject :: "string \<Rightarrow> json" where
  "safeJsonObject raw = (case JSON_parse raw of Some (JObj kvs) \<Rightarrow> JObj kvs | _ \<Rightarrow> JObj [])"

definition backfill_dispatch :: "HubEnv \<Rightarrow> AgentHub \<Rightarrow> string \<times> DispatchRow \<Rightarrow> hub_error + string \<times> DispatchRow" where
  "backfill_dispatch e h kv =
     (case kv of (requestId, row) \<Rightarrow>
       (case decodeSensitive e h (dr_payload_json row) (payload_aad requestId) of
          Inl err \<Rightarrow> Inl err
        | Inr payloadJson \<Rightarrow>
            let payload = safeJsonObject payloadJson in
            Inr (requestId, row\<lparr>
              dr_payload_sha256 := or_else (dr_payload_sha256 row) (Some (cr_sha256 (he_crypto e) (stableStringify payload))),
              dr_reply_url := or_else (dr_reply_url row) (stringOrNull (jget payload ''replyUrl'')),
              dr_last_seen_at := or_else (dr_last_seen_at row) (Some (dr_received_at row))\<rparr>)))"

definition backfill_memory :: "HubEnv \<Rightarrow> AgentHub \<Rightarrow> string \<times> MemoryRow \<Rightarrow> hub_error + string \<times> MemoryRow" where
  "backfill_memory e h kv =
     (case kv of (key, row) \<Rightarrow>
       (case decodeSensitive e h (mm_value_json row) (memory_aad key) of
          Inl err \<Rightarrow> Inl err
        | Inr valueJson \<Rightarrow>
            Inr (key, row\<lparr>mm_created_at := or_else (mm_created_at row) (Some (mm_updated_at row)),
              mm_value_sha256 := or_else (mm_value_sha256 row) (Some (cr_sha256 (he_crypto e) valueJson)),
              mm_size_bytes := or_else (mm_size_bytes row) (Some (byteLength valueJson))\<rparr>)))"

definition backfillV2Columns :: "HubEnv \<Rightarrow> AgentHub \<Rightarrow> hub_error + AgentHub" where
  "backfillV2Columns e h =
     (case map_result (backfill_dispatch e h) (hub_dispatches h) of
        Inl err \<Rightarrow> Inl err
      | Inr ds \<Rightarrow>
          (case map_result (backfill_memory e h) (hub_memory h) of
             Inl err \<Rightarrow> Inl err
           | Inr ms \<Rightarrow> Inr (h\<lparr>hub_dispatches := ds, hub_memory := ms\<rparr>)))"

definition runMigrations :: "HubEnv \<Rightarrow> string option \<Rightarrow> AgentHub \<Rightarrow> hub_error + AgentHub" where
  "runMigrations e secret h =
     (let priorSchemaVersion = om_get (hub_meta h) ''schema_version'';
          h1 = initializeEncryptionKey e secret h
      in (case (if priorSchemaVersion \<noteq> Some SCHEMA_VERSION then backfillV2Columns e h1 else Inr h1) of
            Inl err \<Rightarrow> Inl err
          | Inr h2 \<Rightarrow> Inr (h2\<lparr>hub_meta := om_set ''agent_id'' (hub_agentId h) (om_set ''schema_version'' SCHEMA_VERSION (hub_meta h2))\<rparr>)))"

definition empty_hub :: AgentHub where
  "empty_hub = \<lparr>hub_agentId = [], hub_key = None, hub_meta = [], hub_dispatches = [], hub_outbox = [],
     hub_receipts = [], hub_memory = []\<rparr>"

text \<open>The constructor, on the tables the file has; a new file has \<^const>\<open>empty_hub\<close>'s.\<close>

definition new_AgentHubStore :: "HubEnv \<Rightarrow> string \<Rightarrow> string option \<Rightarrow> bool option \<Rightarrow> AgentHub \<Rightarrow> hub_error + AgentHub" where
  "new_AgentHubStore e agentId encryptionSecret encryptionRequired file =
     (if trim agentId = [] then Inl (FieldRequired ''agentId'')
      else
        let required = (case encryptionRequired of Some b \<Rightarrow> b | None \<Rightarrow> isHubEncryptionRequired (he_env e)) in
        (case readHubSecret (he_env e) encryptionSecret required of
           Inl err \<Rightarrow> Inl err
         | Inr secret \<Rightarrow> runMigrations e secret (file\<lparr>hub_agentId := trim agentId\<rparr>)))"

end
