(* ===== verification/HubLaws.thy ===== *)
theory HubLaws
  imports Hub
begin

text \<open>
  What the agent hub promises over any sequence of its operations: a failed operation leaves
  no trace, keys stay unique, a sent reply is final, a claimed reply is not handed out twice
  within its lease, a repeated dispatch is recognised by its content, the receipts of a
  request are a chain of hashes, and memory returns what was stored.
\<close>

section \<open>Operations\<close>

datatype HubOp = ORecord json | ORunning string | OReplay string jsnum
  | OSucceed string string "ProofFields option" | OFail string string "ProofFields option"
  | OUpsertMemory string json "rat option" | OUpsertCache string json jsnum | OGetMemory string | OGetCache string
  | OMarkSent string | OClaim jsnum jsnum | ODeliveryFailed string string "jsnum option" jsnum
  | OPruneCache | OPruneOutbox int | OPruneReceipts int

definition outcome :: "(hub_error + 'a) \<times> AgentHub \<Rightarrow> hub_error option \<times> AgentHub" where
  "outcome r = (case r of (Inl err, h) \<Rightarrow> (Some err, h) | (Inr _, h) \<Rightarrow> (None, h))"

fun hub_exec :: "HubEnv \<Rightarrow> HubOp \<Rightarrow> AgentHub \<Rightarrow> hub_error option \<times> AgentHub" where
  "hub_exec e (ORecord p) h = outcome (recordInboundDispatch e p h)"
| "hub_exec e (ORunning rid) h = outcome (markDispatchRunning e rid h)"
| "hub_exec e (OReplay rid t) h = outcome (scheduleDispatchReplay rid t h)"
| "hub_exec e (OSucceed rid c pf) h = outcome (markDispatchSucceeded e rid c pf h)"
| "hub_exec e (OFail rid err pf) h = outcome (markDispatchFailed e rid err pf h)"
| "hub_exec e (OUpsertMemory k v ttl) h = outcome (upsertMemory e k v ttl h)"
| "hub_exec e (OUpsertCache k v ttl) h = outcome (upsertCache e k v ttl h)"
| "hub_exec e (OGetMemory k) h = outcome (getMemory e k h)"
| "hub_exec e (OGetCache k) h = outcome (getCache e k h)"
| "hub_exec e (OMarkSent i) h = outcome (markOutboxSent e i h)"
| "hub_exec e (OClaim limit lease) h = outcome (claimDueOutbox e limit lease h)"
| "hub_exec e (ODeliveryFailed i err t m) h = outcome (markOutboxDeliveryFailed e i err t m h)"
| "hub_exec e OPruneCache h = (None, snd (pruneExpiredCache e h))"
| "hub_exec e (OPruneOutbox t) h = (None, snd (pruneTerminalOutbox t h))"
| "hub_exec e (OPruneReceipts t) h = (None, snd (pruneOldReceipts t h))"

definition hub_step :: "AgentHub \<Rightarrow> HubEnv \<times> HubOp \<Rightarrow> AgentHub" where
  "hub_step h ev = snd (hub_exec (fst ev) (snd ev) h)"

definition hub_run :: "AgentHub \<Rightarrow> (HubEnv \<times> HubOp) list \<Rightarrow> AgentHub" where
  "hub_run h evs = foldl hub_step h evs"

lemma outcome_Inl: "fst (outcome r) = Some err \<longleftrightarrow> fst r = Inl err"
  by (cases r; cases "fst r") (auto simp: outcome_def)

lemma snd_outcome [simp]: "snd (outcome r) = snd r"
  by (auto simp: outcome_def split: prod.splits sum.splits)

section \<open>A failed operation leaves no trace\<close>

lemma transaction_atomic: "fst (withTransaction f h) = Inl err \<Longrightarrow> snd (withTransaction f h) = h"
  by (auto simp: withTransaction_def split: prod.splits sum.splits)

lemma transaction_cases:
  obtains err where "withTransaction f h = (Inl err, h)" | x h' where "f h = (Inr x, h')" "withTransaction f h = (Inr x, h')"
  by (cases "f h"; cases "fst (f h)") (auto simp: withTransaction_def)

definition reads_memory :: "HubOp \<Rightarrow> bool" where
  "reads_memory op \<longleftrightarrow> (\<exists>k. op = OGetMemory k \<or> op = OGetCache k)"

lemma failed_atomic:
  assumes "\<not> reads_memory op" and "hub_exec e op h = (Some err, h')"
  shows "h' = h"
proof -
  have "fst (hub_exec e op h) = Some err" and h': "h' = snd (hub_exec e op h)" using assms(2) by simp_all
  then show ?thesis using assms(1)
  proof (cases op)
    case (ORecord p)
    have *: "fst (recordInboundDispatch e p h) = Inl err" using \<open>fst _ = _\<close> ORecord by (simp add: outcome_Inl)
    have "snd (recordInboundDispatch e p h) = h"
      using * by (auto simp: recordInboundDispatch_def Let_def split: sum.splits if_splits option.splits prod.splits
          dest: transaction_atomic [of "insert_dispatch e _ _ _ p _" h, simplified] )
        (metis fst_conv snd_conv transaction_atomic)+
    then show ?thesis using h' ORecord by simp
  qed (auto simp: outcome_Inl reads_memory_def markDispatchRunning_def markDispatchSucceeded_def markDispatchFailed_def
      scheduleDispatchReplay_def upsertMemory_def upsertCache_def upsertMemoryValue_def markOutboxSent_def
      claimDueOutbox_def markOutboxDeliveryFailed_def Let_def
      intro: transaction_atomic split: if_splits option.splits)
qed

section \<open>What an operation does to the outbox\<close>

definition finishes :: "HubOp \<Rightarrow> string \<Rightarrow> bool" where
  "finishes op rid \<longleftrightarrow> (\<exists>x pf. op = OSucceed rid x pf \<or> op = OFail rid x pf)"

inductive outbox_change :: "HubEnv \<Rightarrow> HubOp \<Rightarrow> OutboxRow list \<Rightarrow> OutboxRow list \<Rightarrow> bool" where
  same: "outbox_change e op xs xs"
| added: "finishes op rid \<Longrightarrow> ob_id new \<notin> ob_id ` set xs \<Longrightarrow> reply_key rid \<notin> ob_dedupe_key ` set xs \<Longrightarrow>
    ob_dedupe_key new = reply_key rid \<Longrightarrow> outbox_change e op xs (xs @ [new])"
| replaced: "finishes op rid \<Longrightarrow>
    outbox_change e op xs (map (\<lambda>r. if ob_dedupe_key r = reply_key rid then overwrite_reply new r else r) xs)"
| sent: "(\<exists>r\<in>set xs. ob_id r = i \<and> ob_status r \<noteq> OSent) \<Longrightarrow>
    outbox_change e (OMarkSent i) xs (map (\<lambda>r. if ob_id r = i
      then r\<lparr>ob_status := OSent, ob_sent_at := Some (he_now e), ob_updated_at := he_now e, ob_last_error := None\<rparr> else r) xs)"
| claimed: "ids \<subseteq> ob_id ` {r \<in> set xs. due_row (he_now e) (he_now e - \<lfloor>fin_value lease\<rfloor>) r} \<Longrightarrow>
    outbox_change e (OClaim limit lease) xs (map (\<lambda>r. if ob_id r \<in> ids
      then r\<lparr>ob_status := OSending, ob_attempts := ob_attempts r + 1, ob_next_attempt_at := None, ob_updated_at := he_now e\<rparr>
      else r) xs)"
| undelivered: "outbox_change e (ODeliveryFailed i err t m) xs (map (\<lambda>r. if ob_id r = i
      then r\<lparr>ob_status := st, ob_next_attempt_at := n, ob_last_error := le, ob_updated_at := he_now e\<rparr> else r) xs)"
| pruned: "outbox_change e (OPruneOutbox t) xs (filter (\<lambda>r. \<not> terminal_before t r) xs)"

lemma find_row_Some: "find_row P xs = Some r \<Longrightarrow> r \<in> set xs \<and> P r"
  by (induction xs) (auto split: if_splits)

lemma find_row_None: "find_row P xs = None \<Longrightarrow> \<forall>r\<in>set xs. \<not> P r"
  by (induction xs) (auto split: if_splits)

text \<open>The fields an operation leaves alone.\<close>

lemma appendReceipt_frame:
  "hub_outbox (snd (appendReceipt e rid k p h)) = hub_outbox h"
  "hub_dispatches (snd (appendReceipt e rid k p h)) = hub_dispatches h"
  "hub_memory (snd (appendReceipt e rid k p h)) = hub_memory h"
  "hub_agentId (snd (appendReceipt e rid k p h)) = hub_agentId h"
  "hub_key (snd (appendReceipt e rid k p h)) = hub_key h"
  by (simp_all add: appendReceipt_def Let_def)

lemma put_reply_frame:
  "hub_dispatches (snd (put_reply e rid row p h)) = hub_dispatches h"
  "hub_receipts (snd (put_reply e rid row p h)) = hub_receipts h"
  "hub_memory (snd (put_reply e rid row p h)) = hub_memory h"
  "hub_agentId (snd (put_reply e rid row p h)) = hub_agentId h"
  "hub_key (snd (put_reply e rid row p h)) = hub_key h"
  by (auto simp: put_reply_def upsertOutboxReply_def Let_def split: prod.splits sum.splits option.splits if_splits)

lemma upsertOutboxReply_effect:
  assumes "upsertOutboxReply e rid url p h = (Inr i, h1)"
  shows "(\<exists>new. ob_id new \<notin> ob_id ` set (hub_outbox h) \<and> ob_dedupe_key new = reply_key rid
            \<and> reply_key rid \<notin> ob_dedupe_key ` set (hub_outbox h) \<and> hub_outbox h1 = hub_outbox h @ [new])
       \<or> (\<exists>new. hub_outbox h1 = map (\<lambda>r. if ob_dedupe_key r = reply_key rid then overwrite_reply new r else r) (hub_outbox h))"
proof (cases "find_row (\<lambda>r. ob_dedupe_key r = reply_key rid) (hub_outbox h)")
  case None
  have "reply_key rid \<notin> ob_dedupe_key ` set (hub_outbox h)" using find_row_None [OF None] by fastforce
  moreover have "\<exists>new. ob_id new \<notin> ob_id ` set (hub_outbox h) \<and> ob_dedupe_key new = reply_key rid \<and> hub_outbox h1 = hub_outbox h @ [new]"
    using assms None by (auto simp: upsertOutboxReply_def Let_def split: if_splits)
  ultimately show ?thesis by blast
next
  case (Some r)
  then show ?thesis using assms by (auto simp: upsertOutboxReply_def Let_def split: if_splits)
qed

lemma put_reply_outbox:
  assumes "finishes op rid" and "put_reply e rid row p h = (Inr x, h1)"
  shows "outbox_change e op (hub_outbox h) (hub_outbox h1)"
proof (cases "truthy_str (dr_reply_url row)")
  case True
  then obtain i where "upsertOutboxReply e rid (the (dr_reply_url row)) p h = (Inr i, h1)"
    using assms(2) by (auto simp: put_reply_def split: prod.splits sum.splits)
  from upsertOutboxReply_effect [OF this] show ?thesis
    by (elim disjE exE conjE) (simp_all add: outbox_change.added [OF assms(1)] outbox_change.replaced [OF assms(1)])
next
  case False
  then show ?thesis using assms(2) by (simp add: put_reply_def outbox_change.same)
qed

lemmas frame_simps = appendReceipt_frame put_reply_frame set_dispatch_def

text \<open>Both ways to finish a dispatch are one shape.\<close>

definition receipt_fields :: "(string \<times> json) list \<Rightarrow> bool" where
  "receipt_fields fs \<longleftrightarrow> om_wf fs \<and> list_all (\<lambda>kv. json_wf (snd kv)
     \<and> hd (fst kv) \<notin> set ''_0123456789'') fs"

definition finish_shape :: "HubEnv \<Rightarrow> string \<Rightarrow> AgentHub \<Rightarrow> AgentHub \<Rightarrow> bool" where
  "finish_shape e rid h h' \<longleftrightarrow> (\<exists>row p x h1 row' k fs.
     om_get (hub_dispatches h) rid = Some row \<and> put_reply e rid row p h = (Inr x, h1)
     \<and> dr_payload_sha256 row' = dr_payload_sha256 row \<and> dr_status row' \<in> {DSucceeded, DFailed}
     \<and> receipt_fields fs
     \<and> appendReceipt e rid k (JObj fs) (set_dispatch rid row' h1) = (Inr (), h'))"

lemma succeeded_shape:
  assumes "succeeded_body e rid c pf h = (Inr x, h')"
  shows "finish_shape e rid h h'"
proof -
  obtain row d where row: "om_get (hub_dispatches h) rid = Some row" "dispatchFromRow e h rid row = Inr d"
    using assms by (auto simp: succeeded_body_def split: option.splits sum.splits)
  let ?p = "reply_payload e rid row (dc_payload d) pf c [(''status'', JStr ''succeeded'')]"
  obtain ob h1 where put: "put_reply e rid row ?p h = (Inr ob, h1)"
    using assms row by (auto simp: succeeded_body_def split: prod.splits sum.splits)
  let ?row = "row\<lparr>dr_status := DSucceeded, dr_completed_at := Some (he_now e),
      dr_reply_content := Some (encodeSensitive e h 2 c (reply_aad rid)), dr_replay_after := None, dr_error := None\<rparr>"
  let ?f = "[(''requestId'', JStr rid), (''status'', JStr ''succeeded''), (''completedAt'', JNum (he_now e)),
      (''outboxId'', json_opt ob), (''replyHash'', JStr (cr_sha256 (he_crypto e) c))]"
  have "appendReceipt e rid ''runtime_succeeded'' (JObj ?f) (set_dispatch rid ?row h1) = (Inr (), h')"
    using assms row put by (auto simp: succeeded_body_def split: prod.splits sum.splits)
  moreover have "receipt_fields ?f" by (simp add: receipt_fields_def json_opt_def split: option.splits)
  moreover have "dr_payload_sha256 ?row = dr_payload_sha256 row" and "dr_status ?row \<in> {DSucceeded, DFailed}" by simp_all
  ultimately show ?thesis using row(1) put unfolding finish_shape_def by blast
qed

lemma failed_shape:
  assumes "failed_body e rid c pf h = (Inr x, h')"
  shows "finish_shape e rid h h'"
proof -
  obtain row d where row: "om_get (hub_dispatches h) rid = Some row" "dispatchFromRow e h rid row = Inr d"
    using assms by (auto simp: failed_body_def split: option.splits sum.splits)
  let ?p = "reply_payload e rid row (dc_payload d) pf c [(''status'', JStr ''failed''), (''error'', JStr c)]"
  obtain ob h1 where put: "put_reply e rid row ?p h = (Inr ob, h1)"
    using assms row by (auto simp: failed_body_def split: prod.splits sum.splits)
  let ?row = "row\<lparr>dr_status := DFailed, dr_completed_at := Some (he_now e),
      dr_error := Some (encodeSensitive e h 2 c (error_aad rid))\<rparr>"
  let ?f = "[(''requestId'', JStr rid), (''status'', JStr ''failed''), (''completedAt'', JNum (he_now e)),
      (''error'', JStr c), (''outboxId'', json_opt ob)]"
  have "appendReceipt e rid ''runtime_failed'' (JObj ?f) (set_dispatch rid ?row h1) = (Inr (), h')"
    using assms row put by (auto simp: failed_body_def split: prod.splits sum.splits)
  moreover have "receipt_fields ?f" by (simp add: receipt_fields_def json_opt_def split: option.splits)
  moreover have "dr_payload_sha256 ?row = dr_payload_sha256 row" and "dr_status ?row \<in> {DSucceeded, DFailed}" by simp_all
  ultimately show ?thesis using row(1) put unfolding finish_shape_def by blast
qed

lemma finish_cases:
  assumes "finishes op rid"
  shows "hub_step h (e, op) = h \<or> finish_shape e rid h (hub_step h (e, op))"
proof -
  have "snd (withTransaction (succeeded_body e rid c pf) h) = h
      \<or> finish_shape e rid h (snd (withTransaction (succeeded_body e rid c pf) h))" for c pf
    by (rule transaction_cases [of "succeeded_body e rid c pf" h]) (simp_all add: succeeded_shape)
  moreover have "snd (withTransaction (failed_body e rid c pf) h) = h
      \<or> finish_shape e rid h (snd (withTransaction (failed_body e rid c pf) h))" for c pf
    by (rule transaction_cases [of "failed_body e rid c pf" h]) (simp_all add: failed_shape)
  moreover obtain x pf where "op = OSucceed rid x pf \<or> op = OFail rid x pf" using assms by (auto simp: finishes_def)
  ultimately show ?thesis
    by (elim disjE) (simp_all add: hub_step_def markDispatchSucceeded_def markDispatchFailed_def)
qed

lemma finish_outbox:
  assumes "finish_shape e rid h h'" and "finishes op rid"
  shows "outbox_change e op (hub_outbox h) (hub_outbox h')"
proof -
  obtain row p x h1 row' k fs where "put_reply e rid row p h = (Inr x, h1)"
      and h': "appendReceipt e rid k (JObj fs) (set_dispatch rid row' h1) = (Inr (), h')"
    using assms(1) by (auto simp: finish_shape_def)
  then have "outbox_change e op (hub_outbox h) (hub_outbox h1)" using put_reply_outbox assms(2) by blast
  moreover have "hub_outbox h' = hub_outbox h1"
    using appendReceipt_frame(1) [of e rid k "JObj fs" "set_dispatch rid row' h1"] h' by (simp add: set_dispatch_def)
  ultimately show ?thesis by simp
qed

section \<open>Every operation's change of the outbox\<close>

lemma claim_outbox:
  "outbox_change e (OClaim limit lease) (hub_outbox h) (hub_outbox (snd (claimDueOutbox e limit lease h)))"
proof (cases "fst (claimDueOutbox e limit lease h)")
  case (Inl err)
  then have "snd (claimDueOutbox e limit lease h) = h"
    by (auto simp: claimDueOutbox_def intro: transaction_atomic split: if_splits)
  then show ?thesis by (simp add: outbox_change.same)
next
  case (Inr recs)
  let ?l = "\<lfloor>fin_value lease\<rfloor>"
  let ?ids = "ob_id ` set (due_outbox (he_now e) (he_now e - ?l) (nat \<lfloor>fin_value limit\<rfloor>) h)"
  have eq: "snd (claimDueOutbox e limit lease h) = snd (claim_body e (nat \<lfloor>fin_value limit\<rfloor>) ?l h)"
    using Inr by (auto simp: claimDueOutbox_def withTransaction_def split: if_splits prod.splits sum.splits)
  have sub: "?ids \<subseteq> ob_id ` {r \<in> set (hub_outbox h). due_row (he_now e) (he_now e - ?l) r}"
    by (rule image_mono) (auto simp: due_outbox_def dest!: in_set_takeD)
  show ?thesis using outbox_change.claimed [OF sub, of limit]
    by (simp only: eq claim_body_def Let_def snd_conv update_outbox_def) simp
qed

lemma record_outbox: "hub_outbox (snd (recordInboundDispatch e p h)) = hub_outbox h"
proof -
  have *: "hub_outbox (snd (withTransaction (insert_dispatch e rid t a p x) h)) = hub_outbox h" for rid t a x
    by (rule transaction_cases [of "insert_dispatch e rid t a p x" h])
      (auto simp: insert_dispatch_def frame_simps dest!: arg_cong [where f = "\<lambda>r. hub_outbox (snd r)"])
  show ?thesis
    using * by (fastforce simp: recordInboundDispatch_def Let_def split: sum.splits if_splits option.splits prod.splits
        dest: arg_cong [where f = "\<lambda>r. hub_outbox (snd r)"])
qed

lemma running_outbox: "hub_outbox (snd (markDispatchRunning e rid h)) = hub_outbox h"
  unfolding markDispatchRunning_def
  by (rule transaction_cases [of "running_body e rid" h])
    (auto simp: running_body_def frame_simps Let_def split: option.splits dest!: arg_cong [where f = "\<lambda>r. hub_outbox (snd r)"])

lemma memory_outbox:
  "hub_outbox (snd (upsertMemoryValue e k v kind ttl h)) = hub_outbox h"
  "hub_outbox (snd (getMemoryValue e k kind h)) = hub_outbox h"
  by (auto simp: upsertMemoryValue_def getMemoryValue_def Let_def split: option.splits sum.splits if_splits)

lemma hub_step_outbox: "outbox_change e op (hub_outbox h) (hub_outbox (hub_step h (e, op)))"
proof (cases "\<exists>rid. finishes op rid")
  case True
  then show ?thesis using finish_cases finish_outbox by (metis outbox_change.same)
next
  case nf: False
  show ?thesis
  proof (cases op)
    case (OMarkSent i)
    then show ?thesis
      by (auto simp: hub_step_def markOutboxSent_def update_outbox_def dest!: find_row_Some
          split: option.splits intro: outbox_change.same outbox_change.sent)
  next
    case (OClaim limit lease)
    then show ?thesis using claim_outbox by (simp add: hub_step_def)
  next
    case (ODeliveryFailed i err t m)
    then show ?thesis
      by (auto simp: hub_step_def markOutboxDeliveryFailed_def update_outbox_def Let_def
          split: option.splits intro: outbox_change.same outbox_change.undelivered)
  next
    case (OPruneOutbox t)
    then show ?thesis by (simp add: hub_step_def pruneTerminalOutbox_def outbox_change.pruned)
  qed (use nf in \<open>auto simp: hub_step_def record_outbox running_outbox memory_outbox upsertMemory_def upsertCache_def
      getMemory_def getCache_def pruneExpiredCache_def pruneOldReceipts_def scheduleDispatchReplay_def set_dispatch_def
      finishes_def Let_def split: option.splits intro: outbox_change.same\<close>)
qed

lemma failed_read:
  assumes "fst (getMemoryValue e k kind h) = Inl err"
  shows "\<exists>row. om_get (hub_memory h) k = Some row \<and> snd (getMemoryValue e k kind h) = h\<lparr>hub_memory := om_set k
      (row\<lparr>mm_last_accessed_at := Some (he_receipt_now e), mm_access_count := mm_access_count row + 1\<rparr>) (hub_memory h)\<rparr>"
  using assms by (auto simp: getMemoryValue_def Let_def split: option.splits sum.splits if_splits)

text \<open>C22: An operation that throws leaves the hub as it was: what a transaction did before the
  error is rolled back, and the others check before they write. The one trace an error can leave
  is the access that a read of memory counts before it decodes the value.\<close>

theorem failed_operation_traceless:
  assumes "hub_exec e op h = (Some err, h')"
  shows "h' = h \<or> (\<exists>k row. op \<in> {OGetMemory k, OGetCache k} \<and> om_get (hub_memory h) k = Some row
      \<and> h' = h\<lparr>hub_memory := om_set k (row\<lparr>mm_last_accessed_at := Some (he_receipt_now e),
            mm_access_count := mm_access_count row + 1\<rparr>) (hub_memory h)\<rparr>)"
proof (cases "reads_memory op")
  case True
  then obtain k kind where op: "op \<in> {OGetMemory k, OGetCache k}" and x: "hub_exec e op h = outcome (getMemoryValue e k kind h)"
    by (auto simp: reads_memory_def getMemory_def getCache_def)
  then have "fst (getMemoryValue e k kind h) = Inl err" "h' = snd (getMemoryValue e k kind h)"
    using assms outcome_Inl [of "getMemoryValue e k kind h" err] snd_outcome [of "getMemoryValue e k kind h"]
    by (metis fst_conv, metis snd_conv)
  then show ?thesis using failed_read op by blast
qed (use assms failed_atomic in blast)

section \<open>Unique keys\<close>

definition outbox_wf :: "AgentHub \<Rightarrow> bool" where
  "outbox_wf h \<longleftrightarrow> distinct (map ob_id (hub_outbox h)) \<and> distinct (map ob_dedupe_key (hub_outbox h))"

lemma map_keeps: "(\<And>r. f r = r \<or> g (f r) = g r) \<Longrightarrow> map g (map f xs) = map g xs"
  by (simp add: map_eq_conv) metis

lemma overwrite_keys: "ob_id (overwrite_reply new r) = ob_id r" "ob_dedupe_key (overwrite_reply new r) = ob_dedupe_key r"
  by (simp_all add: overwrite_reply_def)

lemma outbox_change_wf:
  "outbox_change e op xs ys \<Longrightarrow> distinct (map ob_id xs) \<and> distinct (map ob_dedupe_key xs) \<Longrightarrow>
     distinct (map ob_id ys) \<and> distinct (map ob_dedupe_key ys)"
proof (induction rule: outbox_change.induct)
  case (added op rid new xs e)
  then show ?case by simp
next
  case (pruned e t xs)
  then show ?case by (simp add: distinct_map_filter)
qed (simp_all add: o_def overwrite_keys if_distrib [of ob_id] if_distrib [of ob_dedupe_key] cong: if_cong)

interpretation hub_keys: guarded_system hub_step outbox_wf
  by unfold_locales (metis hub_step_outbox outbox_change_wf outbox_wf_def surj_pair)

section \<open>A sent reply is final\<close>

definition sent_row :: "OutboxRow \<Rightarrow> AgentHub \<Rightarrow> bool" where
  "sent_row r h \<longleftrightarrow> outbox_wf h \<and> r \<in> set (hub_outbox h) \<and> ob_status r = OSent"

definition keeps_sent :: "OutboxRow \<Rightarrow> HubEnv \<times> HubOp \<Rightarrow> bool" where
  "keeps_sent r ev \<longleftrightarrow> (case snd ev of ODeliveryFailed i _ _ _ \<Rightarrow> i \<noteq> ob_id r
     | OPruneOutbox t \<Rightarrow> t \<le> ob_updated_at r | _ \<Rightarrow> True)"

lemma same_id: "distinct (map ob_id xs) \<Longrightarrow> q \<in> set xs \<Longrightarrow> r \<in> set xs \<Longrightarrow> ob_id q = ob_id r \<Longrightarrow> q = r"
  by (simp add: distinct_map inj_on_def)

lemma map_untouched: "r \<in> set xs \<Longrightarrow> \<not> P r \<Longrightarrow> r \<in> set (map (\<lambda>r. if P r then f r else r) xs)"
  by (induction xs) auto

lemma map_touched: "r \<in> set xs \<Longrightarrow> P r \<Longrightarrow> f r \<in> set (map (\<lambda>r. if P r then f r else r) xs)"
  by (induction xs) auto

lemma outbox_change_sent:
  "outbox_change e op xs ys \<Longrightarrow> distinct (map ob_id xs) \<Longrightarrow> r \<in> set xs \<Longrightarrow> ob_status r = OSent \<Longrightarrow>
     keeps_sent r (e, op) \<Longrightarrow> r \<in> set ys"
proof (induction rule: outbox_change.induct)
  case (replaced op rid e new xs)
  then show ?case by (auto simp: overwrite_reply_def image_iff intro!: bexI [of _ r])
next
  case (sent xs i e)
  obtain q where "q \<in> set xs" "ob_id q = i" "ob_status q \<noteq> OSent" using sent(1) by blast
  then have "ob_id r \<noteq> i" using same_id [OF sent(2) _ sent(3)] sent(4) by metis
  with sent(3) show ?case by (rule map_untouched)
next
  case (claimed ids xs e lease limit)
  have "ob_id r \<notin> ids"
  proof
    assume "ob_id r \<in> ids"
    then obtain q where "q \<in> set xs" "ob_id q = ob_id r" "due_row (he_now e) (he_now e - \<lfloor>fin_value lease\<rfloor>) q"
      using claimed by auto
    then have "q = r" using same_id claimed(2,3) by blast
    then show False using \<open>due_row _ _ q\<close> claimed by (simp add: due_row_def)
  qed
  with claimed(3) show ?case by (rule map_untouched)
next
  case (undelivered e i err t m xs st n le)
  then have "ob_id r \<noteq> i" by (auto simp: keeps_sent_def)
  with undelivered(2) show ?case by (rule map_untouched)
next
  case (pruned e t xs)
  then show ?case by (auto simp: keeps_sent_def terminal_before_def)
qed simp_all

interpretation sent_final: trapping_system hub_step "sent_row r" "keeps_sent r" for r
proof unfold_locales
  fix h ev assume *: "sent_row r h" "keeps_sent r ev"
  obtain e op where ev: "ev = (e, op)" by (cases ev)
  have "r \<in> set (hub_outbox (hub_step h ev))"
    using * outbox_change_sent [OF hub_step_outbox] unfolding ev by (auto simp: sent_row_def outbox_wf_def)
  then show "sent_row r (hub_step h ev)" using * hub_keys.step_inv by (simp add: sent_row_def)
qed

text \<open>C20: A reply that was sent stays in the outbox as it is, whatever operations follow, apart from a
  delivery failure reported for it and pruning after its time.\<close>

theorem sent_reply_final:
  assumes "outbox_wf h" and "r \<in> set (hub_outbox h)" and "ob_status r = OSent" and "list_all (keeps_sent r) evs"
  shows "r \<in> set (hub_outbox (hub_run h evs))"
  using sent_final.run_trap [of r h evs] assms by (simp add: sent_row_def hub_run_def)

text \<open>A failure reported late makes a sent reply due again.\<close>

lemma late_failure_reopens:
  assumes "find_row (\<lambda>r. ob_id r = i) (hub_outbox h) = Some r" and "ob_status r = OSent"
    and "int (ob_attempts r) < \<lfloor>fin_value m\<rfloor>" and "isFinite m" and "0 \<le> t"
  shows "\<exists>q\<in>set (hub_outbox (hub_step h (e, ODeliveryFailed i err (Some (Num (rat_of_int t))) m))).
    ob_id q = i \<and> ob_status q = OFailed \<and> ob_next_attempt_at q = Some t"
proof -
  have r: "r \<in> set (hub_outbox h)" "ob_id r = i" using find_row_Some [OF assms(1)] by auto
  have "0 < \<lfloor>fin_value m\<rfloor>" using assms(3) by linarith
  then have m: "0 < fin_value m" by linarith
  let ?f = "\<lambda>r. r\<lparr>ob_status := OFailed, ob_next_attempt_at := Some t,
      ob_last_error := Some (redactSensitiveText (he_env e) err), ob_updated_at := he_now e\<rparr>"
  have "hub_step h (e, ODeliveryFailed i err (Some (Num (rat_of_int t))) m)
      = update_outbox (\<lambda>r. ob_id r = i) ?f h"
    using assms m by (simp add: hub_step_def markOutboxDeliveryFailed_def not_le)
  moreover have "?f r \<in> set (hub_outbox (update_outbox (\<lambda>r. ob_id r = i) ?f h))"
    using map_touched [OF r(1), of "\<lambda>r. ob_id r = i" ?f] r(2) by (simp add: update_outbox_def)
  ultimately show ?thesis using r(2) by (intro bexI [of _ "?f r"]) simp_all
qed

section \<open>A claimed reply is leased\<close>

lemma map_result_Inr: "map_result f xs = Inr ys \<Longrightarrow> list_all2 (\<lambda>x y. f x = Inr y) xs ys"
  by (induction xs arbitrary: ys) (auto split: sum.splits)

lemma outboxFromRow_row: "outboxFromRow e h r = Inr x \<Longrightarrow> ox_row x = r"
  by (auto simp: outboxFromRow_def split: sum.splits)

lemma claimed_rows:
  assumes "claimDueOutbox e limit lease h = (Inr recs, h1)"
  defines "ids \<equiv> ob_id ` set (due_outbox (he_now e) (he_now e - \<lfloor>fin_value lease\<rfloor>) (nat \<lfloor>fin_value limit\<rfloor>) h)"
  shows "hub_outbox h1 = map (\<lambda>r. if ob_id r \<in> ids then r\<lparr>ob_status := OSending, ob_attempts := ob_attempts r + 1,
      ob_next_attempt_at := None, ob_updated_at := he_now e\<rparr> else r) (hub_outbox h)"
    and "map ox_row recs = sort_key ob_created_at (filter (\<lambda>r. ob_id r \<in> ids) (hub_outbox h1))"
    and "0 < fin_value limit"
proof -
  show "0 < fin_value limit" using assms(1) by (auto simp: claimDueOutbox_def split: if_splits)
  have body: "claim_body e (nat \<lfloor>fin_value limit\<rfloor>) \<lfloor>fin_value lease\<rfloor> h = (Inr recs, h1)"
    using assms(1) by (auto simp: claimDueOutbox_def withTransaction_def split: if_splits prod.splits sum.splits)
  then show "hub_outbox h1 = map (\<lambda>r. if ob_id r \<in> ids then r\<lparr>ob_status := OSending, ob_attempts := ob_attempts r + 1,
      ob_next_attempt_at := None, ob_updated_at := he_now e\<rparr> else r) (hub_outbox h)"
    unfolding claim_body_def Let_def update_outbox_def ids_def by auto
  have "map_result (outboxFromRow e h1) (sort_key ob_created_at (filter (\<lambda>r. ob_id r \<in> ids) (hub_outbox h1))) = Inr recs"
    using body unfolding claim_body_def Let_def ids_def by auto
  then have "list_all2 (\<lambda>r x. ox_row x = r) (sort_key ob_created_at (filter (\<lambda>r. ob_id r \<in> ids) (hub_outbox h1))) recs"
    by (auto dest!: map_result_Inr elim!: list_all2_mono simp: outboxFromRow_row)
  then show "map ox_row recs = sort_key ob_created_at (filter (\<lambda>r. ob_id r \<in> ids) (hub_outbox h1))"
    by (induction rule: list_all2_induct) simp_all
qed

lemma claimed_ids:
  assumes "claimDueOutbox e limit lease h = (Inr recs, h1)" and "x \<in> set recs"
  shows "\<exists>q\<in>set (hub_outbox h). ob_id q = ob_id (ox_row x) \<and> due_row (he_now e) (he_now e - \<lfloor>fin_value lease\<rfloor>) q"
proof -
  have "ox_row x \<in> set (map ox_row recs)" using assms(2) by simp
  then have "ob_id (ox_row x) \<in> ob_id ` set (due_outbox (he_now e) (he_now e - \<lfloor>fin_value lease\<rfloor>) (nat \<lfloor>fin_value limit\<rfloor>) h)"
    unfolding claimed_rows(2) [OF assms(1)] by simp
  then show ?thesis by (auto simp: due_outbox_def dest!: in_set_takeD)
qed

lemma claimed_sending:
  assumes "claimDueOutbox e limit lease h = (Inr recs, h1)" and "x \<in> set recs"
  shows "ox_row x \<in> set (hub_outbox h1) \<and> ob_status (ox_row x) = OSending \<and> ob_updated_at (ox_row x) = he_now e"
proof -
  have "ox_row x \<in> set (map ox_row recs)" using assms(2) by simp
  then show ?thesis unfolding claimed_rows(2) [OF assms(1)]
    by (auto simp: claimed_rows(1) [OF assms(1)] split: if_splits)
qed

lemma claimed_length:
  assumes "claimDueOutbox e limit lease h = (Inr recs, h1)" and "outbox_wf h"
  shows "int (length recs) \<le> \<lfloor>fin_value limit\<rfloor>"
proof -
  let ?due = "due_outbox (he_now e) (he_now e - \<lfloor>fin_value lease\<rfloor>) (nat \<lfloor>fin_value limit\<rfloor>) h"
  let ?rows = "filter (\<lambda>r. ob_id r \<in> ob_id ` set ?due) (hub_outbox h1)"
  have "h1 = hub_step h (e, OClaim limit lease)" using assms(1) by (simp add: hub_step_def)
  then have "distinct (map ob_id (hub_outbox h1))" using hub_keys.step_inv assms(2) by (simp add: outbox_wf_def)
  then have d: "distinct (map ob_id ?rows)" by (simp add: distinct_map_filter)
  have "length (map ox_row recs) = length ?rows" unfolding claimed_rows(2) [OF assms(1)] by simp
  then have "length recs = length (map ob_id ?rows)" by (simp only: length_map)
  also have "\<dots> = card (set (map ob_id ?rows))" by (rule distinct_card [OF d, symmetric])
  also have "\<dots> \<le> card (ob_id ` set ?due)" by (rule card_mono) auto
  also have "\<dots> \<le> length ?due" by (meson List.finite_set card_image_le card_length le_trans)
  also have "\<dots> \<le> nat \<lfloor>fin_value limit\<rfloor>" by (simp add: due_outbox_def)
  finally show ?thesis using claimed_rows(3) [OF assms(1)] by linarith
qed

definition leased :: "string \<Rightarrow> string \<Rightarrow> int \<Rightarrow> AgentHub \<Rightarrow> bool" where
  "leased i k since h \<longleftrightarrow> outbox_wf h \<and> (\<exists>r\<in>set (hub_outbox h). ob_id r = i \<and> ob_dedupe_key r = k
     \<and> ob_status r = OSending \<and> ob_updated_at r = since)"

definition keeps_lease :: "string \<Rightarrow> string \<Rightarrow> int \<Rightarrow> HubEnv \<times> HubOp \<Rightarrow> bool" where
  "keeps_lease i k since ev \<longleftrightarrow> (case snd ev of
       OMarkSent j \<Rightarrow> j \<noteq> i | ODeliveryFailed j _ _ _ \<Rightarrow> j \<noteq> i
     | OSucceed rid _ _ \<Rightarrow> reply_key rid \<noteq> k | OFail rid _ _ \<Rightarrow> reply_key rid \<noteq> k
     | OClaim _ lease \<Rightarrow> he_now (fst ev) - \<lfloor>fin_value lease\<rfloor> < since | _ \<Rightarrow> True)"

lemma outbox_change_leased:
  "outbox_change e op xs ys \<Longrightarrow> distinct (map ob_id xs) \<Longrightarrow> r \<in> set xs \<Longrightarrow> ob_status r = OSending \<Longrightarrow>
     keeps_lease (ob_id r) (ob_dedupe_key r) (ob_updated_at r) (e, op) \<Longrightarrow> r \<in> set ys"
proof (induction rule: outbox_change.induct)
  case (replaced op rid e new xs)
  then have "ob_dedupe_key r \<noteq> reply_key rid" by (auto simp: keeps_lease_def finishes_def)
  with replaced(3) show ?case by (rule map_untouched)
next
  case (sent xs i e)
  then have "ob_id r \<noteq> i" by (auto simp: keeps_lease_def)
  with sent(3) show ?case by (rule map_untouched)
next
  case (claimed ids xs e lease limit)
  have "ob_id r \<notin> ids"
  proof
    assume "ob_id r \<in> ids"
    then obtain q where "q \<in> set xs" "ob_id q = ob_id r" "due_row (he_now e) (he_now e - \<lfloor>fin_value lease\<rfloor>) q"
      using claimed by auto
    then have "q = r" using same_id claimed(2,3) by blast
    then show False using \<open>due_row _ _ q\<close> claimed by (simp add: due_row_def keeps_lease_def)
  qed
  with claimed(3) show ?case by (rule map_untouched)
next
  case (undelivered e i err t m xs st n le)
  then have "ob_id r \<noteq> i" by (auto simp: keeps_lease_def)
  with undelivered(2) show ?case by (rule map_untouched)
next
  case (pruned e t xs)
  then show ?case by (auto simp: terminal_before_def)
qed simp_all

interpretation lease: trapping_system hub_step "leased i k since" "keeps_lease i k since" for i k since
proof unfold_locales
  fix h ev assume *: "leased i k since h" "keeps_lease i k since ev"
  obtain e op where ev: "ev = (e, op)" by (cases ev)
  obtain r where r: "r \<in> set (hub_outbox h)" "ob_id r = i" "ob_dedupe_key r = k" "ob_status r = OSending"
      "ob_updated_at r = since" "outbox_wf h"
    using *(1) by (auto simp: leased_def)
  then have "r \<in> set (hub_outbox (hub_step h ev))"
    using outbox_change_leased [OF hub_step_outbox _ r(1)] *(2) unfolding ev by (auto simp: outbox_wf_def)
  then show "leased i k since (hub_step h ev)" using r hub_keys.step_inv by (auto simp: leased_def)
qed

text \<open>C19: A claim gives at most \<open>limit\<close> replies, and a reply it gave is not given again by a claim
  within the lease, whatever other operations run in between.\<close>

theorem claimed_reply_leased:
  assumes "outbox_wf h" and claim: "claimDueOutbox e limit lease h = (Inr recs, h1)" and "x \<in> set recs"
    and "list_all (keeps_lease (ob_id (ox_row x)) (ob_dedupe_key (ox_row x)) (he_now e)) evs"
    and again: "claimDueOutbox e2 limit2 lease2 (hub_run h1 evs) = (Inr recs2, h2)"
    and within: "he_now e2 - \<lfloor>fin_value lease2\<rfloor> < he_now e"
  shows "int (length recs) \<le> \<lfloor>fin_value limit\<rfloor> \<and> (\<forall>y\<in>set recs2. ob_id (ox_row y) \<noteq> ob_id (ox_row x))"
proof
  show "int (length recs) \<le> \<lfloor>fin_value limit\<rfloor>" by (rule claimed_length [OF claim assms(1)])
  have "h1 = hub_step h (e, OClaim limit lease)" using claim by (simp add: hub_step_def)
  then have "outbox_wf h1" using hub_keys.step_inv assms(1) by simp
  then have "leased (ob_id (ox_row x)) (ob_dedupe_key (ox_row x)) (he_now e) h1"
    using claimed_sending [OF claim assms(3)] by (auto simp: leased_def)
  then have "leased (ob_id (ox_row x)) (ob_dedupe_key (ox_row x)) (he_now e) (hub_run h1 evs)"
    using lease.run_trap assms(4) by (simp add: hub_run_def)
  then obtain r where r: "r \<in> set (hub_outbox (hub_run h1 evs))" "ob_id r = ob_id (ox_row x)" "ob_status r = OSending"
      "ob_updated_at r = he_now e" "distinct (map ob_id (hub_outbox (hub_run h1 evs)))"
    by (auto simp: leased_def outbox_wf_def)
  show "\<forall>y\<in>set recs2. ob_id (ox_row y) \<noteq> ob_id (ox_row x)"
  proof
    fix y assume "y \<in> set recs2"
    then obtain q where q: "q \<in> set (hub_outbox (hub_run h1 evs))" "ob_id q = ob_id (ox_row y)"
        "due_row (he_now e2) (he_now e2 - \<lfloor>fin_value lease2\<rfloor>) q"
      using claimed_ids [OF again] by blast
    have "q \<noteq> r" using q(3) r(3,4) within by (auto simp: due_row_def)
    then show "ob_id (ox_row y) \<noteq> ob_id (ox_row x)" using same_id [OF r(5) q(1) r(1)] q(2) r(2) by metis
  qed
qed

section \<open>What an operation does to dispatches and receipts\<close>

text \<open>A receipt is appended to a state with the same receipts and key, or nothing is.\<close>

definition receipt_added :: "HubEnv \<Rightarrow> AgentHub \<Rightarrow> AgentHub \<Rightarrow> bool" where
  "receipt_added e h h' \<longleftrightarrow> (\<exists>rid k fs h1. receipt_fields fs \<and> hub_receipts h1 = hub_receipts h
     \<and> hub_key h1 = hub_key h \<and> appendReceipt e rid k (JObj fs) h1 = (Inr (), h'))"

lemma receipt_addedI:
  "receipt_fields fs \<Longrightarrow> appendReceipt e rid k (JObj fs) h1 = (Inr (), h') \<Longrightarrow> hub_receipts h1 = hub_receipts h \<Longrightarrow>
     hub_key h1 = hub_key h \<Longrightarrow> receipt_added e h h'"
  unfolding receipt_added_def by blast

definition remembers :: "string \<Rightarrow> string \<Rightarrow> string \<Rightarrow> AgentHub \<Rightarrow> bool" where
  "remembers a rid x h \<longleftrightarrow> hub_agentId h = a
     \<and> (\<exists>row. om_get (hub_dispatches h) rid = Some row \<and> dr_payload_sha256 row = Some x)"

lemma finish_added: "finish_shape e rid h h' \<Longrightarrow> receipt_added e h h'"
proof -
  assume "finish_shape e rid h h'"
  then obtain row p x h1 row' k fs where put: "put_reply e rid row p h = (Inr x, h1)" and f: "receipt_fields fs"
      and app: "appendReceipt e rid k (JObj fs) (set_dispatch rid row' h1) = (Inr (), h')"
    by (auto simp: finish_shape_def)
  have "hub_receipts (set_dispatch rid row' h1) = hub_receipts h" and "hub_key (set_dispatch rid row' h1) = hub_key h"
    using put_reply_frame(2,5) [of e rid row p h] put by (simp_all add: set_dispatch_def)
  then show ?thesis by (rule receipt_addedI [OF f app])
qed

lemma finish_remembers: "finish_shape e r h h' \<Longrightarrow> remembers a rid x h \<Longrightarrow> remembers a rid x h'"
proof -
  assume "finish_shape e r h h'" and mem: "remembers a rid x h"
  then obtain row p ob h1 row' k fs where row: "om_get (hub_dispatches h) r = Some row" "dr_payload_sha256 row' = dr_payload_sha256 row"
      and put: "put_reply e r row p h = (Inr ob, h1)"
      and app: "appendReceipt e r k (JObj fs) (set_dispatch r row' h1) = (Inr (), h')"
    by (auto simp: finish_shape_def)
  have "hub_dispatches h1 = hub_dispatches h" "hub_agentId h1 = hub_agentId h"
    using put_reply_frame(1,4) [of e r row p h] put by simp_all
  then have "hub_dispatches h' = om_set r row' (hub_dispatches h)" "hub_agentId h' = hub_agentId h"
    using appendReceipt_frame(2,4) [of e r k "JObj fs" "set_dispatch r row' h1"] app by (simp_all add: set_dispatch_def)
  then show ?thesis using mem row by (auto simp: remembers_def)
qed

lemma insert_effect:
  assumes "insert_dispatch e r t a p x h = (Inr u, h')"
  shows "receipt_added e h h'" and "hub_agentId h' = hub_agentId h"
    and "\<exists>row. hub_dispatches h' = om_set r row (hub_dispatches h) \<and> dr_payload_sha256 row = Some x \<and> dr_status row = DAccepted"
proof -
  let ?fs = "[(''requestId'', JStr r), (''topicId'', JStr t), (''agentId'', JStr a), (''payloadHash'', JStr x), (''status'', JStr ''accepted'')]"
  have u: "u = ()" by simp
  have "\<exists>row. (dr_payload_sha256 row = Some x \<and> dr_status row = DAccepted)
      \<and> appendReceipt e r ''dispatch_received'' (JObj ?fs) (h\<lparr>hub_dispatches := om_set r row (hub_dispatches h)\<rparr>) = (Inr (), h')"
    by (rule exI, rule conjI [rotated], rule assms [unfolded u insert_dispatch_def]) simp
  then obtain row where row: "dr_payload_sha256 row = Some x" "dr_status row = DAccepted"
      and app: "appendReceipt e r ''dispatch_received'' (JObj ?fs) (h\<lparr>hub_dispatches := om_set r row (hub_dispatches h)\<rparr>) = (Inr (), h')"
    by blast
  have "receipt_fields ?fs" by (simp add: receipt_fields_def)
  then show "receipt_added e h h'" by (rule receipt_addedI [OF _ app]) simp_all
  show "hub_agentId h' = hub_agentId h"
    and "\<exists>row. hub_dispatches h' = om_set r row (hub_dispatches h) \<and> dr_payload_sha256 row = Some x \<and> dr_status row = DAccepted"
    using appendReceipt_frame(2,4) [of e r "''dispatch_received''" "JObj ?fs" "h\<lparr>hub_dispatches := om_set r row (hub_dispatches h)\<rparr>"]
      app row by auto
qed

text \<open>The cases of a recorded dispatch.\<close>

lemma record_cases:
  obtains err where "recordInboundDispatch e p h = (Inl err, h)"
  | (dup) rid row x where "om_get (hub_dispatches h) rid = Some row"
      "recordInboundDispatch e p h = (Inr \<lparr>in_requestId = rid, in_duplicate = True, in_payloadHash = x\<rparr>,
        set_dispatch rid (row\<lparr>dr_duplicate_count := dr_duplicate_count row + 1, dr_last_seen_at := Some (he_now e),
          dr_payload_sha256 := or_else (dr_payload_sha256 row) (Some x)\<rparr>) h)"
  | (new) rid t x h' where "om_get (hub_dispatches h) rid = None"
      "requiredString (jget p ''requestId'') ''requestId'' = Inr rid"
      "x = cr_sha256 (he_crypto e) (stableStringify p)"
      "insert_dispatch e rid t (hub_agentId h) p x h = (Inr (), h')"
      "recordInboundDispatch e p h = (Inr \<lparr>in_requestId = rid, in_duplicate = False, in_payloadHash = x\<rparr>, h')"
proof -
  show thesis
  proof (cases "fst (recordInboundDispatch e p h)")
    case (Inl err)
    have "hub_exec e (ORecord p) h = (Some err, snd (recordInboundDispatch e p h))"
      using Inl by (cases "recordInboundDispatch e p h") (simp add: outcome_def)
    then have "snd (recordInboundDispatch e p h) = h"
      using failed_atomic [of "ORecord p" e h err] by (simp add: reads_memory_def)
    with Inl show thesis by (intro that(1)) (simp add: prod_eq_iff)
  next
    case (Inr res)
    then obtain rid t where req: "requiredString (jget p ''requestId'') ''requestId'' = Inr rid"
        "requiredString (jget p ''topicId'') ''topicId'' = Inr t"
        "requiredString (jget p ''agentId'') ''agentId'' = Inr (hub_agentId h)"
      by (auto simp: recordInboundDispatch_def split: sum.splits if_splits)
    define x where "x = cr_sha256 (he_crypto e) (stableStringify p)"
    show thesis
    proof (cases "om_get (hub_dispatches h) rid")
      case (Some row)
      then show thesis using Inr req that(2) [of rid row x]
        by (auto simp: recordInboundDispatch_def Let_def set_dispatch_def x_def split: if_splits)
    next
      case None
      show thesis
      proof (cases rule: transaction_cases [of "insert_dispatch e rid t (hub_agentId h) p x" h])
        case (1 err)
        then show thesis using Inr req None by (simp add: recordInboundDispatch_def Let_def x_def)
      next
        case (2 u h')
        then show thesis using req None that(3) [of rid x t h']
          by (simp add: recordInboundDispatch_def Let_def x_def)
      qed
    qed
  qed
qed

lemma running_cases:
  obtains "snd (markDispatchRunning e rid h) = h"
  | row row' where "om_get (hub_dispatches h) rid = Some row" "dr_payload_sha256 row' = dr_payload_sha256 row"
      "dr_status row' = DRunning" "receipt_added e h (snd (markDispatchRunning e rid h))"
      "hub_dispatches (snd (markDispatchRunning e rid h)) = om_set rid row' (hub_dispatches h)"
      "hub_agentId (snd (markDispatchRunning e rid h)) = hub_agentId h"
proof -
  show thesis
  proof (cases rule: transaction_cases [of "running_body e rid" h])
    case (1 err)
    then show thesis by (intro that(1)) (simp add: markDispatchRunning_def)
  next
    case (2 u h')
    then obtain row where row: "om_get (hub_dispatches h) rid = Some row" by (auto simp: running_body_def split: option.splits)
    let ?row = "row\<lparr>dr_status := DRunning, dr_started_at := or_else (dr_started_at row) (Some (he_now e)),
        dr_runtime_attempts := dr_runtime_attempts row + 1, dr_last_runtime_started_at := Some (he_now e),
        dr_replay_after := None, dr_error := None\<rparr>"
    let ?fs = "[(''requestId'', JStr rid), (''status'', JStr ''running''),
        (''runtimeAttempts'', JNum (int (dr_runtime_attempts ?row))), (''startedAt'', JNum (he_now e))]"
    have app: "appendReceipt e rid ''runtime_started'' (JObj ?fs) (set_dispatch rid ?row h) = (Inr (), h')"
      using 2(1) row by (simp add: running_body_def Let_def)
    have "receipt_fields ?fs" by (simp add: receipt_fields_def)
    then have "receipt_added e h h'"
      by (rule receipt_addedI [OF _ app]) (simp_all add: set_dispatch_def)
    moreover have "hub_dispatches h' = om_set rid ?row (hub_dispatches h)" and "hub_agentId h' = hub_agentId h"
      using appendReceipt_frame(2,4) [of e rid "''runtime_started''" "JObj ?fs" "set_dispatch rid ?row h"] app
      by (simp_all add: set_dispatch_def)
    ultimately show thesis using row 2(2) by (intro that(2) [of row ?row]) (simp_all add: markDispatchRunning_def)
  qed
qed

section \<open>A repeated dispatch is recognised\<close>

lemma memory_frame:
  "hub_dispatches (snd (upsertMemoryValue e k v kind ttl h)) = hub_dispatches h"
  "hub_dispatches (snd (getMemoryValue e k kind h)) = hub_dispatches h"
  "hub_receipts (snd (upsertMemoryValue e k v kind ttl h)) = hub_receipts h"
  "hub_receipts (snd (getMemoryValue e k kind h)) = hub_receipts h"
  "hub_agentId (snd (upsertMemoryValue e k v kind ttl h)) = hub_agentId h"
  "hub_agentId (snd (getMemoryValue e k kind h)) = hub_agentId h"
  "hub_key (snd (upsertMemoryValue e k v kind ttl h)) = hub_key h"
  "hub_key (snd (getMemoryValue e k kind h)) = hub_key h"
  by (auto simp: upsertMemoryValue_def getMemoryValue_def Let_def split: option.splits sum.splits if_splits)

lemma claim_frame:
  "hub_dispatches (snd (claimDueOutbox e l t h)) = hub_dispatches h"
  "hub_receipts (snd (claimDueOutbox e l t h)) = hub_receipts h"
  "hub_agentId (snd (claimDueOutbox e l t h)) = hub_agentId h"
  "hub_key (snd (claimDueOutbox e l t h)) = hub_key h"
  "hub_memory (snd (claimDueOutbox e l t h)) = hub_memory h"
  by (auto simp: claimDueOutbox_def claim_body_def withTransaction_def update_outbox_def Let_def split: prod.splits sum.splits)

lemma outbox_frame:
  "hub_dispatches (snd (markOutboxSent e i h)) = hub_dispatches h"
  "hub_receipts (snd (markOutboxSent e i h)) = hub_receipts h"
  "hub_agentId (snd (markOutboxSent e i h)) = hub_agentId h"
  "hub_key (snd (markOutboxSent e i h)) = hub_key h"
  "hub_memory (snd (markOutboxSent e i h)) = hub_memory h"
  "hub_dispatches (snd (markOutboxDeliveryFailed e i er t m h)) = hub_dispatches h"
  "hub_receipts (snd (markOutboxDeliveryFailed e i er t m h)) = hub_receipts h"
  "hub_agentId (snd (markOutboxDeliveryFailed e i er t m h)) = hub_agentId h"
  "hub_key (snd (markOutboxDeliveryFailed e i er t m h)) = hub_key h"
  "hub_memory (snd (markOutboxDeliveryFailed e i er t m h)) = hub_memory h"
  by (auto simp: markOutboxSent_def markOutboxDeliveryFailed_def update_outbox_def Let_def split: option.splits)

lemmas op_frames = memory_frame claim_frame outbox_frame

lemma finish_dispatches:
  assumes "finish_shape e r h h'"
  shows "\<exists>row row'. om_get (hub_dispatches h) r = Some row \<and> hub_dispatches h' = om_set r row' (hub_dispatches h)
      \<and> dr_status row' \<in> {DSucceeded, DFailed}"
proof -
  from assms obtain row p ob h1 row' k fs where row: "om_get (hub_dispatches h) r = Some row" "dr_status row' \<in> {DSucceeded, DFailed}"
      and put: "put_reply e r row p h = (Inr ob, h1)"
      and app: "appendReceipt e r k (JObj fs) (set_dispatch r row' h1) = (Inr (), h')"
    unfolding finish_shape_def by blast
  have "hub_dispatches h1 = hub_dispatches h" using put_reply_frame(1) [of e r row p h] put by simp
  then have "hub_dispatches h' = om_set r row' (hub_dispatches h)"
    using appendReceipt_frame(2) [of e r k "JObj fs" "set_dispatch r row' h1"] app by (simp add: set_dispatch_def)
  then show ?thesis using row by blast
qed

text \<open>What an operation does to the dispatches.\<close>

inductive dispatch_change :: "HubOp \<Rightarrow> (string, DispatchRow) omap \<Rightarrow> (string, DispatchRow) omap \<Rightarrow> bool" for op where
  dsame: "dispatch_change op d d"
| dinserted: "om_get d rid = None \<Longrightarrow> dr_status row = DAccepted \<Longrightarrow> dispatch_change op d (om_set rid row d)"
| dnoted: "om_get d rid = Some row \<Longrightarrow> dr_status row' = dr_status row \<Longrightarrow> dispatch_change op d (om_set rid row' d)"
| dstarted: "om_get d rid = Some row \<Longrightarrow> dr_status row' = DRunning \<Longrightarrow> dispatch_change op d (om_set rid row' d)"
| dfinished: "finishes op rid \<Longrightarrow> om_get d rid = Some row \<Longrightarrow> dr_status row' \<in> {DSucceeded, DFailed} \<Longrightarrow>
    dispatch_change op d (om_set rid row' d)"

lemma hub_step_dispatches: "dispatch_change op (hub_dispatches h) (hub_dispatches (hub_step h (e, op)))"
proof (cases "\<exists>rid. finishes op rid")
  case True
  then obtain rid where f: "finishes op rid" by blast
  show ?thesis
  proof (cases "hub_step h (e, op) = h")
    case False
    then show ?thesis using finish_cases [OF f, of h e] finish_dispatches dfinished [OF f] by metis
  qed (simp add: dsame)
next
  case False
  show ?thesis
  proof (cases op)
    case (ORecord p)
    show ?thesis
    proof (cases rule: record_cases [of e p h])
      case (dup rid row x)
      then show ?thesis using ORecord dnoted by (simp add: hub_step_def set_dispatch_def)
    next
      case (new rid t x h')
      then show ?thesis using ORecord insert_effect(3) [OF new(4)] dinserted by (fastforce simp: hub_step_def)
    qed (simp add: ORecord hub_step_def dsame)
  next
    case (ORunning rid)
    then show ?thesis by (cases rule: running_cases [of e rid h]) (auto simp: hub_step_def dsame intro: dstarted)
  next
    case (OReplay rid t)
    then show ?thesis
      by (auto simp: hub_step_def scheduleDispatchReplay_def set_dispatch_def dsame intro: dnoted split: option.splits)
  qed (use False in \<open>auto simp: hub_step_def op_frames upsertMemory_def upsertCache_def getMemory_def getCache_def finishes_def
      pruneExpiredCache_def pruneTerminalOutbox_def pruneOldReceipts_def Let_def intro: dsame\<close>)
qed

lemma remembers_set:
  "remembers a rid x h \<Longrightarrow> om_get (hub_dispatches h) r = Some row \<Longrightarrow>
     dr_payload_sha256 row' = dr_payload_sha256 row \<Longrightarrow> hub_dispatches h' = om_set r row' (hub_dispatches h) \<Longrightarrow>
     hub_agentId h' = hub_agentId h \<Longrightarrow> remembers a rid x h'"
  by (auto simp: remembers_def)

lemma step_remembers: "remembers a rid x h \<Longrightarrow> remembers a rid x (hub_step h (e, op))"
proof (cases "\<exists>r. finishes op r")
  case True
  moreover assume "remembers a rid x h"
  ultimately show ?thesis using finish_cases finish_remembers by metis
next
  case nf: False
  assume mem: "remembers a rid x h"
  show ?thesis
  proof (cases op)
    case (ORecord p)
    show ?thesis
    proof (cases rule: record_cases [of e p h])
      case (1 err)
      then show ?thesis using mem ORecord by (simp add: hub_step_def)
    next
      case (dup r row y)
      then show ?thesis using mem ORecord
        by (auto simp: hub_step_def set_dispatch_def remembers_def or_else_def split: option.splits)
    next
      case (new r t y h')
      then have "hub_step h (e, op) = h'" using ORecord by (simp add: hub_step_def)
      then show ?thesis using mem new insert_effect(2,3) [OF new(4)] by (auto simp: remembers_def)
    qed
  next
    case (ORunning r)
    have s: "hub_step h (e, op) = snd (markDispatchRunning e r h)" using ORunning by (simp add: hub_step_def)
    show ?thesis
    proof (cases rule: running_cases [of e r h])
      case 1
      then show ?thesis using mem s by simp
    next
      case (2 row row')
      then show ?thesis using remembers_set [OF mem] s by metis
    qed
  next
    case (OReplay r t)
    then show ?thesis using mem
      by (auto simp: hub_step_def scheduleDispatchReplay_def set_dispatch_def remembers_def split: option.splits)
  qed (use mem nf in \<open>auto simp: hub_step_def remembers_def op_frames upsertMemory_def upsertCache_def getMemory_def
      getCache_def pruneExpiredCache_def pruneOldReceipts_def pruneTerminalOutbox_def finishes_def Let_def\<close>)
qed

interpretation memory_of_dispatch: trapping_system hub_step "remembers a rid x" "\<lambda>_. True" for a rid x
  by unfold_locales (metis step_remembers surj_pair)

text \<open>C18: A dispatch that was recorded is recognised when it comes again, whatever happened to the
  hub in between: the same content (in any order of keys, members called \<open>__proto__\<close> not counted) is a
  duplicate, other content under the same request id is refused. The digest is taken to have no collision on the two texts.\<close>

theorem repeated_dispatch_recognised:
  assumes first: "recordInboundDispatch e p h = (Inr res, h1)" "\<not> in_duplicate res"
    and wf: "json_wf p" "json_wf q"
    and sha: "he_crypto e2 = he_crypto e" "\<And>s. cr_sha256 (he_crypto e) s \<noteq> []"
      "cr_sha256 (he_crypto e) (stableStringify q) = cr_sha256 (he_crypto e) (stableStringify p) \<Longrightarrow>
         stableStringify q = stableStringify p"
    and q: "requiredString (jget q ''requestId'') ''requestId'' = Inr (in_requestId res)"
      "requiredString (jget q ''topicId'') ''topicId'' = Inr t"
      "requiredString (jget q ''agentId'') ''agentId'' = Inr (hub_agentId h)"
  shows "fst (recordInboundDispatch e2 q (hub_run h1 evs)) =
    (if same_json p q then Inr (res\<lparr>in_duplicate := True\<rparr>) else Inl HashConflict)"
proof -
  let ?x = "cr_sha256 (he_crypto e) (stableStringify p)"
  have res: "res = \<lparr>in_requestId = in_requestId res, in_duplicate = False, in_payloadHash = ?x\<rparr>"
    and mem1: "remembers (hub_agentId h) (in_requestId res) ?x h1"
  proof (atomize (full), cases rule: record_cases [of e p h])
    case (1 err)
    then show "res = \<lparr>in_requestId = in_requestId res, in_duplicate = False, in_payloadHash = ?x\<rparr>
        \<and> remembers (hub_agentId h) (in_requestId res) ?x h1" using first by simp
  next
    case (dup r row y)
    then show "res = \<lparr>in_requestId = in_requestId res, in_duplicate = False, in_payloadHash = ?x\<rparr>
        \<and> remembers (hub_agentId h) (in_requestId res) ?x h1" using first by auto
  next
    case (new r t y h')
    then show "res = \<lparr>in_requestId = in_requestId res, in_duplicate = False, in_payloadHash = ?x\<rparr>
        \<and> remembers (hub_agentId h) (in_requestId res) ?x h1"
      using first insert_effect(2,3) [OF new(4)] by (auto simp: remembers_def)
  qed
  let ?h = "hub_run h1 evs"
  have "remembers (hub_agentId h) (in_requestId res) ?x ?h"
    using memory_of_dispatch.run_trap [OF mem1] by (simp add: hub_run_def list_all_iff)
  then obtain row where row: "om_get (hub_dispatches ?h) (in_requestId res) = Some row" "dr_payload_sha256 row = Some ?x"
      "hub_agentId ?h = hub_agentId h"
    by (auto simp: remembers_def)
  have "fst (recordInboundDispatch e2 q ?h) =
      (if cr_sha256 (he_crypto e) (stableStringify q) \<noteq> ?x then Inl HashConflict
       else Inr \<lparr>in_requestId = in_requestId res, in_duplicate = True, in_payloadHash = ?x\<rparr>)"
    using q row sha(1,2) by (auto simp: recordInboundDispatch_def Let_def)
  moreover have "cr_sha256 (he_crypto e) (stableStringify q) = ?x \<longleftrightarrow> same_json p q"
    using sha(3) stable_text_iff [OF wf] by metis
  moreover have "res\<lparr>in_duplicate := True\<rparr> = \<lparr>in_requestId = in_requestId res, in_duplicate = True, in_payloadHash = ?x\<rparr>"
    using res by (cases res) simp
  ultimately show ?thesis by auto
qed

section \<open>The receipts of a request are a chain\<close>

fun linked :: "string option \<Rightarrow> ReceiptRow list \<Rightarrow> bool" where
  "linked prev [] = True"
| "linked prev (r # rs) \<longleftrightarrow> rc_prev_hash r = prev \<and> linked (Some (rc_receipt_hash r)) rs"

definition of_request :: "string \<Rightarrow> AgentHub \<Rightarrow> ReceiptRow list" where
  "of_request rid h = filter (\<lambda>r. rc_request_id r = Some rid) (hub_receipts h)"

definition genuine :: "crypto \<Rightarrow> string option \<Rightarrow> ReceiptRow \<Rightarrow> bool" where
  "genuine cr key r \<longleftrightarrow> (\<exists>body. openSensitive cr key (rc_payload_body r) (receipt_aad (rc_id r)) = Inr body
     \<and> rc_receipt_hash r = receiptHash cr (rc_prev_hash r) (rc_kind r) (rc_created_at r) body)"

text \<open>\<open>whole\<close>: no receipt was pruned.\<close>

definition chain_inv :: "crypto \<Rightarrow> string option \<Rightarrow> bool \<Rightarrow> int \<Rightarrow> AgentHub \<Rightarrow> bool" where
  "chain_inv cr key whole t h \<longleftrightarrow> hub_key h = key \<and> sorted (map rc_created_at (hub_receipts h) @ [t])
     \<and> (\<forall>rid. \<exists>prev. linked prev (of_request rid h) \<and> (whole \<longrightarrow> prev = None))
     \<and> (\<forall>r\<in>set (hub_receipts h). genuine cr key r)"

lemma linked_append: "linked prev (rs @ [r]) \<longleftrightarrow> linked prev rs \<and>
    rc_prev_hash r = (if rs = [] then prev else Some (rc_receipt_hash (last rs)))"
  by (induction rs arbitrary: prev) auto

lemma linked_dropWhile: "linked prev rs \<Longrightarrow> \<exists>prev'. linked prev' (dropWhile P rs)"
  by (induction rs arbitrary: prev) (auto intro: exI [of _ prev])

lemma sorted_prune: "sorted (map rc_created_at rs) \<Longrightarrow> filter (\<lambda>r. \<not> rc_created_at r < b) rs = dropWhile (\<lambda>r. rc_created_at r < b) rs"
proof (induction rs)
  case (Cons r rs)
  show ?case
  proof (cases "rc_created_at r < b")
    case False
    then have "\<forall>x\<in>set rs. \<not> rc_created_at x < b" using Cons.prems by auto
    then show ?thesis using False by (simp add: filter_id_conv)
  qed (use Cons in simp)
qed simp

lemma latest_receipt_last:
  "sorted (map rc_created_at rs) \<Longrightarrow> (\<forall>b. best = Some b \<longrightarrow> (\<forall>r\<in>set rs. rc_created_at b \<le> rc_created_at r)) \<Longrightarrow>
     latest_receipt best rid rs =
       (let own = filter (\<lambda>r. rc_request_id r = Some rid) rs in if own = [] then best else Some (last own))"
  by (induction rs arbitrary: best) (auto simp: Let_def split: option.splits)

lemma plain_not_envelope:
  assumes "receipt_fields fs"
  shows "parseEncryptedEnvelope (stableStringify (JObj fs)) = None"
proof -
  have f: "om_wf fs" "\<And>kv. kv \<in> set fs \<Longrightarrow> \<not> is_index (fst kv) \<and> json_wf (snd kv) \<and> fst kv \<noteq> ENCRYPTED_VALUE_MARKER"
  proof -
    show "om_wf fs" using assms by (simp add: receipt_fields_def)
    fix kv assume "kv \<in> set fs"
    then have h: "json_wf (snd kv)" "hd (fst kv) \<notin> set ''_0123456789''" using assms by (simp_all add: receipt_fields_def list_all_iff)
    then have "\<not> is_digit (hd (fst kv))" by (simp add: is_digit_def)
    moreover have "fst kv \<noteq> ENCRYPTED_VALUE_MARKER" using h(2) by (auto simp: ENCRYPTED_VALUE_MARKER_def)
    ultimately show "\<not> is_index (fst kv) \<and> json_wf (snd kv) \<and> fst kv \<noteq> ENCRYPTED_VALUE_MARKER"
      using h(1) not_index_letter by blast
  qed
  have own: "own_members fs = fs"
    using assms by (intro own_members_id) (auto simp: receipt_fields_def list_all_iff)
  have "own_order fs = fs" using f(2) by (intro literal_own_order) (simp add: list_all_iff)
  then have "json_wf (JObj fs)" using f by (simp add: list_all_iff)
  then have parsed: "JSON_parse (stableStringify (JObj fs)) = Some (stableValue (JObj fs))"
    by (simp add: stableStringify_def JSON_parse_stringify stableValue_wf del: stableValue.simps)
  define ms where "ms = own_order (map (\<lambda>kv. (fst kv, stableValue (snd kv))) (sort_key fst (own_members fs)))"
  have "ENCRYPTED_VALUE_MARKER \<notin> fst ` set fs" using f(2) by (metis imageE)
  moreover have "fst ` set ms = fst ` set fs" by (simp add: ms_def own own_order_set image_image)
  ultimately have "om_get ms ENCRYPTED_VALUE_MARKER = None" by (simp only: map_of_eq_None_iff not_False_eq_True)
  then show ?thesis unfolding parseEncryptedEnvelope_def parsed by (simp add: ms_def [symmetric])
qed

lemma added_chain:
  assumes inv: "chain_inv (he_crypto e) key whole t h" and add: "receipt_added e h h'" and law: "gcm_law (he_crypto e)"
    and later: "t \<le> he_receipt_now e"
  shows "chain_inv (he_crypto e) key whole (he_receipt_now e) h'"
proof -
  obtain rid k fs h1 where f: "receipt_fields fs" and h1: "hub_receipts h1 = hub_receipts h" "hub_key h1 = hub_key h"
      and app: "appendReceipt e rid k (JObj fs) h1 = (Inr (), h')"
    using add by (auto simp: receipt_added_def)
  define prev where "prev = map_option rc_receipt_hash (latest_receipt None rid (hub_receipts h))"
  define body where "body = stableStringify (JObj fs)"
  define r where "r = \<lparr>rc_id = he_draw e 0, rc_request_id = Some rid, rc_kind = k,
      rc_payload_body = encodeSensitive e h1 1 body (receipt_aad (he_draw e 0)), rc_prev_hash = prev,
      rc_receipt_hash = receiptHash (he_crypto e) prev k (he_receipt_now e) body, rc_created_at = he_receipt_now e\<rparr>"
  have h': "hub_receipts h' = hub_receipts h @ [r]" and key': "hub_key h' = hub_key h"
    using app h1 by (auto simp: appendReceipt_def Let_def r_def prev_def body_def split: if_splits)
  have srt: "sorted (map rc_created_at (hub_receipts h))" and le: "\<forall>q\<in>set (hub_receipts h). rc_created_at q \<le> he_receipt_now e"
    using inv later by (fastforce simp: chain_inv_def sorted_append)+
  have "prev = (if of_request rid h = [] then None else Some (rc_receipt_hash (last (of_request rid h))))"
    using latest_receipt_last [OF srt, of None rid] by (simp add: prev_def of_request_def Let_def)
  then have own: "rc_prev_hash r = (if of_request rid h = [] then None else Some (rc_receipt_hash (last (of_request rid h))))"
    by (simp add: r_def)
  have link: "\<exists>p. linked p (of_request i h') \<and> (whole \<longrightarrow> p = None)" for i
  proof -
    obtain p where p: "linked p (of_request i h)" "whole \<longrightarrow> p = None" using inv by (auto simp: chain_inv_def)
    have "of_request i h' = of_request i h @ (if i = rid then [r] else [])" by (simp add: of_request_def h' r_def)
    then show ?thesis using p own by (cases "i = rid"; cases "of_request rid h = []") (auto simp: linked_append)
  qed
  have "hub_key h1 = None \<Longrightarrow> parseEncryptedEnvelope body = None" using plain_not_envelope [OF f] by (simp add: body_def)
  then have "openSensitive (he_crypto e) (hub_key h1) (rc_payload_body r) (receipt_aad (rc_id r)) = Inr body"
    using sealed_opens [OF law] by (simp add: r_def encodeSensitive_def)
  then have "genuine (he_crypto e) key r" using inv h1 by (auto simp: genuine_def chain_inv_def r_def)
  then show ?thesis using inv link key' le srt by (auto simp: chain_inv_def h' sorted_append r_def)
qed

lemma step_receipts:
  assumes "\<forall>t. op \<noteq> OPruneReceipts t"
  shows "receipt_added e h (hub_step h (e, op))
    \<or> hub_receipts (hub_step h (e, op)) = hub_receipts h \<and> hub_key (hub_step h (e, op)) = hub_key h"
proof (cases "\<exists>r. finishes op r")
  case True
  then show ?thesis using finish_cases finish_added by metis
next
  case nf: False
  show ?thesis
  proof (cases op)
    case (ORecord p)
    then have s: "hub_step h (e, op) = snd (recordInboundDispatch e p h)" by (simp add: hub_step_def)
    show ?thesis
      by (rule record_cases [of e p h]) (use insert_effect(1) in \<open>auto simp: s set_dispatch_def\<close>)
  next
    case (ORunning r)
    then have s: "hub_step h (e, op) = snd (markDispatchRunning e r h)" by (simp add: hub_step_def)
    show ?thesis by (rule running_cases [of e r h]) (simp_all add: s)
  next
    case (OReplay r t)
    then show ?thesis by (auto simp: hub_step_def scheduleDispatchReplay_def set_dispatch_def split: option.splits)
  qed (use assms nf in \<open>auto simp: hub_step_def op_frames upsertMemory_def upsertCache_def getMemory_def
      getCache_def pruneExpiredCache_def pruneTerminalOutbox_def finishes_def Let_def\<close>)
qed

fun clocked :: "crypto \<Rightarrow> int \<Rightarrow> (HubEnv \<times> HubOp) list \<Rightarrow> bool" where
  "clocked cr t [] = True"
| "clocked cr t ((e, op) # evs) \<longleftrightarrow> he_crypto e = cr \<and> t \<le> he_receipt_now e \<and> clocked cr (he_receipt_now e) evs"

definition prunes_receipts :: "HubEnv \<times> HubOp \<Rightarrow> bool" where
  "prunes_receipts ev \<longleftrightarrow> (\<exists>b. snd ev = OPruneReceipts b)"

lemma pruned_chain:
  assumes "chain_inv cr key whole t h" and "t \<le> t'"
  shows "chain_inv cr key False t' (snd (pruneOldReceipts b h))"
proof -
  let ?h = "snd (pruneOldReceipts b h)"
  have srt: "sorted (map rc_created_at (hub_receipts h))" using assms(1) by (simp add: chain_inv_def sorted_append)
  have "of_request rid ?h = dropWhile (\<lambda>r. rc_created_at r < b) (of_request rid h)" for rid
    using sorted_prune [of "of_request rid h" b] sorted_filter [OF srt]
    by (simp add: of_request_def pruneOldReceipts_def conj_commute)
  moreover have "\<exists>prev. linked prev (of_request rid h)" for rid using assms(1) by (auto simp: chain_inv_def)
  ultimately have "\<exists>prev. linked prev (of_request rid ?h)" for rid using linked_dropWhile by metis
  moreover have "sorted (map rc_created_at (hub_receipts ?h) @ [t'])"
    using assms sorted_filter [OF srt] by (fastforce simp: chain_inv_def pruneOldReceipts_def sorted_append)
  ultimately show ?thesis using assms(1) by (auto simp: chain_inv_def pruneOldReceipts_def)
qed

lemma run_chain:
  "chain_inv cr key whole t h \<Longrightarrow> clocked cr t evs \<Longrightarrow> gcm_law cr \<Longrightarrow>
     \<exists>t'. chain_inv cr key (whole \<and> \<not> list_ex prunes_receipts evs) t' (hub_run h evs)"
proof (induction evs arbitrary: h t whole)
  case (Cons ev evs)
  obtain e op where ev: "ev = (e, op)" by (cases ev)
  have c: "he_crypto e = cr" "t \<le> he_receipt_now e" "clocked cr (he_receipt_now e) evs"
    using Cons.prems(2) by (simp_all add: ev)
  have "chain_inv cr key (whole \<and> \<not> prunes_receipts ev) (he_receipt_now e) (hub_step h ev)"
  proof (cases "prunes_receipts ev")
    case True
    then obtain b where "op = OPruneReceipts b" by (auto simp: prunes_receipts_def ev)
    then show ?thesis using pruned_chain [OF Cons.prems(1) c(2)] True by (simp add: ev hub_step_def)
  next
    case False
    then have np: "\<forall>b. op \<noteq> OPruneReceipts b" by (simp add: prunes_receipts_def ev)
    from step_receipts [OF np, of e h] show ?thesis
    proof
      assume "receipt_added e h (hub_step h (e, op))"
      then show ?thesis using added_chain [of e key whole t h] Cons.prems c False by (simp add: ev)
    next
      assume "hub_receipts (hub_step h (e, op)) = hub_receipts h \<and> hub_key (hub_step h (e, op)) = hub_key h"
      then show ?thesis using Cons.prems(1) c(2) False by (fastforce simp: ev chain_inv_def of_request_def sorted_append)
    qed
  qed
  from Cons.IH [OF this c(3) Cons.prems(3)] show ?case by (simp add: hub_run_def conj_assoc)
qed (auto simp: hub_run_def)

text \<open>C21: With a clock that does not go back, the receipts a hub that began without any keeps of a
  request are a chain, also when old ones are pruned: each names the hash of the one before it,
  the first of them none if nothing was pruned; they are in order of time, and the hash of each is
  that of its fields and its sealed body.\<close>

theorem receipts_chained:
  assumes "gcm_law cr" and "hub_receipts h = []" and "clocked cr t evs"
  shows "(\<exists>prev. linked prev (of_request rid (hub_run h evs)) \<and> (\<not> list_ex prunes_receipts evs \<longrightarrow> prev = None))
    \<and> sorted (map rc_created_at (hub_receipts (hub_run h evs)))
    \<and> (\<forall>r\<in>set (hub_receipts (hub_run h evs)). genuine cr (hub_key h) r)"
proof -
  have "chain_inv cr (hub_key h) True t h" using assms(2) by (simp add: chain_inv_def of_request_def)
  from run_chain [OF this assms(3,1)] obtain t' where
      inv: "chain_inv cr (hub_key h) (\<not> list_ex prunes_receipts evs) t' (hub_run h evs)" by auto
  then have "\<exists>prev. linked prev (of_request rid (hub_run h evs)) \<and> (\<not> list_ex prunes_receipts evs \<longrightarrow> prev = None)"
    by (simp add: chain_inv_def)
  then show ?thesis using inv by (simp add: chain_inv_def sorted_append)
qed

section \<open>Memory returns what was stored\<close>

definition holds :: "string \<Rightarrow> MemoryRow \<Rightarrow> AgentHub \<Rightarrow> bool" where
  "holds k row h \<longleftrightarrow> (\<exists>row'. om_get (hub_memory h) k = Some row' \<and> om_wf (hub_memory h)
     \<and> mm_value_json row' = mm_value_json row \<and> mm_kind row' = mm_kind row \<and> mm_expires_at row' = mm_expires_at row)"

definition spares :: "string \<Rightarrow> HubEnv \<times> HubOp \<Rightarrow> bool" where
  "spares k ev \<longleftrightarrow> (case snd ev of OUpsertMemory k' _ _ \<Rightarrow> trim k' \<noteq> k | OUpsertCache k' _ _ \<Rightarrow> trim k' \<noteq> k | _ \<Rightarrow> True)"

lemma finish_memory: "finish_shape e r h h' \<Longrightarrow> hub_memory h' = hub_memory h"
proof -
  assume "finish_shape e r h h'"
  then obtain row p ob h1 row' k fs where put: "put_reply e r row p h = (Inr ob, h1)"
      and app: "appendReceipt e r k (JObj fs) (set_dispatch r row' h1) = (Inr (), h')"
    by (auto simp: finish_shape_def)
  have "hub_memory h1 = hub_memory h" using put_reply_frame(3) [of e r row p h] put by simp
  then show ?thesis
    using appendReceipt_frame(3) [of e r k "JObj fs" "set_dispatch r row' h1"] app by (simp add: set_dispatch_def)
qed

lemma insert_memory: "insert_dispatch e r t a p x h = (Inr u, h') \<Longrightarrow> hub_memory h' = hub_memory h"
  unfolding insert_dispatch_def
  by (drule arg_cong [where f = "\<lambda>r. hub_memory (snd r)"]) (simp add: appendReceipt_frame)

lemma dispatch_memory:
  "hub_memory (snd (recordInboundDispatch e p h)) = hub_memory h"
  "hub_memory (snd (markDispatchRunning e r h)) = hub_memory h"
proof -
  show "hub_memory (snd (recordInboundDispatch e p h)) = hub_memory h"
    by (rule record_cases [of e p h]) (auto simp: set_dispatch_def dest: insert_memory)
  show "hub_memory (snd (markDispatchRunning e r h)) = hub_memory h"
    unfolding markDispatchRunning_def
    by (rule transaction_cases [of "running_body e r" h])
      (auto simp: running_body_def frame_simps Let_def split: option.splits dest!: arg_cong [where f = "\<lambda>r. hub_memory (snd r)"])
qed

lemma memory_get_filter:
  "om_wf m \<Longrightarrow> om_get (filter P m) k = (case om_get m k of Some v \<Rightarrow> if P (k, v) then Some v else None | None \<Rightarrow> None)"
  by (induction m) (auto split: option.splits simp: map_of_eq_None_iff)

lemma memory_wf_filter: "om_wf m \<Longrightarrow> om_wf (filter P m)"
  by (rule distinct_map_filter)

lemma upsert_holds: "holds k row h \<Longrightarrow> trim k' \<noteq> k \<Longrightarrow> holds k row (snd (upsertMemoryValue e k' v kind ttl h))"
  by (auto simp: holds_def upsertMemoryValue_def Let_def)

lemma get_holds: "holds k row h \<Longrightarrow> holds k row (snd (getMemoryValue e k' kind h))"
  by (auto simp: holds_def getMemoryValue_def Let_def split: option.splits sum.splits)

lemma prune_holds: "holds k row h \<Longrightarrow> mm_kind row = MMemory \<Longrightarrow> holds k row (snd (pruneExpiredCache e h))"
  by (auto simp: holds_def pruneExpiredCache_def Let_def memory_get_filter memory_wf_filter)

lemma same_memory_holds: "hub_memory h' = hub_memory h \<Longrightarrow> holds k row h \<Longrightarrow> holds k row h'"
  by (simp add: holds_def)

lemma step_holds: "holds k row h \<and> mm_kind row = MMemory \<Longrightarrow> spares k (e, op) \<Longrightarrow> holds k row (hub_step h (e, op))"
proof (cases "\<exists>r. finishes op r")
  case True
  moreover assume "holds k row h \<and> mm_kind row = MMemory"
  ultimately show ?thesis using finish_cases finish_memory by (metis holds_def)
next
  case nf: False
  assume h: "holds k row h \<and> mm_kind row = MMemory" and s: "spares k (e, op)"
  then show ?thesis
  proof (cases op)
    case (OReplay r t)
    then show ?thesis using h by (auto simp: hub_step_def scheduleDispatchReplay_def set_dispatch_def holds_def split: option.splits)
  next
    case (ORecord p)
    then show ?thesis using h same_memory_holds dispatch_memory by (simp add: hub_step_def)
  next
    case (ORunning r)
    then show ?thesis using h same_memory_holds dispatch_memory by (simp add: hub_step_def)
  next
    case (OUpsertCache k' v t)
    then show ?thesis using h s upsert_holds by (auto simp: hub_step_def upsertCache_def spares_def)
  qed (use h s nf in \<open>auto simp: hub_step_def op_frames upsertMemory_def getMemory_def getCache_def spares_def
      finishes_def upsert_holds get_holds prune_holds\<close>, auto simp: holds_def op_frames pruneTerminalOutbox_def pruneOldReceipts_def)
qed

interpretation kept: trapping_system hub_step "\<lambda>h. holds k row h \<and> mm_kind row = MMemory" "spares k" for k row
  by unfold_locales (metis step_holds surj_pair)

lemma step_key: "hub_key (hub_step h (e, op)) = hub_key h"
proof (cases "\<exists>t. op = OPruneReceipts t")
  case True
  then show ?thesis by (auto simp: hub_step_def pruneOldReceipts_def)
next
  case False
  have "hub_key h' = hub_key h" if "receipt_added e h h'" for h'
    using that appendReceipt_frame(5) by (metis receipt_added_def snd_conv)
  then show ?thesis using step_receipts [of op e h] False by blast
qed

lemma run_key: "hub_key (hub_run h evs) = hub_key h"
  by (induction evs arbitrary: h) (auto simp: hub_run_def step_key)

lemma upsert_key: "hub_key (snd (upsertMemory e k v ttl h)) = hub_key h"
  by (simp add: upsertMemory_def memory_frame)

text \<open>A value stored in memory is read back with the same members, sealed or plain, until it
  expires, whatever operations on other keys run in between.\<close>

theorem memory_roundtrip:
  assumes store: "upsertMemory e k v ttl h = (Inr (), h1)" and "om_wf (hub_memory h)"
    and cr: "gcm_law (he_crypto e)" "he_crypto e2 = he_crypto e"
    and v: "json_wf v" "hub_key h = None \<Longrightarrow> parseEncryptedEnvelope (stableStringify v) = None"
    and "list_all (spares (trim k)) evs"
    and alive: "\<And>t. ttl = Some t \<Longrightarrow> he_now e2 < he_now e + \<lfloor>t\<rfloor>"
  shows "\<exists>w. fst (getMemory e2 (trim k) (hub_run h1 evs)) = Inr (Some w) \<and> w = stableValue v \<and> same_json v w"
proof -
  let ?k = "trim k"
  let ?stored = "encodeSensitive e h 2 (stableStringify v) (memory_aad ?k)"
  have "\<exists>row. om_get (hub_memory h1) ?k = Some row \<and> mm_value_json row = ?stored \<and> mm_kind row = MMemory
      \<and> mm_expires_at row = map_option (\<lambda>t. he_now e + \<lfloor>t\<rfloor>) ttl \<and> om_wf (hub_memory h1)"
    using store assms(2)
    by (auto simp: upsertMemory_def upsertMemoryValue_def Let_def om_wf_set split: if_splits option.splits)
  then obtain row where row: "holds ?k row h1" "mm_kind row = MMemory" "mm_value_json row = ?stored"
      "mm_expires_at row = map_option (\<lambda>t. he_now e + \<lfloor>t\<rfloor>) ttl"
    by (auto simp: holds_def)
  let ?h = "hub_run h1 evs"
  have "holds ?k row ?h" using kept.run_trap [of ?k row h1 evs] row(1,2) assms(7) by (simp add: hub_run_def)
  then obtain row' where row': "om_get (hub_memory ?h) ?k = Some row'" "mm_value_json row' = ?stored"
      "mm_kind row' = MMemory" "mm_expires_at row' = map_option (\<lambda>t. he_now e + \<lfloor>t\<rfloor>) ttl"
    using row by (auto simp: holds_def)
  have "openSensitive (he_crypto e) (hub_key h) ?stored (memory_aad ?k) = Inr (stableStringify v)"
    using sealed_opens [OF cr(1)] v(2) by (simp add: encodeSensitive_def)
  then have "\<And>h2. hub_key h2 = hub_key h \<Longrightarrow> decodeSensitive e2 h2 ?stored (memory_aad ?k) = Inr (stableStringify v)"
    by (simp add: decodeSensitive_def cr(2))
  moreover have "JSON_parse (stableStringify v) = Some (stableValue v)"
    using v(1) by (simp add: stableStringify_def JSON_parse_stringify stableValue_wf)
  moreover have "\<not> (case mm_expires_at row' of None \<Rightarrow> False | Some t \<Rightarrow> t \<le> he_now e2)"
    using row'(4) alive by (cases ttl) fastforce+
  moreover have key: "hub_key ?h = hub_key h" using upsert_key [of e k v ttl h] store by (simp add: run_key)
  ultimately have "fst (getMemory e2 ?k ?h) = Inr (Some (stableValue v))"
    using row' key by (simp add: getMemory_def getMemoryValue_def Let_def parsed_def)
  then show ?thesis using v(1) same_stableValue by blast
qed

text \<open>A key with blanks around it is stored under its trimmed form, and looked up as it is.\<close>

lemma untrimmed_key_missed:
  assumes "hub_memory h = []" and "trim k \<noteq> k"
  shows "fst (getMemory e2 k (snd (upsertMemory e k v ttl h))) = Inr None"
  using assms by (simp add: upsertMemory_def upsertMemoryValue_def getMemory_def getMemoryValue_def Let_def)

section \<open>Examples\<close>

definition hub_env :: "int \<Rightarrow> HubEnv" where
  "hub_env t = \<lparr>he_crypto = plain_crypto, he_env = (\<lambda>_. None), he_now = t, he_receipt_now = t,
     he_draw = (\<lambda>n. replicate (Suc n) CHR ''d'')\<rparr>"

definition example_row :: OutboxRow where
  "example_row = \<lparr>ob_id = ''o1'', ob_request_id = ''r1'', ob_kind = KReply, ob_dedupe_key = reply_key ''r1'',
     ob_target_url = ''u'', ob_payload_body = stringify (JObj []), ob_payload_sha256 = [], ob_status = OPending,
     ob_attempts = 0, ob_next_attempt_at = None, ob_last_error = None, ob_created_at = 1, ob_updated_at = 1,
     ob_sent_at = None\<rparr>"

definition example_hub :: AgentHub where
  "example_hub = empty_hub\<lparr>hub_agentId := ''a'', hub_outbox := [example_row]\<rparr>"

theorem failed_operation_traceless_witness:
  "hub_exec (hub_env 5) (ORunning ''r1'') empty_hub = (Some UnknownDispatch, empty_hub)"
proof -
  have "fst (hub_exec (hub_env 5) (ORunning ''r1'') empty_hub) = Some UnknownDispatch"
    by (simp add: outcome_def markDispatchRunning_def withTransaction_def running_body_def empty_hub_def)
  then show ?thesis
    using failed_operation_traceless [of "hub_env 5" "ORunning ''r1''" empty_hub UnknownDispatch]
    by (cases "hub_exec (hub_env 5) (ORunning ''r1'') empty_hub") simp
qed

lemma example_hub_wf: "outbox_wf example_hub"
  by (simp add: outbox_wf_def example_hub_def empty_hub_def)

definition example_sent :: OutboxRow where
  "example_sent = example_row\<lparr>ob_status := OSent\<rparr>"

theorem sent_reply_final_witness:
  "example_sent \<in> set (hub_outbox (hub_run (example_hub\<lparr>hub_outbox := [example_sent]\<rparr>)
     [(hub_env 2, OMarkSent ''o1''), (hub_env 9, OClaim (Num 5) (Num 1))]))"
  by (rule sent_reply_final) (simp_all add: outbox_wf_def example_sent_def keeps_sent_def example_hub_def)

lemma example_open: "outboxFromRow (hub_env t) h (example_row\<lparr>ob_status := x, ob_attempts := n, ob_next_attempt_at := a, ob_updated_at := u\<rparr>)
   = Inr \<lparr>ox_row = example_row\<lparr>ob_status := x, ob_attempts := n, ob_next_attempt_at := a, ob_updated_at := u\<rparr>, ox_payload = JObj []\<rparr>"
proof -
  have "JSON_parse (stringify (JObj [])) = Some (JObj [])" by (rule JSON_parse_stringify) (simp add: own_order_def)
  moreover from this have "parseEncryptedEnvelope (stringify (JObj [])) = None"
    unfolding parseEncryptedEnvelope_def by simp
  ultimately show ?thesis
    by (simp add: outboxFromRow_def decodeSensitive_def openSensitive_def parsed_def example_row_def del: stringify.simps)
qed

definition example_claimed :: OutboxRow where
  "example_claimed = example_row\<lparr>ob_status := OSending, ob_attempts := 1, ob_next_attempt_at := None, ob_updated_at := 10\<rparr>"

lemma example_claim:
  "claimDueOutbox (hub_env 10) (Num 5) (Num 100) example_hub =
     (Inr [\<lparr>ox_row = example_claimed, ox_payload = JObj []\<rparr>], example_hub\<lparr>hub_outbox := [example_claimed]\<rparr>)"
proof -
  let ?h = "example_hub\<lparr>hub_outbox := [example_claimed]\<rparr>"
  have row: "ob_id example_row = ''o1''" "ob_status example_row = OPending" "ob_next_attempt_at example_row = None"
      "ob_attempts example_row = 0" "ob_id example_claimed = ''o1''"
    by (simp_all add: example_row_def example_claimed_def)
  have due: "due_outbox 10 (10 - 100) 5 example_hub = [example_row]"
    by (simp add: due_outbox_def due_row_def row example_hub_def)
  have "claim_body (hub_env 10) 5 100 example_hub = (map_result (outboxFromRow (hub_env 10) ?h) [example_claimed], ?h)"
    using due unfolding example_claimed_def
    by (simp add: claim_body_def hub_env_def update_outbox_def Let_def row example_hub_def del: map_result.simps)
  then show ?thesis using example_open
    by (simp add: claimDueOutbox_def withTransaction_def example_claimed_def)
qed

theorem claimed_reply_leased_witness:
  "claimDueOutbox (hub_env 60) (Num 5) (Num 100) (hub_run (example_hub\<lparr>hub_outbox := [example_claimed]\<rparr>) []) =
      (Inr [], example_hub\<lparr>hub_outbox := [example_claimed]\<rparr>)
   \<and> ''o1'' \<notin> (\<lambda>y. ob_id (ox_row y)) ` set ([] :: AgentOutboxRecord list)"
proof -
  have again: "claimDueOutbox (hub_env 60) (Num 5) (Num 100) (hub_run (example_hub\<lparr>hub_outbox := [example_claimed]\<rparr>) []) =
      (Inr [], example_hub\<lparr>hub_outbox := [example_claimed]\<rparr>)"
    by (simp add: hub_run_def claimDueOutbox_def withTransaction_def claim_body_def due_outbox_def due_row_def
        update_outbox_def hub_env_def example_claimed_def)
  have "ob_id example_claimed = ''o1''" by (simp add: example_claimed_def example_row_def)
  then show ?thesis
    using claimed_reply_leased [OF example_hub_wf example_claim, where x = "\<lparr>ox_row = example_claimed, ox_payload = JObj []\<rparr>"
        and evs = "[]", OF _ _ again] again
    by (simp add: hub_env_def)
qed

definition example_dispatch :: json where
  "example_dispatch = JObj [(''requestId'', JStr ''r1''), (''topicId'', JStr ''t1''), (''agentId'', JStr ''a'')]"

definition reordered_dispatch :: json where
  "reordered_dispatch = JObj [(''agentId'', JStr ''a''), (''topicId'', JStr ''t1''), (''requestId'', JStr ''r1'')]"

lemma example_dispatch_wf: "json_wf example_dispatch" "json_wf reordered_dispatch"
proof -
  have i: "\<not> is_index ''requestId''" "\<not> is_index ''topicId''" "\<not> is_index ''agentId''"
    by (simp_all add: is_index_def is_digit_def)
  show "json_wf example_dispatch" "json_wf reordered_dispatch"
    by (simp_all add: example_dispatch_def reordered_dispatch_def own_order_def i)
qed

lemma example_required:
  "requiredString (jget example_dispatch ''requestId'') ''requestId'' = Inr ''r1''"
  "requiredString (jget example_dispatch ''topicId'') ''topicId'' = Inr ''t1''"
  "requiredString (jget example_dispatch ''agentId'') ''agentId'' = Inr ''a''"
  "requiredString (jget reordered_dispatch ''requestId'') ''requestId'' = Inr ''r1''"
  "requiredString (jget reordered_dispatch ''topicId'') ''topicId'' = Inr ''t1''"
  "requiredString (jget reordered_dispatch ''agentId'') ''agentId'' = Inr ''a''"
  by (simp_all add: example_dispatch_def reordered_dispatch_def requiredString_def trim_def js_space_def)

lemma example_recorded:
  "\<exists>res h1. recordInboundDispatch (hub_env 1) example_dispatch (empty_hub\<lparr>hub_agentId := ''a''\<rparr>) = (Inr res, h1)
     \<and> \<not> in_duplicate res \<and> in_requestId res = ''r1''"
  by (simp add: recordInboundDispatch_def example_required empty_hub_def withTransaction_def insert_dispatch_def
      appendReceipt_def Let_def)

theorem repeated_dispatch_recognised_witness:
  "\<exists>res h1. recordInboundDispatch (hub_env 1) example_dispatch (empty_hub\<lparr>hub_agentId := ''a''\<rparr>) = (Inr res, h1)
     \<and> fst (recordInboundDispatch (hub_env 2) reordered_dispatch (hub_run h1 [])) = Inr (res\<lparr>in_duplicate := True\<rparr>)"
proof -
  let ?h = "empty_hub\<lparr>hub_agentId := ''a''\<rparr>"
  obtain res h1 where first: "recordInboundDispatch (hub_env 1) example_dispatch ?h = (Inr res, h1)"
      "\<not> in_duplicate res" "in_requestId res = ''r1''"
    using example_recorded by blast
  have same: "same_json example_dispatch reordered_dispatch"
    by (simp add: example_dispatch_def reordered_dispatch_def own_members_def insert_commute)
  have "fst (recordInboundDispatch (hub_env 2) reordered_dispatch (hub_run h1 [])) =
      (if same_json example_dispatch reordered_dispatch then Inr (res\<lparr>in_duplicate := True\<rparr>) else Inl HashConflict)"
    by (rule repeated_dispatch_recognised [OF first(1,2) example_dispatch_wf])
      (simp_all add: hub_env_def plain_crypto_def example_required first(3))
  then show ?thesis using first(1) same by auto
qed

theorem receipts_chained_witness:
  "\<exists>prev. linked prev (of_request ''r1'' (hub_run (empty_hub\<lparr>hub_agentId := ''a''\<rparr>)
     [(hub_env 1, ORecord example_dispatch), (hub_env 2, ORunning ''r1''), (hub_env 3, OPruneReceipts 2)]))"
  using receipts_chained [of plain_crypto "empty_hub\<lparr>hub_agentId := ''a''\<rparr>" 0
      "[(hub_env 1, ORecord example_dispatch), (hub_env 2, ORunning ''r1''), (hub_env 3, OPruneReceipts 2)]" "''r1''"] plain_crypto_laws
  by (simp add: empty_hub_def hub_env_def prunes_receipts_def)

theorem memory_roundtrip_witness:
  "\<exists>w. fst (getMemory (hub_env 9) (trim '' k'') (hub_run (snd (upsertMemory (hub_env 1) '' k'' (JArr [JNum 5]) (Some 100)
      (empty_hub\<lparr>hub_key := Some ''key''\<rparr>))) [(hub_env 4, OPruneCache)])) = Inr (Some w) \<and> w = JArr [JNum 5]"
proof -
  have k: "trim '' k'' = ''k''" by (simp add: trim_def js_space_def)
  have store: "upsertMemory (hub_env 1) '' k'' (JArr [JNum 5]) (Some 100) (empty_hub\<lparr>hub_key := Some ''key''\<rparr>) =
      (Inr (), snd (upsertMemory (hub_env 1) '' k'' (JArr [JNum 5]) (Some 100) (empty_hub\<lparr>hub_key := Some ''key''\<rparr>)))"
    by (simp add: upsertMemory_def upsertMemoryValue_def k Let_def)
  show ?thesis
    using memory_roundtrip [OF store, where ?e2.0 = "hub_env 9" and evs = "[(hub_env 4, OPruneCache)]"] plain_crypto_laws
    by (simp add: hub_env_def empty_hub_def spares_def)
qed

end
