(* ===== verification/Runtimes.thy ===== *)
theory Runtimes
  imports Secrets Paths
begin

text \<open>
  Which agent runtimes there are: the static cards of \<open>src/src/AgentCards.ts\<close>, the chair
  manifests (\<open>runtime/ChairManifest.ts\<close>, \<open>ChairManifestLoader.ts\<close> under
  \<open>src/src/services\<close>), the adapters (\<open>AdapterRegistry.ts\<close>, \<open>builtinAdapters.ts\<close>,
  \<open>CommandAdapter.ts\<close>) and the choice of the specs in \<open>AgentRuntimeSupervisor.ts\<close>. The platform
  is POSIX: the branches for Windows are left out. The lemmas show that neither an elevated
  runtime nor a command that is not on the operator's list is ever started by default.
\<close>

section \<open>Cards and manifests\<close>

record ChairRuntime =
  ct_kind :: string
  ct_supervised :: "bool option"
  ct_command :: "string option"
  ct_args :: "string list option"
  ct_allowEnv :: "string list option"
  ct_elevated :: "bool option"

record ChairManifest =
  mf_id :: string
  mf_name :: string
  mf_provider :: string
  mf_description :: "string option"
  mf_trustTier :: int
  mf_capabilities :: "string list"
  mf_vram :: string
  mf_beaconHint :: "string option"
  mf_portrait :: "string option"
  mf_accentHex :: "string option"
  mf_runtime :: "ChairRuntime option"

record AgentCard =
  card_id :: string
  card_name :: string
  card_provider :: string
  card_description :: string
  card_capabilities :: "string list"
  card_vram :: string
  card_trust :: int
  card_beacon_hint :: "string option"
  card_portrait_url :: "string option"
  card_accent_hex :: "string option"
  card_runtime :: "ChairRuntime option"

text \<open>
  The schemas of the manifest as decoders. A field that is required has to be there with its
  type, an optional one may be missing but not \<open>null\<close>; keys that are not named are dropped.
\<close>

fun strings_of :: "json list \<Rightarrow> string list option" where
  "strings_of [] = Some []"
| "strings_of (JStr s # xs) = map_option (\<lambda>r. s # r) (strings_of xs)"
| "strings_of (_ # xs) = None"

fun z_string :: "json option \<Rightarrow> string option" where
  "z_string (Some (JStr s)) = Some s"
| "z_string _ = None"

fun z_nonempty :: "json option \<Rightarrow> string option" where
  "z_nonempty (Some (JStr s)) = (if s = [] then None else Some s)"
| "z_nonempty _ = None"

fun z_int :: "json option \<Rightarrow> int option" where
  "z_int (Some (JNum n)) = Some n"
| "z_int _ = None"

fun z_bool :: "json option \<Rightarrow> bool option" where
  "z_bool (Some (JBool b)) = Some b"
| "z_bool _ = None"

fun z_strings :: "json option \<Rightarrow> string list option" where
  "z_strings (Some (JArr xs)) = strings_of xs"
| "z_strings _ = None"

definition z_optional :: "(json option \<Rightarrow> 'a option) \<Rightarrow> json option \<Rightarrow> 'a option option" where
  "z_optional f v = (case v of None \<Rightarrow> Some None | Some _ \<Rightarrow> map_option Some (f v))"

definition z_default :: "'a \<Rightarrow> (json option \<Rightarrow> 'a option) \<Rightarrow> json option \<Rightarrow> 'a option" where
  "z_default d f v = (case v of None \<Rightarrow> Some d | Some _ \<Rightarrow> f v)"

fun is_object :: "json \<Rightarrow> bool" where
  "is_object (JObj _) = True"
| "is_object _ = False"

definition ChairRuntimeSchema :: "json option \<Rightarrow> ChairRuntime option" where
  "ChairRuntimeSchema v =
     (case v of
        Some (JObj kvs) \<Rightarrow>
          (case (z_nonempty (jget (JObj kvs) ''kind''), z_optional z_bool (jget (JObj kvs) ''supervised''),
                 z_optional z_string (jget (JObj kvs) ''command''), z_optional z_strings (jget (JObj kvs) ''args''),
                 z_optional z_strings (jget (JObj kvs) ''allowEnv''), z_optional z_bool (jget (JObj kvs) ''elevated'')) of
             (Some kind, Some supervised, Some command, Some args, Some allowEnv, Some elevated) \<Rightarrow>
               Some \<lparr>ct_kind = kind, ct_supervised = supervised, ct_command = command, ct_args = args,
                 ct_allowEnv = allowEnv, ct_elevated = elevated\<rparr>
           | _ \<Rightarrow> None)
      | _ \<Rightarrow> None)"

definition ChairManifestSchema :: "json \<Rightarrow> ChairManifest option" where
  "ChairManifestSchema v =
     (if \<not> is_object v then None
      else case (z_nonempty (jget v ''id''), z_nonempty (jget v ''name''), z_nonempty (jget v ''provider''),
                 z_optional z_string (jget v ''description''), z_int (jget v ''trustTier''),
                 z_default [] z_strings (jget v ''capabilities''), z_default ''unknown'' z_string (jget v ''vram''),
                 z_optional z_string (jget v ''beaconHint''), z_optional z_string (jget v ''portrait''),
                 z_optional z_string (jget v ''accentHex''), z_optional ChairRuntimeSchema (jget v ''runtime'')) of
        (Some i, Some n, Some p, Some d, Some t, Some c, Some r, Some b, Some q, Some a, Some rt) \<Rightarrow>
          Some \<lparr>mf_id = i, mf_name = n, mf_provider = p, mf_description = d, mf_trustTier = t,
            mf_capabilities = c, mf_vram = r, mf_beaconHint = b, mf_portrait = q, mf_accentHex = a, mf_runtime = rt\<rparr>
      | _ \<Rightarrow> None)"

text \<open>\<open>issues\<close> is the text zod has for a refused input.\<close>

definition parseManifest :: "(json \<Rightarrow> string) \<Rightarrow> json \<Rightarrow> string + ChairManifest" where
  "parseManifest issues input = (case ChairManifestSchema input of Some m \<Rightarrow> Inr m | None \<Rightarrow> Inl (issues input))"

definition manifestToCard :: "ChairManifest \<Rightarrow> AgentCard" where
  "manifestToCard m =
     \<lparr>card_id = mf_id m, card_name = mf_name m, card_provider = mf_provider m,
      card_description = case_option [] id (mf_description m), card_capabilities = mf_capabilities m,
      card_vram = mf_vram m, card_trust = mf_trustTier m, card_beacon_hint = mf_beaconHint m,
      card_portrait_url = map_option (\<lambda>p. ''/agents/'' @ p) (mf_portrait m),
      card_accent_hex = mf_accentHex m, card_runtime = mf_runtime m\<rparr>"

datatype ManifestSource = Manifests | Fallback

record ManifestLoadResult =
  ml_source :: ManifestSource
  ml_cards :: "AgentCard list"
  ml_manifests :: "ChairManifest list"
  ml_errors :: "string list"

text \<open>
  A file is its name and what reading and parsing it gives: the message of the exception or
  the value. \<open>dir\<close> is \<open>None\<close> when the directory does not exist.
\<close>

fun load_files :: "(json \<Rightarrow> string) \<Rightarrow> (string \<times> (string + json)) list \<Rightarrow> ChairManifest list \<times> string list" where
  "load_files issues [] = ([], [])"
| "load_files issues ((f, content) # fs) =
     (let (ms, errs) = load_files issues fs in
      case content of
        Inl message \<Rightarrow> (ms, (f @ '': '' @ message) # errs)
      | Inr raw \<Rightarrow>
          (case parseManifest issues raw of
             Inr m \<Rightarrow> (m # ms, errs)
           | Inl e \<Rightarrow> (ms, (f @ '': '' @ e) # errs)))"

definition loadChairManifests ::
    "(json \<Rightarrow> string) \<Rightarrow> (string, AgentCard) omap \<Rightarrow> (string \<times> (string + json)) list option \<Rightarrow> ManifestLoadResult" where
  "loadChairManifests issues static_cards dir =
     (let (manifests, errors) =
            (case dir of None \<Rightarrow> ([], []) | Some files \<Rightarrow> load_files issues (filter (\<lambda>(f, _). ends_with ''.json'' f) files))
      in if manifests \<noteq> [] then
           \<lparr>ml_source = Manifests, ml_cards = map manifestToCard manifests, ml_manifests = manifests, ml_errors = errors\<rparr>
         else \<lparr>ml_source = Fallback, ml_cards = om_values static_cards, ml_manifests = [], ml_errors = errors\<rparr>)"

section \<open>The static cards\<close>

text \<open>
  A character above 255 of a text is written as its UTF-8 bytes; no operation looks at them.
\<close>

definition AgentCards :: "(string, AgentCard) omap" where
  "AgentCards = [
     (''nyx-antigravity'', \<lparr>card_id = ''nyx-antigravity'', card_name = ''Nyx-Antigravity'',
        card_provider = ''Google '' @ [CHR 0xB7] @ '' Gemini 3 Pro (Antigravity IDE)'',
        card_description = ''Primary supervisor agent. Full MCP orchestration plus creative suite. Runs inside the Antigravity IDE workspace.'',
        card_capabilities = [''comfyui'', ''blender'', ''browser'', ''desktop''],
        card_vram = ''32GB (RTX 5090)'', card_trust = 1,
        card_beacon_hint = Some (''Workspace startup hook '' @ [CHR 0xE2, CHR 0x86, CHR 0x92] @ '' curl /api/v1/chairs/claim''),
        card_portrait_url = Some ''/agents/nyx-antigravity.png'', card_accent_hex = Some ''#d97706'', card_runtime = None\<rparr>),
     (''nyx-claude-code'', \<lparr>card_id = ''nyx-claude-code'', card_name = ''Nyx-Claude-Code'',
        card_provider = ''Anthropic '' @ [CHR 0xB7] @ '' Claude Code CLI'',
        card_description = ''Sovereign-tier code reasoner. Sandboxed by the Claude Code harness; pipes architecture decisions, reviews, and large refactors.'',
        card_capabilities = [''filesystem'', ''git'', ''bash'', ''web-fetch'', ''agents''],
        card_vram = ''0GB (cloud)'', card_trust = 1,
        card_beacon_hint = Some (''One-shot Bash curl on session start; release on /exit''),
        card_portrait_url = Some ''/agents/nyx-claude-code.png'', card_accent_hex = Some ''#c2410c'', card_runtime = None\<rparr>),
     (''nyx-cli'', \<lparr>card_id = ''nyx-cli'', card_name = ''Nyx-CLI'',
        card_provider = ''Anthropic '' @ [CHR 0xB7] @ '' Gemini CLI (legacy alias)'',
        card_description = ''Lightweight CLI agent for code analysis and terminal ops. Acts as the fallback architect when Shaev is gated by VRAM or rate-limits.'',
        card_capabilities = [''terminal'', ''filesystem'', ''git'', ''recursive-memory''],
        card_vram = ''8GB'', card_trust = 1,
        card_beacon_hint = Some (''kovael-chair wrapper around CLI invocation''),
        card_portrait_url = Some ''/agents/nyx-cli.png'', card_accent_hex = Some ''#0891b2'', card_runtime = None\<rparr>),
     (''nyx-agcli'', \<lparr>card_id = ''nyx-agcli'', card_name = ''Nyx-AGCLI'',
        card_provider = ''Google '' @ [CHR 0xB7] @ '' Antigravity CLI'',
        card_description = ''Headless companion to the Antigravity IDE '' @ [CHR 0xE2, CHR 0x80, CHR 0x94] @ '' long-running tasks dispatched from the cockpit when the IDE is idle.'',
        card_capabilities = [''terminal'', ''filesystem'', ''git'', ''browser''],
        card_vram = ''0GB (cloud)'', card_trust = 1,
        card_beacon_hint = Some (''Session-start hook in .agcli/init''),
        card_portrait_url = Some ''/agents/nyx-agcli.png'', card_accent_hex = Some ''#0284c7'', card_runtime = None\<rparr>),
     (''nyx-adk'', \<lparr>card_id = ''nyx-adk'', card_name = ''Nyx-ADK'',
        card_provider = ''Google '' @ [CHR 0xB7] @ '' Agent Development Kit (Python)'',
        card_description = ''Multi-agent framework runtime. Hosts ADK-defined sub-agents; reports collective heartbeat as one chair.'',
        card_capabilities = [''python'', ''google-cloud'', ''tool-use'', ''function-calling''],
        card_vram = ''0GB (cloud)'', card_trust = 2,
        card_beacon_hint = Some (''scripts/kovael_chair.py imported as an ADK tool''),
        card_portrait_url = Some ''/agents/nyx-adk.png'', card_accent_hex = Some ''#4f46e5'', card_runtime = None\<rparr>),
     (''nyx-codex'', \<lparr>card_id = ''nyx-codex'', card_name = ''Nyx-Codex'',
        card_provider = ''OpenAI '' @ [CHR 0xB7] @ '' Codex CLI'',
        card_description = ''Standard-sandbox Codex CLI. Used for narrow code edits and quick repo questions where elevated permissions are not required.'',
        card_capabilities = [''filesystem'', ''git'', ''shell''],
        card_vram = ''0GB (cloud)'', card_trust = 2,
        card_beacon_hint = Some (''Post-exec hook calls scripts/kovael-chair.mjs''),
        card_portrait_url = Some ''/agents/nyx-codex.png'', card_accent_hex = Some ''#7c3aed'', card_runtime = None\<rparr>),
     (''nyx-openclaw'', \<lparr>card_id = ''nyx-openclaw'', card_name = ''Nyx-OpenClaw'',
        card_provider = ''OpenAI '' @ [CHR 0xB7] @ '' Codex (elevated sandbox)'',
        card_description = ''Elevated-permission Codex variant for game development, rapid prototyping, and approved network egress tasks.'',
        card_capabilities = [''sandbox-execution'', ''game-dev-pack'', ''network-egress''],
        card_vram = ''16GB'', card_trust = 2,
        card_beacon_hint = Some (''Sandbox boot script claims chair, releases on container exit''),
        card_portrait_url = Some ''/agents/nyx-openclaw.png'', card_accent_hex = Some ''#9333ea'', card_runtime = None\<rparr>),
     (''nyx-cw'', \<lparr>card_id = ''nyx-cw'', card_name = ''Nyx-Cowork'',
        card_provider = ''JetBrains '' @ [CHR 0xB7] @ '' Junie / Cowork plugin'',
        card_description = ''IDE-resident pair-programmer inside JetBrains tooling. Heartbeats while a workspace is open.'',
        card_capabilities = [''filesystem'', ''git'', ''refactoring'', ''inspections''],
        card_vram = ''0GB (cloud)'', card_trust = 2,
        card_beacon_hint = Some (''IDE startup script invokes kovael-chair on workspace open''),
        card_portrait_url = Some ''/agents/nyx-cw.png'', card_accent_hex = Some ''#ea580c'', card_runtime = None\<rparr>),
     (''shaev'', \<lparr>card_id = ''shaev'', card_name = ''Shaev (in Hermes)'',
        card_provider = ''VantagePoint Local '' @ [CHR 0xB7] @ '' Hermes 3'',
        card_description = ''Visual synthesis and identity specialist. Primary architect when VRAM headroom permits. Runs inside the Hermes local agent runtime on the workstation.'',
        card_capabilities = [''visual-synthesis'', ''identity-lock'', ''lora-training''],
        card_vram = ''24GB'', card_trust = 3,
        card_beacon_hint = Some (''Hermes pre-turn tool call hits chairs/heartbeat''),
        card_portrait_url = Some ''/agents/shaev.png'', card_accent_hex = Some ''#059669'', card_runtime = None\<rparr>)]"

section \<open>Adapters\<close>

record AgentRuntimeSpec =
  sp_agentId :: string
  sp_provider :: string
  sp_runtime :: string
  sp_capabilities :: "string list option"
  sp_trustTier :: "int option"
  sp_cwd :: "string option"
  sp_model :: "string option"
  sp_enabled :: "bool option"
  sp_command :: "string option"
  sp_args :: "string list option"
  sp_allowEnv :: "string list option"

datatype SandboxMode = ReadOnly | DangerFullAccess

datatype PermissionMode = DontAsk

record RuntimePolicy =
  po_sandboxMode :: "SandboxMode option"
  po_permissionMode :: "PermissionMode option"
  po_allowedTools :: "string list option"
  po_sessionPersistence :: "bool option"

record RuntimeAdapter =
  ra_kind :: string
  ra_supervised :: bool
  ra_buildSpec :: "AgentCard \<Rightarrow> AgentRuntimeSpec"
  ra_policy :: RuntimePolicy
  ra_resolveExecutable :: "penv \<Rightarrow> string"

type_synonym AdapterRegistry = "(string, RuntimeAdapter) omap"

definition registry_register :: "RuntimeAdapter \<Rightarrow> AdapterRegistry \<Rightarrow> AdapterRegistry" where
  "registry_register a reg = om_set (ra_kind a) a reg"

definition registry_resolve :: "AdapterRegistry \<Rightarrow> string \<Rightarrow> RuntimeAdapter option" where
  "registry_resolve reg kind = om_get reg kind"

definition registry_kinds :: "AdapterRegistry \<Rightarrow> string list" where
  "registry_kinds reg = om_keys reg"

definition specFrom :: "AgentCard \<Rightarrow> string \<Rightarrow> AgentRuntimeSpec" where
  "specFrom ac runtime =
     \<lparr>sp_agentId = card_id ac, sp_provider = card_provider ac, sp_runtime = runtime,
      sp_capabilities = Some (card_capabilities ac), sp_trustTier = Some (card_trust ac),
      sp_cwd = None, sp_model = None, sp_enabled = None, sp_command = None, sp_args = None, sp_allowEnv = None\<rparr>"

definition codex_executable :: "penv \<Rightarrow> string" where
  "codex_executable env = (if truthy_str (env ''KOVAEL_CODEX_BIN'') then the (env ''KOVAEL_CODEX_BIN'') else ''codex'')"

definition codexAdapter :: RuntimeAdapter where
  "codexAdapter =
     \<lparr>ra_kind = ''codex'', ra_supervised = True, ra_buildSpec = \<lambda>ac. specFrom ac ''codex'',
      ra_policy = \<lparr>po_sandboxMode = Some ReadOnly, po_permissionMode = None, po_allowedTools = None, po_sessionPersistence = None\<rparr>,
      ra_resolveExecutable = codex_executable\<rparr>"

definition openclawAdapter :: RuntimeAdapter where
  "openclawAdapter =
     \<lparr>ra_kind = ''codex-openclaw'', ra_supervised = True, ra_buildSpec = \<lambda>ac. specFrom ac ''codex-openclaw'',
      ra_policy = \<lparr>po_sandboxMode = Some DangerFullAccess, po_permissionMode = None, po_allowedTools = None, po_sessionPersistence = None\<rparr>,
      ra_resolveExecutable = codex_executable\<rparr>"

definition restricted_policy :: RuntimePolicy where
  "restricted_policy = \<lparr>po_sandboxMode = None, po_permissionMode = Some DontAsk, po_allowedTools = Some [],
     po_sessionPersistence = Some False\<rparr>"

definition shaevAdapter :: RuntimeAdapter where
  "shaevAdapter =
     \<lparr>ra_kind = ''claude-shaev'', ra_supervised = True, ra_buildSpec = \<lambda>ac. specFrom ac ''claude-shaev'',
      ra_policy = restricted_policy,
      ra_resolveExecutable = \<lambda>env. if truthy_str (env ''KOVAEL_CLAUDE_BIN'') then the (env ''KOVAEL_CLAUDE_BIN'') else ''claude''\<rparr>"

definition COMMAND_ADAPTER_ALLOW_ENV :: string where
  "COMMAND_ADAPTER_ALLOW_ENV = ''KOVAEL_COMMAND_ADAPTER_ALLOW''"

definition COMMAND_ENV_DENYLIST :: "string list" where
  "COMMAND_ENV_DENYLIST = [''KOVAEL_AGENT_HUB_SECRET'', ''KOVAEL_CHAIR_DISPATCH_SECRET'', ''KOVAEL_API_TOKEN'',
     ''KOVAEL_TOKEN'', ''KOVAEL_AGENT_HUB_ENCRYPTION'']"

definition isDeniedCommandEnvName :: "string \<Rightarrow> bool" where
  "isDeniedCommandEnvName name \<longleftrightarrow> toUpperCase name \<in> set COMMAND_ENV_DENYLIST"

text \<open>\<open>value.split(',').map(trim).filter(Boolean)\<close>.\<close>

definition csv :: "string \<Rightarrow> string list" where
  "csv v = filter (\<lambda>s. s \<noteq> []) (map trim (split_at CHR '','' v))"

definition parseCommandAllowList :: "penv \<Rightarrow> string list" where
  "parseCommandAllowList env = csv (case_option [] id (env COMMAND_ADAPTER_ALLOW_ENV))"

definition isCommandAllowed :: "string option \<Rightarrow> penv \<Rightarrow> bool" where
  "isCommandAllowed command env = (truthy_str command \<and> the command \<in> set (parseCommandAllowList env))"

definition commandAdapter :: RuntimeAdapter where
  "commandAdapter =
     \<lparr>ra_kind = ''command'', ra_supervised = True,
      ra_buildSpec = \<lambda>ac. (specFrom ac ''command'')
        \<lparr>sp_command := Option.bind (card_runtime ac) ct_command, sp_args := Option.bind (card_runtime ac) ct_args,
         sp_allowEnv := Option.bind (card_runtime ac) ct_allowEnv\<rparr>,
      ra_policy = restricted_policy, ra_resolveExecutable = \<lambda>_. ''command''\<rparr>"

definition BUILTIN_ADAPTERS :: "RuntimeAdapter list" where
  "BUILTIN_ADAPTERS = [codexAdapter, openclawAdapter, shaevAdapter]"

definition defaultRuntimeRegistry :: AdapterRegistry where
  "defaultRuntimeRegistry = registry_register commandAdapter (foldl (\<lambda>reg a. registry_register a reg) [] BUILTIN_ADAPTERS)"

section \<open>Which runtimes there are\<close>

definition BUILTIN_AGENT_KINDS :: "(string, string) omap" where
  "BUILTIN_AGENT_KINDS = [(''shaev'', ''claude-shaev''), (''nyx-codex'', ''codex''), (''nyx-openclaw'', ''codex-openclaw'')]"

definition DEFAULT_AGENT_IDS :: "string list" where
  "DEFAULT_AGENT_IDS = [''shaev'', ''nyx-codex'']"

definition parseAgentIds :: "string option \<Rightarrow> string list" where
  "parseAgentIds v = (if \<not> truthy_str (map_option trim v) then DEFAULT_AGENT_IDS else csv (the v))"

definition spec_for :: "(string, AgentCard) omap \<Rightarrow> (string, AgentCard) omap \<Rightarrow> bool \<Rightarrow> penv \<Rightarrow> string \<Rightarrow> AgentRuntimeSpec option" where
  "spec_for cardById static_cards enableElevated env i =
     (case (case om_get cardById i of Some c \<Rightarrow> Some c | None \<Rightarrow> om_get static_cards i) of
        None \<Rightarrow> None
      | Some ac \<Rightarrow>
          if Option.bind (card_runtime ac) ct_supervised = Some False then None
          else
            let kind = (case card_runtime ac of Some rt \<Rightarrow> Some (ct_kind rt) | None \<Rightarrow> om_get BUILTIN_AGENT_KINDS i) in
            (case (if truthy_str kind then registry_resolve defaultRuntimeRegistry (the kind) else None) of
               None \<Rightarrow> None
             | Some adapter \<Rightarrow>
                 if \<not> ra_supervised adapter then None
                 else
                   let elevated = (po_sandboxMode (ra_policy adapter) = Some DangerFullAccess
                                   \<or> Option.bind (card_runtime ac) ct_elevated = Some True) in
                   if elevated \<and> \<not> enableElevated then None
                   else
                     let spec = ra_buildSpec adapter ac in
                     if sp_runtime spec = ''command'' \<and> \<not> isCommandAllowed (sp_command spec) env
                     then Some (spec\<lparr>sp_enabled := Some False\<rparr>) else Some spec))"

definition cards_by_id :: "AgentCard list \<Rightarrow> (string, AgentCard) omap" where
  "cards_by_id cards = foldl (\<lambda>m c. om_set (card_id c) c m) [] cards"

definition defaultAgentRuntimeSpecs ::
    "(string, AgentCard) omap \<Rightarrow> ManifestLoadResult \<Rightarrow> string list \<Rightarrow> bool \<Rightarrow> penv \<Rightarrow> AgentRuntimeSpec list" where
  "defaultAgentRuntimeSpecs static_cards loaded ids enableElevated env =
     List.map_filter (spec_for (cards_by_id (ml_cards loaded)) static_cards enableElevated env) ids"

section \<open>What is started by default\<close>

lemma resolve_default:
  "registry_resolve defaultRuntimeRegistry k =
     (if k = ''codex'' then Some codexAdapter else if k = ''codex-openclaw'' then Some openclawAdapter
      else if k = ''claude-shaev'' then Some shaevAdapter else if k = ''command'' then Some commandAdapter else None)"
  by (simp add: registry_resolve_def defaultRuntimeRegistry_def registry_register_def BUILTIN_ADAPTERS_def
      codexAdapter_def openclawAdapter_def shaevAdapter_def commandAdapter_def)

lemma adapter_kinds:
  assumes "registry_resolve defaultRuntimeRegistry k = Some a"
  shows "sp_runtime (ra_buildSpec a c) = k \<and> sp_agentId (ra_buildSpec a c) = card_id c"
  using assms unfolding resolve_default
  by (auto simp: codexAdapter_def openclawAdapter_def shaevAdapter_def commandAdapter_def specFrom_def split: if_splits)

text \<open>The card a spec is built from.\<close>

definition card_for :: "(string, AgentCard) omap \<Rightarrow> ManifestLoadResult \<Rightarrow> string \<Rightarrow> AgentCard option" where
  "card_for static_cards loaded i =
     (case om_get (cards_by_id (ml_cards loaded)) i of Some c \<Rightarrow> Some c | None \<Rightarrow> om_get static_cards i)"

lemma spec_for_Some:
  assumes "spec_for (cards_by_id (ml_cards loaded)) static_cards elev env i = Some spec"
  obtains c a where "card_for static_cards loaded i = Some c"
    and "registry_resolve defaultRuntimeRegistry (sp_runtime spec) = Some a"
    and "Option.bind (card_runtime c) ct_supervised \<noteq> Some False"
    and "elev \<or> (po_sandboxMode (ra_policy a) \<noteq> Some DangerFullAccess \<and> Option.bind (card_runtime c) ct_elevated \<noteq> Some True)"
    and "sp_enabled spec = Some False \<or> sp_runtime spec \<noteq> ''command'' \<or> isCommandAllowed (sp_command spec) env"
proof -
  obtain c where c: "card_for static_cards loaded i = Some c"
    using assms by (auto simp: spec_for_def card_for_def split: option.splits)
  define kind where "kind = (case card_runtime c of Some rt \<Rightarrow> Some (ct_kind rt) | None \<Rightarrow> om_get BUILTIN_AGENT_KINDS i)"
  have s: "Option.bind (card_runtime c) ct_supervised \<noteq> Some False"
    using assms c unfolding spec_for_def card_for_def by (auto split: option.splits)
  have body: "(case (if truthy_str kind then registry_resolve defaultRuntimeRegistry (the kind) else None) of
               None \<Rightarrow> None
             | Some adapter \<Rightarrow>
                 if \<not> ra_supervised adapter then None
                 else if (po_sandboxMode (ra_policy adapter) = Some DangerFullAccess
                          \<or> Option.bind (card_runtime c) ct_elevated = Some True) \<and> \<not> elev then None
                 else if sp_runtime (ra_buildSpec adapter c) = ''command'' \<and> \<not> isCommandAllowed (sp_command (ra_buildSpec adapter c)) env
                 then Some ((ra_buildSpec adapter c)\<lparr>sp_enabled := Some False\<rparr>) else Some (ra_buildSpec adapter c)) = Some spec"
    using assms s unfolding spec_for_def card_for_def [symmetric] c option.case Let_def kind_def [symmetric] by simp
  then obtain a where a: "registry_resolve defaultRuntimeRegistry (the kind) = Some a" "truthy_str kind"
    by (auto split: option.splits if_splits)
  have spec: "spec = (if sp_runtime (ra_buildSpec a c) = ''command'' \<and> \<not> isCommandAllowed (sp_command (ra_buildSpec a c)) env
      then (ra_buildSpec a c)\<lparr>sp_enabled := Some False\<rparr> else ra_buildSpec a c)"
    and e: "elev \<or> (po_sandboxMode (ra_policy a) \<noteq> Some DangerFullAccess \<and> Option.bind (card_runtime c) ct_elevated \<noteq> Some True)"
    using body a by (auto split: if_splits)
  have "registry_resolve defaultRuntimeRegistry (sp_runtime spec) = Some a"
    using spec adapter_kinds [OF a(1)] a(1) by auto
  moreover have "sp_enabled spec = Some False \<or> sp_runtime spec \<noteq> ''command'' \<or> isCommandAllowed (sp_command spec) env"
    using spec by auto
  ultimately show thesis using that c s e by blast
qed

text \<open>C17: without the operator's switch no runtime is offered whose adapter has full access or whose
  card asks for it, whatever kind a manifest names; and a command runtime that is not on the
  allow-list is offered only disabled.\<close>

theorem elevated_needs_optin:
  assumes "spec \<in> set (defaultAgentRuntimeSpecs static_cards loaded ids elev env)"
  shows "\<exists>i\<in>set ids. \<exists>c a. card_for static_cards loaded i = Some c
      \<and> registry_resolve defaultRuntimeRegistry (sp_runtime spec) = Some a
      \<and> (elev \<or> (po_sandboxMode (ra_policy a) \<noteq> Some DangerFullAccess \<and> Option.bind (card_runtime c) ct_elevated \<noteq> Some True))
      \<and> (sp_enabled spec = Some False \<or> sp_runtime spec \<noteq> ''command'' \<or> isCommandAllowed (sp_command spec) env)"
proof -
  obtain i where i: "i \<in> set ids" "spec_for (cards_by_id (ml_cards loaded)) static_cards elev env i = Some spec"
    using assms unfolding defaultAgentRuntimeSpecs_def List.map_filter_def by auto
  show ?thesis by (rule spec_for_Some [OF i(2)]) (use i(1) in blast)
qed

text \<open>A manifest that aliases the elevated runtime.\<close>

definition aliased_card :: AgentCard where
  "aliased_card = \<lparr>card_id = ''shaev'', card_name = [], card_provider = ''p'', card_description = [], card_capabilities = [],
     card_vram = [], card_trust = 1, card_beacon_hint = None, card_portrait_url = None, card_accent_hex = None,
     card_runtime = Some \<lparr>ct_kind = ''codex-openclaw'', ct_supervised = None, ct_command = None, ct_args = None,
       ct_allowEnv = None, ct_elevated = None\<rparr>\<rparr>"

definition aliased :: ManifestLoadResult where
  "aliased = \<lparr>ml_source = Manifests, ml_cards = [aliased_card], ml_manifests = [], ml_errors = []\<rparr>"

theorem elevated_needs_optin_witness:
  "defaultAgentRuntimeSpecs [] aliased [''shaev''] False (\<lambda>_. None) = []
   \<and> (\<exists>i c a. card_for [] aliased i = Some c \<and> registry_resolve defaultRuntimeRegistry ''codex-openclaw'' = Some a)"
proof -
  have "specFrom aliased_card ''codex-openclaw'' \<in> set (defaultAgentRuntimeSpecs [] aliased [''shaev''] True (\<lambda>_. None))"
    by (simp add: defaultAgentRuntimeSpecs_def List.map_filter_def spec_for_def aliased_def cards_by_id_def aliased_card_def
        resolve_default openclawAdapter_def specFrom_def)
  from elevated_needs_optin [OF this] have "\<exists>i c a. card_for [] aliased i = Some c
      \<and> registry_resolve defaultRuntimeRegistry ''codex-openclaw'' = Some a" by (auto simp: specFrom_def)
  moreover have "defaultAgentRuntimeSpecs [] aliased [''shaev''] False (\<lambda>_. None) = []"
    by (simp add: defaultAgentRuntimeSpecs_def List.map_filter_def spec_for_def aliased_def cards_by_id_def aliased_card_def
        resolve_default openclawAdapter_def)
  ultimately show ?thesis by blast
qed

end
