(* ===== verification/Supervisor.thy ===== *)
theory Supervisor
  imports HubLaws Runtimes
begin

text \<open>
  \<open>src/src/services/AgentRuntimeSupervisor.ts\<close>: the processes behind the chairs, one record per
  agent. A child process is the number of the call that spawned it; what \<open>spawn\<close> answers,
  what a child emits while a signal is sent to it, the hub files and the file system are
  arguments. What lives outside the records (the calls of \<open>spawn\<close>, the listeners on the
  children, the signals sent, the timers of detached children) is the record \<open>Processes\<close>.
  A timer may fire once its time has come.
\<close>

section \<open>State\<close>

datatype LifecycleState = SDisabled | SStopped | SStarting | SRunning | SStopping | SExited | SFailed

datatype DesiredState = WantRunning | WantStopped

datatype Signal = SIGTERM | SIGKILL

datatype ChildEvent = ChildExit "int option" "string option" | ChildError string

datatype ControlAction = CStart | CStop | CRestart

datatype ControlError = RuntimeDisabled | UnknownRuntime | RuntimeBusy | HubEncryptionRequired | UnsafeHubDir

record ManagedRuntime =
  mg_child :: nat
  mg_pid :: "int option"
  mg_generation :: nat

record StopTimer =
  st_child :: nat
  st_generation :: nat
  st_due :: int
  st_fired :: bool

record RuntimeRecord =
  rr_spec :: AgentRuntimeSpec
  rr_hubPath :: string
  rr_desired :: DesiredState
  rr_state :: LifecycleState
  rr_managed :: "ManagedRuntime option"
  rr_generation :: nat
  rr_startedAt :: "int option"
  rr_stoppingAt :: "int option"
  rr_exitedAt :: "int option"
  rr_exitCode :: "int option"
  rr_exitSignal :: "string option"
  rr_lastError :: "string option"
  rr_lastReason :: "string option"
  rr_stopTimer :: "StopTimer option"

record SpawnCall =
  sc_command :: string
  sc_args :: "string list"
  sc_cwd :: string
  sc_env :: "(string, string) omap"

record Processes =
  ps_calls :: "SpawnCall list"
  ps_listeners :: "(nat, string \<times> nat) omap"
  ps_signals :: "(nat \<times> Signal) list"
  ps_detached :: "(nat, int) omap"

record Supervisor =
  sv_enabled :: bool
  sv_parkOnIdle :: bool
  sv_cwd :: string
  sv_hubDir :: string
  sv_nodeBin :: string
  sv_scriptPath :: string
  sv_host :: "string option"
  sv_agents :: "AgentRuntimeSpec list"
  sv_env :: penv
  sv_encryption :: bool
  sv_blocker :: "(ControlError \<times> string) option"
  sv_records :: "(string, RuntimeRecord) omap"
  sv_port :: "int option"
  sv_procs :: Processes

text \<open>
  A hub file as the supervisor reads it: not there, not readable, or the tables it has.
\<close>

record HubTables =
  ht_meta :: "(string, string) omap option"
  ht_dispatches :: "AgentDispatchStatus list option"
  ht_memories :: "nat option"

datatype HubFile = HubMissing | HubBroken string | HubOpened HubTables

definition hub_tables :: "AgentHub \<Rightarrow> HubTables" where
  "hub_tables h = \<lparr>ht_meta = Some (hub_meta h), ht_dispatches = Some (map dr_status (om_values (hub_dispatches h))),
     ht_memories = Some (length (hub_memory h))\<rparr>"

record SupEnv =
  se_now :: int
  se_penv :: penv
  se_here :: string
  se_home :: string
  se_fs :: FileSystem
  se_hub :: "string \<Rightarrow> HubFile"
  se_spawn :: "nat \<Rightarrow> string + int option"
  se_kill :: "nat \<Rightarrow> Signal \<Rightarrow> ChildEvent option"

section \<open>Configuration\<close>

record SupervisorConfig =
  cf_enabled :: "bool option"
  cf_parkOnIdle :: "bool option"
  cf_cwd :: "string option"
  cf_hubDir :: "string option"
  cf_nodeBin :: "string option"
  cf_scriptPath :: "string option"
  cf_host :: "string option"
  cf_agents :: "AgentRuntimeSpec list option"
  cf_env :: "penv option"

record Process =
  pr_cwd :: string
  pr_env :: penv
  pr_execPath :: string
  pr_home :: string

definition new_record :: "bool \<Rightarrow> string \<Rightarrow> AgentRuntimeSpec \<Rightarrow> RuntimeRecord" where
  "new_record enabled hubPath spec =
     \<lparr>rr_spec = spec, rr_hubPath = hubPath, rr_desired = (if enabled then WantRunning else WantStopped),
      rr_state = (if enabled then SStopped else SDisabled), rr_managed = None, rr_generation = 0,
      rr_startedAt = None, rr_stoppingAt = None, rr_exitedAt = None, rr_exitCode = None, rr_exitSignal = None,
      rr_lastError = None, rr_lastReason = None, rr_stopTimer = None\<rparr>"

definition hubPathFor :: "string \<Rightarrow> string \<Rightarrow> string" where
  "hubPathFor hubDir agentId = path_joins [hubDir, safePathSegment agentId, ''agent-hub.sqlite'']"

definition no_processes :: Processes where
  "no_processes = \<lparr>ps_calls = [], ps_listeners = [], ps_signals = [], ps_detached = []\<rparr>"

definition SECRET_MESSAGE :: string where
  "SECRET_MESSAGE = AGENT_HUB_SECRET_ENV @ '' must be at least 32 characters for managed runtimes''"

text \<open>\<open>default_specs\<close> is what \<open>defaultAgentRuntimeSpecs()\<close> gives when no agents are configured.\<close>

definition new_AgentRuntimeSupervisor :: "Process \<Rightarrow> AgentRuntimeSpec list \<Rightarrow> SupervisorConfig \<Rightarrow> Supervisor" where
  "new_AgentRuntimeSupervisor pr default_specs cfg =
     (let enabled = case_option False id (cf_enabled cfg);
          cwd = case_option (pr_cwd pr) id (cf_cwd cfg);
          env = case_option (pr_env pr) id (cf_env cfg);
          hubDir = case_option (defaultAgentHubDir (pr_home pr) env) id (cf_hubDir cfg);
          agents = filter (\<lambda>a. sp_enabled a \<noteq> Some False) (case_option default_specs id (cf_agents cfg));
          encryption = (enabled \<or> isHubEncryptionRequired env);
          blocker = (case validateLocalSqlitePath (pr_cwd pr) (path_joins [hubDir, ''probe.sqlite'']) of
                       Some reason \<Rightarrow> Some (UnsafeHubDir, reason)
                     | None \<Rightarrow> if encryption \<and> \<not> isValidAgentHubSecret (env AGENT_HUB_SECRET_ENV)
                               then Some (HubEncryptionRequired, SECRET_MESSAGE) else None)
      in \<lparr>sv_enabled = enabled, sv_parkOnIdle = case_option True id (cf_parkOnIdle cfg), sv_cwd = cwd, sv_hubDir = hubDir,
          sv_nodeBin = case_option (pr_execPath pr) id (cf_nodeBin cfg),
          sv_scriptPath = case_option (path_joins [cwd, ''scripts'', ''kovael-agent-inbox.mjs'']) id (cf_scriptPath cfg),
          sv_host = cf_host cfg, sv_agents = agents, sv_env = env, sv_encryption = encryption, sv_blocker = blocker,
          sv_records = foldl (\<lambda>m spec. om_set (sp_agentId spec)
            (new_record enabled (hubPathFor hubDir (sp_agentId spec)) spec) m) [] agents,
          sv_port = None, sv_procs = no_processes\<rparr>)"

definition nonempty :: "string option \<Rightarrow> string option" where
  "nonempty v = (if truthy_str v then v else None)"

text \<open>\<open>dir\<close> is the content of the directory of the manifests.\<close>

definition supervisor_fromEnvironment ::
    "Process \<Rightarrow> (json \<Rightarrow> string) \<Rightarrow> (string \<times> (string + json)) list option \<Rightarrow> penv \<Rightarrow> string \<Rightarrow> Supervisor" where
  "supervisor_fromEnvironment pr issues dir env cwd =
     (let ids = parseAgentIds (env ''KOVAEL_AGENT_RUNTIME_IDS'');
          enableElevated = readBoolean (env ''KOVAEL_ENABLE_ELEVATED_RUNTIMES'') False;
          agents = defaultAgentRuntimeSpecs AgentCards (loadChairManifests issues AgentCards dir) ids enableElevated env
      in new_AgentRuntimeSupervisor pr []
           \<lparr>cf_enabled = Some (readBoolean (env ''KOVAEL_AGENT_RUNTIMES_ENABLED'') False),
            cf_parkOnIdle = Some (readBoolean (env ''KOVAEL_AGENT_RUNTIMES_PARK_ON_IDLE'') True),
            cf_cwd = Some cwd, cf_hubDir = nonempty (env ''KOVAEL_AGENT_HUB_DIR''), cf_nodeBin = None, cf_scriptPath = None,
            cf_host = nonempty (env ''KOVAEL_HOST''), cf_agents = Some agents, cf_env = Some env\<rparr>)"

section \<open>What a child is started with\<close>

definition nonempty_list :: "'a list option \<Rightarrow> bool" where
  "nonempty_list v = (case v of None \<Rightarrow> False | Some xs \<Rightarrow> xs \<noteq> [])"

definition argsFor :: "Supervisor \<Rightarrow> AgentRuntimeSpec \<Rightarrow> string \<Rightarrow> string \<Rightarrow> string list" where
  "argsFor sv spec host hubPath =
     [sv_scriptPath sv, ''--id'', sp_agentId spec, ''--provider'', sp_provider spec, ''--runtime'', sp_runtime spec,
      ''--host'', host, ''--cwd'', case_option (sv_cwd sv) id (sp_cwd spec), ''--hub-path'', hubPath]
     @ (if nonempty_list (sp_capabilities spec) then [''--capabilities'', join_with '','' (the (sp_capabilities spec))] else [])
     @ (case sp_trustTier spec of Some t \<Rightarrow> [''--trust'', show_int t] | None \<Rightarrow> [])
     @ (if truthy_str (sp_model spec) then [''--model'', the (sp_model spec)] else [])
     @ (if sp_runtime spec = ''command'' \<and> truthy_str (sp_command spec) then
          [''--command'', the (sp_command spec)]
          @ (if nonempty_list (sp_args spec) then [''--command-args'', stringify (JArr (map JStr (the (sp_args spec))))] else [])
          @ (if nonempty_list (sp_allowEnv spec) then [''--allow-env'', join_with '','' (the (sp_allowEnv spec))] else [])
        else [])
     @ (if sv_encryption sv then [''--require-hub-encryption''] else [])
     @ (if truthy_str (sv_env sv ''KOVAEL_API_TOKEN'') \<or> truthy_str (sv_env sv ''KOVAEL_TOKEN'') then [''--with-token''] else [])"

text \<open>The variables a manifest lists, less the denied ones.\<close>

fun forward_env :: "penv \<Rightarrow> string list \<Rightarrow> (string, string) omap \<Rightarrow> (string, string) omap" where
  "forward_env source [] env = env"
| "forward_env source (name # names) env =
     forward_env source names
       (if isDeniedCommandEnvName name then env
        else case source name of Some v \<Rightarrow> om_set name v env | None \<Rightarrow> env)"

definition childEnv :: "Supervisor \<Rightarrow> AgentRuntimeSpec \<Rightarrow> (string, string) omap" where
  "childEnv sv spec =
     (let env = buildAgentAdapterEnv (sv_env sv) (sv_encryption sv) in
      if sp_runtime spec = ''command'' then
        forward_env (sv_env sv) (case_option [] id (sp_allowEnv spec))
          (set_truthy COMMAND_ADAPTER_ALLOW_ENV (sv_env sv COMMAND_ADAPTER_ALLOW_ENV) env)
      else env)"

section \<open>What a hub says\<close>

record HubSnapshot =
  hs_exists :: bool
  hs_schemaVersion :: "string option"
  hs_dispatches :: nat
  hs_accepted :: nat
  hs_running :: nat
  hs_succeeded :: nat
  hs_failed :: nat
  hs_memories :: nat
  hs_error :: "string option"

definition empty_hub_snapshot :: HubSnapshot where
  "empty_hub_snapshot = \<lparr>hs_exists = False, hs_schemaVersion = None, hs_dispatches = 0, hs_accepted = 0, hs_running = 0,
     hs_succeeded = 0, hs_failed = 0, hs_memories = 0, hs_error = None\<rparr>"

definition readMeta :: "HubTables \<Rightarrow> string \<Rightarrow> string option" where
  "readMeta t key = (case ht_meta t of None \<Rightarrow> None | Some m \<Rightarrow> om_get m key)"

definition countStatus :: "HubTables \<Rightarrow> AgentDispatchStatus \<Rightarrow> nat" where
  "countStatus t s = (case ht_dispatches t of None \<Rightarrow> 0 | Some xs \<Rightarrow> length (filter (\<lambda>x. x = s) xs))"

definition inspectHub :: "SupEnv \<Rightarrow> string \<Rightarrow> HubSnapshot" where
  "inspectHub e hubPath =
     (case validateLocalSqlitePath (se_here e) hubPath of
        Some reason \<Rightarrow> empty_hub_snapshot\<lparr>hs_error := Some reason\<rparr>
      | None \<Rightarrow>
          (case se_hub e hubPath of
             HubMissing \<Rightarrow> empty_hub_snapshot
           | HubBroken message \<Rightarrow> empty_hub_snapshot\<lparr>hs_exists := True, hs_error := Some (take 300 message)\<rparr>
           | HubOpened t \<Rightarrow>
               \<lparr>hs_exists = True, hs_schemaVersion = readMeta t ''schema_version'',
                hs_dispatches = case_option 0 length (ht_dispatches t),
                hs_accepted = countStatus t DAccepted, hs_running = countStatus t DRunning,
                hs_succeeded = countStatus t DSucceeded, hs_failed = countStatus t DFailed,
                hs_memories = case_option 0 id (ht_memories t), hs_error = None\<rparr>))"

definition busyWork :: "SupEnv \<Rightarrow> RuntimeRecord \<Rightarrow> nat \<times> nat" where
  "busyWork e r = (let hub = inspectHub e (rr_hubPath r) in (hs_accepted hub, hs_running hub))"

section \<open>Children\<close>

definition clearStopTimer :: "RuntimeRecord \<Rightarrow> RuntimeRecord" where
  "clearStopTimer r = r\<lparr>rr_stopTimer := None\<rparr>"

definition manages :: "RuntimeRecord \<Rightarrow> nat \<Rightarrow> nat \<Rightarrow> bool" where
  "manages r child generation =
     (case rr_managed r of None \<Rightarrow> False | Some m \<Rightarrow> mg_child m = child \<and> mg_generation m = generation)"

definition handleExit :: "int \<Rightarrow> nat \<Rightarrow> nat \<Rightarrow> int option \<Rightarrow> string option \<Rightarrow> RuntimeRecord \<Rightarrow> RuntimeRecord" where
  "handleExit now child generation code sig r =
     (if \<not> manages r child generation then r
      else (clearStopTimer r)\<lparr>rr_managed := None, rr_exitedAt := Some now, rr_exitCode := code, rr_exitSignal := sig,
        rr_state := (if rr_desired r = WantStopped \<or> rr_state r = SStopping then SStopped else SExited)\<rparr>)"

definition handleError :: "int \<Rightarrow> penv \<Rightarrow> nat \<Rightarrow> nat \<Rightarrow> string \<Rightarrow> RuntimeRecord \<Rightarrow> RuntimeRecord" where
  "handleError now env child generation message r =
     (if \<not> manages r child generation then r
      else (clearStopTimer r)\<lparr>rr_managed := None, rr_exitedAt := Some now, rr_exitCode := None, rr_exitSignal := None,
        rr_state := SFailed, rr_lastError := Some (redactSensitiveText env message)\<rparr>)"

fun on_child :: "SupEnv \<Rightarrow> nat \<Rightarrow> nat \<Rightarrow> ChildEvent \<Rightarrow> RuntimeRecord \<Rightarrow> RuntimeRecord" where
  "on_child e child generation (ChildExit code sig) r = handleExit (se_now e) child generation code sig r"
| "on_child e child generation (ChildError message) r = handleError (se_now e) (se_penv e) child generation message r"

text \<open>\<open>child.kill(sig)\<close>: what the child emits during the call reaches its listeners at once.\<close>

definition kill_child :: "SupEnv \<Rightarrow> ManagedRuntime \<Rightarrow> Signal \<Rightarrow> RuntimeRecord \<times> Processes \<Rightarrow> RuntimeRecord \<times> Processes" where
  "kill_child e m sig = (\<lambda>(r, ps).
     (case se_kill e (mg_child m) sig of None \<Rightarrow> r | Some ev \<Rightarrow> on_child e (mg_child m) (mg_generation m) ev r,
      ps\<lparr>ps_signals := ps_signals ps @ [(mg_child m, sig)]\<rparr>))"

definition DEFAULT_STOP_TIMEOUT_MS :: int where
  "DEFAULT_STOP_TIMEOUT_MS = 5000"

definition positiveTimeout :: "jsnum option \<Rightarrow> int" where
  "positiveTimeout v =
     (case v of Some (Num q) \<Rightarrow> if 0 < q then \<lfloor>q\<rfloor> else DEFAULT_STOP_TIMEOUT_MS | _ \<Rightarrow> DEFAULT_STOP_TIMEOUT_MS)"

definition armStopTimer :: "int \<Rightarrow> ManagedRuntime \<Rightarrow> int \<Rightarrow> RuntimeRecord \<Rightarrow> RuntimeRecord" where
  "armStopTimer now m timeoutMs r =
     r\<lparr>rr_stopTimer := Some \<lparr>st_child = mg_child m, st_generation = mg_generation m, st_due = now + timeoutMs, st_fired = False\<rparr>\<rparr>"

definition spawnRecord :: "SupEnv \<Rightarrow> Supervisor \<Rightarrow> int \<Rightarrow> string \<Rightarrow> RuntimeRecord \<times> Processes \<Rightarrow> bool \<times> RuntimeRecord \<times> Processes" where
  "spawnRecord e sv port reason = (\<lambda>(r, ps).
     (if \<not> sv_enabled sv \<or> rr_managed r \<noteq> None then (False, r, ps)
      else case sv_blocker sv of
        Some (_, message) \<Rightarrow>
          (False, r\<lparr>rr_state := SFailed, rr_exitedAt := Some (se_now e), rr_lastError := Some message\<rparr>, ps)
      | None \<Rightarrow>
          let host = case_option (''http://127.0.0.1:'' @ show_int port) id (sv_host sv);
              generation = rr_generation r + 1;
              r1 = clearStopTimer (r\<lparr>rr_generation := generation, rr_state := SStarting, rr_startedAt := None,
                rr_stoppingAt := None, rr_exitedAt := None, rr_exitCode := None, rr_exitSignal := None,
                rr_lastError := None, rr_lastReason := Some reason\<rparr>);
              spec = rr_spec r;
              child = length (ps_calls ps);
              ps1 = ps\<lparr>ps_calls := ps_calls ps @ [\<lparr>sc_command = sv_nodeBin sv, sc_args = argsFor sv spec host (rr_hubPath r),
                sc_cwd = case_option (sv_cwd sv) id (sp_cwd spec), sc_env = childEnv sv spec\<rparr>]\<rparr>
          in (case se_spawn e child of
                Inl message \<Rightarrow>
                  (False, r1\<lparr>rr_managed := None, rr_state := SFailed, rr_exitedAt := Some (se_now e),
                     rr_lastError := Some (redactSensitiveText (se_penv e) message)\<rparr>, ps1)
              | Inr pid \<Rightarrow>
                  (True, r1\<lparr>rr_managed := Some \<lparr>mg_child = child, mg_pid = pid, mg_generation = generation\<rparr>,
                     rr_state := SRunning, rr_startedAt := Some (se_now e)\<rparr>,
                   ps1\<lparr>ps_listeners := om_set child (sp_agentId spec, generation) (ps_listeners ps1)\<rparr>))))"

record ControlOptions =
  co_reason :: "string option"
  co_force :: bool
  co_timeoutMs :: "jsnum option"
  co_sticky :: "bool option"

definition stopRecord :: "SupEnv \<Rightarrow> ControlOptions \<Rightarrow> RuntimeRecord \<times> Processes \<Rightarrow> bool \<times> RuntimeRecord \<times> Processes" where
  "stopRecord e opts = (\<lambda>(r, ps).
     (let sticky = case_option True id (co_sticky opts);
          r1 = (if sticky then r\<lparr>rr_desired := WantStopped\<rparr> else r)
      in case rr_managed r1 of
           None \<Rightarrow>
             (False, r1\<lparr>rr_state := (if rr_state r1 \<noteq> SDisabled \<and> sticky then SStopped else rr_state r1),
               rr_lastReason := (case co_reason opts of Some x \<Rightarrow> Some x | None \<Rightarrow> rr_lastReason r1)\<rparr>, ps)
         | Some m \<Rightarrow>
             let (r2, ps2) = kill_child e m SIGTERM
                   (r1\<lparr>rr_state := SStopping, rr_stoppingAt := Some (se_now e),
                      rr_lastReason := Some (case_option ''stop'' id (co_reason opts))\<rparr>, ps)
             in (True,
                 if map_option mg_generation (rr_managed r2) = Some (mg_generation m)
                 then armStopTimer (se_now e) m (positiveTimeout (co_timeoutMs opts)) r2 else r2,
                 ps2)))"

definition detachAndTerminate :: "SupEnv \<Rightarrow> int \<Rightarrow> RuntimeRecord \<times> Processes \<Rightarrow> RuntimeRecord \<times> Processes" where
  "detachAndTerminate e timeoutMs = (\<lambda>(r, ps).
     (case rr_managed r of
        None \<Rightarrow> (r, ps)
      | Some m \<Rightarrow>
          let (r1, ps1) = kill_child e m SIGTERM
                ((clearStopTimer r)\<lparr>rr_managed := None, rr_stoppingAt := Some (se_now e)\<rparr>, ps)
          in (r1, ps1\<lparr>ps_detached := om_set (mg_child m) (se_now e + timeoutMs) (ps_detached ps1)\<rparr>)))"

section \<open>Status\<close>

record PreflightSummary =
  pf_executablePath :: string
  pf_adapterExecutablePath :: string
  pf_runtimeExecutablePath :: string
  pf_cwd :: string
  pf_policy :: RuntimePolicy
  pf_protected :: "ProtectedLocalConfigPathStatus list"
  pf_hubEncryptionActive :: bool

record AgentStatus =
  as_agentId :: string
  as_provider :: string
  as_runtime :: string
  as_enabled :: bool
  as_state :: LifecycleState
  as_desired :: DesiredState
  as_running :: bool
  as_pid :: "int option"
  as_hubPath :: string
  as_startedAt :: "int option"
  as_stoppingAt :: "int option"
  as_exitedAt :: "int option"
  as_exitCode :: "int option"
  as_exitSignal :: "string option"
  as_lastError :: "string option"
  as_lastReason :: "string option"
  as_preflight :: PreflightSummary
  as_hub :: HubSnapshot

definition runtimePolicyFor :: "string \<Rightarrow> RuntimePolicy" where
  "runtimePolicyFor runtime =
     (case registry_resolve defaultRuntimeRegistry runtime of Some a \<Rightarrow> ra_policy a | None \<Rightarrow> restricted_policy)"

definition runtimeExecutablePathFor :: "string \<Rightarrow> penv \<Rightarrow> string" where
  "runtimeExecutablePathFor runtime env =
     (case registry_resolve defaultRuntimeRegistry runtime of Some a \<Rightarrow> ra_resolveExecutable a env | None \<Rightarrow> runtime)"

definition preflightFor :: "SupEnv \<Rightarrow> Supervisor \<Rightarrow> AgentRuntimeSpec \<Rightarrow> PreflightSummary" where
  "preflightFor e sv spec =
     (let cwd = case_option (sv_cwd sv) id (sp_cwd spec) in
      \<lparr>pf_executablePath = sv_nodeBin sv, pf_adapterExecutablePath = sv_nodeBin sv,
       pf_runtimeExecutablePath = runtimeExecutablePathFor (sp_runtime spec) (sv_env sv), pf_cwd = cwd,
       pf_policy = runtimePolicyFor (sp_runtime spec),
       pf_protected = inspectProtectedLocalConfigPaths (se_fs e) (se_here e) (se_home e) cwd (sv_env sv),
       pf_hubEncryptionActive = (sv_encryption sv \<and> isValidAgentHubSecret (sv_env sv AGENT_HUB_SECRET_ENV))\<rparr>)"

definition statusFor :: "SupEnv \<Rightarrow> Supervisor \<Rightarrow> RuntimeRecord \<Rightarrow> AgentStatus" where
  "statusFor e sv r =
     \<lparr>as_agentId = sp_agentId (rr_spec r), as_provider = sp_provider (rr_spec r), as_runtime = sp_runtime (rr_spec r),
      as_enabled = sv_enabled sv, as_state = (if sv_enabled sv then rr_state r else SDisabled), as_desired = rr_desired r,
      as_running = (rr_managed r \<noteq> None), as_pid = Option.bind (rr_managed r) mg_pid, as_hubPath = rr_hubPath r,
      as_startedAt = rr_startedAt r, as_stoppingAt = rr_stoppingAt r, as_exitedAt = rr_exitedAt r,
      as_exitCode = rr_exitCode r, as_exitSignal = rr_exitSignal r, as_lastError = rr_lastError r,
      as_lastReason = rr_lastReason r, as_preflight = preflightFor e sv (rr_spec r), as_hub = inspectHub e (rr_hubPath r)\<rparr>"

record SupervisorSnapshot =
  sn_enabled :: bool
  sn_parkOnIdle :: bool
  sn_configured :: nat
  sn_running :: nat
  sn_agents :: "AgentStatus list"

definition sup_snapshot :: "SupEnv \<Rightarrow> Supervisor \<Rightarrow> SupervisorSnapshot" where
  "sup_snapshot e sv =
     \<lparr>sn_enabled = sv_enabled sv, sn_parkOnIdle = sv_parkOnIdle sv, sn_configured = length (sv_agents sv),
      sn_running = length (filter (\<lambda>r. rr_managed r \<noteq> None) (om_values (sv_records sv))),
      sn_agents = map (statusFor e sv) (om_values (sv_records sv))\<rparr>"

definition getAgentStatus :: "SupEnv \<Rightarrow> Supervisor \<Rightarrow> string \<Rightarrow> AgentStatus option" where
  "getAgentStatus e sv agentId = map_option (statusFor e sv) (om_get (sv_records sv) agentId)"

definition sup_parkOnIdle :: "Supervisor \<Rightarrow> bool" where
  "sup_parkOnIdle sv = (sv_enabled sv \<and> sv_parkOnIdle sv)"

section \<open>Control\<close>

record ControlResult =
  ctl_action :: ControlAction
  ctl_accepted :: bool
  ctl_changed :: bool
  ctl_statusCode :: nat
  ctl_agent :: "AgentStatus option"
  ctl_error :: "ControlError option"
  ctl_busy :: "(nat \<times> nat) option"

definition set_record :: "string \<Rightarrow> RuntimeRecord \<times> Processes \<Rightarrow> Supervisor \<Rightarrow> Supervisor" where
  "set_record agentId = (\<lambda>(r, ps) sv. sv\<lparr>sv_records := om_set agentId r (sv_records sv), sv_procs := ps\<rparr>)"

definition controlError :: "SupEnv \<Rightarrow> Supervisor \<Rightarrow> ControlAction \<Rightarrow> ControlError \<Rightarrow> nat \<Rightarrow> RuntimeRecord option \<Rightarrow> ControlResult" where
  "controlError e sv action err code r =
     \<lparr>ctl_action = action, ctl_accepted = False, ctl_changed = False, ctl_statusCode = code,
      ctl_agent = map_option (statusFor e sv) r, ctl_error = Some err, ctl_busy = None\<rparr>"

definition controlled :: "SupEnv \<Rightarrow> string \<Rightarrow> ControlAction \<Rightarrow> bool \<Rightarrow> nat \<Rightarrow> Supervisor \<Rightarrow> ControlResult \<times> Supervisor" where
  "controlled e agentId action changed code sv =
     (\<lparr>ctl_action = action, ctl_accepted = True, ctl_changed = changed, ctl_statusCode = code,
       ctl_agent = getAgentStatus e sv agentId, ctl_error = None, ctl_busy = None\<rparr>, sv)"

definition remember_port :: "int option \<Rightarrow> Supervisor \<Rightarrow> int option \<times> Supervisor" where
  "remember_port given sv =
     (case given of Some p \<Rightarrow> (Some p, sv\<lparr>sv_port := Some p\<rparr>) | None \<Rightarrow> (sv_port sv, sv))"

definition busy_refused :: "SupEnv \<Rightarrow> Supervisor \<Rightarrow> ControlOptions \<Rightarrow> RuntimeRecord \<Rightarrow> bool" where
  "busy_refused e sv opts r =
     (let (accepted, running) = busyWork e r in
      rr_managed r \<noteq> None \<and> \<not> co_force opts \<and> (accepted > 0 \<or> running > 0))"

definition busy_result :: "SupEnv \<Rightarrow> Supervisor \<Rightarrow> ControlAction \<Rightarrow> RuntimeRecord \<Rightarrow> ControlResult" where
  "busy_result e sv action r =
     \<lparr>ctl_action = action, ctl_accepted = False, ctl_changed = False, ctl_statusCode = 409,
      ctl_agent = Some (statusFor e sv r), ctl_error = Some RuntimeBusy, ctl_busy = Some (busyWork e r)\<rparr>"

definition sup_startAgent :: "SupEnv \<Rightarrow> string \<Rightarrow> int option \<Rightarrow> string option \<Rightarrow> Supervisor \<Rightarrow> ControlResult \<times> Supervisor" where
  "sup_startAgent e agentId given reason sv =
     (case om_get (sv_records sv) agentId of
        None \<Rightarrow> (controlError e sv CStart UnknownRuntime 404 None, sv)
      | Some r \<Rightarrow>
          if \<not> sv_enabled sv then (controlError e sv CStart RuntimeDisabled 409 (Some r), sv)
          else case sv_blocker sv of
            Some (err, _) \<Rightarrow> (controlError e sv CStart err 409 (Some r), sv)
          | None \<Rightarrow>
              let (port, sv1) = remember_port given sv;
                  r1 = r\<lparr>rr_desired := WantRunning\<rparr>
              in if rr_managed r1 \<noteq> None then
                   controlled e agentId CStart False 200 (set_record agentId (r1, sv_procs sv1) sv1)
                 else
                   let (_, rp) = spawnRecord e sv1 (case_option 0 id port) (case_option ''manual_start'' id reason) (r1, sv_procs sv1)
                   in controlled e agentId CStart True 202 (set_record agentId rp sv1))"

definition sup_stopAgent :: "SupEnv \<Rightarrow> string \<Rightarrow> ControlOptions \<Rightarrow> Supervisor \<Rightarrow> ControlResult \<times> Supervisor" where
  "sup_stopAgent e agentId opts sv =
     (case om_get (sv_records sv) agentId of
        None \<Rightarrow> (controlError e sv CStop UnknownRuntime 404 None, sv)
      | Some r \<Rightarrow>
          if \<not> sv_enabled sv then (controlError e sv CStop RuntimeDisabled 409 (Some r), sv)
          else if busy_refused e sv opts r then (busy_result e sv CStop r, sv)
          else
            let (changed, rp) = stopRecord e
                  (opts\<lparr>co_reason := Some (case_option ''manual_stop'' id (co_reason opts)),
                     co_sticky := Some (case_option True id (co_sticky opts))\<rparr>) (r, sv_procs sv)
            in controlled e agentId CStop changed (if changed then 202 else 200) (set_record agentId rp sv))"

definition sup_restartAgent :: "SupEnv \<Rightarrow> string \<Rightarrow> int option \<Rightarrow> ControlOptions \<Rightarrow> Supervisor \<Rightarrow> ControlResult \<times> Supervisor" where
  "sup_restartAgent e agentId given opts sv =
     (case om_get (sv_records sv) agentId of
        None \<Rightarrow> (controlError e sv CRestart UnknownRuntime 404 None, sv)
      | Some r \<Rightarrow>
          if \<not> sv_enabled sv then (controlError e sv CRestart RuntimeDisabled 409 (Some r), sv)
          else case sv_blocker sv of
            Some (err, _) \<Rightarrow> (controlError e sv CRestart err 409 (Some r), sv)
          | None \<Rightarrow>
              if busy_refused e sv opts r then (busy_result e sv CRestart r, sv)
              else
                let (port, sv1) = remember_port given sv;
                    r1 = r\<lparr>rr_desired := WantRunning\<rparr>;
                    rp1 = (if rr_managed r1 \<noteq> None
                           then detachAndTerminate e (positiveTimeout (co_timeoutMs opts)) (r1, sv_procs sv1)
                           else (r1, sv_procs sv1));
                    (_, rp) = spawnRecord e sv1 (case_option 0 id port) (case_option ''manual_restart'' id (co_reason opts)) rp1
                in controlled e agentId CRestart True 202 (set_record agentId rp sv1))"

definition start_one :: "SupEnv \<Rightarrow> int \<Rightarrow> string \<Rightarrow> Supervisor \<Rightarrow> string \<Rightarrow> Supervisor" where
  "start_one e port reason sv agentId =
     (case om_get (sv_records sv) agentId of
        None \<Rightarrow> sv
      | Some r \<Rightarrow>
          if rr_desired r \<noteq> WantRunning then sv
          else let (_, rp) = spawnRecord e sv port reason (r, sv_procs sv) in set_record agentId rp sv)"

definition sup_start :: "SupEnv \<Rightarrow> int \<Rightarrow> string \<Rightarrow> Supervisor \<Rightarrow> Supervisor" where
  "sup_start e port reason sv =
     (let sv1 = sv\<lparr>sv_port := Some port\<rparr> in
      if \<not> sv_enabled sv1 then sv1
      else foldl (start_one e port reason) sv1 (om_keys (sv_records sv1)))"

definition stop_one :: "SupEnv \<Rightarrow> ControlOptions \<Rightarrow> Supervisor \<Rightarrow> string \<Rightarrow> Supervisor" where
  "stop_one e opts sv agentId =
     (case om_get (sv_records sv) agentId of
        None \<Rightarrow> sv
      | Some r \<Rightarrow> let (_, rp) = stopRecord e opts (r, sv_procs sv) in set_record agentId rp sv)"

definition sup_stop :: "SupEnv \<Rightarrow> string \<Rightarrow> Supervisor \<Rightarrow> Supervisor" where
  "sup_stop e reason sv =
     foldl (stop_one e \<lparr>co_reason = Some reason, co_force = True, co_timeoutMs = None,
       co_sticky = Some (reason \<noteq> ''resource_idle'')\<rparr>) sv (om_keys (sv_records sv))"

section \<open>Events and timers\<close>

definition child_event :: "SupEnv \<Rightarrow> nat \<Rightarrow> ChildEvent \<Rightarrow> Supervisor \<Rightarrow> Supervisor" where
  "child_event e child ev sv =
     (case om_get (ps_listeners (sv_procs sv)) child of
        None \<Rightarrow> sv
      | Some (agentId, generation) \<Rightarrow>
          let ps = (case ev of ChildExit _ _ \<Rightarrow> (sv_procs sv)\<lparr>ps_detached := om_delete child (ps_detached (sv_procs sv))\<rparr>
                    | ChildError _ \<Rightarrow> sv_procs sv)
          in (case om_get (sv_records sv) agentId of
                None \<Rightarrow> sv\<lparr>sv_procs := ps\<rparr>
              | Some r \<Rightarrow> set_record agentId (on_child e child generation ev r, ps) sv))"

definition stop_timer :: "SupEnv \<Rightarrow> string \<Rightarrow> Supervisor \<Rightarrow> Supervisor" where
  "stop_timer e agentId sv =
     (case om_get (sv_records sv) agentId of
        None \<Rightarrow> sv
      | Some r \<Rightarrow>
          (case rr_stopTimer r of
             None \<Rightarrow> sv
           | Some t \<Rightarrow>
               if st_fired t \<or> se_now e < st_due t then sv
               else
                 let r1 = r\<lparr>rr_stopTimer := Some (t\<lparr>st_fired := True\<rparr>)\<rparr> in
                 (case rr_managed r1 of
                    Some m \<Rightarrow>
                      if mg_child m = st_child t \<and> mg_generation m = st_generation t
                      then set_record agentId (kill_child e m SIGKILL (r1, sv_procs sv)) sv
                      else set_record agentId (r1, sv_procs sv) sv
                  | None \<Rightarrow> set_record agentId (r1, sv_procs sv) sv)))"

definition detach_timer :: "SupEnv \<Rightarrow> nat \<Rightarrow> Supervisor \<Rightarrow> Supervisor" where
  "detach_timer e child sv =
     (case om_get (ps_detached (sv_procs sv)) child of
        None \<Rightarrow> sv
      | Some due \<Rightarrow>
          if se_now e < due then sv
          else
            let ps = sv_procs sv;
                sv1 = sv\<lparr>sv_procs := ps\<lparr>ps_signals := ps_signals ps @ [(child, SIGKILL)],
                  ps_detached := om_delete child (ps_detached ps)\<rparr>\<rparr>
            in (case se_kill e child SIGKILL of None \<Rightarrow> sv1 | Some ev \<Rightarrow> child_event e child ev sv1))"

end
