(* ===== verification/SupervisorLaws.thy ===== *)
theory SupervisorLaws
  imports Supervisor
begin

text \<open>
  What the supervisor promises over any sequence of its operations, events of children and
  timers: every process it started is accounted for, a replaced child cannot disturb its
  successor, a runtime with work in its hub is not stopped unless forced, parked runtimes
  come back, and the secrets and hub files of one agent stay its own.
\<close>

section \<open>Operations\<close>

datatype SupOp = SStart int string | SStop string | SStartAgent string "int option" "string option"
  | SStopAgent string ControlOptions | SRestartAgent string "int option" ControlOptions
  | SChild nat ChildEvent | SStopTimer string | SDetachTimer nat

fun sup_exec :: "SupEnv \<Rightarrow> SupOp \<Rightarrow> Supervisor \<Rightarrow> Supervisor" where
  "sup_exec e (SStart port reason) sv = sup_start e port reason sv"
| "sup_exec e (SStop reason) sv = sup_stop e reason sv"
| "sup_exec e (SStartAgent a port reason) sv = snd (sup_startAgent e a port reason sv)"
| "sup_exec e (SStopAgent a opts) sv = snd (sup_stopAgent e a opts sv)"
| "sup_exec e (SRestartAgent a port opts) sv = snd (sup_restartAgent e a port opts sv)"
| "sup_exec e (SChild c ev) sv = child_event e c ev sv"
| "sup_exec e (SStopTimer a) sv = stop_timer e a sv"
| "sup_exec e (SDetachTimer c) sv = detach_timer e c sv"

definition sup_step :: "Supervisor \<Rightarrow> SupEnv \<times> SupOp \<Rightarrow> Supervisor" where
  "sup_step sv ev = sup_exec (fst ev) (snd ev) sv"

definition sup_run :: "Supervisor \<Rightarrow> (SupEnv \<times> SupOp) list \<Rightarrow> Supervisor" where
  "sup_run sv evs = foldl sup_step sv evs"

section \<open>The invariant\<close>

text \<open>
  \<open>E\<close> holds the children that have reported their end. A record manages only its latest child;
  every earlier one was asked to stop or has ended, and a timer is armed only for a child that was
  asked to stop.
\<close>

definition rec_ok :: "nat set \<Rightarrow> string \<Rightarrow> RuntimeRecord \<Rightarrow> Processes \<Rightarrow> bool" where
  "rec_ok E a r ps \<longleftrightarrow> sp_agentId (rr_spec r) = a
     \<and> (\<forall>m. rr_managed r = Some m \<longrightarrow> mg_generation m = rr_generation r
           \<and> om_get (ps_listeners ps) (mg_child m) = Some (a, mg_generation m))
     \<and> (\<forall>c g. om_get (ps_listeners ps) c = Some (a, g) \<longrightarrow>
           g \<le> rr_generation r \<and> (manages r c g \<or> (c, SIGTERM) \<in> set (ps_signals ps) \<or> c \<in> E))
     \<and> (\<forall>t. rr_stopTimer r = Some t \<longrightarrow> (st_child t, SIGTERM) \<in> set (ps_signals ps))"

definition procs_ok :: "Processes \<Rightarrow> bool" where
  "procs_ok ps \<longleftrightarrow> (\<forall>c x. om_get (ps_listeners ps) c = Some x \<longrightarrow> c < length (ps_calls ps))
     \<and> (\<forall>c. om_has (ps_detached ps) c \<longrightarrow> (c, SIGTERM) \<in> set (ps_signals ps))
     \<and> (\<forall>c. (c, SIGKILL) \<in> set (ps_signals ps) \<longrightarrow> (c, SIGTERM) \<in> set (ps_signals ps))
     \<and> (\<forall>c d x. om_get (ps_listeners ps) c = Some x \<longrightarrow> om_get (ps_listeners ps) d = Some x \<longrightarrow> c = d)"

definition good :: "nat set \<Rightarrow> string \<Rightarrow> RuntimeRecord \<times> Processes \<Rightarrow> bool" where
  "good E a x \<longleftrightarrow> rec_ok E a (fst x) (snd x) \<and> procs_ok (snd x)"

text \<open>What an operation on the record of \<open>a\<close> leaves alone; a child it adds is a new one.\<close>

definition moves :: "string \<Rightarrow> RuntimeRecord \<times> Processes \<Rightarrow> RuntimeRecord \<times> Processes \<Rightarrow> bool" where
  "moves a x y \<longleftrightarrow>
     (\<forall>c b g. b \<noteq> a \<longrightarrow> (om_get (ps_listeners (snd y)) c = Some (b, g)) = (om_get (ps_listeners (snd x)) c = Some (b, g)))
     \<and> set (ps_signals (snd x)) \<subseteq> set (ps_signals (snd y))
     \<and> length (ps_calls (snd x)) \<le> length (ps_calls (snd y))
     \<and> (\<forall>m. rr_managed (fst y) = Some m \<longrightarrow> rr_managed (fst x) = Some m \<or> length (ps_calls (snd x)) \<le> mg_child m)"

lemma moves_refl: "moves a x x"
  by (simp add: moves_def)

lemma moves_trans: "moves a x y \<Longrightarrow> moves a y z \<Longrightarrow> moves a x z"
  unfolding moves_def by (meson order_trans)

lemma moves_same:
  assumes "rr_managed (fst y) = None \<or> rr_managed (fst y) = rr_managed (fst x)"
    and "ps_listeners (snd y) = ps_listeners (snd x)" and "length (ps_calls (snd x)) \<le> length (ps_calls (snd y))"
    and "set (ps_signals (snd x)) \<subseteq> set (ps_signals (snd y))"
  shows "moves a x y"
  using assms by (auto simp: moves_def)

lemma rec_ok_cong:
  assumes "rec_ok E a r ps" and "rr_spec r' = rr_spec r" and "rr_managed r' = rr_managed r"
    and "rr_generation r' = rr_generation r"
    and "\<And>t. rr_stopTimer r' = Some t \<Longrightarrow> (st_child t, SIGTERM) \<in> set (ps_signals ps)"
  shows "rec_ok E a r' ps"
  using assms unfolding rec_ok_def manages_def by simp

lemma rec_ok_procs:
  assumes "rec_ok E a r ps" and "\<And>c g. (om_get (ps_listeners ps') c = Some (a, g)) = (om_get (ps_listeners ps) c = Some (a, g))"
    and "set (ps_signals ps) \<subseteq> set (ps_signals ps')"
  shows "rec_ok E a r ps'"
  using assms unfolding rec_ok_def by blast

subsection \<open>The operations on one record\<close>

lemma on_child_cases:
  obtains "\<not> manages r c g" "on_child e c g ev r = r"
  | "manages r c g" "rr_managed (on_child e c g ev r) = None" "rr_stopTimer (on_child e c g ev r) = None"
    "rr_spec (on_child e c g ev r) = rr_spec r" "rr_generation (on_child e c g ev r) = rr_generation r"
  by (cases ev; cases "manages r c g") (auto simp: handleExit_def handleError_def clearStopTimer_def)

lemma manages_unique: "manages r c g \<Longrightarrow> manages r d g' \<Longrightarrow> c = d \<and> g = g'"
  by (auto simp: manages_def split: option.splits)

lemma on_child_ok:
  assumes "rec_ok E a r ps" and "c \<in> E \<or> (c, SIGTERM) \<in> set (ps_signals ps)"
  shows "rec_ok E a (on_child e c g ev r) ps"
proof (cases rule: on_child_cases [of r c g e ev])
  case 1
  then show ?thesis using assms by simp
next
  case 2
  have "g' \<le> rr_generation r \<and> ((c', SIGTERM) \<in> set (ps_signals ps) \<or> c' \<in> E)"
    if "om_get (ps_listeners ps) c' = Some (a, g')" for c' g'
    using assms that manages_unique [OF 2(1)] unfolding rec_ok_def by blast
  then show ?thesis using 2 assms(1) unfolding rec_ok_def manages_def by simp
qed

lemma on_child_managed: "rr_managed (on_child e c g ev r) = None \<or> rr_managed (on_child e c g ev r) = rr_managed r"
  by (cases rule: on_child_cases [of r c g e ev]) simp_all

definition after_kill :: "SupEnv \<Rightarrow> ManagedRuntime \<Rightarrow> Signal \<Rightarrow> RuntimeRecord \<Rightarrow> RuntimeRecord" where
  "after_kill e m sig r =
     (case se_kill e (mg_child m) sig of None \<Rightarrow> r | Some ev \<Rightarrow> on_child e (mg_child m) (mg_generation m) ev r)"

lemma kill_child_eq:
  "kill_child e m sig (r, ps) = (after_kill e m sig r, ps\<lparr>ps_signals := ps_signals ps @ [(mg_child m, sig)]\<rparr>)"
  by (simp add: kill_child_def after_kill_def)

lemma procs_signal:
  "procs_ok ps \<Longrightarrow> sig = SIGTERM \<or> (c, SIGTERM) \<in> set (ps_signals ps) \<Longrightarrow>
     procs_ok (ps\<lparr>ps_signals := ps_signals ps @ [(c, sig)]\<rparr>)"
  unfolding procs_ok_def by auto

lemma kill_child_good:
  assumes "good E a (r, ps)" and "sig = SIGTERM \<or> (mg_child m, SIGTERM) \<in> set (ps_signals ps)"
  shows "good E a (kill_child e m sig (r, ps)) \<and> moves a (r, ps) (kill_child e m sig (r, ps))
    \<and> (mg_child m, SIGTERM) \<in> set (ps_signals (snd (kill_child e m sig (r, ps))))"
proof -
  let ?ps = "ps\<lparr>ps_signals := ps_signals ps @ [(mg_child m, sig)]\<rparr>"
  have r: "rec_ok E a r ?ps"
  proof (rule rec_ok_procs)
    show "rec_ok E a r ps" using assms(1) by (simp add: good_def)
  qed auto
  have s: "(mg_child m, SIGTERM) \<in> set (ps_signals ?ps)" using assms(2) by auto
  have "rec_ok E a (after_kill e m sig r) ?ps"
    using r on_child_ok [OF r disjI2 [OF s]] by (simp add: after_kill_def split: option.split)
  moreover have "procs_ok ?ps" using assms by (intro procs_signal) (simp_all add: good_def)
  moreover have "moves a (r, ps) (after_kill e m sig r, ?ps)"
  proof (rule moves_same)
    show "rr_managed (fst (after_kill e m sig r, ?ps)) = None
        \<or> rr_managed (fst (after_kill e m sig r, ?ps)) = rr_managed (fst (r, ps))"
      using on_child_managed by (simp add: after_kill_def split: option.split)
  qed auto
  ultimately show ?thesis unfolding kill_child_eq good_def fst_conv snd_conv using s by blast
qed

lemma managed_clear: "rr_managed (clearStopTimer r) = rr_managed r" "rr_spec (clearStopTimer r) = rr_spec r"
  "rr_generation (clearStopTimer r) = rr_generation r" "rr_stopTimer (clearStopTimer r) = None"
  by (simp_all add: clearStopTimer_def)

lemma stopRecord_good:
  assumes "good E a (r, ps)"
  shows "good E a (snd (stopRecord e opts (r, ps))) \<and> moves a (r, ps) (snd (stopRecord e opts (r, ps)))"
proof (cases "rr_managed r")
  case None
  let ?y = "snd (stopRecord e opts (r, ps))"
  have "rr_managed (fst ?y) = None" "rr_spec (fst ?y) = rr_spec r" "rr_generation (fst ?y) = rr_generation r"
      "rr_stopTimer (fst ?y) = rr_stopTimer r" "snd ?y = ps"
    using None by (simp_all add: stopRecord_def Let_def)
  then show ?thesis
    using assms None by (auto simp: good_def intro!: moves_same rec_ok_cong [of E a r ps]) (auto simp: rec_ok_def)
next
  case (Some m)
  let ?r = "(if case_option True id (co_sticky opts) then r\<lparr>rr_desired := WantStopped\<rparr> else r)
    \<lparr>rr_state := SStopping, rr_stoppingAt := Some (se_now e), rr_lastReason := Some (case_option ''stop'' id (co_reason opts))\<rparr>"
  have f: "rr_managed ?r = rr_managed r" "rr_spec ?r = rr_spec r" "rr_generation ?r = rr_generation r"
      "rr_stopTimer ?r = rr_stopTimer r"
    by simp_all
  have g: "good E a (?r, ps)"
    using assms rec_ok_cong [of E a r ps ?r] f by (auto simp: good_def) (auto simp: rec_ok_def)
  obtain r2 ps2 where k: "kill_child e m SIGTERM (?r, ps) = (r2, ps2)" by fastforce
  note kg = kill_child_good [OF g, of SIGTERM m e, simplified k]
  let ?r3 = "if map_option mg_generation (rr_managed r2) = Some (mg_generation m)
      then armStopTimer (se_now e) m (positiveTimeout (co_timeoutMs opts)) r2 else r2"
  have eq: "snd (stopRecord e opts (r, ps)) = (?r3, ps2)"
    using Some k by (cases "case_option True id (co_sticky opts)") (simp_all add: stopRecord_def Let_def)
  have f3: "rr_spec ?r3 = rr_spec r2" "rr_managed ?r3 = rr_managed r2" "rr_generation ?r3 = rr_generation r2"
      "rr_stopTimer ?r3 = rr_stopTimer r2 \<or> map_option st_child (rr_stopTimer ?r3) = Some (mg_child m)"
    by (simp_all add: armStopTimer_def)
  have "rec_ok E a r2 ps2" and s: "(mg_child m, SIGTERM) \<in> set (ps_signals ps2)" using kg by (simp_all add: good_def)
  have "rec_ok E a ?r3 ps2"
  proof (rule rec_ok_cong [OF _ f3(1-3)])
    fix t assume t: "rr_stopTimer ?r3 = Some t"
    show "(st_child t, SIGTERM) \<in> set (ps_signals ps2)"
    proof (cases "rr_stopTimer r2 = Some t")
      case True
      then show ?thesis using \<open>rec_ok E a r2 ps2\<close> unfolding rec_ok_def by blast
    next
      case False
      then have "st_child t = mg_child m" using f3(4) t by auto
      then show ?thesis using s by simp
    qed
  qed (rule \<open>rec_ok E a r2 ps2\<close>)
  moreover have "moves a (r, ps) (?r, ps)" by (rule moves_same) simp_all
  moreover have "moves a (?r, ps) (r2, ps2)" and "procs_ok ps2" using kg by (simp_all add: good_def)
  moreover have "moves a (r2, ps2) (?r3, ps2)" by (rule moves_same) (simp_all add: armStopTimer_def)
  ultimately show ?thesis unfolding eq good_def fst_conv snd_conv by (blast intro: moves_trans)
qed

lemma detach_good:
  assumes "good E a (r, ps)"
  shows "good E a (detachAndTerminate e t (r, ps)) \<and> moves a (r, ps) (detachAndTerminate e t (r, ps))
    \<and> rr_managed (fst (detachAndTerminate e t (r, ps))) = None"
proof (cases "rr_managed r")
  case (Some m)
  let ?r = "(clearStopTimer r)\<lparr>rr_managed := None, rr_stoppingAt := Some (se_now e)\<rparr>"
  let ?ps = "ps\<lparr>ps_signals := ps_signals ps @ [(mg_child m, SIGTERM)], ps_detached := om_set (mg_child m) (se_now e + t) (ps_detached ps)\<rparr>"
  have "\<not> manages ?r (mg_child m) (mg_generation m)" by (simp add: manages_def)
  then have "after_kill e m SIGTERM ?r = ?r"
    by (cases rule: on_child_cases [of ?r "mg_child m" "mg_generation m" e "the (se_kill e (mg_child m) SIGTERM)"])
      (auto simp: after_kill_def split: option.split)
  then have eq: "detachAndTerminate e t (r, ps) = (?r, ?ps)"
    using Some by (simp add: detachAndTerminate_def kill_child_eq)
  have m: "om_get (ps_listeners ps) (mg_child m) = Some (a, mg_generation m)" using assms Some by (simp add: good_def rec_ok_def)
  have "rec_ok E a ?r ?ps"
    using assms Some unfolding good_def rec_ok_def by (auto simp: clearStopTimer_def manages_def)
  moreover have "procs_ok ?ps" using assms unfolding good_def procs_ok_def by auto
  moreover have "moves a (r, ps) (?r, ?ps)" by (rule moves_same) auto
  ultimately show ?thesis unfolding eq good_def by simp
qed (use assms moves_refl in \<open>simp add: detachAndTerminate_def\<close>)

lemma spawnRecord_good:
  assumes "good E a (r, ps)"
  shows "good E a (snd (spawnRecord e sv port reason (r, ps))) \<and> moves a (r, ps) (snd (spawnRecord e sv port reason (r, ps)))"
proof (cases "\<not> sv_enabled sv \<or> rr_managed r \<noteq> None")
  case True
  then show ?thesis using assms moves_refl by (auto simp: spawnRecord_def)
next
  case False
  then have none: "rr_managed r = None" by simp
  have r: "rec_ok E a r ps" and p: "procs_ok ps" using assms by (simp_all add: good_def)
  show ?thesis
  proof (cases "sv_blocker sv")
    case (Some b)
    then show ?thesis using False r p rec_ok_cong [OF r]
      by (cases b) (auto simp: spawnRecord_def good_def rec_ok_def manages_def intro!: moves_same)
  next
    case None
    let ?c = "length (ps_calls ps)" and ?g = "rr_generation r + 1"
    have fresh: "om_get (ps_listeners ps) ?c = None"
      using p unfolding procs_ok_def by (metis less_irrefl not_None_eq)
    have old: "om_get (ps_listeners ps) c = Some (a, g) \<Longrightarrow> g \<le> rr_generation r \<and> ((c, SIGTERM) \<in> set (ps_signals ps) \<or> c \<in> E)" for c g
      using r none unfolding rec_ok_def by (auto simp: manages_def)
    have agent: "sp_agentId (rr_spec r) = a" using r by (simp add: rec_ok_def)
    show ?thesis
    proof (cases "se_spawn e ?c")
      case (Inl message)
      let ?y = "snd (spawnRecord e sv port reason (r, ps))"
      have y: "rr_managed (fst ?y) = None" "rr_generation (fst ?y) = ?g" "rr_spec (fst ?y) = rr_spec r"
          "rr_stopTimer (fst ?y) = None" "ps_listeners (snd ?y) = ps_listeners ps" "ps_signals (snd ?y) = ps_signals ps"
          "length (ps_calls (snd ?y)) = Suc ?c" "ps_detached (snd ?y) = ps_detached ps"
        using False None Inl by (simp_all add: spawnRecord_def Let_def managed_clear)
      have "rec_ok E a (fst ?y) (snd ?y)"
        unfolding rec_ok_def y using agent old by (metis le_SucI Suc_eq_plus1 option.distinct(1))
      moreover have "procs_ok (snd ?y)"
        using p unfolding procs_ok_def y by (blast intro: less_SucI)
      moreover have "moves a (r, ps) ?y" by (rule moves_same) (simp_all add: y)
      ultimately show ?thesis by (simp add: good_def)
    next
      case (Inr pid)
      let ?y = "snd (spawnRecord e sv port reason (r, ps))"
      have y: "rr_managed (fst ?y) = Some \<lparr>mg_child = ?c, mg_pid = pid, mg_generation = ?g\<rparr>"
          "rr_generation (fst ?y) = ?g" "rr_spec (fst ?y) = rr_spec r" "rr_stopTimer (fst ?y) = None"
          "ps_listeners (snd ?y) = om_set ?c (a, ?g) (ps_listeners ps)" "ps_signals (snd ?y) = ps_signals ps"
          "length (ps_calls (snd ?y)) = Suc ?c" "ps_detached (snd ?y) = ps_detached ps"
        using False None Inr agent by (simp_all add: spawnRecord_def Let_def managed_clear)
      have "rec_ok E a (fst ?y) (snd ?y)"
      proof -
        have "g \<le> ?g \<and> (manages (fst ?y) c g \<or> (c, SIGTERM) \<in> set (ps_signals ps) \<or> c \<in> E)"
          if "om_get (om_set ?c (a, ?g) (ps_listeners ps)) c = Some (a, g)" for c g
        proof (cases "c = ?c")
          case True
          then show ?thesis using that by (simp add: manages_def y)
        next
          case False
          then show ?thesis using that old [of c g] by simp
        qed
        then show ?thesis unfolding rec_ok_def y using agent by simp
      qed
      moreover have "procs_ok (snd ?y)"
      proof -
        have "om_get (om_set ?c (a, ?g) (ps_listeners ps)) c = Some x \<Longrightarrow> c < Suc ?c" for c x
          using p unfolding procs_ok_def by (auto split: if_splits intro: less_SucI)
        moreover have "c = d" if "om_get (om_set ?c (a, ?g) (ps_listeners ps)) c = Some x"
            and "om_get (om_set ?c (a, ?g) (ps_listeners ps)) d = Some x" for c d x
        proof -
          have "om_get (ps_listeners ps) c' \<noteq> Some (a, ?g)" for c' using old [of c' ?g] by auto
          moreover have "om_get (ps_listeners ps) c = Some x \<Longrightarrow> om_get (ps_listeners ps) d = Some x \<Longrightarrow> c = d"
            using p unfolding procs_ok_def by blast
          ultimately show ?thesis using that by (auto split: if_splits)
        qed
        ultimately show ?thesis using p unfolding procs_ok_def y by blast
      qed
      moreover have "moves a (r, ps) ?y"
        unfolding moves_def using fresh by (auto simp: y)
      ultimately show ?thesis by (simp add: good_def)
    qed
  qed
qed

subsection \<open>The operations of the supervisor\<close>

definition sup_inv :: "nat set \<Rightarrow> Supervisor \<Rightarrow> bool" where
  "sup_inv E sv \<longleftrightarrow> om_wf (sv_records sv) \<and> procs_ok (sv_procs sv)
     \<and> (\<forall>a r. om_get (sv_records sv) a = Some r \<longrightarrow> rec_ok E a r (sv_procs sv))
     \<and> (\<forall>c a g. om_get (ps_listeners (sv_procs sv)) c = Some (a, g) \<longrightarrow> om_has (sv_records sv) a)"

text \<open>No record manages the child \<open>c\<close>, which has been started.\<close>

definition unowned :: "nat \<Rightarrow> Supervisor \<Rightarrow> bool" where
  "unowned c sv \<longleftrightarrow> c < length (ps_calls (sv_procs sv))
     \<and> (\<forall>a r m. om_get (sv_records sv) a = Some r \<longrightarrow> rr_managed r = Some m \<longrightarrow> mg_child m \<noteq> c)"

text \<open>The changes the operations are made of.\<close>

inductive sup_change :: "nat set \<Rightarrow> Supervisor \<Rightarrow> Supervisor \<Rightarrow> bool" for E where
  kept: "sv_records sv' = sv_records sv \<Longrightarrow> sv_procs sv' = sv_procs sv \<Longrightarrow> sup_change E sv sv'"
| updated: "om_get (sv_records sv) a = Some r \<Longrightarrow>
    good E a (r, sv_procs sv) \<longrightarrow> good E a y \<and> moves a (r, sv_procs sv) y \<Longrightarrow> sup_change E sv (set_record a y sv)"
| signalled: "sv_records sv' = sv_records sv \<Longrightarrow> ps_listeners (sv_procs sv') = ps_listeners (sv_procs sv) \<Longrightarrow>
    ps_calls (sv_procs sv') = ps_calls (sv_procs sv) \<Longrightarrow> set (ps_signals (sv_procs sv)) \<subseteq> set (ps_signals (sv_procs sv')) \<Longrightarrow>
    procs_ok (sv_procs sv) \<longrightarrow> procs_ok (sv_procs sv') \<Longrightarrow> sup_change E sv sv'"
| chained: "sup_change E sv sv1 \<Longrightarrow> sup_change E sv1 sv2 \<Longrightarrow> sup_change E sv sv2"

lemma set_record_sel: "sv_records (set_record a y sv) = om_set a (fst y) (sv_records sv)"
  "sv_procs (set_record a y sv) = snd y"
  by (cases y; simp add: set_record_def)+

lemma set_record_inv:
  assumes inv: "sup_inv E sv" and get: "om_get (sv_records sv) a = Some r" and y: "good E a y"
    and mv: "moves a (r, sv_procs sv) y"
  shows "sup_inv E (set_record a y sv)"
proof -
  have other: "(om_get (ps_listeners (snd y)) c = Some (b, g)) = (om_get (ps_listeners (sv_procs sv)) c = Some (b, g))"
    if "b \<noteq> a" for c b g
    using mv that by (simp add: moves_def)
  have "rec_ok E b q (snd y)" if "om_get (om_set a (fst y) (sv_records sv)) b = Some q" for b q
  proof (cases "b = a")
    case True
    then show ?thesis using that y by (simp add: good_def)
  next
    case False
    then have q: "rec_ok E b q (sv_procs sv)" using that inv unfolding sup_inv_def by (metis fun_upd_other om_simps(1))
    have "set (ps_signals (sv_procs sv)) \<subseteq> set (ps_signals (snd y))" using mv by (simp add: moves_def)
    then show ?thesis by (rule rec_ok_procs [OF q other [OF False]])
  qed
  moreover have "om_has (om_set a (fst y) (sv_records sv)) b" if "om_get (ps_listeners (snd y)) c = Some (b, g)" for c b g
  proof (cases "b = a")
    case False
    then have "om_has (sv_records sv) b" using other that inv unfolding sup_inv_def by blast
    then show ?thesis using False by simp
  qed simp
  moreover have "om_wf (om_set a (fst y) (sv_records sv))" using inv by (auto simp: sup_inv_def)
  ultimately show ?thesis using y unfolding sup_inv_def set_record_sel good_def by blast
qed

lemma set_record_unowned:
  assumes "unowned c sv" and "om_get (sv_records sv) a = Some r" and "moves a (r, sv_procs sv) y"
  shows "unowned c (set_record a y sv)"
proof -
  have "mg_child m \<noteq> c" if "om_get (om_set a (fst y) (sv_records sv)) b = Some q" and "rr_managed q = Some m" for b q m
  proof (cases "b = a")
    case True
    then have "rr_managed r = Some m \<or> length (ps_calls (sv_procs sv)) \<le> mg_child m"
      using that assms(3) by (simp add: moves_def)
    then show ?thesis using assms(1,2) unfolding unowned_def by fastforce
  next
    case False
    then show ?thesis using that assms(1) unfolding unowned_def by (metis fun_upd_other om_simps(1))
  qed
  moreover have "c < length (ps_calls (snd y))" using assms(1,3) unfolding unowned_def moves_def by simp
  ultimately show ?thesis unfolding unowned_def set_record_sel by blast
qed

lemma sup_change_keeps: "sup_change E sv sv' \<Longrightarrow> sup_inv E sv \<Longrightarrow> sup_inv E sv' \<and> (unowned c sv \<longrightarrow> unowned c sv')"
proof (induction rule: sup_change.induct)
  case (kept sv' sv)
  then show ?case unfolding sup_inv_def unowned_def by (simp only:) blast
next
  case (updated sv a r y)
  then have "good E a (r, sv_procs sv)" by (simp add: sup_inv_def good_def)
  then show ?case using updated set_record_inv set_record_unowned by blast
next
  case (signalled sv' sv)
  have "rec_ok E a r (sv_procs sv')" if "om_get (sv_records sv) a = Some r" for a r
  proof (rule rec_ok_procs)
    show "rec_ok E a r (sv_procs sv)" using signalled.prems that unfolding sup_inv_def by blast
  qed (simp_all add: signalled.hyps)
  moreover have "procs_ok (sv_procs sv')" using signalled unfolding sup_inv_def by blast
  ultimately show ?case using signalled.prems unfolding sup_inv_def unowned_def signalled.hyps(1-3) by blast
next
  case (chained sv sv1 sv2)
  then show ?case by blast
qed

lemma sup_change_refl: "sup_change E sv sv"
  by (rule kept) simp_all

lemma sup_change_foldl: "(\<And>sv x. sup_change E sv (f sv x)) \<Longrightarrow> sup_change E sv (foldl f sv xs)"
  by (induction xs arbitrary: sv) (auto intro: sup_change_refl chained)

lemma spawn_change: "om_get (sv_records sv) a = Some r \<Longrightarrow>
    sup_change E sv (set_record a (snd (spawnRecord e sv0 port reason (r, sv_procs sv))) sv)"
  by (rule updated) (use spawnRecord_good in blast)+

lemma stop_change: "om_get (sv_records sv) a = Some r \<Longrightarrow>
    sup_change E sv (set_record a (snd (stopRecord e opts (r, sv_procs sv))) sv)"
  by (rule updated) (use stopRecord_good in blast)+

lemma start_change: "sup_change E sv (sup_start e port reason sv)"
proof -
  have "sup_change E sv1 (start_one e port reason sv1 a)" for sv1 a
    using spawn_change [of sv1 a] by (auto simp: start_one_def case_prod_beta sup_change_refl split: option.split)
  then show ?thesis unfolding sup_start_def Let_def
    by (auto intro: kept chained [OF kept sup_change_foldl])
qed

lemma sup_stop_change: "sup_change E sv (sup_stop e reason sv)"
  unfolding sup_stop_def
  by (rule sup_change_foldl) (auto simp: stop_one_def case_prod_beta sup_change_refl stop_change split: option.split)

lemma stopAgent_change: "sup_change E sv (snd (sup_stopAgent e a opts sv))"
  using stop_change [of sv a]
  by (auto simp: sup_stopAgent_def case_prod_beta controlled_def sup_change_refl split: option.split)

lemma remember_port_sel: "sv_records (snd (remember_port given sv)) = sv_records sv"
  "sv_procs (snd (remember_port given sv)) = sv_procs sv"
  by (simp_all add: remember_port_def split: option.split)

lemma good_desired: "good E a (r, ps) \<Longrightarrow> good E a (r\<lparr>rr_desired := d\<rparr>, ps) \<and> moves a (r, ps) (r\<lparr>rr_desired := d\<rparr>, ps)"
  using rec_ok_cong [of E a r ps "r\<lparr>rr_desired := d\<rparr>"] by (simp add: good_def moves_same) (simp add: rec_ok_def)

lemma startAgent_change: "sup_change E sv (snd (sup_startAgent e a given reason sv))"
proof (cases "om_get (sv_records sv) a")
  case (Some r)
  obtain port sv1 where p: "remember_port given sv = (port, sv1)" by fastforce
  have s: "sv_records sv1 = sv_records sv" "sv_procs sv1 = sv_procs sv" using remember_port_sel [of given sv] p by simp_all
  let ?r = "r\<lparr>rr_desired := WantRunning\<rparr>"
  have "sup_change E sv1 (set_record a (?r, sv_procs sv1) sv1)"
    using Some s good_desired by (intro updated) auto
  moreover have "sup_change E sv1 (set_record a (snd (spawnRecord e sv1 q reason' (?r, sv_procs sv1))) sv1)" for q reason'
  proof (rule updated)
    show "om_get (sv_records sv1) a = Some r" using Some s by simp
    show "good E a (r, sv_procs sv1) \<longrightarrow> good E a (snd (spawnRecord e sv1 q reason' (?r, sv_procs sv1)))
        \<and> moves a (r, sv_procs sv1) (snd (spawnRecord e sv1 q reason' (?r, sv_procs sv1)))"
      using good_desired spawnRecord_good moves_trans by blast
  qed
  moreover have "sup_change E sv sv1" by (rule kept) (simp_all add: s)
  ultimately show ?thesis
    using Some p by (auto simp: sup_startAgent_def Let_def case_prod_beta controlled_def sup_change_refl intro: chained split: option.split)
qed (simp add: sup_startAgent_def sup_change_refl)

lemma restartAgent_change: "sup_change E sv (snd (sup_restartAgent e a given opts sv))"
proof (cases "om_get (sv_records sv) a")
  case (Some r)
  obtain port sv1 where p: "remember_port given sv = (port, sv1)" by fastforce
  have s: "sv_records sv1 = sv_records sv" "sv_procs sv1 = sv_procs sv" using remember_port_sel [of given sv] p by simp_all
  let ?r = "r\<lparr>rr_desired := WantRunning\<rparr>"
  let ?x = "if rr_managed r \<noteq> None then detachAndTerminate e (positiveTimeout (co_timeoutMs opts)) (?r, sv_procs sv1) else (?r, sv_procs sv1)"
  have x: "good E a (r, sv_procs sv1) \<Longrightarrow> good E a ?x \<and> moves a (r, sv_procs sv1) ?x"
    using good_desired [of E a r "sv_procs sv1" WantRunning] detach_good [of E a ?r "sv_procs sv1"]
    by (cases "rr_managed r = None") (auto intro: moves_trans)
  have "sup_change E sv1 (set_record a (snd (spawnRecord e sv1 q reason' ?x)) sv1)" for q reason'
  proof (rule updated)
    show "om_get (sv_records sv1) a = Some r" using Some s by simp
    show "good E a (r, sv_procs sv1) \<longrightarrow> good E a (snd (spawnRecord e sv1 q reason' ?x))
        \<and> moves a (r, sv_procs sv1) (snd (spawnRecord e sv1 q reason' ?x))"
      using x spawnRecord_good [of E a "fst ?x" "snd ?x"] moves_trans unfolding prod.collapse by blast
  qed
  moreover have "sup_change E sv sv1" by (rule kept) (simp_all add: s)
  ultimately show ?thesis
    using Some p by (auto simp: sup_restartAgent_def Let_def case_prod_beta controlled_def sup_change_refl intro: chained split: option.split)
qed (simp add: sup_restartAgent_def sup_change_refl)

lemma procs_undetach: "procs_ok ps \<Longrightarrow> procs_ok (ps\<lparr>ps_detached := om_delete c (ps_detached ps)\<rparr>)"
  unfolding procs_ok_def by simp

lemma child_event_change:
  assumes "c \<in> E \<or> (c, SIGTERM) \<in> set (ps_signals (sv_procs sv))"
  shows "sup_change E sv (child_event e c ev sv)"
proof (cases "om_get (ps_listeners (sv_procs sv)) c")
  case (Some x)
  obtain a g where x: "x = (a, g)" by fastforce
  define ps where "ps = (case ev of ChildExit _ _ \<Rightarrow> (sv_procs sv)\<lparr>ps_detached := om_delete c (ps_detached (sv_procs sv))\<rparr>
      | ChildError _ \<Rightarrow> sv_procs sv)"
  have ps: "ps_listeners ps = ps_listeners (sv_procs sv)" "ps_calls ps = ps_calls (sv_procs sv)"
      "ps_signals ps = ps_signals (sv_procs sv)" "procs_ok (sv_procs sv) \<Longrightarrow> procs_ok ps"
    using procs_undetach by (simp_all add: ps_def split: ChildEvent.split)
  show ?thesis
  proof (cases "om_get (sv_records sv) a")
    case None
    then have "child_event e c ev sv = sv\<lparr>sv_procs := ps\<rparr>" using Some x by (simp add: child_event_def ps_def)
    then show ?thesis using ps by (simp add: signalled)
  next
    case (Some r)
    have "good E a (r, sv_procs sv) \<longrightarrow> good E a (on_child e c g ev r, ps) \<and> moves a (r, sv_procs sv) (on_child e c g ev r, ps)"
    proof
      assume "good E a (r, sv_procs sv)"
      then have ok: "rec_ok E a r (sv_procs sv)" "procs_ok (sv_procs sv)" by (simp_all add: good_def)
      have "rec_ok E a (on_child e c g ev r) ps"
        by (rule rec_ok_procs [OF on_child_ok [OF ok(1) assms]]) (simp_all add: ps)
      then show "good E a (on_child e c g ev r, ps) \<and> moves a (r, sv_procs sv) (on_child e c g ev r, ps)"
        using ps ok on_child_managed [of e c g ev r] by (auto simp: good_def intro: moves_same)
    qed
    moreover have "child_event e c ev sv = set_record a (on_child e c g ev r, ps) sv"
      using Some \<open>om_get (ps_listeners (sv_procs sv)) c = Some x\<close> x by (simp add: child_event_def ps_def)
    ultimately show ?thesis using Some by (simp add: updated)
  qed
qed (simp add: child_event_def sup_change_refl)

lemma stop_timer_change: "sup_change E sv (stop_timer e a sv)"
proof (cases "om_get (sv_records sv) a")
  case (Some r)
  show ?thesis
  proof (cases "rr_stopTimer r")
    case None
    then show ?thesis using Some by (simp add: stop_timer_def sup_change_refl)
  next
    case (Some t)
    let ?r = "r\<lparr>rr_stopTimer := Some (t\<lparr>st_fired := True\<rparr>)\<rparr>"
    have g: "good E a (?r, sv_procs sv) \<and> moves a (r, sv_procs sv) (?r, sv_procs sv)
        \<and> (st_child t, SIGTERM) \<in> set (ps_signals (sv_procs sv))" if "good E a (r, sv_procs sv)"
    proof -
      have ok: "rec_ok E a r (sv_procs sv)" using that by (simp add: good_def)
      then have s: "(st_child t, SIGTERM) \<in> set (ps_signals (sv_procs sv))" using Some by (simp add: rec_ok_def)
      have "rec_ok E a ?r (sv_procs sv)" by (rule rec_ok_cong [OF ok]) (use s in auto)
      then show ?thesis using that s by (simp add: good_def moves_same)
    qed
    have r: "om_get (sv_records sv) a = Some r" by fact
    have same: "sup_change E sv (set_record a (?r, sv_procs sv) sv)" by (rule updated [OF r]) (use g in blast)
    show ?thesis
    proof (cases "rr_managed r")
      case None
      then show ?thesis using r Some same by (simp add: stop_timer_def sup_change_refl Let_def)
    next
      case m: (Some m)
      have "sup_change E sv (set_record a (kill_child e m SIGKILL (?r, sv_procs sv)) sv)" if "mg_child m = st_child t"
      proof (rule updated [OF r], rule impI)
        assume "good E a (r, sv_procs sv)"
        from g [OF this] show "good E a (kill_child e m SIGKILL (?r, sv_procs sv))
            \<and> moves a (r, sv_procs sv) (kill_child e m SIGKILL (?r, sv_procs sv))"
          using kill_child_good [of E a ?r "sv_procs sv" SIGKILL m e] that by (auto intro: moves_trans)
      qed
      then show ?thesis using r Some m same by (simp add: stop_timer_def sup_change_refl Let_def)
    qed
  qed
qed (simp add: stop_timer_def sup_change_refl)

lemma detach_timer_change:
  assumes "sup_inv E sv"
  shows "sup_change E sv (detach_timer e c sv)"
proof (cases "om_get (ps_detached (sv_procs sv)) c")
  case (Some due)
  let ?ps = "(sv_procs sv)\<lparr>ps_signals := ps_signals (sv_procs sv) @ [(c, SIGKILL)],
      ps_detached := om_delete c (ps_detached (sv_procs sv))\<rparr>"
  have s: "(c, SIGTERM) \<in> set (ps_signals (sv_procs sv))"
    using assms Some unfolding sup_inv_def procs_ok_def by blast
  have "procs_ok ?ps" using assms s unfolding sup_inv_def procs_ok_def by auto
  then have "sup_change E sv (sv\<lparr>sv_procs := ?ps\<rparr>)" by (intro signalled) auto
  moreover have "sup_change E (sv\<lparr>sv_procs := ?ps\<rparr>) (child_event e c ev (sv\<lparr>sv_procs := ?ps\<rparr>))" for ev
    by (rule child_event_change) (simp add: s)
  ultimately show ?thesis
    using Some by (auto simp: detach_timer_def Let_def sup_change_refl intro: chained split: option.split)
qed (simp add: detach_timer_def sup_change_refl)

text \<open>The children whose end an operation reports are among \<open>E\<close>.\<close>

fun reports :: "nat set \<Rightarrow> SupEnv \<times> SupOp \<Rightarrow> bool" where
  "reports E (e, SChild c ev) \<longleftrightarrow> c \<in> E"
| "reports E _ \<longleftrightarrow> True"

lemma sup_step_change: "sup_inv E sv \<Longrightarrow> reports E (e, op) \<Longrightarrow> sup_change E sv (sup_step sv (e, op))"
  by (cases op) (auto simp: sup_step_def start_change sup_stop_change startAgent_change stopAgent_change
      restartAgent_change child_event_change stop_timer_change detach_timer_change)

interpretation accounted: trapping_system sup_step "sup_inv E" "reports E" for E
proof
  fix sv and ev :: "SupEnv \<times> SupOp" assume "sup_inv E sv" and "reports E ev"
  then show "sup_inv E (sup_step sv ev)"
    using sup_step_change [of E sv "fst ev" "snd ev"] sup_change_keeps by simp
qed

interpretation disowned: trapping_system sup_step "\<lambda>sv. sup_inv UNIV sv \<and> unowned c sv" "\<lambda>_. True" for c
proof
  fix sv and ev :: "SupEnv \<times> SupOp" assume "sup_inv UNIV sv \<and> unowned c sv"
  moreover obtain e op where "ev = (e, op)" by fastforce
  moreover have "reports UNIV (e, op)" by (cases op) simp_all
  ultimately show "sup_inv UNIV (sup_step sv ev) \<and> unowned c (sup_step sv ev)"
    using sup_step_change [of UNIV sv e op] sup_change_keeps by blast
qed

lemma new_sup_inv: "sup_inv E (new_AgentRuntimeSupervisor pr specs cfg)"
proof -
  have "om_wf m \<and> (\<forall>a r. om_get m a = Some r \<longrightarrow> rec_ok E a r no_processes) \<Longrightarrow>
      om_wf (foldl (\<lambda>m spec. om_set (sp_agentId spec) (new_record b (hubPathFor d (sp_agentId spec)) spec) m) m agents)
      \<and> (\<forall>a r. om_get (foldl (\<lambda>m spec. om_set (sp_agentId spec) (new_record b (hubPathFor d (sp_agentId spec)) spec) m) m agents) a
           = Some r \<longrightarrow> rec_ok E a r no_processes)" for m b d agents
  proof (induction agents arbitrary: m)
    case (Cons spec agents)
    have "rec_ok E (sp_agentId spec) (new_record b (hubPathFor d (sp_agentId spec)) spec) no_processes"
      by (simp add: rec_ok_def new_record_def no_processes_def)
    then show ?case using Cons.prems by (simp only: foldl.simps) (intro Cons.IH, auto)
  qed simp
  note r = this [of "[]"]
  have "procs_ok no_processes" by (simp add: procs_ok_def no_processes_def)
  then show ?thesis
    using r by (simp add: new_AgentRuntimeSupervisor_def Let_def sup_inv_def) (simp add: no_processes_def)
qed

definition ended :: "(SupEnv \<times> SupOp) list \<Rightarrow> nat set" where
  "ended evs = {c. \<exists>e ev. (e, SChild c ev) \<in> set evs}"

lemma run_sup_inv: "sup_inv (ended evs) (sup_run (new_AgentRuntimeSupervisor pr specs cfg) evs)"
  unfolding sup_run_def
proof (rule accounted.run_trap [OF new_sup_inv])
  have "reports (ended evs) x" if "x \<in> set evs" for x
    using that by (cases "(ended evs, x)" rule: reports.cases) (auto simp: ended_def)
  then show "list_all (reports (ended evs)) evs" by (simp add: list_all_iff)
qed

lemma sup_inv_mono: "sup_inv E sv \<Longrightarrow> sup_inv UNIV sv"
  unfolding sup_inv_def rec_ok_def by blast

section \<open>Processes\<close>

text \<open>C14: no process is lost. A child that was ever started for an agent is the one its record
  manages, or has been asked to stop, or has reported its end; the managed child is the latest of
  its agent, and nothing is killed that was not asked to stop before.\<close>

theorem runtime_processes_accounted:
  assumes "sv = sup_run (new_AgentRuntimeSupervisor pr specs cfg) evs"
    and "om_get (ps_listeners (sv_procs sv)) c = Some (a, g)"
  shows "(\<exists>r. om_get (sv_records sv) a = Some r
      \<and> (manages r c g \<or> (c, SIGTERM) \<in> set (ps_signals (sv_procs sv)) \<or> c \<in> ended evs)
      \<and> (\<forall>m. rr_managed r = Some m \<longrightarrow> g \<le> mg_generation m \<and> (g = mg_generation m \<longrightarrow> c = mg_child m)))
    \<and> ((c, SIGKILL) \<in> set (ps_signals (sv_procs sv)) \<longrightarrow> (c, SIGTERM) \<in> set (ps_signals (sv_procs sv)))"
proof -
  have inv: "sup_inv (ended evs) sv" using run_sup_inv assms(1) by simp
  then obtain r where r: "om_get (sv_records sv) a = Some r" using assms(2) unfolding sup_inv_def by blast
  then have ok: "rec_ok (ended evs) a r (sv_procs sv)" and p: "procs_ok (sv_procs sv)" using inv unfolding sup_inv_def by auto
  have "g \<le> mg_generation m \<and> (g = mg_generation m \<longrightarrow> c = mg_child m)" if "rr_managed r = Some m" for m
    using ok p assms(2) that unfolding rec_ok_def procs_ok_def by metis
  then show ?thesis using ok p r assms(2) unfolding rec_ok_def procs_ok_def by blast
qed

text \<open>A child no record manages cannot change a record.\<close>

lemma unowned_event:
  assumes "unowned c sv"
  shows "sv_records (child_event e c ev sv) = sv_records sv"
proof (cases "om_get (ps_listeners (sv_procs sv)) c")
  case (Some x)
  obtain a g where x: "x = (a, g)" by fastforce
  show ?thesis
  proof (cases "om_get (sv_records sv) a")
    case None
    then show ?thesis using Some x by (simp add: child_event_def Let_def)
  next
    case r: (Some r)
    then have "\<not> manages r c g" using assms by (auto simp: unowned_def manages_def split: option.splits)
    then have "on_child e c g ev r = r" by (cases rule: on_child_cases [of r c g e ev]) simp_all
    then show ?thesis using Some x r om_set_get_same [OF r] by (simp add: child_event_def Let_def set_record_sel)
  qed
qed (simp add: child_event_def)

text \<open>C15: a replaced child is harmless. After an accepted restart the earlier child has been asked to
  stop, and whatever it still reports, now or after any further operations, changes no record.\<close>

theorem replaced_child_harmless:
  assumes "sv = sup_run (new_AgentRuntimeSupervisor pr specs cfg) evs0"
    and r: "om_get (sv_records sv) a = Some r" and m: "rr_managed r = Some m"
    and restart: "sup_restartAgent e a given opts sv = (res, sv1)" and ok: "ctl_accepted res"
  shows "(mg_child m, SIGTERM) \<in> set (ps_signals (sv_procs sv1))
    \<and> sv_records (child_event e2 (mg_child m) ev (sup_run sv1 evs)) = sv_records (sup_run sv1 evs)"
proof -
  have inv: "sup_inv UNIV sv" using run_sup_inv assms(1) sup_inv_mono by blast
  then have rok: "rec_ok UNIV a r (sv_procs sv)" and pok: "procs_ok (sv_procs sv)" using r unfolding sup_inv_def by auto
  then have l: "om_get (ps_listeners (sv_procs sv)) (mg_child m) = Some (a, mg_generation m)" using m unfolding rec_ok_def by blast
  then have started: "mg_child m < length (ps_calls (sv_procs sv))" using pok unfolding procs_ok_def by blast
  obtain port sv0 where p: "remember_port given sv = (port, sv0)" by fastforce
  have s: "sv_records sv0 = sv_records sv" "sv_procs sv0 = sv_procs sv" using remember_port_sel [of given sv] p by simp_all
  let ?r = "r\<lparr>rr_desired := WantRunning\<rparr>"
  let ?x = "detachAndTerminate e (positiveTimeout (co_timeoutMs opts)) (?r, sv_procs sv)"
  define y where "y = snd (spawnRecord e sv0 (case_option 0 id port) (case_option ''manual_restart'' id (co_reason opts)) ?x)"
  have sv1: "sv1 = set_record a y sv0"
    using restart ok r m p s unfolding y_def
    by (auto simp: sup_restartAgent_def Let_def case_prod_beta controlled_def controlError_def busy_result_def
        split: option.splits if_splits)
  have "good UNIV a (r, sv_procs sv)" using rok pok by (simp add: good_def)
  note x = detach_good [OF conjunct1 [OF good_desired [OF this, of WantRunning]], of e "positiveTimeout (co_timeoutMs opts)"]
  have y: "good UNIV a y" "moves a ?x y"
    using x spawnRecord_good [of UNIV a "fst ?x" "snd ?x"] unfolding y_def prod.collapse by blast+
  have "after_kill e m SIGTERM ((clearStopTimer ?r)\<lparr>rr_managed := None, rr_stoppingAt := Some (se_now e)\<rparr>) =
      (clearStopTimer ?r)\<lparr>rr_managed := None, rr_stoppingAt := Some (se_now e)\<rparr>" (is "after_kill e m SIGTERM ?q = ?q")
    by (cases rule: on_child_cases [of ?q "mg_child m" "mg_generation m" e "the (se_kill e (mg_child m) SIGTERM)"])
      (auto simp: after_kill_def manages_def split: option.split)
  then have "(mg_child m, SIGTERM) \<in> set (ps_signals (snd ?x))" using m by (simp add: detachAndTerminate_def kill_child_eq)
  then have asked: "(mg_child m, SIGTERM) \<in> set (ps_signals (snd y))" using y(2) unfolding moves_def by blast
  have calls: "length (ps_calls (sv_procs sv)) \<le> length (ps_calls (snd ?x))" and "length (ps_calls (snd ?x)) \<le> length (ps_calls (snd y))"
    using x y(2) unfolding moves_def by auto
  have "mg_child n \<noteq> mg_child m" if "om_get (sv_records sv1) b = Some q" and "rr_managed q = Some n" for b q n
  proof (cases "b = a")
    case True
    then have "rr_managed (fst y) = Some n" using that by (simp add: sv1 set_record_sel)
    then have "length (ps_calls (snd ?x)) \<le> mg_child n" using y(2) x unfolding moves_def by force
    then show ?thesis using calls started by linarith
  next
    case False
    then have "om_get (sv_records sv) b = Some q" using that by (simp add: sv1 set_record_sel s)
    then have "rec_ok UNIV b q (sv_procs sv)" using inv unfolding sup_inv_def by blast
    then have "om_get (ps_listeners (sv_procs sv)) (mg_child n) = Some (b, mg_generation n)" using that(2) unfolding rec_ok_def by blast
    then show ?thesis using l False by auto
  qed
  then have "unowned (mg_child m) sv1"
    using started calls \<open>length (ps_calls (snd ?x)) \<le> length (ps_calls (snd y))\<close>
    unfolding unowned_def by (simp add: sv1 set_record_sel)
  moreover have "sup_inv UNIV sv1"
    using restartAgent_change [of UNIV sv e a given opts] sup_change_keeps inv restart by (metis snd_conv)
  ultimately have "unowned (mg_child m) (sup_run sv1 evs)"
    using disowned.run_trap [of sv1 "mg_child m" evs] by (simp add: sup_run_def list_all_iff)
  then show ?thesis using asked unowned_event by (simp add: sv1 set_record_sel)
qed

section \<open>Work in the hub\<close>

text \<open>The dispatch is accepted or running.\<close>

definition working :: "string \<Rightarrow> AgentHub \<Rightarrow> bool" where
  "working rid h \<longleftrightarrow> (\<exists>row. om_get (hub_dispatches h) rid = Some row \<and> dr_status row \<in> {DAccepted, DRunning})"

lemma working_change:
  "dispatch_change op d d' \<Longrightarrow> \<not> finishes op rid \<Longrightarrow> om_get d rid = Some row \<Longrightarrow> dr_status row \<in> {DAccepted, DRunning} \<Longrightarrow>
     \<exists>row'. om_get d' rid = Some row' \<and> dr_status row' \<in> {DAccepted, DRunning}"
  by (induction rule: dispatch_change.induct) auto

interpretation work: trapping_system hub_step "working rid" "\<lambda>ev. \<not> finishes (snd ev) rid" for rid
proof
  fix h and ev :: "HubEnv \<times> HubOp" assume "working rid h" and "\<not> finishes (snd ev) rid"
  then show "working rid (hub_step h ev)"
    using working_change [OF hub_step_dispatches [of "snd ev" h "fst ev"]] unfolding working_def by fastforce
qed

lemma recorded_working:
  assumes "recordInboundDispatch he payload h = (Inr res, h1)" and "\<not> in_duplicate res"
  shows "working (in_requestId res) h1"
proof (cases rule: record_cases [of he payload h])
  case (new rid t x h')
  then show ?thesis using assms insert_effect(3) [OF new(4)] by (auto simp: working_def)
qed (use assms in auto)

lemma working_busy:
  assumes "working rid h" and "se_hub e (rr_hubPath r) = HubOpened (hub_tables h)"
    and "validateLocalSqlitePath (se_here e) (rr_hubPath r) = None"
  shows "fst (busyWork e r) > 0 \<or> snd (busyWork e r) > 0"
proof -
  obtain row where row: "om_get (hub_dispatches h) rid = Some row" "dr_status row \<in> {DAccepted, DRunning}"
    using assms(1) unfolding working_def by blast
  then have "row \<in> set (om_values (hub_dispatches h))" by (metis in_set_zipE map_of_SomeD snd_conv zip_map_fst_snd)
  then have "dr_status row \<in> set (map dr_status (om_values (hub_dispatches h)))" unfolding set_map [of dr_status] by (rule imageI)
  moreover have "length (filter (\<lambda>x. x = s) xs) > 0" if "s \<in> set xs" for s :: AgentDispatchStatus and xs
    using that by (simp add: filter_empty_conv)
  ultimately have "countStatus (hub_tables h) (dr_status row) > 0"
    unfolding countStatus_def hub_tables_def HubTables.simps option.case by blast
  then show ?thesis using row(2) assms(2,3) by (auto simp: busyWork_def inspectHub_def Let_def)
qed

text \<open>C13: a runtime that has work is left alone, as long as its hub can be read. Once the hub has recorded a new dispatch, and until
  the dispatch is reported as succeeded or failed, a stop or restart without force is refused and
  changes nothing, whatever else happens in the hub.\<close>

theorem busy_runtime_kept:
  assumes "recordInboundDispatch he payload h = (Inr res, h1)" and "\<not> in_duplicate res"
    and "list_all (\<lambda>ev. \<not> finishes (snd ev) (in_requestId res)) evs"
    and hub: "se_hub e (rr_hubPath r) = HubOpened (hub_tables (hub_run h1 evs))"
    and path: "validateLocalSqlitePath (se_here e) (rr_hubPath r) = None"
    and r: "om_get (sv_records sv) a = Some r" and m: "rr_managed r \<noteq> None"
    and f: "\<not> co_force opts" and on: "sv_enabled sv" and b: "sv_blocker sv = None"
  shows "sup_stopAgent e a opts sv = (busy_result e sv CStop r, sv)
    \<and> sup_restartAgent e a given opts sv = (busy_result e sv CRestart r, sv)"
proof -
  have "working (in_requestId res) (hub_run h1 evs)"
    using work.run_trap [OF recorded_working [OF assms(1,2)]] assms(3) by (simp add: hub_run_def)
  then have "busy_refused e sv opts r"
    using working_busy [OF _ hub path] m f by (auto simp: busy_refused_def case_prod_beta)
  then show ?thesis using r on b by (simp add: sup_stopAgent_def sup_restartAgent_def)
qed

text \<open>A hub that cannot be read counts as one without work.\<close>

lemma unreadable_hub_idle:
  assumes "se_hub e (rr_hubPath r) = HubBroken message"
  shows "\<not> busy_refused e sv opts r"
  using assms by (simp add: busy_refused_def busyWork_def inspectHub_def empty_hub_snapshot_def split: option.split)

section \<open>Parking\<close>

text \<open>A fold over the keys treats each record once.\<close>

lemma foldl_records:
  assumes "distinct ks" and "Q sv"
    and keep: "\<And>sv x. Q sv \<Longrightarrow> Q (f sv x)"
    and other: "\<And>sv x b. b \<noteq> x \<Longrightarrow> om_get (sv_records (f sv x)) b = om_get (sv_records sv) b"
    and own: "\<And>sv x r. Q sv \<Longrightarrow> om_get (sv_records sv) x = Some r \<Longrightarrow> \<exists>r'. om_get (sv_records (f sv x)) x = Some r' \<and> P r r'"
    and "a \<in> set ks" and "om_get (sv_records sv) a = Some r"
  shows "\<exists>r'. om_get (sv_records (foldl f sv ks)) a = Some r' \<and> P r r'"
  using assms(1,2,6,7)
proof (induction ks arbitrary: sv r)
  case (Cons k ks)
  have rest: "om_get (sv_records (foldl f sv1 xs)) b = om_get (sv_records sv1) b" if "b \<notin> set xs" for sv1 xs b
    using that by (induction xs arbitrary: sv1) (auto simp: other)
  show ?case
  proof (cases "a = k")
    case True
    then show ?thesis using own [OF Cons.prems(2), of k r] Cons.prems rest [of a ks "f sv k"] by auto
  next
    case False
    then show ?thesis using Cons.IH [of "f sv k" r] Cons.prems keep other by auto
  qed
qed simp

lemma key_member: "om_get m a = Some r \<Longrightarrow> a \<in> set (om_keys m)"
  by (metis domI dom_map_of_conv_image_fst list.set_map)

definition parked :: "ControlOptions" where
  "parked = \<lparr>co_reason = Some ''resource_idle'', co_force = True, co_timeoutMs = None, co_sticky = Some False\<rparr>"

lemma stop_parked:
  assumes "om_wf (sv_records sv)" and "om_get (sv_records sv) a = Some r"
  shows "\<exists>r'. om_get (sv_records (sup_stop e ''resource_idle'' sv)) a = Some r'
    \<and> rr_desired r' = rr_desired r \<and> (rr_managed r' = None \<or> rr_managed r' = rr_managed r)"
proof -
  have one: "rr_desired (fst (snd (stopRecord e parked (r, ps)))) = rr_desired r
      \<and> (rr_managed (fst (snd (stopRecord e parked (r, ps)))) = None \<or> rr_managed (fst (snd (stopRecord e parked (r, ps)))) = rr_managed r)"
    for r ps
  proof (cases "rr_managed r")
    case (Some m)
    have "rr_desired (after_kill e m SIGTERM q) = rr_desired q \<and> (rr_managed (after_kill e m SIGTERM q) = None
        \<or> rr_managed (after_kill e m SIGTERM q) = rr_managed q)" for q
    proof (cases "se_kill e (mg_child m) SIGTERM")
      case (Some ev)
      have "rr_desired (on_child e c g ev q) = rr_desired q" for c g
        by (cases ev) (simp_all add: handleExit_def handleError_def clearStopTimer_def)
      then show ?thesis using Some on_child_managed by (simp add: after_kill_def)
    qed (simp add: after_kill_def)
    from this [of "r\<lparr>rr_state := SStopping, rr_stoppingAt := Some (se_now e), rr_lastReason := Some ''resource_idle''\<rparr>"]
    show ?thesis using Some by (auto simp: stopRecord_def parked_def Let_def kill_child_eq armStopTimer_def)
  qed (simp add: stopRecord_def parked_def Let_def)
  have eq: "sup_stop e ''resource_idle'' sv = foldl (stop_one e parked) sv (om_keys (sv_records sv))"
    by (simp add: sup_stop_def parked_def)
  show ?thesis unfolding eq
  proof (rule foldl_records [where Q = "\<lambda>_. True" and P = "\<lambda>r r'. rr_desired r' = rr_desired r \<and> (rr_managed r' = None \<or> rr_managed r' = rr_managed r)"])
    fix sv :: Supervisor and x b :: string assume "b \<noteq> x"
    then show "om_get (sv_records (stop_one e parked sv x)) b = om_get (sv_records sv) b"
      by (simp add: stop_one_def case_prod_beta set_record_sel split: option.split)
  next
    fix sv :: Supervisor and x r assume "om_get (sv_records sv) x = Some r"
    then show "\<exists>r'. om_get (sv_records (stop_one e parked sv x)) x = Some r' \<and> rr_desired r' = rr_desired r
        \<and> (rr_managed r' = None \<or> rr_managed r' = rr_managed r)"
      using one by (simp add: stop_one_def case_prod_beta set_record_sel)
  qed (rule assms(1) TrueI key_member [OF assms(2)] assms(2))+
qed

text \<open>Events of children keep what is wanted, and an event of the managed child frees the record.\<close>

fun is_child_event :: "SupEnv \<times> SupOp \<Rightarrow> bool" where
  "is_child_event (e, SChild c ev) = True"
| "is_child_event _ = False"

lemma child_event_record:
  assumes "om_get (sv_records sv) a = Some r"
  shows "\<exists>r'. om_get (sv_records (child_event e c ev sv)) a = Some r' \<and> rr_desired r' = rr_desired r
    \<and> (rr_managed r' = None \<or> rr_managed r' = rr_managed r)
    \<and> (om_get (ps_listeners (sv_procs sv)) c = Some (a, g) \<and> manages r c g \<longrightarrow> rr_managed r' = None)"
proof -
  have d: "rr_desired (on_child e c g ev r) = rr_desired r" for g
    by (cases ev) (simp_all add: handleExit_def handleError_def clearStopTimer_def)
  have n: "manages r c g \<Longrightarrow> rr_managed (on_child e c g ev r) = None" for g
    by (cases rule: on_child_cases [of r c g e ev]) simp_all
  have k: "rr_managed (on_child e c g ev r) = None \<or> rr_managed (on_child e c g ev r) = rr_managed r" for g
    by (rule on_child_managed)
  show ?thesis
  proof (cases "om_get (ps_listeners (sv_procs sv)) c")
    case None
    then show ?thesis using assms by (simp add: child_event_def)
  next
    case (Some x)
    obtain b g0 where x: "x = (b, g0)" by fastforce
    show ?thesis
    proof (cases "b = a")
      case True
      then show ?thesis using assms Some x d [of g0] n [of g0] k [of g0] by (auto simp: child_event_def Let_def set_record_sel)
    next
      case False
      then show ?thesis using assms Some x
        by (cases "om_get (sv_records sv) b") (simp_all add: child_event_def Let_def set_record_sel)
    qed
  qed
qed

lemma child_event_listeners: "ps_listeners (sv_procs (child_event e c ev sv)) = ps_listeners (sv_procs sv)"
  by (auto simp: child_event_def Let_def set_record_sel split: option.split ChildEvent.split)

lemma child_run_record:
  assumes "list_all is_child_event evs" and "om_get (sv_records sv) a = Some r"
    and "\<And>m. rr_managed r = Some m \<Longrightarrow> om_get (ps_listeners (sv_procs sv)) (mg_child m) = Some (a, mg_generation m)
      \<and> mg_child m \<in> ended evs"
  shows "\<exists>r'. om_get (sv_records (sup_run sv evs)) a = Some r' \<and> rr_desired r' = rr_desired r \<and> rr_managed r' = None"
  using assms
proof (induction evs arbitrary: sv r)
  case Nil
  then show ?case by (cases "rr_managed r") (auto simp: sup_run_def ended_def)
next
  case (Cons x evs)
  obtain e c ev where x: "x = (e, SChild c ev)" using Cons.prems(1) by (cases x rule: is_child_event.cases) simp_all
  let ?sv = "child_event e c ev sv"
  obtain r' where r': "om_get (sv_records ?sv) a = Some r'" "rr_desired r' = rr_desired r"
      "rr_managed r' = None \<or> rr_managed r' = rr_managed r"
      "\<And>g. om_get (ps_listeners (sv_procs sv)) c = Some (a, g) \<and> manages r c g \<Longrightarrow> rr_managed r' = None"
  proof -
    obtain q where q: "om_get (sv_records ?sv) a = Some q" using child_event_record [OF Cons.prems(2)] by blast
    show thesis
    proof (rule that [OF q])
      show "rr_desired q = rr_desired r" "rr_managed q = None \<or> rr_managed q = rr_managed r"
        using child_event_record [OF Cons.prems(2), of e c ev] q by auto
      show "\<And>g. om_get (ps_listeners (sv_procs sv)) c = Some (a, g) \<and> manages r c g \<Longrightarrow> rr_managed q = None"
        using child_event_record [OF Cons.prems(2), of e c ev] q by (metis option.inject)
    qed
  qed
  have "om_get (ps_listeners (sv_procs ?sv)) (mg_child m) = Some (a, mg_generation m) \<and> mg_child m \<in> ended evs"
    if m: "rr_managed r' = Some m" for m
  proof -
    have rm: "rr_managed r = Some m" using r'(3) m by simp
    then have l: "om_get (ps_listeners (sv_procs sv)) (mg_child m) = Some (a, mg_generation m)" "mg_child m \<in> ended (x # evs)"
      using Cons.prems(3) by blast+
    have "c \<noteq> mg_child m"
    proof
      assume "c = mg_child m"
      then have "manages r c (mg_generation m)" using rm by (simp add: manages_def)
      then show False using r'(4) [of "mg_generation m"] l(1) \<open>c = mg_child m\<close> m by simp
    qed
    then show ?thesis using l by (auto simp: ended_def x child_event_listeners)
  qed
  then have "\<exists>r2. om_get (sv_records (sup_run ?sv evs)) a = Some r2 \<and> rr_desired r2 = rr_desired r' \<and> rr_managed r2 = None"
    using Cons.prems(1) by (intro Cons.IH [OF _ r'(1)]) simp_all
  then show ?case using r'(2) by (simp add: sup_run_def x sup_step_def)
qed

lemma start_wanted:
  assumes "om_wf (sv_records sv)" and r: "om_get (sv_records sv) a = Some r" and "rr_managed r = None"
    and "sv_enabled sv" and "sv_blocker sv = None" and spawn: "\<And>n. \<exists>pid. se_spawn e n = Inr pid"
  shows "\<exists>r'. om_get (sv_records (sup_start e port reason sv)) a = Some r' \<and> rr_desired r' = rr_desired r
    \<and> (rr_desired r = WantRunning \<longrightarrow> rr_managed r' \<noteq> None \<and> rr_state r' = SRunning)
    \<and> (rr_desired r = WantStopped \<longrightarrow> rr_managed r' = None)"
proof -
  define P where "P r r' \<longleftrightarrow> rr_managed r = None \<longrightarrow> rr_desired r' = rr_desired r
    \<and> (rr_desired r = WantRunning \<longrightarrow> rr_managed r' \<noteq> None \<and> rr_state r' = SRunning)
    \<and> (rr_desired r = WantStopped \<longrightarrow> rr_managed r' = None)" for r r' :: RuntimeRecord
  define Q where "Q sv \<longleftrightarrow> sv_enabled sv \<and> sv_blocker sv = None" for sv :: Supervisor
  let ?sv = "sv\<lparr>sv_port := Some port\<rparr>"
  have "\<exists>r'. om_get (sv_records (foldl (start_one e port reason) ?sv (om_keys (sv_records ?sv)))) a = Some r' \<and> P r r'"
  proof (rule foldl_records [where Q = Q])
    fix s :: Supervisor and x b :: string
    show "Q s \<Longrightarrow> Q (start_one e port reason s x)"
      by (simp add: Q_def start_one_def case_prod_beta set_record_def split: option.split)
    show "b \<noteq> x \<Longrightarrow> om_get (sv_records (start_one e port reason s x)) b = om_get (sv_records s) b"
      by (simp add: start_one_def case_prod_beta set_record_sel split: option.split)
    fix q assume q: "Q s" "om_get (sv_records s) x = Some q"
    obtain pid where pid: "se_spawn e (length (ps_calls (sv_procs s))) = Inr pid" using spawn by blast
    show "\<exists>r'. om_get (sv_records (start_one e port reason s x)) x = Some r' \<and> P q r'"
    proof (cases "rr_desired q")
      case WantRunning
      then show ?thesis using q pid
        by (auto simp: start_one_def case_prod_beta set_record_sel P_def Q_def spawnRecord_def Let_def clearStopTimer_def)
    next
      case WantStopped
      then show ?thesis using q by (simp add: start_one_def P_def)
    qed
  qed (use assms(1,4,5) r key_member [OF r] in \<open>simp_all add: Q_def\<close>)
  then show ?thesis using assms(3,4) by (auto simp: sup_start_def Let_def P_def)
qed

lemma stop_frame:
  "sv_enabled (sup_stop e reason sv) = sv_enabled sv" "sv_blocker (sup_stop e reason sv) = sv_blocker sv"
proof -
  have "sv_enabled (foldl (stop_one e opts) sv ks) = sv_enabled sv \<and> sv_blocker (foldl (stop_one e opts) sv ks) = sv_blocker sv"
    for opts ks
    by (induction ks arbitrary: sv) (auto simp: stop_one_def case_prod_beta set_record_def split: option.split)
  then show "sv_enabled (sup_stop e reason sv) = sv_enabled sv" "sv_blocker (sup_stop e reason sv) = sv_blocker sv"
    by (simp_all add: sup_stop_def)
qed

lemma child_run_frame:
  "list_all is_child_event evs \<Longrightarrow> sv_enabled (sup_run sv evs) = sv_enabled sv \<and> sv_blocker (sup_run sv evs) = sv_blocker sv"
proof (induction evs arbitrary: sv)
  case (Cons x evs)
  obtain e c ev where x: "x = (e, SChild c ev)" using Cons.prems by (cases x rule: is_child_event.cases) simp_all
  have "sv_enabled (child_event e c ev sv) = sv_enabled sv \<and> sv_blocker (child_event e c ev sv) = sv_blocker sv"
    by (simp add: child_event_def Let_def set_record_def split: option.split)
  then show ?case using Cons by (simp add: sup_run_def x sup_step_def)
qed (simp add: sup_run_def)

text \<open>C16: parking is undone, where spawns work. When the supervisor is parked because the system is idle, every
  managed child then ends, and the supervisor is started again with spawns that work, exactly the
  runtimes that were wanted before are running, and those stopped by hand stay stopped.\<close>

theorem parked_runtimes_resume:
  assumes "sv = sup_run (new_AgentRuntimeSupervisor pr specs cfg) evs0" and "sv_enabled sv" and "sv_blocker sv = None"
    and evs: "list_all is_child_event evs"
    and ends: "\<And>b q m. om_get (sv_records sv) b = Some q \<Longrightarrow> rr_managed q = Some m \<Longrightarrow> mg_child m \<in> ended evs"
    and spawn: "\<And>n. \<exists>pid. se_spawn e2 n = Inr pid"
    and r: "om_get (sv_records sv) a = Some r"
  shows "\<exists>r2. om_get (sv_records (sup_start e2 port reason (sup_run (sup_stop e ''resource_idle'' sv) evs))) a = Some r2
    \<and> rr_desired r2 = rr_desired r
    \<and> (rr_desired r = WantRunning \<longrightarrow> rr_managed r2 \<noteq> None \<and> rr_state r2 = SRunning)
    \<and> (rr_desired r = WantStopped \<longrightarrow> rr_managed r2 = None)"
proof -
  let ?sv1 = "sup_stop e ''resource_idle'' sv"
  let ?sv2 = "sup_run ?sv1 evs"
  have inv: "sup_inv UNIV sv" using run_sup_inv assms(1) sup_inv_mono by blast
  have inv1: "sup_inv UNIV ?sv1" using sup_change_keeps [OF sup_stop_change inv] by blast
  have "list_all (reports UNIV) evs" unfolding list_all_iff
  proof
    show "reports UNIV x" for x by (cases "(UNIV :: nat set, x)" rule: reports.cases) simp_all
  qed
  then have inv2: "sup_inv UNIV ?sv2" using accounted.run_trap [OF inv1] by (simp add: sup_run_def)
  have wf: "om_wf (sv_records sv)" "om_wf (sv_records ?sv2)" using inv inv2 unfolding sup_inv_def by blast+
  obtain r1 where r1: "om_get (sv_records ?sv1) a = Some r1" "rr_desired r1 = rr_desired r"
      "rr_managed r1 = None \<or> rr_managed r1 = rr_managed r"
    using stop_parked [OF wf(1) r] by blast
  have "om_get (ps_listeners (sv_procs ?sv1)) (mg_child m) = Some (a, mg_generation m) \<and> mg_child m \<in> ended evs"
    if "rr_managed r1 = Some m" for m
    using that r1 ends [OF r] inv1 unfolding sup_inv_def rec_ok_def by auto
  then obtain r2 where r2: "om_get (sv_records ?sv2) a = Some r2" "rr_desired r2 = rr_desired r1" "rr_managed r2 = None"
    using child_run_record [OF evs r1(1)] by blast
  have "sv_enabled ?sv2" "sv_blocker ?sv2 = None" using child_run_frame [OF evs] stop_frame assms(2,3) by simp_all
  then show ?thesis using start_wanted [OF wf(2) r2(1,3) _ _ spawn] r2(2) r1(2) by simp
qed

text \<open>When the start comes before the children have ended, it is lost: the record still manages the
  child that is about to end, and when it does the record is stopped although it is wanted.\<close>

lemma resume_before_exit_lost:
  assumes "rr_managed r = Some m" and "rr_state r = SStopping" and "sv_enabled sv"
  shows "spawnRecord e sv port reason (r, ps) = (False, r, ps)"
    and "rr_state (handleExit now (mg_child m) (mg_generation m) code sig r) = SStopped"
    and "rr_managed (handleExit now (mg_child m) (mg_generation m) code sig r) = None"
    and "rr_desired (handleExit now (mg_child m) (mg_generation m) code sig r) = rr_desired r"
  using assms by (simp_all add: spawnRecord_def handleExit_def manages_def clearStopTimer_def)

section \<open>Hub files\<close>

text \<open>The hub file of an agent is in a directory of its own right under the hub directory, whatever
  characters the agent's id has.\<close>

theorem hub_path_confined:
  assumes "starts_with ''/'' hubDir"
  shows "path_segs (hubPathFor hubDir agentId) = path_segs hubDir @ [safePathSegment agentId, ''agent-hub.sqlite'']
    \<and> clean_seg (safePathSegment agentId)"
  unfolding hubPathFor_def
  using path_segs_joins [OF assms, of "[safePathSegment agentId, ''agent-hub.sqlite'']"] safe_segment_clean
  by (simp add: clean_seg_def)

theorem hub_path_confined_witness:
  "path_segs (hubPathFor ''/data/agents'' ''../../etc'') = [''data'', ''agents'', ''.._.._etc'', ''agent-hub.sqlite'']"
proof -
  have "safePathSegment ''../../etc'' = ''.._.._etc''" "path_segs ''/data/agents'' = [''data'', ''agents'']"
    by code_simp+
  then show ?thesis using hub_path_confined [of "''/data/agents''" "''../../etc''"] by (simp add: starts_with_def)
qed

text \<open>Two agents whose ids differ only in such characters have the same hub file.\<close>

lemma hub_paths_collide: "hubPathFor d ''a b'' = hubPathFor d ''a_b''"
proof -
  have "safePathSegment ''a b'' = safePathSegment ''a_b''" by code_simp
  then show ?thesis by (simp add: hubPathFor_def)
qed

section \<open>An example\<close>

definition example_spec :: AgentRuntimeSpec where
  "example_spec = \<lparr>sp_agentId = ''shaev'', sp_provider = ''p'', sp_runtime = ''claude-shaev'', sp_capabilities = None,
     sp_trustTier = None, sp_cwd = None, sp_model = None, sp_enabled = None, sp_command = None, sp_args = None, sp_allowEnv = None\<rparr>"

definition example_process :: Process where
  "example_process = \<lparr>pr_cwd = ''/w'', pr_env = \<lambda>_. None, pr_execPath = ''node'', pr_home = ''/h''\<rparr>"

definition example_config :: SupervisorConfig where
  "example_config = \<lparr>cf_enabled = Some True, cf_parkOnIdle = None, cf_cwd = None, cf_hubDir = Some ''/h'', cf_nodeBin = None,
     cf_scriptPath = None, cf_host = None, cf_agents = Some [example_spec],
     cf_env = Some (\<lambda>n. if n = AGENT_HUB_SECRET_ENV then Some example_secret else None)\<rparr>"

definition example_sup :: Supervisor where
  "example_sup = new_AgentRuntimeSupervisor example_process [] example_config"

definition example_sup_env :: SupEnv where
  "example_sup_env = \<lparr>se_now = 5, se_penv = \<lambda>_. None, se_here = ''/w'', se_home = ''/h'',
     se_fs = \<lparr>fs_exists = \<lambda>_. False, fs_entries = \<lambda>_. None\<rparr>, se_hub = \<lambda>_. HubMissing,
     se_spawn = \<lambda>_. Inr (Some 7), se_kill = \<lambda>_ _. None\<rparr>"

lemma example_hub_path: "hubPathFor ''/h'' ''shaev'' = ''/h/shaev/agent-hub.sqlite''"
  by code_simp

lemma example_sup:
  "sv_enabled example_sup" "sv_blocker example_sup = None" "sv_procs example_sup = no_processes"
  "sv_records example_sup = [(''shaev'', new_record True ''/h/shaev/agent-hub.sqlite'' example_spec)]"
proof -
  have v: "validateLocalSqlitePath ''/w'' (path_joins [''/h'', ''probe.sqlite'']) = None" by code_simp
  have k: "isValidAgentHubSecret (Some example_secret)" by code_simp
  show "sv_enabled example_sup" "sv_blocker example_sup = None" "sv_procs example_sup = no_processes"
    "sv_records example_sup = [(''shaev'', new_record True ''/h/shaev/agent-hub.sqlite'' example_spec)]"
    using v k example_hub_path
    by (simp_all add: example_sup_def new_AgentRuntimeSupervisor_def example_process_def example_config_def Let_def example_spec_def)
qed

definition example_running :: Supervisor where
  "example_running = sup_run example_sup [(example_sup_env, SStart 80 ''boot'')]"

definition example_managed :: ManagedRuntime where
  "example_managed = \<lparr>mg_child = 0, mg_pid = Some 7, mg_generation = 1\<rparr>"

lemma example_running:
  "sv_enabled example_running" "sv_blocker example_running = None"
  "om_get (ps_listeners (sv_procs example_running)) 0 = Some (''shaev'', 1)"
  "\<exists>r. om_get (sv_records example_running) ''shaev'' = Some r \<and> rr_managed r = Some example_managed
     \<and> rr_hubPath r = ''/h/shaev/agent-hub.sqlite'' \<and> rr_desired r = WantRunning"
  "om_get (sv_records example_running) b = Some q \<Longrightarrow> b = ''shaev''"
  by (auto simp: example_running_def sup_run_def sup_step_def sup_start_def start_one_def spawnRecord_def set_record_def Let_def
      example_sup new_record_def example_sup_env_def no_processes_def example_managed_def example_spec_def clearStopTimer_def
      split: if_splits)

theorem runtime_processes_accounted_witness:
  "\<exists>r. om_get (sv_records example_running) ''shaev'' = Some r
    \<and> (manages r 0 1 \<or> (0, SIGTERM) \<in> set (ps_signals (sv_procs example_running)))"
  using runtime_processes_accounted [OF _ example_running(3), of example_process "[]" example_config "[(example_sup_env, SStart 80 ''boot'')]"]
  by (auto simp: example_running_def example_sup_def ended_def)

definition example_options :: ControlOptions where
  "example_options = \<lparr>co_reason = None, co_force = False, co_timeoutMs = None, co_sticky = None\<rparr>"

theorem replaced_child_harmless_witness:
  "\<exists>sv1. snd (sup_restartAgent example_sup_env ''shaev'' None example_options example_running) = sv1
    \<and> (0, SIGTERM) \<in> set (ps_signals (sv_procs sv1))
    \<and> sv_records (child_event example_sup_env 0 (ChildError ''late'') sv1) = sv_records sv1"
proof -
  obtain r where r: "om_get (sv_records example_running) ''shaev'' = Some r" "rr_managed r = Some example_managed"
      "rr_hubPath r = ''/h/shaev/agent-hub.sqlite''"
    using example_running(4) by blast
  have v: "validateLocalSqlitePath ''/w'' ''/h/shaev/agent-hub.sqlite'' = None" by code_simp
  obtain res sv1 where e: "sup_restartAgent example_sup_env ''shaev'' None example_options example_running = (res, sv1)" by fastforce
  have "\<not> busy_refused example_sup_env example_running example_options r"
    using r(3) v by (simp add: busy_refused_def busyWork_def inspectHub_def example_sup_env_def empty_hub_snapshot_def)
  then have "ctl_accepted (fst (sup_restartAgent example_sup_env ''shaev'' None example_options example_running))"
    using r example_running(1,2) by (simp add: sup_restartAgent_def case_prod_beta Let_def controlled_def)
  then have ok: "ctl_accepted res" using e by simp
  have "example_running = sup_run (new_AgentRuntimeSupervisor example_process [] example_config) [(example_sup_env, SStart 80 ''boot'')]"
    by (simp add: example_running_def example_sup_def)
  from replaced_child_harmless [OF this r(1,2) e ok, of example_sup_env "ChildError ''late''" "[]"]
  show ?thesis using e by (simp add: example_managed_def sup_run_def)
qed

theorem busy_runtime_kept_witness:
  "\<exists>res h1 r. recordInboundDispatch (hub_env 1) example_dispatch (empty_hub\<lparr>hub_agentId := ''a''\<rparr>) = (Inr res, h1)
    \<and> sup_stopAgent (example_sup_env\<lparr>se_hub := \<lambda>_. HubOpened (hub_tables h1)\<rparr>) ''shaev'' example_options example_running =
        (busy_result (example_sup_env\<lparr>se_hub := \<lambda>_. HubOpened (hub_tables h1)\<rparr>) example_running CStop r, example_running)"
proof -
  obtain res h1 where rec: "recordInboundDispatch (hub_env 1) example_dispatch (empty_hub\<lparr>hub_agentId := ''a''\<rparr>) = (Inr res, h1)"
      and new: "\<not> in_duplicate res"
    using example_recorded by blast
  obtain r where r: "om_get (sv_records example_running) ''shaev'' = Some r" "rr_managed r = Some example_managed"
      "rr_hubPath r = ''/h/shaev/agent-hub.sqlite''"
    using example_running(4) by blast
  have "validateLocalSqlitePath ''/w'' ''/h/shaev/agent-hub.sqlite'' = None" by code_simp
  then have v: "validateLocalSqlitePath (se_here (example_sup_env\<lparr>se_hub := \<lambda>_. HubOpened (hub_tables h1)\<rparr>)) (rr_hubPath r) = None"
    using r(3) by (simp add: example_sup_env_def)
  have "sup_stopAgent (example_sup_env\<lparr>se_hub := \<lambda>_. HubOpened (hub_tables h1)\<rparr>) ''shaev'' example_options example_running =
        (busy_result (example_sup_env\<lparr>se_hub := \<lambda>_. HubOpened (hub_tables h1)\<rparr>) example_running CStop r, example_running)"
    using busy_runtime_kept [OF rec new, of "[]", OF _ _ v r(1) _ _ example_running(1,2), of example_options None] r(2)
    by (simp add: hub_run_def example_options_def)
  then show ?thesis using rec by blast
qed

theorem parked_runtimes_resume_witness:
  "\<exists>r. om_get (sv_records (sup_start example_sup_env 80 ''resource_active''
      (sup_run (sup_stop example_sup_env ''resource_idle'' example_running) [(example_sup_env, SChild 0 (ChildExit (Some 0) None))])))
      ''shaev'' = Some r \<and> rr_state r = SRunning"
proof -
  obtain r where r: "om_get (sv_records example_running) ''shaev'' = Some r" "rr_managed r = Some example_managed" "rr_desired r = WantRunning"
    using example_running(4) by blast
  have eq: "example_running = sup_run (new_AgentRuntimeSupervisor example_process [] example_config) [(example_sup_env, SStart 80 ''boot'')]"
    by (simp add: example_running_def example_sup_def)
  let ?evs = "[(example_sup_env, SChild 0 (ChildExit (Some 0) None))]"
  have "\<exists>r2. om_get (sv_records (sup_start example_sup_env 80 ''resource_active''
        (sup_run (sup_stop example_sup_env ''resource_idle'' example_running) ?evs))) ''shaev'' = Some r2
      \<and> rr_desired r2 = rr_desired r
      \<and> (rr_desired r = WantRunning \<longrightarrow> rr_managed r2 \<noteq> None \<and> rr_state r2 = SRunning)
      \<and> (rr_desired r = WantStopped \<longrightarrow> rr_managed r2 = None)"
  proof (rule parked_runtimes_resume [OF eq example_running(1,2)])
    show "mg_child m \<in> ended ?evs" if "om_get (sv_records example_running) b = Some q" and "rr_managed q = Some m" for b q m
      using that example_running(5) [OF that(1)] r by (auto simp: ended_def example_managed_def)
    show "\<exists>pid. se_spawn example_sup_env n = Inr pid" for n by (simp add: example_sup_env_def)
  qed (simp_all add: r(1))
  then show ?thesis using r(3) by auto
qed

end
