(* ===== verification/Cockpit.thy ===== *)
theory Cockpit
  imports Json
begin

text \<open>
  \<open>src/packages/spatial-war-room/src/store/snapshotNormalizers.ts\<close> with \<open>snapshotTypes.ts\<close>: what the
  cockpit makes of the snapshots the server sends. The input is any JavaScript value as
  \<open>JSON.parse\<close> and the code itself build them; the output is a typed record or nothing. The
  lemmas show that whatever is sent, what is taken is well typed.
\<close>

section \<open>Values\<close>

datatype jsval = VUndef | VNull | VBool bool | VNum jsnum | VStr string | VArr "jsval list"
  | VObj "(string \<times> jsval) list"

text \<open>A property of an object; arrays have none of the names the code asks for.\<close>

fun vget :: "jsval \<Rightarrow> string \<Rightarrow> jsval" where
  "vget (VObj kvs) k = (case om_get kvs k of Some v \<Rightarrow> v | None \<Rightarrow> VUndef)"
| "vget _ k = VUndef"

text \<open>\<open>a ?? b\<close> and \<open>a || b\<close>.\<close>

fun coalesce :: "jsval \<Rightarrow> jsval \<Rightarrow> jsval" where
  "coalesce VUndef b = b"
| "coalesce VNull b = b"
| "coalesce a b = a"

fun truthy_val :: "jsval \<Rightarrow> bool" where
  "truthy_val VUndef = False"
| "truthy_val VNull = False"
| "truthy_val (VBool b) = b"
| "truthy_val (VNum (Num q)) = (q \<noteq> 0)"
| "truthy_val (VNum NaN) = False"
| "truthy_val (VStr s) = (s \<noteq> [])"
| "truthy_val _ = True"

definition js_or :: "jsval \<Rightarrow> jsval \<Rightarrow> jsval" where
  "js_or a b = (if truthy_val a then a else b)"

text \<open>The first of the named properties that is there, as a chain of \<open>??\<close>.\<close>

fun first_of :: "jsval \<Rightarrow> string list \<Rightarrow> jsval" where
  "first_of r [] = VUndef"
| "first_of r [k] = vget r k"
| "first_of r (k # ks) = coalesce (vget r k) (first_of r ks)"

fun asRecord :: "jsval \<Rightarrow> jsval option" where
  "asRecord (VObj kvs) = Some (VObj kvs)"
| "asRecord (VArr xs) = Some (VArr xs)"
| "asRecord _ = None"

fun stringValue :: "jsval \<Rightarrow> string option" where
  "stringValue (VStr s) = (if trim s \<noteq> [] then Some (trim s) else None)"
| "stringValue _ = None"

fun numberValue :: "jsval \<Rightarrow> rat option" where
  "numberValue (VNum (Num q)) = Some q"
| "numberValue _ = None"

fun booleanValue :: "jsval \<Rightarrow> bool \<Rightarrow> bool" where
  "booleanValue (VBool b) fallback = b"
| "booleanValue _ fallback = fallback"

text \<open>\<open>o[k] = v\<close> on an object literal: the key \<open>__proto__\<close> sets the prototype instead.\<close>

definition obj_set :: "string \<Rightarrow> 'v \<Rightarrow> (string, 'v) omap \<Rightarrow> (string, 'v) omap" where
  "obj_set k v m = (if k = ''__proto__'' then m else om_set k v m)"

fun str_includes :: "string \<Rightarrow> string \<Rightarrow> bool" where
  "str_includes w [] = (w = [])"
| "str_includes w (c # s) = (starts_with w (c # s) \<or> str_includes w s)"

section \<open>Types\<close>

datatype AgentLifecycleAction = LifeStart | LifeStop | LifeRestart

datatype AgentRuntimeLifecycleStatus = RsRunning | RsStopped | RsStarting | RsStopping | RsFailed | RsUnknown

datatype AgentHubHealthStatus = HhOk | HhStale | HhMissing | HhError | HhUnknown

datatype CockpitMode = CmActive | CmIdle

record AgentRuntimeEntry =
  re_agentId :: string
  re_runtime :: string
  re_running :: bool
  re_pid :: "rat option"
  re_hubPath :: "string option"
  re_status :: AgentRuntimeLifecycleStatus
  re_managed :: bool
  re_lastError :: "string option"
  re_updatedAt :: rat

record AgentRuntimeSnapshot =
  rn_enabled :: bool
  rn_parkOnIdle :: bool
  rn_configured :: rat
  rn_running :: rat
  rn_agents :: "(string, AgentRuntimeEntry) omap"
  rn_updatedAt :: rat

record ResourceModeSnapshot =
  rv_enabled :: bool
  rv_mode :: CockpitMode
  rv_idleAfterMs :: rat
  rv_sweepIntervalMs :: rat
  rv_lastActivityAt :: rat
  rv_lastActivityReason :: string
  rv_idleForMs :: rat
  rv_trimCount :: rat
  rv_lastTrimmedAt :: "rat option"
  rv_updatedAt :: rat

record AgentHubHealth =
  hu_agentId :: string
  hu_status :: AgentHubHealthStatus
  hu_dispatches :: "rat option"
  hu_accepted :: "rat option"
  hu_running :: "rat option"
  hu_succeeded :: "rat option"
  hu_failed :: "rat option"
  hu_memories :: "rat option"
  hu_checkedAt :: "rat option"
  hu_lastWriteAt :: "rat option"
  hu_schemaVersion :: "string option"
  hu_hubPath :: "string option"
  hu_error :: "string option"

section \<open>Normalising\<close>

definition normalizeRuntimeStatus :: "string option \<Rightarrow> bool \<Rightarrow> AgentRuntimeLifecycleStatus" where
  "normalizeRuntimeStatus v running =
     (let normalized = map_option (\<lambda>s. toLowerCase (trim s)) v;
          has = (\<lambda>w. case normalized of None \<Rightarrow> False | Some s \<Rightarrow> str_includes w s)
      in if has ''start'' \<and> \<not> has ''started'' then RsStarting
         else if has ''stop'' \<and> \<not> has ''stopped'' then RsStopping
         else if normalized \<in> {Some ''running'', Some ''started'', Some ''agent_runtime_started''} then RsRunning
         else if normalized \<in> {Some ''stopped'', Some ''exited'', Some ''agent_runtime_stopped'', Some ''agent_runtime_exited''} then RsStopped
         else if normalized \<in> {Some ''failed'', Some ''error'', Some ''spawn_failed'', Some ''agent_runtime_spawn_failed''} then RsFailed
         else if running then RsRunning else RsStopped)"

definition normalizeAgentRuntimeEntry :: "jsval \<Rightarrow> rat \<Rightarrow> AgentRuntimeEntry option" where
  "normalizeAgentRuntimeEntry v updatedAt =
     (case asRecord v of
        None \<Rightarrow> None
      | Some r \<Rightarrow>
          (case stringValue (first_of r [''agentId'', ''agent_id'', ''id'']) of
             None \<Rightarrow> None
           | Some agentId \<Rightarrow>
               let rawStatus = stringValue (first_of r [''status'', ''state'', ''kind'', ''type'']);
                   statusToken = map_option (\<lambda>s. toLowerCase (trim s)) rawStatus;
                   running = booleanValue (vget r ''running'')
                     (statusToken \<in> {Some ''running'', Some ''started'', Some ''agent_runtime_started''})
               in Some \<lparr>re_agentId = agentId, re_runtime = case_option ''unknown'' id (stringValue (vget r ''runtime'')),
                    re_running = running, re_pid = numberValue (vget r ''pid''),
                    re_hubPath = stringValue (first_of r [''hubPath'', ''hub_path'']),
                    re_status = normalizeRuntimeStatus rawStatus running,
                    re_managed = booleanValue (vget r ''managed'') True,
                    re_lastError = stringValue (first_of r [''lastError'', ''error'', ''reason'']),
                    re_updatedAt = case_option updatedAt id (numberValue (first_of r [''updatedAt'', ''timestamp'']))\<rparr>))"

definition runtimeAgentItems :: "jsval \<Rightarrow> jsval list" where
  "runtimeAgentItems v = (case v of VArr xs \<Rightarrow> xs | VObj kvs \<Rightarrow> map snd (own_order kvs) | _ \<Rightarrow> [])"

fun runtime_entries :: "rat \<Rightarrow> jsval list \<Rightarrow> (string, AgentRuntimeEntry) omap \<Rightarrow> (string, AgentRuntimeEntry) omap" where
  "runtime_entries updatedAt [] agents = agents"
| "runtime_entries updatedAt (raw # rest) agents =
     runtime_entries updatedAt rest
       (case normalizeAgentRuntimeEntry raw updatedAt of Some e \<Rightarrow> obj_set (re_agentId e) e agents | None \<Rightarrow> agents)"

definition running_count :: "(string, AgentRuntimeEntry) omap \<Rightarrow> rat" where
  "running_count agents = of_nat (length (filter re_running (om_values agents)))"

definition normalizeAgentRuntimeSnapshot :: "rat \<Rightarrow> jsval \<Rightarrow> AgentRuntimeSnapshot option" where
  "normalizeAgentRuntimeSnapshot now v =
     (case asRecord v of
        None \<Rightarrow> None
      | Some r \<Rightarrow>
          let updatedAt = case_option now id (numberValue (vget r ''updatedAt''));
              rawAgents = runtimeAgentItems (vget r ''agents'');
              agents = runtime_entries updatedAt rawAgents []
          in Some \<lparr>rn_enabled = booleanValue (vget r ''enabled'') False,
               rn_parkOnIdle = booleanValue (first_of r [''parkOnIdle'', ''park_on_idle'']) True,
               rn_configured = case_option (of_nat (length rawAgents)) id (numberValue (vget r ''configured'')),
               rn_running = case_option (running_count agents) id (numberValue (vget r ''running'')),
               rn_agents = agents, rn_updatedAt = updatedAt\<rparr>)"

definition normalizeResourceModeSnapshot :: "rat \<Rightarrow> jsval \<Rightarrow> ResourceModeSnapshot option" where
  "normalizeResourceModeSnapshot now v =
     (case asRecord v of
        None \<Rightarrow> None
      | Some r \<Rightarrow>
          let mode = stringValue (vget r ''mode'');
              num = (\<lambda>k. case_option 0 id (numberValue (vget r k)))
          in if mode \<noteq> Some ''active'' \<and> mode \<noteq> Some ''idle'' then None
             else Some \<lparr>rv_enabled = booleanValue (vget r ''enabled'') True,
               rv_mode = (if mode = Some ''active'' then CmActive else CmIdle),
               rv_idleAfterMs = num ''idleAfterMs'', rv_sweepIntervalMs = num ''sweepIntervalMs'',
               rv_lastActivityAt = num ''lastActivityAt'',
               rv_lastActivityReason = case_option ''unknown'' id (stringValue (vget r ''lastActivityReason'')),
               rv_idleForMs = num ''idleForMs'', rv_trimCount = num ''trimCount'',
               rv_lastTrimmedAt = numberValue (vget r ''lastTrimmedAt''),
               rv_updatedAt = case_option now id (numberValue (vget r ''updatedAt''))\<rparr>)"

definition normalizeHubHealthStatus :: "string option \<Rightarrow> AgentHubHealthStatus" where
  "normalizeHubHealthStatus v =
     (let normalized = map_option (\<lambda>s. toLowerCase (trim s)) v in
      if normalized \<in> {Some ''ok'', Some ''healthy''} then HhOk
      else if normalized = Some ''stale'' then HhStale
      else if normalized \<in> {Some ''missing'', Some ''not_found''} then HhMissing
      else if normalized \<in> {Some ''error'', Some ''failed''} then HhError
      else HhUnknown)"

definition normalizeHubHealthEntry :: "jsval \<Rightarrow> string option \<Rightarrow> AgentHubHealth option" where
  "normalizeHubHealthEntry v fallbackAgentId =
     (case asRecord v of
        None \<Rightarrow> None
      | Some r \<Rightarrow>
          let agentId = (case stringValue (first_of r [''agentId'', ''agent_id'', ''id'']) of Some a \<Rightarrow> Some a | None \<Rightarrow> fallbackAgentId);
              num = (\<lambda>k. numberValue (vget r k))
          in if \<not> truthy_str agentId then None
             else Some \<lparr>hu_agentId = the agentId,
               hu_status = normalizeHubHealthStatus (stringValue (first_of r [''status'', ''health'', ''state''])),
               hu_dispatches = num ''dispatches'', hu_accepted = num ''accepted'', hu_running = num ''running'',
               hu_succeeded = num ''succeeded'', hu_failed = num ''failed'', hu_memories = num ''memories'',
               hu_checkedAt = numberValue (first_of r [''checkedAt'', ''timestamp'']),
               hu_lastWriteAt = numberValue (first_of r [''lastWriteAt'', ''updatedAt'']),
               hu_schemaVersion = stringValue (first_of r [''schemaVersion'', ''schema_version'']),
               hu_hubPath = stringValue (first_of r [''hubPath'', ''hub_path'', ''dbPath'']),
               hu_error = stringValue (first_of r [''error'', ''reason''])\<rparr>)"

fun health_entries :: "(string option \<times> jsval) list \<Rightarrow> (string, AgentHubHealth) omap \<Rightarrow> (string, AgentHubHealth) omap" where
  "health_entries [] out = out"
| "health_entries ((fallback, entry) # rest) out =
     health_entries rest
       (case normalizeHubHealthEntry entry fallback of Some h \<Rightarrow> obj_set (hu_agentId h) h out | None \<Rightarrow> out)"

definition normalizeHubHealthSnapshot :: "jsval \<Rightarrow> (string, AgentHubHealth) omap option" where
  "normalizeHubHealthSnapshot v =
     (case v of
        VArr xs \<Rightarrow> Some (health_entries (map (\<lambda>x. (None, x)) xs) [])
      | VObj kvs \<Rightarrow>
          (case first_of v [''agents'', ''items'', ''hubs''] of
             VArr xs \<Rightarrow> Some (health_entries (map (\<lambda>x. (None, x)) xs) [])
           | _ \<Rightarrow> Some (health_entries (map (\<lambda>(k, x). (Some k, x)) (own_order kvs)) []))
      | _ \<Rightarrow> None)"

end
