(* ===== verification/WarRoom.thy ===== *)
theory WarRoom
  imports Cockpit TaskClaims
begin

text \<open>
  \<open>src/packages/spatial-war-room/src/store/useWarRoomStore.ts\<close>: the store of the cockpit. Its state
  is one record; each operation is the function the store holds under that name, from the state
  to the next. Where an update throws, the state stays as it was, as \<open>set\<close> then never runs. The
  clock and the random numbers are arguments. The canvas library's own reducers
  (\<open>applyNodeChanges\<close>, \<open>applyEdgeChanges\<close>, \<open>addEdge\<close>) are parameters.
\<close>

section \<open>Values\<close>

text \<open>\<open>{ ...a, ...b }\<close> for what the properties of \<open>b\<close> are.\<close>

definition merge :: "(string, jsval) omap \<Rightarrow> (string, jsval) omap \<Rightarrow> (string, jsval) omap" where
  "merge a b = foldl (\<lambda>m (k, v). om_set k v m) a b"

definition indexed :: "jsval list \<Rightarrow> (string, jsval) omap" where
  "indexed xs = zip (map show_nat [0..<length xs]) xs"

fun spread :: "jsval \<Rightarrow> (string, jsval) omap" where
  "spread (VObj kvs) = kvs"
| "spread (VArr xs) = indexed xs"
| "spread (VStr s) = indexed (map (\<lambda>c. VStr [c]) s)"
| "spread _ = []"

text \<open>\<open>[...v]\<close>: nothing when \<open>v\<close> cannot be iterated.\<close>

fun iterate :: "jsval \<Rightarrow> jsval list option" where
  "iterate (VArr xs) = Some xs"
| "iterate (VStr s) = Some (map (\<lambda>c. VStr [c]) s)"
| "iterate _ = None"

definition data_get :: "(string, jsval) omap \<Rightarrow> string \<Rightarrow> jsval" where
  "data_get d k = vget (VObj d) k"

definition text_or :: "jsval \<Rightarrow> string \<Rightarrow> string" where
  "text_or v fallback = (case v of VStr s \<Rightarrow> if s \<noteq> [] then s else fallback | _ \<Rightarrow> fallback)"

text \<open>What every plain object inherits, so that \<open>o[k]\<close> is there for these names too.\<close>

definition inherited_names :: "string list" where
  "inherited_names =
     [''__proto__'', ''constructor'', ''hasOwnProperty'', ''isPrototypeOf'', ''propertyIsEnumerable'',
      ''toLocaleString'', ''toString'', ''valueOf'', ''__defineGetter__'', ''__defineSetter__'',
      ''__lookupGetter__'', ''__lookupSetter__'']"

section \<open>Data\<close>

datatype HardwareStatus = HwOk | HwUnavailable | HwError

record HardwareTelemetry =
  hw_status :: HardwareStatus
  hw_timestamp :: rat
  hw_freeMb :: rat
  hw_usedMb :: rat
  hw_totalMb :: rat
  hw_utilizationPct :: rat
  hw_devices :: rat
  hw_error :: "string option"

record AgentCardPayload =
  acp_id :: string
  acp_name :: string
  acp_provider :: string
  acp_description :: "string option"
  acp_mcp_capabilities :: "string list option"
  acp_vram_requirements :: "string option"
  acp_trust_tier :: "rat option"
  acp_portrait_url :: "string option"
  acp_accent_hex :: "string option"

record ANXBriefing =
  anx_id :: string
  anx_raw :: string
  anx_receivedAt :: int

record ConversationTopic =
  wt_id :: string
  wt_title :: string
  wt_participants :: "string list"
  wt_active :: bool
  wt_traceCycleId :: "string option"

datatype MessageRole = RoleSystem | RoleUser | RoleAssistant

record ConversationMessage =
  wm_id :: string
  wm_topicId :: string
  wm_senderId :: string
  wm_role :: MessageRole
  wm_content :: string
  wm_timestamp :: int

record PhaseEvent =
  wph_cycleId :: string
  wph_taskHash :: string
  wph_phase :: string
  wph_previous :: "string option"
  wph_timestamp :: rat
  wph_routedAgent :: "string option"
  wph_note :: "string option"

datatype RosterStatus = RoOnline | RoIdle | RoDispatching | RoOffline

datatype Presence = PrLive | PrStale | PrAbsent

record ChairBadge =
  cb_sessionId :: string
  cb_claimedAt :: rat
  cb_lastBeaconAt :: rat
  cb_presence :: Presence
  cb_host :: "string option"
  cb_note :: "string option"
  cb_inboxUrl :: "string option"

record AgentRosterCard =
  ro_id :: string
  ro_name :: string
  ro_provider :: string
  ro_description :: "string option"
  ro_mcp_capabilities :: "string list option"
  ro_vram_requirements :: "string option"
  ro_trust_tier :: "rat option"
  ro_status :: RosterStatus
  ro_lastSeen :: "rat option"
  ro_portrait_url :: "string option"
  ro_accent_hex :: "string option"
  ro_chair :: "ChairBadge option"

datatype ChairKind = CkClaimed | CkHeartbeat | CkReleased | CkStale | CkExpired

datatype BeaconStatus = BsOnline | BsStale | BsOffline

record BeaconChair =
  bc_agentId :: string
  bc_sessionId :: string
  bc_provider :: string
  bc_capabilities :: "string list"
  bc_trustTier :: rat
  bc_claimedAt :: rat
  bc_lastBeaconAt :: rat
  bc_status :: BeaconStatus
  bc_host :: "string option"
  bc_note :: "string option"
  bc_inboxUrl :: "string option"

record ChairEventPayload =
  cep_kind :: ChairKind
  cep_agentId :: string
  cep_sessionId :: string
  cep_status :: BeaconStatus
  cep_timestamp :: rat
  cep_reason :: "string option"
  cep_chair :: "BeaconChair option"

record RateLimitSnapshot =
  rls_agentId :: string
  rls_inWindow :: rat
  rls_capacity :: rat
  rls_windowMs :: rat
  rls_blocked :: bool
  rls_resetAtMs :: "rat option"

record TokenTotals =
  tt_input :: rat
  tt_output :: rat
  tt_total :: rat
  tt_runtimeMs :: rat
  tt_cycles :: rat

datatype HookMoment = AfterCreate | BeforeRun | AfterRun | BeforeRemove

record HookEvent =
  hke_name :: string
  hke_event :: HookMoment
  hke_success :: bool
  hke_durationMs :: rat
  hke_timedOut :: bool
  hke_error :: "string option"
  hke_receivedAt :: int

datatype ReconcileKind = StallDetected | TerminalCleanup

record ReconcileAction =
  wra_kind :: ReconcileKind
  wra_taskHash :: string
  wra_previousState :: string
  wra_ageMs :: rat
  wra_timestamp :: rat

datatype RetryKind = RkScheduled | RkDispatching | RkExhausted

record RetryDispatchInfo =
  rdi_taskHash :: string
  rdi_attempt :: rat
  rdi_backoffMs :: rat
  rdi_scheduledFor :: rat
  rdi_reason :: string

record RetryEvent =
  wre_kind :: RetryKind
  wre_taskHash :: "string option"
  wre_attempts :: "rat option"
  wre_reason :: "string option"
  wre_dispatch :: "RetryDispatchInfo option"
  wre_receivedAt :: int

datatype VoteRole = Proponent | Critic | Judge

datatype VoteVerdict = VvApprove | VvReject | VvAbstain

record CommitteeVotePayload =
  cvp_agentId :: string
  cvp_role :: VoteRole
  cvp_verdict :: VoteVerdict
  cvp_confidence :: rat
  cvp_rationale :: string

datatype VerdictStatus = VsAccepted | VsFailed | VsNeedsSidecar

record CommitteeVerdictPayload =
  cvd_id :: string
  cvd_status :: VerdictStatus
  cvd_supportScore :: rat
  cvd_confidenceMean :: rat
  cvd_sidecars :: "string list"
  cvd_dissent :: "CommitteeVotePayload list"
  cvd_trace :: "(string option \<times> (string option \<times> string option) list option) option"

datatype CommitteeEventType = CeStarted | CeVote | CeVerdict | CeFailed

record CommitteeEvent =
  cev_type :: CommitteeEventType
  cev_topicId :: string
  cev_receivedAt :: int
  cev_vote :: "CommitteeVotePayload option"
  cev_verdict :: "CommitteeVerdictPayload option"

datatype CircuitKind = CkOpen | CkRecovered | CkHalfOpen | CkFailure

datatype CircuitShown = ShClosed | ShOpen | ShHalfOpen

record ChairCircuitEvent =
  wce_type :: CircuitKind
  wce_agentId :: string
  wce_state :: CircuitShown
  wce_failures :: rat
  wce_lastReason :: "string option"
  wce_timestamp :: rat

datatype SelfHealKind = ShSkipped | ShApplied | ShReverted | ShFailed

record SelfHealEvent =
  she_type :: SelfHealKind
  she_cycleId :: string
  she_taskHash :: string
  she_attempt :: rat
  she_reason :: "string option"
  she_timestamp :: rat

record ComfyPreview =
  cfy_id :: string
  cfy_agentId :: string
  cfy_fallback :: bool
  cfy_width :: rat
  cfy_height :: rat
  cfy_mimeType :: string
  cfy_promptId :: "string option"
  cfy_svg :: "string option"
  cfy_streamUrl :: "string option"
  cfy_receivedAt :: int

record InterAgentMessage =
  iam_id :: string
  iam_timestamp :: rat
  iam_senderId :: string
  iam_senderName :: string
  iam_recipientId :: string
  iam_recipientName :: string
  iam_content :: string

record WarRoomNode =
  nd_id :: string
  nd_type :: string
  nd_position :: "rat \<times> rat"
  nd_data :: "(string, jsval) omap"

record 'e WarRoomState =
  wr_nodes :: "WarRoomNode list"
  wr_edges :: "'e list"
  wr_hardware :: "HardwareTelemetry option"
  wr_anxBriefings :: "ANXBriefing list"
  wr_phaseEvents :: "PhaseEvent list"
  wr_agentRoster :: "AgentRosterCard list"
  wr_claimStats :: "ClaimState \<Rightarrow> int"
  wr_recentClaims :: "ClaimEvent list"
  wr_retryEvents :: "RetryEvent list"
  wr_committeeEvents :: "CommitteeEvent list"
  wr_committeeVerdicts :: "(string, CommitteeVerdictPayload) omap"
  wr_chairCircuits :: "(string, ChairCircuitEvent) omap"
  wr_selfHealEvents :: "SelfHealEvent list"
  wr_comfyPreviews :: "ComfyPreview list"
  wr_retryPendingCount :: int
  wr_reconcileActions :: "ReconcileAction list"
  wr_wsConnected :: bool
  wr_selectedCycleId :: "string option"
  wr_hookEvents :: "HookEvent list"
  wr_tokenTotals :: TokenTotals
  wr_rateLimits :: "(string, RateLimitSnapshot) omap"
  wr_agentRuntimes :: "AgentRuntimeSnapshot option"
  wr_resourceMode :: "ResourceModeSnapshot option"
  wr_hubHealthByAgent :: "(string, AgentHubHealth) omap"
  wr_pendingLifecycleActions :: "(string, AgentLifecycleAction) omap"
  wr_lifecycleErrors :: "(string, string) omap"
  wr_flushCount :: nat
  wr_receiptsIssued :: nat
  wr_interAgentChatEnabled :: bool
  wr_interAgentChatTechnical :: bool
  wr_interAgentMessages :: "InterAgentMessage list"
  wr_activeTopicId :: "string option"
  wr_topics :: "ConversationTopic list"
  wr_messagesByTopic :: "(string, ConversationMessage list) omap"
  wr_stoppingCriterion :: "(string, string \<times> string \<times> rat) omap"
  wr_theaterTab :: bool
  wr_pendingTelemetry :: "(string, (string, jsval) omap) omap"
  wr_pendingHardware :: "HardwareTelemetry option"
  wr_pendingHardwareDirty :: bool

text \<open>The store as the module creates it, for the tab of the address.\<close>

definition system_ready :: WarRoomNode where
  "system_ready = \<lparr>nd_id = ''system-ready'', nd_type = ''agentHeartbeat'', nd_position = (0, 0),
     nd_data = [(''label'', VStr ''VPC_SYSTEM_READY''), (''status'', VStr ''SYNCHRONIZING'')]\<rparr>"

definition useWarRoomStore :: "string option \<Rightarrow> 'e WarRoomState" where
  "useWarRoomStore tab = \<lparr>
     wr_nodes = [system_ready], wr_edges = [], wr_hardware = None, wr_anxBriefings = [], wr_phaseEvents = [],
     wr_agentRoster = [], wr_claimStats = (\<lambda>_. 0), wr_recentClaims = [], wr_retryEvents = [],
     wr_committeeEvents = [], wr_committeeVerdicts = [], wr_chairCircuits = [], wr_selfHealEvents = [],
     wr_comfyPreviews = [], wr_retryPendingCount = 0, wr_reconcileActions = [], wr_wsConnected = False,
     wr_selectedCycleId = None, wr_hookEvents = [],
     wr_tokenTotals = \<lparr>tt_input = 0, tt_output = 0, tt_total = 0, tt_runtimeMs = 0, tt_cycles = 0\<rparr>,
     wr_rateLimits = [], wr_agentRuntimes = None, wr_resourceMode = None, wr_hubHealthByAgent = [],
     wr_pendingLifecycleActions = [], wr_lifecycleErrors = [], wr_flushCount = 0, wr_receiptsIssued = 0,
     wr_interAgentChatEnabled = False, wr_interAgentChatTechnical = False, wr_interAgentMessages = [],
     wr_activeTopicId = None, wr_topics = [], wr_messagesByTopic = [], wr_stoppingCriterion = [],
     wr_theaterTab = (tab = Some ''theater''),
     wr_pendingTelemetry = [], wr_pendingHardware = None, wr_pendingHardwareDirty = False\<rparr>"

section \<open>The canvas\<close>

definition onNodesChange :: "('c \<Rightarrow> WarRoomNode list \<Rightarrow> WarRoomNode list) \<Rightarrow> 'c \<Rightarrow> 'e WarRoomState \<Rightarrow> 'e WarRoomState" where
  "onNodesChange applyNodeChanges changes s = s\<lparr>wr_nodes := applyNodeChanges changes (wr_nodes s)\<rparr>"

definition onEdgesChange :: "('c \<Rightarrow> 'e list \<Rightarrow> 'e list) \<Rightarrow> 'c \<Rightarrow> 'e WarRoomState \<Rightarrow> 'e WarRoomState" where
  "onEdgesChange applyEdgeChanges changes s = s\<lparr>wr_edges := applyEdgeChanges changes (wr_edges s)\<rparr>"

text \<open>The ends a drawn connection may have, and the request it sends.\<close>

definition id_char :: "char \<Rightarrow> bool" where
  "id_char c = (c \<in> set ''ABCDEFGHIJKLMNOPQRSTUVWXYZabcdefghijklmnopqrstuvwxyz0123456789_.:-'')"

definition safeConnectionId :: "string option \<Rightarrow> string option" where
  "safeConnectionId v =
     (case v of
        None \<Rightarrow> None
      | Some s \<Rightarrow> let trimmed = trim s in
          if trimmed \<noteq> [] \<and> length trimmed \<le> 128 \<and> list_all id_char trimmed then Some trimmed else None)"

record Connection =
  cn_source :: "string option"
  cn_target :: "string option"
  cn_sourceHandle :: "string option"
  cn_targetHandle :: "string option"

definition postTraceReroute :: "Connection \<Rightarrow> Connection option" where
  "postTraceReroute connection =
     (let source = safeConnectionId (cn_source connection); target = safeConnectionId (cn_target connection) in
      if \<not> truthy_str source \<or> \<not> truthy_str target then None
      else Some \<lparr>cn_source = source, cn_target = target,
             cn_sourceHandle = safeConnectionId (cn_sourceHandle connection),
             cn_targetHandle = safeConnectionId (cn_targetHandle connection)\<rparr>)"

definition onConnect :: "(Connection \<Rightarrow> 'e list \<Rightarrow> 'e list) \<Rightarrow> Connection \<Rightarrow> 'e WarRoomState
    \<Rightarrow> Connection option \<times> 'e WarRoomState" where
  "onConnect addEdge connection s =
     (postTraceReroute connection, s\<lparr>wr_edges := addEdge connection (wr_edges s)\<rparr>)"

section \<open>The pressure valve\<close>

definition enqueueTelemetry :: "string \<Rightarrow> (string, jsval) omap \<Rightarrow> 'e WarRoomState \<Rightarrow> 'e WarRoomState" where
  "enqueueTelemetry i telemetry s =
     s\<lparr>wr_pendingTelemetry := om_set i
         (case om_get (wr_pendingTelemetry s) i of Some existing \<Rightarrow> merge existing telemetry | None \<Rightarrow> telemetry)
         (wr_pendingTelemetry s)\<rparr>"

definition enqueueHardware :: "HardwareTelemetry \<Rightarrow> 'e WarRoomState \<Rightarrow> 'e WarRoomState" where
  "enqueueHardware metrics s = s\<lparr>wr_pendingHardware := Some metrics, wr_pendingHardwareDirty := True\<rparr>"

definition update_data :: "(string, jsval) omap \<Rightarrow> (string, jsval) omap \<Rightarrow> (string, jsval) omap" where
  "update_data t d =
     om_set ''telemetry'' (VObj (merge (spread (data_get d ''telemetry'')) t))
       (om_set ''status'' (js_or (data_get t ''status'') (data_get d ''status'')) d)"

text \<open>The nodes with their updates, and the updates no node has taken.\<close>

fun take_updates :: "WarRoomNode list \<Rightarrow> (string, (string, jsval) omap) omap
    \<Rightarrow> WarRoomNode list \<times> (string, (string, jsval) omap) omap" where
  "take_updates [] updates = ([], updates)"
| "take_updates (n # ns) updates =
     (case om_get updates (nd_id n) of
        None \<Rightarrow> (let (ns', u) = take_updates ns updates in (n # ns', u))
      | Some t \<Rightarrow>
          (let (ns', u) = take_updates ns (om_delete (nd_id n) updates)
           in (n\<lparr>nd_data := update_data t (nd_data n)\<rparr> # ns', u)))"

definition heartbeat_node :: "rat \<times> rat \<Rightarrow> string \<Rightarrow> (string, jsval) omap \<Rightarrow> WarRoomNode" where
  "heartbeat_node r i t = \<lparr>nd_id = i, nd_type = ''agentHeartbeat'', nd_position = (fst r * 600, snd r * 400),
     nd_data = [(''label'', js_or (data_get t ''label'') (VStr i)),
                (''status'', js_or (data_get t ''status'') (VStr ''ONLINE'')),
                (''telemetry'', VObj t)]\<rparr>"

fun new_nodes :: "(nat \<Rightarrow> rat \<times> rat) \<Rightarrow> nat \<Rightarrow> string list \<Rightarrow> (string, (string, jsval) omap) omap \<Rightarrow> WarRoomNode list" where
  "new_nodes rnd n known [] = []"
| "new_nodes rnd n known ((i, t) # updates) =
     (if i \<in> set known then new_nodes rnd n known updates
      else heartbeat_node (rnd n) i t # new_nodes rnd (Suc n) known updates)"

definition flushPressureValve :: "(nat \<Rightarrow> rat \<times> rat) \<Rightarrow> 'e WarRoomState \<Rightarrow> 'e WarRoomState" where
  "flushPressureValve rnd s =
     (if wr_pendingTelemetry s = [] \<and> \<not> wr_pendingHardwareDirty s then s
      else
        let known = map nd_id (wr_nodes s);
            (ns, updates) = take_updates (wr_nodes s) (wr_pendingTelemetry s);
            s1 = s\<lparr>wr_nodes := ns @ new_nodes rnd 0 known updates, wr_pendingTelemetry := [],
                   wr_flushCount := wr_flushCount s + 1\<rparr>
        in if wr_pendingHardwareDirty s \<and> wr_pendingHardware s \<noteq> None
           then s1\<lparr>wr_hardware := wr_pendingHardware s, wr_pendingHardwareDirty := False\<rparr>
           else s1)"

section \<open>Nodes and the roster\<close>

text \<open>\<open>[receipt, ...(receipts || [])].slice(0, 5)\<close> on each node with the id.\<close>

fun give_receipt :: "string \<Rightarrow> jsval \<Rightarrow> WarRoomNode list \<Rightarrow> WarRoomNode list option" where
  "give_receipt i receipt [] = Some []"
| "give_receipt i receipt (n # ns) =
     (if nd_id n \<noteq> i then map_option ((#) n) (give_receipt i receipt ns)
      else case iterate (js_or (data_get (nd_data n) ''receipts'') (VArr [])) of
             None \<Rightarrow> None
           | Some rs \<Rightarrow>
               map_option ((#) (n\<lparr>nd_data := om_set ''receipts'' (VArr (take 5 (receipt # rs))) (nd_data n)\<rparr>))
                 (give_receipt i receipt ns))"

definition addVerificationReceipt :: "string \<Rightarrow> jsval \<Rightarrow> 'e WarRoomState \<Rightarrow> 'e WarRoomState" where
  "addVerificationReceipt nodeId receipt s =
     (case give_receipt nodeId receipt (wr_nodes s) of
        None \<Rightarrow> s
      | Some ns \<Rightarrow> s\<lparr>wr_receiptsIssued := wr_receiptsIssued s + 1, wr_nodes := ns\<rparr>)"

definition opt_member :: "string \<Rightarrow> ('a \<Rightarrow> jsval) \<Rightarrow> 'a option \<Rightarrow> (string, jsval) omap" where
  "opt_member k f v = (case v of None \<Rightarrow> [] | Some a \<Rightarrow> [(k, f a)])"

definition card_value :: "AgentCardPayload \<Rightarrow> jsval" where
  "card_value c = VObj ([(''id'', VStr (acp_id c)), (''name'', VStr (acp_name c)), (''provider'', VStr (acp_provider c))]
     @ opt_member ''description'' VStr (acp_description c)
     @ opt_member ''mcp_capabilities'' (\<lambda>xs. VArr (map VStr xs)) (acp_mcp_capabilities c)
     @ opt_member ''vram_requirements'' VStr (acp_vram_requirements c)
     @ opt_member ''trust_tier'' (\<lambda>q. VNum (Num q)) (acp_trust_tier c)
     @ opt_member ''portrait_url'' VStr (acp_portrait_url c)
     @ opt_member ''accent_hex'' VStr (acp_accent_hex c))"

text \<open>\<open>{ ...r, ...rosterCard }\<close>: every member of the new card is there, so only the chair is kept.\<close>

definition upsertAgentNode :: "int \<Rightarrow> rat \<times> rat \<Rightarrow> AgentCardPayload \<Rightarrow> 'e WarRoomState \<Rightarrow> 'e WarRoomState" where
  "upsertAgentNode now r c s =
     (let rosterCard = \<lparr>ro_id = acp_id c, ro_name = acp_name c, ro_provider = acp_provider c,
            ro_description = acp_description c, ro_mcp_capabilities = acp_mcp_capabilities c,
            ro_vram_requirements = acp_vram_requirements c, ro_trust_tier = acp_trust_tier c,
            ro_status = RoOnline, ro_lastSeen = Some (of_int now), ro_portrait_url = acp_portrait_url c,
            ro_accent_hex = acp_accent_hex c, ro_chair = None\<rparr>;
          nextRoster =
            (if \<exists>x \<in> set (wr_agentRoster s). ro_id x = acp_id c
             then map (\<lambda>x. if ro_id x = acp_id c then rosterCard\<lparr>ro_chair := ro_chair x\<rparr> else x) (wr_agentRoster s)
             else wr_agentRoster s @ [rosterCard])
      in if \<exists>n \<in> set (wr_nodes s). nd_id n = acp_id c
         then s\<lparr>wr_agentRoster := nextRoster,
                wr_nodes := map (\<lambda>n. if nd_id n = acp_id c
                  then n\<lparr>nd_data := om_set ''agentCard'' (card_value c) (nd_data n)\<rparr> else n) (wr_nodes s)\<rparr>
         else s\<lparr>wr_agentRoster := nextRoster,
                wr_nodes := wr_nodes s @ [\<lparr>nd_id = acp_id c, nd_type = ''agentHeartbeat'',
                  nd_position = (fst r * 200, snd r * 200),
                  nd_data = [(''label'', VStr (acp_name c)), (''agentCard'', card_value c), (''status'', VStr ''ONLINE'')]\<rparr>]\<rparr>)"

definition TERMINAL_PHASES :: "string set" where
  "TERMINAL_PHASES = {''Succeeded'', ''Failed'', ''Stalled''}"

definition recordPhaseEvent :: "PhaseEvent \<Rightarrow> 'e WarRoomState \<Rightarrow> 'e WarRoomState" where
  "recordPhaseEvent evt s =
     (let isTerminal = wph_phase evt \<in> TERMINAL_PHASES;
          nextRoster =
            (if truthy_str (wph_routedAgent evt)
             then map (\<lambda>r. if Some (ro_id r) = wph_routedAgent evt
                    then r\<lparr>ro_status := (if isTerminal then RoOnline else RoDispatching),
                           ro_lastSeen := Some (wph_timestamp evt)\<rparr>
                    else r) (wr_agentRoster s)
             else wr_agentRoster s)
      in s\<lparr>wr_phaseEvents := take 80 (evt # wr_phaseEvents s), wr_agentRoster := nextRoster\<rparr>)"

text \<open>\<open>a ?? b\<close> for optional members.\<close>

definition opt_else :: "'a option \<Rightarrow> 'a option \<Rightarrow> 'a option" where
  "opt_else a b = (case a of None \<Rightarrow> b | Some x \<Rightarrow> Some x)"

definition chair_presence :: "ChairEventPayload \<Rightarrow> Presence" where
  "chair_presence evt =
     (if cep_kind evt = CkReleased \<or> cep_kind evt = CkExpired then PrAbsent
      else if cep_status evt = BsStale then PrStale else PrLive)"

definition recordChairEvent :: "ChairEventPayload \<Rightarrow> 'e WarRoomState \<Rightarrow> 'e WarRoomState" where
  "recordChairEvent evt s =
     (let presence = chair_presence evt;
          from_evt = (\<lambda>f. case cep_chair evt of None \<Rightarrow> None | Some c \<Rightarrow> f c)
      in s\<lparr>wr_agentRoster := map (\<lambda>card.
             if ro_id card \<noteq> cep_agentId evt then card
             else if presence = PrAbsent then card\<lparr>ro_chair := None\<rparr>
             else
               let from_card = (\<lambda>f. case ro_chair card of None \<Rightarrow> None | Some b \<Rightarrow> f b)
               in card\<lparr>ro_chair := Some \<lparr>
                    cb_sessionId = cep_sessionId evt,
                    cb_claimedAt = (case cep_chair evt of Some c \<Rightarrow> bc_claimedAt c
                      | None \<Rightarrow> (case ro_chair card of Some b \<Rightarrow> cb_claimedAt b | None \<Rightarrow> cep_timestamp evt)),
                    cb_lastBeaconAt = (case cep_chair evt of Some c \<Rightarrow> bc_lastBeaconAt c | None \<Rightarrow> cep_timestamp evt),
                    cb_presence = presence,
                    cb_host = opt_else (from_evt bc_host) (from_card cb_host),
                    cb_note = opt_else (from_evt bc_note) (from_card cb_note),
                    cb_inboxUrl = opt_else (from_evt bc_inboxUrl) (from_card cb_inboxUrl)\<rparr>\<rparr>) (wr_agentRoster s)\<rparr>)"

definition roster_chair :: "BeaconChair \<Rightarrow> ChairBadge" where
  "roster_chair c = \<lparr>cb_sessionId = bc_sessionId c, cb_claimedAt = bc_claimedAt c, cb_lastBeaconAt = bc_lastBeaconAt c,
     cb_presence = (if bc_status c = BsStale then PrStale else PrLive),
     cb_host = bc_host c, cb_note = bc_note c, cb_inboxUrl = bc_inboxUrl c\<rparr>"

fun chairs_by_id :: "BeaconChair option list \<Rightarrow> (string, BeaconChair) omap \<Rightarrow> (string, BeaconChair) omap" where
  "chairs_by_id [] byId = byId"
| "chairs_by_id (c # cs) byId =
     chairs_by_id cs (case c of None \<Rightarrow> byId | Some b \<Rightarrow> om_set (bc_agentId b) b byId)"

definition applyChairRoster :: "BeaconChair option list \<Rightarrow> 'e WarRoomState \<Rightarrow> 'e WarRoomState" where
  "applyChairRoster chairs s =
     (let byId = chairs_by_id chairs [] in
      s\<lparr>wr_agentRoster := map (\<lambda>card. card\<lparr>ro_chair := map_option roster_chair (om_get byId (ro_id card))\<rparr>)
          (wr_agentRoster s)\<rparr>)"

section \<open>Snapshots of the runtimes, the mode and the hubs\<close>

definition set_runtime :: "AgentRuntimeSnapshot option \<Rightarrow> 'e WarRoomState \<Rightarrow> 'e WarRoomState" where
  "set_runtime v s = (case v of None \<Rightarrow> s | Some r \<Rightarrow> s\<lparr>wr_agentRuntimes := Some r\<rparr>)"

definition set_mode :: "ResourceModeSnapshot option \<Rightarrow> 'e WarRoomState \<Rightarrow> 'e WarRoomState" where
  "set_mode v s = (case v of None \<Rightarrow> s | Some r \<Rightarrow> s\<lparr>wr_resourceMode := Some r\<rparr>)"

definition set_hubs :: "(string, AgentHubHealth) omap option \<Rightarrow> 'e WarRoomState \<Rightarrow> 'e WarRoomState" where
  "set_hubs v s = (case v of None \<Rightarrow> s | Some h \<Rightarrow> s\<lparr>wr_hubHealthByAgent := h\<rparr>)"

text \<open>\<open>stateSnapshotPatch\<close> and the \<open>set\<close> of its patch: each part that could be read replaces the old.\<close>

definition applyStateSnapshot :: "int \<Rightarrow> jsval \<Rightarrow> 'e WarRoomState \<Rightarrow> 'e WarRoomState" where
  "applyStateSnapshot now v s =
     (case asRecord v of
        None \<Rightarrow> s
      | Some r \<Rightarrow>
          set_hubs (normalizeHubHealthSnapshot
              (first_of r [''hubHealthByAgent'', ''agentHubHealth'', ''agentHubs'', ''hubHealth'']))
            (set_mode (normalizeResourceModeSnapshot (of_int now) (vget r ''resourceMode''))
              (set_runtime (normalizeAgentRuntimeSnapshot (of_int now)
                 (first_of r [''agentRuntimes'', ''agentRuntimeSnapshot''])) s)))"

definition setAgentRuntimeSnapshot :: "int \<Rightarrow> jsval \<Rightarrow> 'e WarRoomState \<Rightarrow> 'e WarRoomState" where
  "setAgentRuntimeSnapshot now v s = set_runtime (normalizeAgentRuntimeSnapshot (of_int now) v) s"

definition setResourceModeSnapshot :: "int \<Rightarrow> jsval \<Rightarrow> 'e WarRoomState \<Rightarrow> 'e WarRoomState" where
  "setResourceModeSnapshot now v s = set_mode (normalizeResourceModeSnapshot (of_int now) v) s"

definition applyHubHealthSnapshot :: "jsval \<Rightarrow> 'e WarRoomState \<Rightarrow> 'e WarRoomState" where
  "applyHubHealthSnapshot v s = set_hubs (normalizeHubHealthSnapshot v) s"

definition no_runtimes :: "int \<Rightarrow> AgentRuntimeSnapshot" where
  "no_runtimes now = \<lparr>rn_enabled = True, rn_parkOnIdle = True, rn_configured = 0, rn_running = 0,
     rn_agents = [], rn_updatedAt = of_int now\<rparr>"

definition put_runtime :: "int \<Rightarrow> AgentRuntimeEntry \<Rightarrow> 'e WarRoomState \<Rightarrow> 'e WarRoomState" where
  "put_runtime now normalized s =
     (let current = case_option (no_runtimes now) id (wr_agentRuntimes s);
          a = re_agentId normalized;
          agents = om_set a normalized (rn_agents current);
          lifecycleErrors =
            (case re_lastError normalized of
               Some e \<Rightarrow> if e \<noteq> [] then obj_set a e (wr_lifecycleErrors s) else om_delete a (wr_lifecycleErrors s)
             | None \<Rightarrow> om_delete a (wr_lifecycleErrors s))
      in s\<lparr>wr_agentRuntimes := Some (current\<lparr>
             rn_configured := max (rn_configured current) (of_nat (length agents)),
             rn_running := running_count agents, rn_agents := agents, rn_updatedAt := re_updatedAt normalized\<rparr>),
           wr_lifecycleErrors := lifecycleErrors,
           wr_pendingLifecycleActions := om_delete a (wr_pendingLifecycleActions s)\<rparr>)"

definition recordAgentRuntimeEvent :: "int \<Rightarrow> jsval \<Rightarrow> 'e WarRoomState \<Rightarrow> 'e WarRoomState" where
  "recordAgentRuntimeEvent now evt s =
     (case asRecord evt of
        None \<Rightarrow> s
      | Some event \<Rightarrow>
          (case normalizeAgentRuntimeSnapshot (of_int now)
                  (first_of event [''snapshot'', ''agentRuntimes'', ''agentRuntimeSnapshot'']) of
             Some r \<Rightarrow> s\<lparr>wr_agentRuntimes := Some r\<rparr>
           | None \<Rightarrow>
               (case normalizeAgentRuntimeEntry (case_option event id (asRecord (vget event ''agent''))) (of_int now) of
                  None \<Rightarrow> s
                | Some normalized \<Rightarrow> put_runtime now normalized s)))"

definition recordHubHealthEvent :: "jsval \<Rightarrow> 'e WarRoomState \<Rightarrow> 'e WarRoomState" where
  "recordHubHealthEvent evt s =
     (case asRecord evt of
        None \<Rightarrow> s
      | Some event \<Rightarrow>
          (case normalizeHubHealthSnapshot (first_of event [''snapshot'', ''hubHealthByAgent'', ''agentHubHealth'']) of
             Some h \<Rightarrow> s\<lparr>wr_hubHealthByAgent := h\<rparr>
           | None \<Rightarrow>
               (case normalizeHubHealthEntry event None of
                  None \<Rightarrow> s
                | Some health \<Rightarrow> s\<lparr>wr_hubHealthByAgent := om_set (hu_agentId health) health (wr_hubHealthByAgent s)\<rparr>)))"

definition setLifecyclePending :: "string \<Rightarrow> AgentLifecycleAction \<Rightarrow> 'e WarRoomState \<Rightarrow> 'e WarRoomState" where
  "setLifecyclePending agentId action s =
     s\<lparr>wr_pendingLifecycleActions := om_set agentId action (wr_pendingLifecycleActions s),
       wr_lifecycleErrors := om_delete agentId (wr_lifecycleErrors s)\<rparr>"

definition clearLifecyclePending :: "string \<Rightarrow> 'e WarRoomState \<Rightarrow> 'e WarRoomState" where
  "clearLifecyclePending agentId s =
     s\<lparr>wr_pendingLifecycleActions := om_delete agentId (wr_pendingLifecycleActions s)\<rparr>"

definition recordLifecycleError :: "string \<Rightarrow> string \<Rightarrow> 'e WarRoomState \<Rightarrow> 'e WarRoomState" where
  "recordLifecycleError agentId error s =
     s\<lparr>wr_lifecycleErrors := om_set agentId error (wr_lifecycleErrors s)\<rparr>"

section \<open>Feeds\<close>

definition recordReconcileAction :: "ReconcileAction \<Rightarrow> 'e WarRoomState \<Rightarrow> 'e WarRoomState" where
  "recordReconcileAction action s = s\<lparr>wr_reconcileActions := take 40 (action # wr_reconcileActions s)\<rparr>"

definition recordHookEvent :: "int \<Rightarrow> HookEvent \<Rightarrow> 'e WarRoomState \<Rightarrow> 'e WarRoomState" where
  "recordHookEvent now evt s =
     s\<lparr>wr_hookEvents := take 40 (evt\<lparr>hke_receivedAt := now\<rparr> # wr_hookEvents s)\<rparr>"

definition recordTokenUpdate :: "TokenTotals \<Rightarrow> 'e WarRoomState \<Rightarrow> 'e WarRoomState" where
  "recordTokenUpdate totals s = s\<lparr>wr_tokenTotals := totals\<rparr>"

definition recordRateLimit :: "RateLimitSnapshot \<Rightarrow> 'e WarRoomState \<Rightarrow> 'e WarRoomState" where
  "recordRateLimit snapshot s = s\<lparr>wr_rateLimits := om_set (rls_agentId snapshot) snapshot (wr_rateLimits s)\<rparr>"

definition recordRetryEvent :: "int \<Rightarrow> RetryEvent \<Rightarrow> 'e WarRoomState \<Rightarrow> 'e WarRoomState" where
  "recordRetryEvent now evt s =
     s\<lparr>wr_retryEvents := take 40 (evt\<lparr>wre_receivedAt := now\<rparr> # wr_retryEvents s),
       wr_retryPendingCount :=
         (case wre_kind evt of
            RkScheduled \<Rightarrow> wr_retryPendingCount s + 1
          | RkDispatching \<Rightarrow> max 0 (wr_retryPendingCount s - 1)
          | RkExhausted \<Rightarrow> max 0 (wr_retryPendingCount s - 1))\<rparr>"

definition recordCommitteeEvent :: "int \<Rightarrow> CommitteeEvent \<Rightarrow> 'e WarRoomState \<Rightarrow> 'e WarRoomState" where
  "recordCommitteeEvent now evt s =
     s\<lparr>wr_committeeEvents := take 80 (evt\<lparr>cev_receivedAt := now\<rparr> # wr_committeeEvents s),
       wr_committeeVerdicts :=
         (case cev_verdict evt of
            Some v \<Rightarrow> om_set (cev_topicId evt) v (wr_committeeVerdicts s)
          | None \<Rightarrow> wr_committeeVerdicts s)\<rparr>"

definition recordCircuitEvent :: "ChairCircuitEvent \<Rightarrow> 'e WarRoomState \<Rightarrow> 'e WarRoomState" where
  "recordCircuitEvent evt s = s\<lparr>wr_chairCircuits := om_set (wce_agentId evt) evt (wr_chairCircuits s)\<rparr>"

definition recordSelfHealEvent :: "SelfHealEvent \<Rightarrow> 'e WarRoomState \<Rightarrow> 'e WarRoomState" where
  "recordSelfHealEvent evt s = s\<lparr>wr_selfHealEvents := take 40 (evt # wr_selfHealEvents s)\<rparr>"

definition recordComfyPreview :: "int \<Rightarrow> string \<Rightarrow> ComfyPreview \<Rightarrow> 'e WarRoomState \<Rightarrow> 'e WarRoomState" where
  "recordComfyPreview now rnd preview s =
     s\<lparr>wr_comfyPreviews := take 12
         (preview\<lparr>cfy_id := ''comfy-'' @ show_int now @ ''-'' @ rnd, cfy_receivedAt := now\<rparr> # wr_comfyPreviews s)\<rparr>"

definition recordClaimEvent :: "ClaimEvent \<Rightarrow> 'e WarRoomState \<Rightarrow> 'e WarRoomState" where
  "recordClaimEvent evt s =
     (let stats = wr_claimStats s;
          stats1 = (case ce_previous evt of None \<Rightarrow> stats | Some p \<Rightarrow> stats(p := max 0 (stats p - 1)));
          stats2 = stats1(ce_state evt := stats1 (ce_state evt) + 1)
      in s\<lparr>wr_claimStats := stats2, wr_recentClaims := take 40 (evt # wr_recentClaims s)\<rparr>)"

section \<open>Tasks, briefings and conversations\<close>

definition addTask :: "int \<Rightarrow> rat \<times> rat \<Rightarrow> (string, jsval) omap \<Rightarrow> 'e WarRoomState \<Rightarrow> 'e WarRoomState" where
  "addTask now r task s =
     (let newNode = \<lparr>nd_id = text_or (data_get task ''id'') (''task-'' @ show_int now), nd_type = ''taskCluster'',
            nd_position = (400 + fst r * 200, snd r * 400),
            nd_data = merge [(''label'', js_or (data_get task ''name'') (VStr ''New Task Cluster'')),
                             (''tasks'', js_or (data_get task ''tasks'') (VArr []))] task\<rparr>
      in s\<lparr>wr_nodes := wr_nodes s @ [newNode]\<rparr>)"

definition addANXBriefing :: "int \<Rightarrow> string \<Rightarrow> rat \<times> rat \<Rightarrow> string \<Rightarrow> 'e WarRoomState \<Rightarrow> 'e WarRoomState" where
  "addANXBriefing now rnd r raw s =
     (let briefing = \<lparr>anx_id = ''anx-'' @ show_int now @ ''-'' @ rnd, anx_raw = raw, anx_receivedAt = now\<rparr>;
          briefingNode = \<lparr>nd_id = anx_id briefing, nd_type = ''anxBriefing'',
            nd_position = (- 400 + fst r * 200, snd r * 400),
            nd_data = [(''label'', VStr ''ANX_MISSION_BRIEFING''),
                       (''anx'', VObj [(''id'', VStr (anx_id briefing)), (''raw'', VStr raw), (''receivedAt'', VNum (Num (of_int now)))])]\<rparr>
      in s\<lparr>wr_anxBriefings := take 16 (briefing # wr_anxBriefings s), wr_nodes := wr_nodes s @ [briefingNode]\<rparr>)"

definition addInterAgentMessage :: "InterAgentMessage \<Rightarrow> 'e WarRoomState \<Rightarrow> 'e WarRoomState" where
  "addInterAgentMessage msg s =
     s\<lparr>wr_interAgentMessages := js_slice_from (- 50) (wr_interAgentMessages s @ [msg])\<rparr>"

definition openConversation :: "ConversationTopic \<Rightarrow> 'e WarRoomState \<Rightarrow> 'e WarRoomState" where
  "openConversation topic s =
     s\<lparr>wr_topics := (if \<exists>t \<in> set (wr_topics s). wt_id t = wt_id topic
          then map (\<lambda>t. if wt_id t = wt_id topic then topic else t) (wr_topics s)
          else wr_topics s @ [topic]),
       wr_activeTopicId := Some (wt_id topic)\<rparr>"

text \<open>The delta goes to the first message with the id, or starts a message.\<close>

fun add_delta :: "ConversationMessage \<Rightarrow> ConversationMessage list \<Rightarrow> ConversationMessage list" where
  "add_delta new [] = [new]"
| "add_delta new (m # ms) =
     (if wm_id m = wm_id new then m\<lparr>wm_content := wm_content m @ wm_content new\<rparr> # ms else m # add_delta new ms)"

definition applyMessageDelta :: "int \<Rightarrow> string \<Rightarrow> string \<Rightarrow> string \<Rightarrow> MessageRole \<Rightarrow> string
    \<Rightarrow> 'e WarRoomState \<Rightarrow> 'e WarRoomState" where
  "applyMessageDelta now topicId messageId senderId role delta s =
     (if \<not> om_has (wr_messagesByTopic s) topicId \<and> topicId \<in> set inherited_names then s
      else
        let topicMsgs = case_option [] id (om_get (wr_messagesByTopic s) topicId);
            msg = \<lparr>wm_id = messageId, wm_topicId = topicId, wm_senderId = senderId, wm_role = role,
                   wm_content = delta, wm_timestamp = now\<rparr>
        in s\<lparr>wr_messagesByTopic := om_set topicId (js_slice_from (- 200) (add_delta msg topicMsgs)) (wr_messagesByTopic s)\<rparr>)"

definition closeConversation :: "string \<Rightarrow> 'e WarRoomState \<Rightarrow> 'e WarRoomState" where
  "closeConversation topicId s =
     s\<lparr>wr_topics := map (\<lambda>t. if wt_id t = topicId then t\<lparr>wt_active := False\<rparr> else t) (wr_topics s)\<rparr>"

definition recordStoppingCriterion :: "string \<Rightarrow> string \<Rightarrow> string \<Rightarrow> rat \<Rightarrow> 'e WarRoomState \<Rightarrow> 'e WarRoomState" where
  "recordStoppingCriterion topicId agentId reason confidence s =
     s\<lparr>wr_stoppingCriterion := om_set topicId (agentId, reason, confidence) (wr_stoppingCriterion s)\<rparr>"

section \<open>Every operation\<close>

datatype (plugins only: code) 'e RoomOp =
    OpenTab bool | NodesChange "WarRoomNode list \<Rightarrow> WarRoomNode list" | EdgesChange "'e list \<Rightarrow> 'e list"
  | Connect "Connection \<Rightarrow> 'e list \<Rightarrow> 'e list" Connection | SetNodes "WarRoomNode list" | SetEdges "'e list"
  | EnqueueTelemetry string "(string, jsval) omap" | EnqueueHardware HardwareTelemetry
  | Flush "nat \<Rightarrow> rat \<times> rat" | AddReceipt string jsval | UpsertAgent int "rat \<times> rat" AgentCardPayload
  | PhaseSeen PhaseEvent | ChairSeen ChairEventPayload | RosterSeen "BeaconChair option list"
  | StateSnapshot int jsval | RuntimeSnapshot int jsval | RuntimeEvent int jsval | ModeSnapshot int jsval
  | HubSnapshotSeen jsval | HubEvent jsval | LifecyclePending string AgentLifecycleAction
  | LifecycleClear string | LifecycleError string string | ReconcileSeen ReconcileAction
  | HookSeen int HookEvent | TokensSeen TokenTotals | RateLimitSeen RateLimitSnapshot | RetrySeen int RetryEvent
  | CommitteeSeen int CommitteeEvent | CircuitSeen ChairCircuitEvent | SelfHealSeen SelfHealEvent
  | ComfySeen int string ComfyPreview | ClaimSeen ClaimEvent | AddTask int "rat \<times> rat" "(string, jsval) omap"
  | AddBriefing int string "rat \<times> rat" string | WsConnected bool | SelectCycle "string option"
  | ChatEnabled bool | ChatTechnical bool | ChatMessage InterAgentMessage | OpenTopic ConversationTopic
  | Delta int string string string MessageRole string | CloseTopic string | SelectTopic "string option"
  | Stopping string string string rat

primrec room_step :: "'e RoomOp \<Rightarrow> 'e WarRoomState \<Rightarrow> 'e WarRoomState" where
  "room_step (OpenTab theater) s = s\<lparr>wr_theaterTab := theater\<rparr>"
| "room_step (NodesChange f) s = onNodesChange (\<lambda>_. f) () s"
| "room_step (EdgesChange f) s = onEdgesChange (\<lambda>_. f) () s"
| "room_step (Connect f c) s = snd (onConnect f c s)"
| "room_step (SetNodes ns) s = s\<lparr>wr_nodes := ns\<rparr>"
| "room_step (SetEdges es) s = s\<lparr>wr_edges := es\<rparr>"
| "room_step (EnqueueTelemetry i t) s = enqueueTelemetry i t s"
| "room_step (EnqueueHardware h) s = enqueueHardware h s"
| "room_step (Flush rnd) s = flushPressureValve rnd s"
| "room_step (AddReceipt i r) s = addVerificationReceipt i r s"
| "room_step (UpsertAgent now r c) s = upsertAgentNode now r c s"
| "room_step (PhaseSeen e) s = recordPhaseEvent e s"
| "room_step (ChairSeen e) s = recordChairEvent e s"
| "room_step (RosterSeen cs) s = applyChairRoster cs s"
| "room_step (StateSnapshot now v) s = applyStateSnapshot now v s"
| "room_step (RuntimeSnapshot now v) s = setAgentRuntimeSnapshot now v s"
| "room_step (RuntimeEvent now v) s = recordAgentRuntimeEvent now v s"
| "room_step (ModeSnapshot now v) s = setResourceModeSnapshot now v s"
| "room_step (HubSnapshotSeen v) s = applyHubHealthSnapshot v s"
| "room_step (HubEvent v) s = recordHubHealthEvent v s"
| "room_step (LifecyclePending a x) s = setLifecyclePending a x s"
| "room_step (LifecycleClear a) s = clearLifecyclePending a s"
| "room_step (LifecycleError a e) s = recordLifecycleError a e s"
| "room_step (ReconcileSeen a) s = recordReconcileAction a s"
| "room_step (HookSeen now e) s = recordHookEvent now e s"
| "room_step (TokensSeen t) s = recordTokenUpdate t s"
| "room_step (RateLimitSeen r) s = recordRateLimit r s"
| "room_step (RetrySeen now e) s = recordRetryEvent now e s"
| "room_step (CommitteeSeen now e) s = recordCommitteeEvent now e s"
| "room_step (CircuitSeen e) s = recordCircuitEvent e s"
| "room_step (SelfHealSeen e) s = recordSelfHealEvent e s"
| "room_step (ComfySeen now rnd p) s = recordComfyPreview now rnd p s"
| "room_step (ClaimSeen e) s = recordClaimEvent e s"
| "room_step (AddTask now r t) s = addTask now r t s"
| "room_step (AddBriefing now rnd r raw) s = addANXBriefing now rnd r raw s"
| "room_step (WsConnected b) s = s\<lparr>wr_wsConnected := b\<rparr>"
| "room_step (SelectCycle c) s = s\<lparr>wr_selectedCycleId := c\<rparr>"
| "room_step (ChatEnabled b) s = s\<lparr>wr_interAgentChatEnabled := b\<rparr>"
| "room_step (ChatTechnical b) s = s\<lparr>wr_interAgentChatTechnical := b\<rparr>"
| "room_step (ChatMessage m) s = addInterAgentMessage m s"
| "room_step (OpenTopic t) s = openConversation t s"
| "room_step (Delta now t m a role d) s = applyMessageDelta now t m a role d s"
| "room_step (CloseTopic t) s = closeConversation t s"
| "room_step (SelectTopic t) s = s\<lparr>wr_activeTopicId := t\<rparr>"
| "room_step (Stopping t a r c) s = recordStoppingCriterion t a r c s"

definition room_run :: "'e RoomOp list \<Rightarrow> 'e WarRoomState \<Rightarrow> 'e WarRoomState" where
  "room_run ops s = foldl (\<lambda>s op. room_step op s) s ops"

end
