(* ===== verification/WarRoomLaws.thy ===== *)
theory WarRoomLaws
  imports WarRoom
begin

text \<open>
  What the store of the cockpit guarantees: the counts it shows of the claims are those of the
  ledger that sends the events; the buffered telemetry shows what the unbuffered would; deltas
  assemble to messages; whatever is sent, the state stays well typed and its feeds bounded.
\<close>

section \<open>The claims shown\<close>

definition stat_step :: "(ClaimState \<Rightarrow> int) \<Rightarrow> ClaimEvent \<Rightarrow> ClaimState \<Rightarrow> int" where
  "stat_step stats e =
     (let stats1 = (case ce_previous e of None \<Rightarrow> stats | Some p \<Rightarrow> stats(p := max 0 (stats p - 1)))
      in stats1(ce_state e := stats1 (ce_state e) + 1))"

lemma recordClaimEvent_shape:
  "wr_claimStats (recordClaimEvent e s) = stat_step (wr_claimStats s) e
   \<and> wr_recentClaims (recordClaimEvent e s) = take 40 (e # wr_recentClaims s)"
  by (simp add: recordClaimEvent_def stat_step_def Let_def)

lemma recordClaimEvent_fold:
  "length (wr_recentClaims s) \<le> 40 \<Longrightarrow> wr_claimStats (fold recordClaimEvent es s) = foldl stat_step (wr_claimStats s) es
   \<and> wr_recentClaims (fold recordClaimEvent es s) = take 40 (rev es @ wr_recentClaims s)"
proof (induction es arbitrary: s)
  case (Cons e es)
  have "length (wr_recentClaims (recordClaimEvent e s)) \<le> 40" by (simp add: recordClaimEvent_shape)
  from Cons.IH[OF this] show ?case
    by (simp only: fold_Cons o_apply recordClaimEvent_shape take_again rev.simps foldl_Cons append_assoc append_Cons append_Nil)
qed simp

definition in_state :: "(string, ClaimRecord) omap \<Rightarrow> ClaimState \<Rightarrow> nat" where
  "in_state l s = length (filter (\<lambda>r. cr_state r = s) (om_values l))"

lemma in_state_fresh:
  "om_get l t = None \<Longrightarrow> in_state (om_set t r l) s = in_state l s + of_bool (cr_state r = s)"
  by (induction l) (auto simp: in_state_def split: if_splits)

lemma in_state_old:
  "om_get l t = Some r0 \<Longrightarrow>
   in_state (om_set t r l) s + of_bool (cr_state r0 = s) = in_state l s + of_bool (cr_state r = s)"
  by (induction l) (auto simp: in_state_def split: if_splits)

lemma in_state_delete:
  assumes "om_wf l"
  shows "in_state l s = in_state (om_delete t l) s
    + of_bool (map_option cr_state (om_get l t) = Some s)"
  using assms
proof (induction l)
  case (Cons a l)
  from Cons show ?case by (cases a) (auto simp: in_state_def map_of_eq_None_iff delete_idem)
qed (simp add: in_state_def)

text \<open>The calls made on the claims, and what they tell the store.\<close>

definition follows :: "TaskClaimMachine \<Rightarrow> TaskClaimMachine \<Rightarrow> bool" where
  "follows m m' \<longleftrightarrow> (om_wf (ledger m) \<longrightarrow> om_wf (ledger m') \<and>
     (\<exists>es. claim_events m' = claim_events m @ es \<and>
       (\<forall>st gone. (\<forall>s. st s = int (in_state (ledger m) s + gone s)) \<longrightarrow>
          (\<forall>s. foldl stat_step st es s = int (in_state (ledger m') s + gone s)))))"

lemma follows_refl: "follows m m"
  unfolding follows_def by (intro impI conjI exI[of _ "[]"]) simp_all

lemma follows_trans:
  assumes 1: "follows m m'" and 2: "follows m' m''"
  shows "follows m m''"
  unfolding follows_def
proof (intro impI conjI)
  assume wf: "om_wf (ledger m)"
  from 1 wf obtain es where a: "om_wf (ledger m')" "claim_events m' = claim_events m @ es"
      "\<And>st gone s. \<forall>s. st s = int (in_state (ledger m) s + gone s) \<Longrightarrow>
          foldl stat_step st es s = int (in_state (ledger m') s + gone s)"
    unfolding follows_def by blast
  from 2 a(1) obtain es' where b: "om_wf (ledger m'')" "claim_events m'' = claim_events m' @ es'"
      "\<And>st gone s. \<forall>s. st s = int (in_state (ledger m') s + gone s) \<Longrightarrow>
          foldl stat_step st es' s = int (in_state (ledger m'') s + gone s)"
    unfolding follows_def by blast
  from b(1) show "om_wf (ledger m'')" .
  show "\<exists>es. claim_events m'' = claim_events m @ es \<and>
       (\<forall>st gone. (\<forall>s. st s = int (in_state (ledger m) s + gone s)) \<longrightarrow>
          (\<forall>s. foldl stat_step st es s = int (in_state (ledger m'') s + gone s)))"
  proof (intro exI[of _ "es @ es'"] conjI allI impI)
    show "claim_events m'' = claim_events m @ es @ es'" by (simp add: a(2) b(2))
    fix st :: "ClaimState \<Rightarrow> int" and gone s
    assume st: "\<forall>s. st s = int (in_state (ledger m) s + gone s)"
    have "\<forall>s. foldl stat_step st es s = int (in_state (ledger m') s + gone s)" using a(3)[OF st] by blast
    then show "foldl stat_step st (es @ es') s = int (in_state (ledger m'') s + gone s)"
      using b(3)[of "foldl stat_step st es" gone s] by simp
  qed
qed

lemma follows_emit:
  assumes e: "ce_state e = cr_state r" "ce_previous e = map_option cr_state (om_get (ledger m) t)"
  shows "follows m (emit_claim e (m\<lparr>ledger := om_set t r (ledger m)\<rparr>))"
  unfolding follows_def
proof (intro impI conjI exI[of _ "[e]"] allI)
  assume wf: "om_wf (ledger m)"
  then show "om_wf (ledger (emit_claim e (m\<lparr>ledger := om_set t r (ledger m)\<rparr>)))"
    by (simp add: emit_claim_def om_wf_set)
  show "claim_events (emit_claim e (m\<lparr>ledger := om_set t r (ledger m)\<rparr>)) = claim_events m @ [e]"
    by (simp add: emit_claim_def)
  fix st :: "ClaimState \<Rightarrow> int" and gone s
  assume st: "\<forall>s. st s = int (in_state (ledger m) s + gone s)"
  show "foldl stat_step st [e] s
      = int (in_state (ledger (emit_claim e (m\<lparr>ledger := om_set t r (ledger m)\<rparr>))) s + gone s)"
  proof (cases "om_get (ledger m) t")
    case None
    then show ?thesis by (simp add: stat_step_def e emit_claim_def st in_state_fresh)
  next
    case (Some r0)
    have "0 < in_state (ledger m) (cr_state r0)"
      using in_state_delete[OF wf, of "cr_state r0" t] Some by simp
    then show ?thesis
      using in_state_old[OF Some, of r s] in_state_old[OF Some, of r "cr_state r"]
      by (auto simp: stat_step_def e emit_claim_def st Some Let_def of_bool_def split: if_splits)
  qed
qed

lemma follows_register: "follows m (snd (claim_register now t rs m))"
  by (cases "om_get (ledger m) t")
    (auto simp: claim_register_def Let_def eventFrom_def intro!: follows_refl follows_emit)

lemma follows_transition: "follows m (snd (claim_transition now t nxt c rs m))"
proof (cases "om_get (ledger m) t")
  case None
  then show ?thesis by (simp add: claim_transition_def follows_refl)
next
  case (Some r)
  show ?thesis
    by (auto simp: claim_transition_def Some Let_def eventFrom_def intro!: follows_refl follows_emit)
qed

lemma follows_tryClaim: "follows m (snd (tryClaim now t c rs m))"
proof -
  define m1 where "m1 = (case om_get (ledger m) t of Some _ \<Rightarrow> m | None \<Rightarrow> snd (claim_register now t None m))"
  have 1: "follows m m1" by (auto simp: m1_def follows_refl follows_register split: option.split)
  have "follows m1 (snd (tryClaim now t c rs m))"
    unfolding tryClaim_def m1_def[symmetric] Let_def
    by (auto simp: follows_refl follows_transition split: option.split)
  with 1 show ?thesis by (rule follows_trans)
qed

lemma follows_touch:
  assumes "om_get (ledger m) t = Some r" and "cr_state r' = cr_state r"
  shows "follows m (m\<lparr>ledger := om_set t r' (ledger m)\<rparr>)"
proof -
  have "in_state (om_set t r' (ledger m)) s = in_state (ledger m) s" for s
    using in_state_old[OF assms(1), of r' s] assms(2) by simp
  then show ?thesis
    unfolding follows_def by (intro impI conjI exI[of _ "[]"]) (simp_all add: om_wf_set)
qed

lemma follows_markRetryQueued: "follows m (snd (markRetryQueued now t ms rs m))"
proof -
  obtain ok m1 where t: "claim_transition now t RetryQueued None rs m = (ok, m1)" by force
  have 1: "follows m m1" using follows_transition[of m now t RetryQueued None rs] t by simp
  have "follows m1 (snd (markRetryQueued now t ms rs m))"
    by (auto simp: markRetryQueued_def t follows_refl split: option.split intro!: follows_touch)
  with 1 show ?thesis by (rule follows_trans)
qed

text \<open>The records a run forgets, by the state they were in.\<close>

fun pruned_in :: "TaskClaimMachine \<Rightarrow> (int \<times> ClaimOp) list \<Rightarrow> ClaimState \<Rightarrow> nat" where
  "pruned_in m [] s = 0"
| "pruned_in m ((now, OpPrune t) # ops) s =
     of_bool (state_of t m = Some s) + pruned_in (claim_step m (now, OpPrune t)) ops s"
| "pruned_in m (op # ops) s = pruned_in (claim_step m op) ops s"

lemma claim_step_follows:
  assumes "\<And>now t. op \<noteq> (now, OpPrune t)"
  shows "follows m (claim_step m op)"
  using assms
  by (cases "(m, op)" rule: claim_step.cases)
    (auto simp: markRunning_def claim_release_def follows_register follows_transition follows_tryClaim
      follows_markRetryQueued)

lemma shown_run:
  assumes "om_wf (ledger m)" and "\<forall>s. foldl stat_step st (claim_events m) s = int (in_state (ledger m) s + gone s)"
  shows "foldl stat_step st (claim_events (claim_run m ops)) s
    = int (in_state (ledger (claim_run m ops)) s + gone s + pruned_in m ops s)"
  using assms
proof (induction ops arbitrary: m gone)
  case Nil
  then show ?case by (simp add: claim_run_def)
next
  case (Cons op ops)
  show ?case
  proof (cases "\<exists>now t. op = (now, OpPrune t)")
    case True
    then obtain now t where op: "op = (now, OpPrune t)" by blast
    let ?m = "claim_step m op"
    let ?gone = "\<lambda>s. gone s + of_bool (state_of t m = Some s)"
    have "in_state (ledger m) s = in_state (ledger ?m) s + of_bool (state_of t m = Some s)" for s
      using in_state_delete[OF Cons.prems(1)] by (simp add: op claim_prune_def state_of_def)
    then have "\<forall>s. foldl stat_step st (claim_events ?m) s = int (in_state (ledger ?m) s + ?gone s)"
      using Cons.prems(2) by (simp add: op claim_prune_def)
    moreover have "om_wf (ledger ?m)" using Cons.prems(1) by (simp add: op claim_prune_def om_wf_delete)
    ultimately show ?thesis using Cons.IH[of ?m ?gone] by (simp add: op claim_run_def)
  next
    case False
    then have f: "follows m (claim_step m op)" by (intro claim_step_follows) blast
    let ?m = "claim_step m op"
    have "om_wf (ledger ?m)" using f Cons.prems(1) unfolding follows_def by blast
    moreover have "\<forall>s. foldl stat_step st (claim_events ?m) s = int (in_state (ledger ?m) s + gone s)"
    proof -
      from f Cons.prems(1) obtain es where es: "claim_events ?m = claim_events m @ es"
          "\<forall>st gone. (\<forall>s. st s = int (in_state (ledger m) s + gone s)) \<longrightarrow>
             (\<forall>s. foldl stat_step st es s = int (in_state (ledger ?m) s + gone s))"
        unfolding follows_def by blast
      with Cons.prems(2) show ?thesis by simp
    qed
    ultimately have "foldl stat_step st (claim_events (claim_run ?m ops)) s
        = int (in_state (ledger (claim_run ?m ops)) s + gone s + pruned_in ?m ops s)"
      by (rule Cons.IH)
    moreover have "pruned_in m (op # ops) s = pruned_in ?m ops s"
      using False by (cases op; cases "snd op") auto
    ultimately show ?thesis by (simp add: claim_run_def)
  qed
qed

section \<open>Well-typed whatever is sent\<close>

definition nonblank :: "string \<Rightarrow> bool" where
  "nonblank s \<longleftrightarrow> s \<noteq> [] \<and> trim s = s"

definition entry_typed :: "AgentRuntimeEntry \<Rightarrow> bool" where
  "entry_typed e \<longleftrightarrow> nonblank (re_agentId e) \<and> nonblank (re_runtime e) \<and> pred_option nonblank (re_hubPath e)
     \<and> pred_option nonblank (re_lastError e) \<and> re_status e \<noteq> RsUnknown"

definition health_typed :: "AgentHubHealth \<Rightarrow> bool" where
  "health_typed h \<longleftrightarrow> hu_agentId h \<noteq> [] \<and> pred_option nonblank (hu_schemaVersion h)
     \<and> pred_option nonblank (hu_hubPath h) \<and> pred_option nonblank (hu_error h)"

definition filed :: "('v \<Rightarrow> string) \<Rightarrow> ('v \<Rightarrow> bool) \<Rightarrow> (string, 'v) omap \<Rightarrow> bool" where
  "filed key ok m \<longleftrightarrow> om_wf m \<and> (\<forall>k v. om_get m k = Some v \<longrightarrow> key v = k \<and> ok v)"

lemma filed_Nil: "filed key ok []"
  by (simp add: filed_def)

lemma filed_set: "filed key ok m \<Longrightarrow> ok v \<Longrightarrow> filed key ok (om_set (key v) v m)"
  by (auto simp: filed_def om_wf_set)

lemma filed_obj_set: "filed key ok m \<Longrightarrow> ok v \<Longrightarrow> filed key ok (obj_set (key v) v m)"
  by (simp add: obj_set_def filed_set)

lemma stringValue_nonblank: "pred_option nonblank (stringValue v)"
  by (cases v) (simp_all add: nonblank_def trim_idem)

lemma stringValue_Some: "stringValue v = Some s \<Longrightarrow> nonblank s"
  using stringValue_nonblank[of v] by simp

lemma nonblank_ne: "nonblank s \<Longrightarrow> s \<noteq> []"
  by (simp add: nonblank_def)

lemma truthy_the: "truthy_str f \<Longrightarrow> the f \<noteq> []"
  by (cases f) simp_all

lemma stringValue_or: "nonblank d \<Longrightarrow> nonblank (case_option d id (stringValue v))"
  using stringValue_nonblank[of v] by (cases "stringValue v") simp_all

lemma unknown_nonblank: "nonblank ''unknown''"
  by (simp add: nonblank_def trim_def js_space_def)

lemma status_known: "normalizeRuntimeStatus v running \<noteq> RsUnknown"
  by (simp add: normalizeRuntimeStatus_def Let_def)

lemma entry_normal: "normalizeAgentRuntimeEntry v u = Some e \<Longrightarrow> entry_typed e"
  unfolding normalizeAgentRuntimeEntry_def
  by (auto simp: entry_typed_def Let_def status_known stringValue_nonblank unknown_nonblank
      dest: stringValue_Some split: option.splits)

lemma health_normal:
  "normalizeHubHealthEntry v f = Some h \<Longrightarrow> health_typed h"
  unfolding normalizeHubHealthEntry_def
  by (auto simp: health_typed_def Let_def stringValue_nonblank truthy_the
      dest!: stringValue_Some nonblank_ne split: option.splits if_splits)

lemma runtime_entries_filed:
  "filed re_agentId entry_typed m \<Longrightarrow> filed re_agentId entry_typed (runtime_entries u raws m)"
proof (induction raws arbitrary: m)
  case (Cons raw raws)
  show ?case
    by (cases "normalizeAgentRuntimeEntry raw u") (simp_all add: Cons filed_obj_set entry_normal)
qed simp

lemma health_entries_filed:
  "filed hu_agentId health_typed m \<Longrightarrow> filed hu_agentId health_typed (health_entries raws m)"
proof (induction raws arbitrary: m)
  case (Cons raw raws)
  show ?case
    by (cases raw; cases "normalizeHubHealthEntry (snd raw) (fst raw)")
      (simp_all add: Cons filed_obj_set health_normal)
qed simp

definition snapshot_typed :: "AgentRuntimeSnapshot \<Rightarrow> bool" where
  "snapshot_typed r \<longleftrightarrow> filed re_agentId entry_typed (rn_agents r)"

lemma snapshot_normal: "normalizeAgentRuntimeSnapshot now v = Some r \<Longrightarrow> snapshot_typed r"
  unfolding normalizeAgentRuntimeSnapshot_def
  by (auto simp: snapshot_typed_def Let_def runtime_entries_filed filed_Nil split: option.splits)

lemma hubs_normal: "normalizeHubHealthSnapshot v = Some h \<Longrightarrow> filed hu_agentId health_typed h"
  unfolding normalizeHubHealthSnapshot_def
  by (auto simp: health_entries_filed filed_Nil split: jsval.splits)

definition mode_typed :: "ResourceModeSnapshot \<Rightarrow> bool" where
  "mode_typed r \<longleftrightarrow> nonblank (rv_lastActivityReason r)"

lemma mode_normal: "normalizeResourceModeSnapshot now v = Some r \<Longrightarrow> mode_typed r"
  unfolding normalizeResourceModeSnapshot_def
  by (cases "asRecord v")
    (auto simp: mode_typed_def Let_def stringValue_or[OF unknown_nonblank] split: if_splits)

text \<open>The messages of a topic: each once, and all of the topic.\<close>

definition talk_ok :: "string \<Rightarrow> ConversationMessage list \<Rightarrow> bool" where
  "talk_ok t ms \<longleftrightarrow> distinct (map wm_id ms) \<and> list_all (\<lambda>m. wm_topicId m = t) ms \<and> length ms \<le> 200"

lemma add_delta_ids: "map wm_id (add_delta new ms) = (if wm_id new \<in> set (map wm_id ms) then map wm_id ms else map wm_id ms @ [wm_id new])"
  by (induction ms) auto

lemma add_delta_topic: "list_all (\<lambda>m. wm_topicId m = t) ms \<Longrightarrow> wm_topicId new = t \<Longrightarrow> list_all (\<lambda>m. wm_topicId m = t) (add_delta new ms)"
  by (induction ms) auto

lemma list_all_drop: "list_all P xs \<Longrightarrow> list_all P (drop n xs)"
  by (auto simp: list_all_iff dest: in_set_dropD)

lemma talk_ok_add:
  assumes "talk_ok t ms" and "wm_topicId new = t"
  shows "talk_ok t (js_slice_from (- 200) (add_delta new ms))"
proof -
  have e: "js_slice_from (- 200) xs = drop (length xs - 200) xs" for xs :: "ConversationMessage list"
    using js_slice_from_tail[of 200 xs] by simp
  have "distinct (map wm_id (add_delta new ms))" using assms by (auto simp: add_delta_ids talk_ok_def)
  then have "distinct (map wm_id (drop n (add_delta new ms)))" for n by (simp add: drop_map[symmetric] distinct_drop)
  moreover have "list_all (\<lambda>m. wm_topicId m = t) (add_delta new ms)"
    using assms by (auto simp: talk_ok_def intro: add_delta_topic)
  ultimately show ?thesis by (simp add: talk_ok_def e list_all_drop)
qed

definition room_typed :: "'e WarRoomState \<Rightarrow> bool" where
  "room_typed s \<longleftrightarrow> pred_option snapshot_typed (wr_agentRuntimes s)
     \<and> pred_option mode_typed (wr_resourceMode s)
     \<and> filed hu_agentId health_typed (wr_hubHealthByAgent s)
     \<and> filed rls_agentId (\<lambda>_. True) (wr_rateLimits s)
     \<and> filed wce_agentId (\<lambda>_. True) (wr_chairCircuits s)
     \<and> (\<forall>t ms. om_get (wr_messagesByTopic s) t = Some ms \<longrightarrow> talk_ok t ms)"

lemma typed_frame:
  assumes "room_typed s" and "wr_agentRuntimes s' = wr_agentRuntimes s" and "wr_resourceMode s' = wr_resourceMode s"
    and "wr_hubHealthByAgent s' = wr_hubHealthByAgent s" and "wr_rateLimits s' = wr_rateLimits s"
    and "wr_chairCircuits s' = wr_chairCircuits s" and "wr_messagesByTopic s' = wr_messagesByTopic s"
  shows "room_typed s'"
  using assms by (simp add: room_typed_def)

lemma flush_frame:
  "wr_agentRuntimes (flushPressureValve rnd s) = wr_agentRuntimes s"
  "wr_resourceMode (flushPressureValve rnd s) = wr_resourceMode s"
  "wr_hubHealthByAgent (flushPressureValve rnd s) = wr_hubHealthByAgent s"
  "wr_rateLimits (flushPressureValve rnd s) = wr_rateLimits s"
  "wr_chairCircuits (flushPressureValve rnd s) = wr_chairCircuits s"
  "wr_messagesByTopic (flushPressureValve rnd s) = wr_messagesByTopic s"
  by (simp_all add: flushPressureValve_def Let_def case_prod_beta)

lemma receipt_frame:
  "wr_agentRuntimes (addVerificationReceipt i r s) = wr_agentRuntimes s"
  "wr_resourceMode (addVerificationReceipt i r s) = wr_resourceMode s"
  "wr_hubHealthByAgent (addVerificationReceipt i r s) = wr_hubHealthByAgent s"
  "wr_rateLimits (addVerificationReceipt i r s) = wr_rateLimits s"
  "wr_chairCircuits (addVerificationReceipt i r s) = wr_chairCircuits s"
  "wr_messagesByTopic (addVerificationReceipt i r s) = wr_messagesByTopic s"
  by (simp_all add: addVerificationReceipt_def split: option.split)

lemma typed_set_runtime: "room_typed s \<Longrightarrow> room_typed (set_runtime (normalizeAgentRuntimeSnapshot now v) s)"
  by (auto simp: room_typed_def set_runtime_def snapshot_normal split: option.split)

lemma typed_set_mode: "room_typed s \<Longrightarrow> room_typed (set_mode (normalizeResourceModeSnapshot now v) s)"
  by (auto simp: room_typed_def set_mode_def mode_normal split: option.split)

lemma typed_set_hubs: "room_typed s \<Longrightarrow> room_typed (set_hubs (normalizeHubHealthSnapshot v) s)"
  by (auto simp: room_typed_def set_hubs_def hubs_normal split: option.split)

lemma typed_put_runtime:
  assumes "room_typed s" and "entry_typed e"
  shows "room_typed (put_runtime now e s)"
proof -
  have "filed re_agentId entry_typed (rn_agents (case_option (no_runtimes now) id (wr_agentRuntimes s)))"
    using assms(1) by (cases "wr_agentRuntimes s") (auto simp: room_typed_def snapshot_typed_def no_runtimes_def filed_Nil)
  from filed_set[OF this assms(2)] show ?thesis
    using assms(1) by (simp add: room_typed_def put_runtime_def Let_def snapshot_typed_def)
qed

lemma typed_runtime_event: "room_typed s \<Longrightarrow> room_typed (recordAgentRuntimeEvent now evt s)"
  unfolding recordAgentRuntimeEvent_def
  by (auto simp: typed_put_runtime entry_normal split: option.split)
    (simp_all add: room_typed_def snapshot_normal)

lemma typed_hub_event: "room_typed s \<Longrightarrow> room_typed (recordHubHealthEvent evt s)"
  unfolding recordHubHealthEvent_def
  by (auto split: option.split) (auto simp: room_typed_def hubs_normal intro: filed_set health_normal)

lemma typed_delta: "room_typed s \<Longrightarrow> room_typed (applyMessageDelta now t m a role d s)"
proof -
  assume s: "room_typed s"
  have "talk_ok t (case_option [] id (om_get (wr_messagesByTopic s) t))"
    using s by (cases "om_get (wr_messagesByTopic s) t") (simp_all add: room_typed_def talk_ok_def)
  from talk_ok_add[OF this] show ?thesis
    using s by (simp add: applyMessageDelta_def room_typed_def Let_def)
qed

lemmas room_quiet_ops = onNodesChange_def onEdgesChange_def onConnect_def enqueueTelemetry_def enqueueHardware_def
  upsertAgentNode_def recordPhaseEvent_def recordChairEvent_def applyChairRoster_def setLifecyclePending_def
  clearLifecyclePending_def recordLifecycleError_def recordReconcileAction_def recordHookEvent_def
  recordTokenUpdate_def recordRetryEvent_def recordCommitteeEvent_def recordSelfHealEvent_def
  recordComfyPreview_def recordClaimEvent_def addTask_def addANXBriefing_def addInterAgentMessage_def
  openConversation_def closeConversation_def recordStoppingCriterion_def

lemma typed_step:
  fixes s :: "'e WarRoomState"
  assumes t: "room_typed s"
  shows "room_typed (room_step op s)"
proof (cases op)
  case (RateLimitSeen r)
  then show ?thesis using t by (auto simp: recordRateLimit_def room_typed_def intro!: filed_set)
next
  case (CircuitSeen e)
  then show ?thesis using t by (auto simp: recordCircuitEvent_def room_typed_def intro!: filed_set)
qed (simp_all add: t applyStateSnapshot_def setAgentRuntimeSnapshot_def setResourceModeSnapshot_def
    applyHubHealthSnapshot_def typed_set_runtime typed_set_mode typed_set_hubs typed_runtime_event typed_hub_event
    typed_delta typed_frame[OF t] flush_frame receipt_frame room_quiet_ops Let_def split: option.split)

interpretation room: guarded_system "\<lambda>s op. room_step op s" room_typed
  by unfold_locales (rule typed_step)

lemma typed_start: "room_typed (useWarRoomStore tab)"
  by (simp add: room_typed_def useWarRoomStore_def filed_Nil)

section \<open>Bounds\<close>

definition room_bounded :: "'e WarRoomState \<Rightarrow> bool" where
  "room_bounded s \<longleftrightarrow> length (wr_phaseEvents s) \<le> 80 \<and> length (wr_committeeEvents s) \<le> 80
     \<and> length (wr_recentClaims s) \<le> 40 \<and> length (wr_retryEvents s) \<le> 40 \<and> length (wr_selfHealEvents s) \<le> 40
     \<and> length (wr_reconcileActions s) \<le> 40 \<and> length (wr_hookEvents s) \<le> 40
     \<and> length (wr_comfyPreviews s) \<le> 12 \<and> length (wr_anxBriefings s) \<le> 16
     \<and> length (wr_interAgentMessages s) \<le> 50
     \<and> 0 \<le> wr_retryPendingCount s \<and> (\<forall>c. 0 \<le> wr_claimStats s c)"

lemma stat_step_nonneg: "\<forall>c. 0 \<le> st c \<Longrightarrow> 0 \<le> stat_step st e c"
  by (simp add: stat_step_def Let_def split: option.split)

lemma bounded_claim: "room_bounded s \<Longrightarrow> room_bounded (recordClaimEvent e s)"
proof -
  assume s: "room_bounded s"
  have "\<forall>c. 0 \<le> wr_claimStats (recordClaimEvent e s) c"
    using s by (simp add: recordClaimEvent_shape stat_step_nonneg room_bounded_def)
  then show ?thesis using s by (simp add: room_bounded_def recordClaimEvent_def Let_def)
qed

lemma bounded_retry: "room_bounded s \<Longrightarrow> room_bounded (recordRetryEvent now e s)"
  by (simp add: room_bounded_def recordRetryEvent_def split: RetryKind.split)

lemma bounded_chat: "room_bounded s \<Longrightarrow> room_bounded (addInterAgentMessage m s)"
  using length_js_slice_from[of 50 "wr_interAgentMessages s @ [m]"]
  by (simp add: room_bounded_def addInterAgentMessage_def)

lemma bounded_frame:
  "room_bounded s \<Longrightarrow> room_bounded (flushPressureValve rnd s)"
  "room_bounded s \<Longrightarrow> room_bounded (addVerificationReceipt i r s)"
  "room_bounded s \<Longrightarrow> room_bounded (put_runtime now e s)"
  "room_bounded s \<Longrightarrow> room_bounded (set_runtime x s)"
  "room_bounded s \<Longrightarrow> room_bounded (set_mode y s)"
  "room_bounded s \<Longrightarrow> room_bounded (set_hubs z s)"
  by (simp_all add: room_bounded_def flushPressureValve_def addVerificationReceipt_def put_runtime_def
      set_runtime_def set_mode_def set_hubs_def Let_def case_prod_beta split: option.split)

lemma bounded_runtime_event: "room_bounded s \<Longrightarrow> room_bounded (recordAgentRuntimeEvent now v s)"
  by (simp add: recordAgentRuntimeEvent_def bounded_frame split: option.split) (simp add: room_bounded_def)

lemma bounded_hub_event: "room_bounded s \<Longrightarrow> room_bounded (recordHubHealthEvent v s)"
  by (simp add: recordHubHealthEvent_def split: option.split) (simp add: room_bounded_def)

lemma bounded_delta: "room_bounded s \<Longrightarrow> room_bounded (applyMessageDelta now t m a role d s)"
  by (simp add: applyMessageDelta_def Let_def room_bounded_def)

lemma bounded_step:
  fixes s :: "'e WarRoomState"
  assumes b: "room_bounded s"
  shows "room_bounded (room_step op s)"
  using b
  by (cases op) (simp_all add: bounded_claim bounded_retry bounded_chat bounded_frame bounded_runtime_event
      bounded_hub_event bounded_delta applyStateSnapshot_def setAgentRuntimeSnapshot_def
      setResourceModeSnapshot_def applyHubHealthSnapshot_def split: option.split,
    simp_all add: room_bounded_def room_quiet_ops recordRateLimit_def recordCircuitEvent_def Let_def)

interpretation room_bounds: guarded_system "\<lambda>s op. room_step op s" room_bounded
  by unfold_locales (rule bounded_step)

lemma bounded_start: "room_bounded (useWarRoomStore tab)"
  by (simp add: room_bounded_def useWarRoomStore_def)

section \<open>The pressure valve\<close>

lemma om_set_again: "om_set k v (om_set k w m) = om_set k v m"
  by (induction m) auto

lemma om_set_swap: "k \<noteq> k' \<Longrightarrow> om_has m k \<Longrightarrow> om_set k v (om_set k' w m) = om_set k' w (om_set k v m)"
  by (induction m) (auto split: if_splits)

lemma om_has_set: "om_has m k \<or> k = k' \<Longrightarrow> om_has (om_set k' v m) k"
  by auto

lemma merge_Nil [simp]: "merge a [] = a"
  by (simp add: merge_def)

lemma merge_Cons [simp]: "merge a ((k, v) # b) = merge (om_set k v a) b"
  by (simp add: merge_def)

lemma merge_set_other:
  "om_has a k \<Longrightarrow> k \<notin> fst ` set b \<Longrightarrow> om_set k v (merge a b) = merge (om_set k v a) b"
proof (induction b arbitrary: a)
  case (Cons kv b)
  obtain k' v' where kv: "kv = (k', v')" by force
  with Cons.prems have "k \<noteq> k'" and a: "om_has a k" and b: "k \<notin> fst ` set b" by auto
  have "om_set k v (om_set k' v' a) = om_set k' v' (om_set k v a)"
    by (rule om_set_swap) fact+
  with a b Cons.IH[of "om_set k' v' a"] show ?case by (simp add: kv)
qed simp

lemma merge_set: "om_wf b \<Longrightarrow> om_set k v (merge a b) = merge a (om_set k v b)"
proof (induction b arbitrary: a)
  case (Cons kv b)
  obtain k' v' where kv: "kv = (k', v')" by force
  show ?case
  proof (cases "k = k'")
    case True
    then have "om_set k v (merge (om_set k v' a) b) = merge (om_set k v (om_set k v' a)) b"
      using Cons.prems by (intro merge_set_other) (auto simp: kv)
    with True show ?thesis by (simp add: kv om_set_again)
  next
    case False
    with Cons show ?thesis by (simp add: kv)
  qed
qed simp

lemma merge_wf: "om_wf a \<Longrightarrow> om_wf (merge a b)"
  by (induction b arbitrary: a) (auto simp: om_wf_set)

lemma merge_assoc: "om_wf e \<Longrightarrow> merge (merge a e) t = merge a (merge e t)"
  by (induction t arbitrary: e) (auto simp: merge_set om_wf_set)

lemma merge_get: "om_wf t \<Longrightarrow> om_get (merge e t) k = (case om_get t k of None \<Rightarrow> om_get e k | Some v \<Rightarrow> Some v)"
proof (induction t arbitrary: e)
  case (Cons kv t)
  then have "om_get t (fst kv) = None" by (simp add: map_of_eq_None_iff)
  with Cons show ?case by (cases kv) (simp split: option.split)
qed simp

lemma set_om_delete: "set (om_delete k m) \<subseteq> set m"
  by (induction m) auto

text \<open>A packet whose own status says something, or that has none.\<close>

definition status_said :: "(string, jsval) omap \<Rightarrow> bool" where
  "status_said t \<longleftrightarrow> \<not> om_has t ''status'' \<or> truthy_val (data_get t ''status'')"

lemma data_get_set: "data_get (om_set k v d) k' = (if k' = k then v else data_get d k')"
  by (simp add: data_get_def)

lemma update_compose:
  assumes "om_wf e" and t: "om_wf t" "status_said t"
  shows "update_data t (update_data e d) = update_data (merge e t) d"
proof -
  let ?s1 = "js_or (data_get e ''status'') (data_get d ''status'')"
  let ?M = "merge (spread (data_get d ''telemetry'')) e"
  let ?d0 = "om_set ''status'' ?s1 d"
  have st: "js_or (data_get t ''status'') ?s1 = js_or (data_get (merge e t) ''status'') (data_get d ''status'')"
  proof (cases "om_get t ''status''")
    case None
    then show ?thesis by (simp add: data_get_def merge_get[OF t(1)] js_or_def)
  next
    case (Some v)
    then have "truthy_val v" using t(2) by (simp add: status_said_def data_get_def)
    with Some show ?thesis by (simp add: data_get_def merge_get[OF t(1)] js_or_def)
  qed
  have "update_data t (update_data e d)
      = om_set ''telemetry'' (VObj (merge ?M t))
          (om_set ''status'' (js_or (data_get t ''status'') ?s1) (om_set ''telemetry'' (VObj ?M) ?d0))"
    by (simp add: update_data_def data_get_set)
  also have "\<dots> = om_set ''telemetry'' (VObj (merge ?M t)) (om_set ''status'' (js_or (data_get t ''status'') ?s1) d)"
    by (subst om_set_swap) (simp_all add: om_set_again)
  finally show ?thesis by (simp add: update_data_def st merge_assoc[OF assms(1)])
qed

abbreviation shown :: "WarRoomNode list \<Rightarrow> (string, (string, jsval) omap) omap \<Rightarrow> WarRoomNode list" where
  "shown ns u \<equiv> fst (take_updates ns u)"

lemma shown_cong: "om_get u = om_get u' \<Longrightarrow> shown ns u = shown ns u'"
proof (induction ns arbitrary: u u')
  case (Cons n ns)
  have "om_get (om_delete (nd_id n) u) = om_get (om_delete (nd_id n) u')" using Cons.prems by simp
  from Cons.IH[OF this] Cons.IH[OF Cons.prems] show ?case
    by (simp add: Cons.prems case_prod_beta split: option.split)
qed simp

lemma shown_Nil: "shown ns [] = ns"
  by (induction ns) (simp_all add: case_prod_beta)

lemma shown_empty: "shown [] u = []"
  by simp

lemma shown_Cons: "shown (n # ns) u =
   (case om_get u (nd_id n) of None \<Rightarrow> n # shown ns u
    | Some t \<Rightarrow> n\<lparr>nd_data := update_data t (nd_data n)\<rparr> # shown ns (om_delete (nd_id n) u))"
  by (simp add: case_prod_beta split: option.split)

lemma left_Cons: "snd (take_updates (n # ns) u) =
   (case om_get u (nd_id n) of None \<Rightarrow> snd (take_updates ns u) | Some t \<Rightarrow> snd (take_updates ns (om_delete (nd_id n) u)))"
  by (simp add: case_prod_beta split: option.split)

lemma left_empty: "snd (take_updates [] u) = u"
  by simp

declare take_updates.simps [simp del]

text \<open>One packet for one node, and a packet put into the buffer.\<close>

definition one :: "string \<Rightarrow> (string, jsval) omap \<Rightarrow> WarRoomNode list \<Rightarrow> WarRoomNode list" where
  "one i t ns = shown ns [(i, t)]"

definition enq :: "string \<Rightarrow> (string, jsval) omap \<Rightarrow> (string, (string, jsval) omap) omap \<Rightarrow> (string, (string, jsval) omap) omap" where
  "enq i t u = om_set i (case om_get u i of Some e \<Rightarrow> merge e t | None \<Rightarrow> t) u"

lemma one_Cons: "one i t (n # ns) = (if nd_id n = i then n\<lparr>nd_data := update_data t (nd_data n)\<rparr> # ns else n # one i t ns)"
  by (simp add: one_def shown_Cons shown_Nil)

lemma enq_wf: "list_all (\<lambda>(j, e). om_wf e) u \<Longrightarrow> om_wf t \<Longrightarrow> list_all (\<lambda>(j, e). om_wf e) (enq i t u)"
proof -
  assume u: "list_all (\<lambda>(j, e). om_wf e) u" and t: "om_wf t"
  have "om_wf (case om_get u i of Some e \<Rightarrow> merge e t | None \<Rightarrow> t)"
    using u t by (cases "om_get u i") (auto simp: list_all_iff intro!: merge_wf dest!: map_of_SomeD)
  moreover have "list_all (\<lambda>(j, e). om_wf e) u \<Longrightarrow> om_wf v \<Longrightarrow> list_all (\<lambda>(j, e). om_wf e) (om_set i v u)" for v :: "(string, jsval) omap"
    by (induction u) auto
  ultimately show ?thesis using u by (simp add: enq_def)
qed

lemma shown_enq:
  assumes "om_wf t" and "status_said t" and "list_all (\<lambda>(j, e). om_wf e) u"
  shows "shown ns (enq i t u) = one i t (shown ns u)"
  using assms(3)
proof (induction ns arbitrary: u)
  case (Cons n ns)
  have del: "list_all (\<lambda>(j, e). om_wf e) (om_delete (nd_id n) u)"
    using Cons.prems using set_om_delete[of "nd_id n" u] by (auto simp: list_all_iff)
  show ?case
  proof (cases "nd_id n = i")
    case True
    have c: "shown ns (om_delete i (enq i t u)) = shown ns (om_delete i u)"
      by (rule shown_cong) (auto simp: enq_def fun_eq_iff)
    show ?thesis
    proof (cases "om_get u i")
      case None
      have "shown ns (om_delete i u) = shown ns u" by (rule shown_cong) (use None in \<open>auto simp: fun_eq_iff\<close>)
      with None True c show ?thesis by (simp add: shown_Cons one_Cons enq_def)
    next
      case (Some e)
      then have "om_wf e" using Cons.prems by (auto simp: list_all_iff dest: map_of_SomeD)
      with Some True c show ?thesis by (simp add: shown_Cons one_Cons enq_def update_compose assms(1,2))
    qed
  next
    case False
    have c: "shown ns (om_delete (nd_id n) (enq i t u)) = shown ns (enq i t (om_delete (nd_id n) u))"
      by (rule shown_cong) (use False in \<open>auto simp: enq_def fun_eq_iff\<close>)
    have g: "om_get (enq i t u) (nd_id n) = om_get u (nd_id n)" using False by (simp add: enq_def)
    show ?thesis
      by (cases "om_get u (nd_id n)") (simp_all add: shown_Cons one_Cons g c Cons.IH[OF Cons.prems] Cons.IH[OF del] False)
  qed
qed (simp add: one_def shown_empty)

lemma shown_ids: "map nd_id (shown ns u) = map nd_id ns"
  by (induction ns arbitrary: u) (simp_all add: shown_empty shown_Cons split: option.split)

lemma take_updates_left: "set (snd (take_updates ns u)) \<subseteq> set u"
proof (induction ns arbitrary: u)
  case (Cons n ns)
  have "set (snd (take_updates ns (om_delete (nd_id n) u))) \<subseteq> set u"
    using Cons[of "om_delete (nd_id n) u"] set_om_delete by (rule subset_trans)
  with Cons[of u] show ?case by (simp add: left_Cons split: option.split)
qed (simp add: left_empty)

lemma new_nodes_known: "fst ` set u \<subseteq> set known \<Longrightarrow> new_nodes rnd n known u = []"
  by (induction rnd n known u rule: new_nodes.induct) auto

lemma flush_nodes:
  assumes "fst ` set (wr_pendingTelemetry s) \<subseteq> set (map nd_id (wr_nodes s))"
  shows "wr_nodes (flushPressureValve rnd s) = shown (wr_nodes s) (wr_pendingTelemetry s)"
proof -
  have "new_nodes rnd 0 (map nd_id (wr_nodes s)) (snd (take_updates (wr_nodes s) (wr_pendingTelemetry s))) = []"
    by (rule new_nodes_known) (rule subset_trans[OF image_mono[OF take_updates_left] assms])
  then show ?thesis by (simp add: flushPressureValve_def Let_def case_prod_beta shown_Nil)
qed

lemma flush_clears: "wr_pendingTelemetry (flushPressureValve rnd s) = []"
  by (simp add: flushPressureValve_def Let_def case_prod_beta)

lemma enqueue_fields:
  "wr_pendingTelemetry (enqueueTelemetry i t s) = enq i t (wr_pendingTelemetry s)"
  "wr_nodes (enqueueTelemetry i t s) = wr_nodes s"
  by (simp_all add: enqueueTelemetry_def enq_def)

lemma flush_one:
  assumes "wr_pendingTelemetry s = []" and "i \<in> nd_id ` set (wr_nodes s)"
  shows "wr_nodes (flushPressureValve rnd (enqueueTelemetry i t s)) = one i t (wr_nodes s)"
  using assms by (subst flush_nodes) (simp_all add: enqueue_fields enq_def one_def)

lemma one_ids: "map nd_id (one i t ns) = map nd_id ns"
  by (simp add: one_def shown_ids)

lemma id_set: "map nd_id ns' = map nd_id ns \<Longrightarrow> nd_id ` set ns' = nd_id ` set ns"
  by (metis set_map)

text \<open>Each packet on its own, as a flush after every packet shows it.\<close>

definition show_each :: "(nat \<Rightarrow> rat \<times> rat) \<Rightarrow> (string \<times> (string, jsval) omap) list \<Rightarrow> 'e WarRoomState \<Rightarrow> 'e WarRoomState" where
  "show_each rnd ts s = fold (\<lambda>(i, t) s. flushPressureValve rnd (enqueueTelemetry i t s)) ts s"

lemma show_each_nodes:
  assumes "wr_pendingTelemetry s = []" and "fst ` set ts \<subseteq> nd_id ` set (wr_nodes s)"
  shows "wr_nodes (show_each rnd ts s) = fold (\<lambda>(i, t). one i t) ts (wr_nodes s)"
  using assms
proof (induction ts arbitrary: s)
  case (Cons it ts)
  obtain i t where it: "it = (i, t)" by force
  let ?s = "flushPressureValve rnd (enqueueTelemetry i t s)"
  have n: "wr_nodes ?s = one i t (wr_nodes s)" using Cons.prems by (intro flush_one) (auto simp: it)
  have "nd_id ` set (wr_nodes ?s) = nd_id ` set (wr_nodes s)" unfolding n by (rule id_set) (rule one_ids)
  then have "wr_nodes (show_each rnd ts ?s) = fold (\<lambda>(i, t). one i t) ts (wr_nodes ?s)"
    using Cons.prems by (intro Cons.IH) (auto simp: flush_clears it)
  then show ?case by (simp add: show_each_def it n)
qed (simp add: show_each_def)

definition enqueue_all :: "(string \<times> (string, jsval) omap) list \<Rightarrow> 'e WarRoomState \<Rightarrow> 'e WarRoomState" where
  "enqueue_all ts s = fold (\<lambda>(i, t). enqueueTelemetry i t) ts s"

lemma enqueue_all_fields:
  "wr_nodes (enqueue_all ts s) = wr_nodes s
   \<and> wr_pendingTelemetry (enqueue_all ts s) = fold (\<lambda>(i, t). enq i t) ts (wr_pendingTelemetry s)"
  unfolding enqueue_all_def by (induction ts arbitrary: s) (auto simp: enqueue_fields)

lemma shown_all:
  assumes "list_all (\<lambda>(i, t). om_wf t \<and> status_said t) ts" and "list_all (\<lambda>(j, e). om_wf e) u"
  shows "shown ns (fold (\<lambda>(i, t). enq i t) ts u) = fold (\<lambda>(i, t). one i t) ts (shown ns u)"
  using assms
  by (induction ts arbitrary: u) (auto simp: shown_enq enq_wf)

lemma enq_keys: "fst ` set (fold (\<lambda>(i, t). enq i t) ts u) = fst ` set ts \<union> fst ` set u"
proof (induction ts arbitrary: u)
  case (Cons it ts)
  have "fst ` set (enq (fst it) (snd it) u) = insert (fst it) (fst ` set u)"
    by (simp add: enq_def set_om_keys_set)
  with Cons[of "enq (fst it) (snd it) u"] show ?case by (simp add: case_prod_beta)
qed simp

section \<open>Messages\<close>

definition content_of :: "'e WarRoomState \<Rightarrow> string \<Rightarrow> string \<Rightarrow> string" where
  "content_of s t i = (case om_get (wr_messagesByTopic s) t of
     None \<Rightarrow> []
   | Some ms \<Rightarrow> (case find (\<lambda>m. wm_id m = i) ms of None \<Rightarrow> [] | Some m \<Rightarrow> wm_content m))"

record DeltaMsg =
  dm_now :: int
  dm_topic :: string
  dm_message :: string
  dm_sender :: string
  dm_role :: MessageRole
  dm_text :: string

definition feed :: "DeltaMsg \<Rightarrow> 'e WarRoomState \<Rightarrow> 'e WarRoomState" where
  "feed d s = applyMessageDelta (dm_now d) (dm_topic d) (dm_message d) (dm_sender d) (dm_role d) (dm_text d) s"

lemma find_add_delta:
  "(case find (\<lambda>m. wm_id m = i) (add_delta new ms) of None \<Rightarrow> [] | Some m \<Rightarrow> wm_content m)
   = (case find (\<lambda>m. wm_id m = i) ms of None \<Rightarrow> [] | Some m \<Rightarrow> wm_content m)
     @ (if wm_id new = i then wm_content new else [])"
  by (induction ms) (auto simp: find_None_iff split: option.split)

text \<open>The ids of the messages a topic has got.\<close>

definition heard :: "string \<Rightarrow> DeltaMsg list \<Rightarrow> string set" where
  "heard t ds = dm_message ` set (filter (\<lambda>d. dm_topic d = t) ds)"

definition shows_topic :: "string \<Rightarrow> DeltaMsg list \<Rightarrow> 'e WarRoomState \<Rightarrow> bool" where
  "shows_topic t ds s \<longleftrightarrow>
     (let ms = case_option [] id (om_get (wr_messagesByTopic s) t) in
      distinct (map wm_id ms) \<and> wm_id ` set ms = heard t ds) \<and>
     (\<forall>i. content_of s t i = concat (map dm_text (filter (\<lambda>d. dm_topic d = t \<and> dm_message d = i) ds)))"

lemma heard_snoc: "heard t (ds @ [d]) = (if dm_topic d = t then insert (dm_message d) (heard t ds) else heard t ds)"
  by (auto simp: heard_def)

lemma finite_heard: "finite (heard t ds)"
  by (simp add: heard_def)

lemma feed_other: "dm_topic d \<noteq> t \<Longrightarrow> om_get (wr_messagesByTopic (feed d s)) t = om_get (wr_messagesByTopic s) t"
  by (simp add: feed_def applyMessageDelta_def Let_def)

lemma shows_topic_feed:
  assumes s: "shows_topic t ds s" and t: "t \<notin> set inherited_names" and n: "finite (heard t (ds @ [d]))"
    "Finite_Set.card (heard t (ds @ [d])) \<le> 200"
  shows "shows_topic t (ds @ [d]) (feed d s)"
proof (cases "dm_topic d = t")
  case False
  then have "om_get (wr_messagesByTopic (feed d s)) t = om_get (wr_messagesByTopic s) t" by (rule feed_other)
  with s False show ?thesis by (simp add: shows_topic_def content_of_def heard_snoc)
next
  case True
  define ms where "ms = case_option [] id (om_get (wr_messagesByTopic s) t)"
  define new where "new = \<lparr>wm_id = dm_message d, wm_topicId = t, wm_senderId = dm_sender d, wm_role = dm_role d,
    wm_content = dm_text d, wm_timestamp = dm_now d\<rparr>"
  have ids: "distinct (map wm_id ms)" "wm_id ` set ms = heard t ds"
    using s by (simp_all add: shows_topic_def ms_def Let_def)
  have d': "distinct (map wm_id (add_delta new ms))" using ids(1) by (auto simp: add_delta_ids)
  have "set (map wm_id (add_delta new ms)) = insert (dm_message d) (heard t ds)"
    using ids(2) by (simp add: add_delta_ids new_def insert_absorb)
  then have set': "wm_id ` set (add_delta new ms) = heard t (ds @ [d])"
    using True by (simp add: heard_snoc)
  have "length (add_delta new ms) = Finite_Set.card (heard t (ds @ [d]))"
    using distinct_card[OF d'] set' by simp
  then have keep: "js_slice_from (- 200) (add_delta new ms) = add_delta new ms"
    using n(2) js_slice_from_tail[of 200 "add_delta new ms"] by simp
  have got: "om_get (wr_messagesByTopic (feed d s)) t = Some (add_delta new ms)"
    using True t keep by (simp add: feed_def applyMessageDelta_def Let_def ms_def new_def)
  have old: "content_of s t i = (case find (\<lambda>m. wm_id m = i) ms of None \<Rightarrow> [] | Some m \<Rightarrow> wm_content m)" for i
    by (simp add: content_of_def ms_def split: option.split)
  have "content_of (feed d s) t i = content_of s t i @ (if dm_message d = i then dm_text d else [])" for i
    by (simp add: content_of_def[of "feed d s"] got find_add_delta old) (simp add: new_def)
  with s True d' set' show ?thesis by (simp add: shows_topic_def got)
qed

lemma heard_mono: "heard t ds \<subseteq> heard t (ds @ ds')"
  by (auto simp: heard_def)

lemma shows_topic_all:
  assumes "t \<notin> set inherited_names" and "Finite_Set.card (heard t ds) \<le> 200"
    and "om_get (wr_messagesByTopic s) t = None"
  shows "shows_topic t ds (fold feed ds s)"
  using assms
proof (induction ds rule: rev_induct)
  case Nil
  then show ?case by (simp add: shows_topic_def content_of_def heard_def)
next
  case (snoc d ds)
  have "Finite_Set.card (heard t ds) \<le> Finite_Set.card (heard t (ds @ [d]))"
    by (rule card_mono[OF finite_heard heard_mono])
  with snoc have "shows_topic t ds (fold feed ds s)" by simp
  from shows_topic_feed[OF this snoc.prems(1) finite_heard snoc.prems(2)] show ?case by simp
qed

text \<open>What the property look-ups of plain objects lose.\<close>

lemma proto_agent_lost:
  "map_option rn_agents (normalizeAgentRuntimeSnapshot now
     (VObj [(''agents'', VArr [VObj [(''agentId'', VStr ''__proto__'')]])])) = Some []"
  by (simp add: normalizeAgentRuntimeSnapshot_def normalizeAgentRuntimeEntry_def runtimeAgentItems_def Let_def
      obj_set_def trim_def js_space_def)

lemma inherited_topic_lost:
  "\<not> om_has (wr_messagesByTopic s) t \<Longrightarrow> t \<in> set inherited_names \<Longrightarrow> applyMessageDelta now t m a role d s = s"
  by (simp add: applyMessageDelta_def)

section \<open>Properties\<close>

text \<open>C26: the cockpit counts what the ledger holds. From any sequence of calls on the claims, a
  store that is given each event it emits shows, for every state, the number of records the
  ledger has in that state and, besides, those that were pruned in it; the last forty events are
  kept, the newest first.\<close>

theorem cockpit_counts_claims:
  fixes ops :: "(int \<times> ClaimOp) list"
  defines "m \<equiv> claim_run new_claims ops"
  shows "wr_claimStats (fold recordClaimEvent (claim_events m) (useWarRoomStore tab)) s
      = int (claim_stats m s + pruned_in new_claims ops s)
    \<and> wr_recentClaims (fold recordClaimEvent (claim_events m) (useWarRoomStore tab)) = take 40 (rev (claim_events m))"
proof -
  have "foldl stat_step (\<lambda>_. 0) (claim_events m) s = int (in_state (ledger m) s + 0 + pruned_in new_claims ops s)"
    unfolding m_def by (rule shown_run[where gone = "\<lambda>_. 0"]) (simp_all add: new_claims_def in_state_def)
  then show ?thesis
    by (simp add: recordClaimEvent_fold useWarRoomStore_def claim_stats_count in_state_def)
qed

text \<open>C27: whatever the feeds it normalises carry, the cockpit holds what its types promise. After any
  sequence of operations, with any JavaScript value for the snapshots and events of the runtimes, the
  hubs and the resource mode, and with records of their declared types for the feeds the store takes
  as they are (claims, circuits, rate limits, deltas): each agent is
  filed once, under its own trimmed and non-empty id, with trimmed and non-empty texts and a known
  status; the mode has a reason; each health record is filed under its own id; each circuit and
  rate limit under its agent; and the messages of a topic are of that topic, each once and at
  most 200.\<close>

theorem cockpit_well_typed: "room_typed (room_run ops (useWarRoomStore tab))"
  unfolding room_run_def by (rule room.run_inv) (rule typed_start)

text \<open>The feeds of the cockpit are bounded: after any sequence of operations each holds at most
  what its list is cut to, and no count is negative.\<close>

theorem cockpit_feeds_bounded: "room_bounded (room_run ops (useWarRoomStore tab))"
  unfolding room_run_def by (rule room_bounds.run_inv) (rule bounded_start)

text \<open>C28: the pressure valve loses nothing. For packets to known nodes, each an object whose own
  status is absent or says something, one flush after all of them shows the same nodes as a flush
  after each: the same statuses and the same merged telemetry, even in the order of the keys.\<close>

theorem flush_batches:
  assumes "wr_pendingTelemetry s = []" and "fst ` set ts \<subseteq> nd_id ` set (wr_nodes s)"
    and "list_all (\<lambda>(i, t). om_wf t \<and> status_said t) ts"
  shows "wr_nodes (flushPressureValve rnd (enqueue_all ts s)) = wr_nodes (show_each rnd' ts s)"
proof -
  have "fst ` set (wr_pendingTelemetry (enqueue_all ts s)) \<subseteq> set (map nd_id (wr_nodes (enqueue_all ts s)))"
    using assms(1,2) by (simp add: enqueue_all_fields enq_keys)
  then have "wr_nodes (flushPressureValve rnd (enqueue_all ts s)) = fold (\<lambda>(i, t). one i t) ts (wr_nodes s)"
    by (simp add: flush_nodes enqueue_all_fields assms(1) shown_all[OF assms(3)] shown_Nil)
  then show ?thesis by (simp add: show_each_nodes[OF assms(1,2)])
qed

theorem flush_batches_witness:
  "map nd_data (wr_nodes (flushPressureValve (\<lambda>_. (0, 0))
       (enqueue_all [(''system-ready'', [(''status'', VStr ''A''), (''cpu'', VBool True)]), (''system-ready'', [(''mem'', VNull)])]
         (useWarRoomStore None :: unit WarRoomState))))
   = map nd_data (wr_nodes (show_each (\<lambda>_. (0, 0))
       [(''system-ready'', [(''status'', VStr ''A''), (''cpu'', VBool True)]), (''system-ready'', [(''mem'', VNull)])]
         (useWarRoomStore None :: unit WarRoomState)))"
  by (subst flush_batches[where rnd' = "\<lambda>_. (0, 0)"])
    (simp_all add: useWarRoomStore_def system_ready_def status_said_def data_get_def)

text \<open>C29: the deltas of a stream assemble to its messages. However the deltas of several messages
  and topics interleave, a topic heard of for the first time, of at most 200 messages and not called
  like an inherited member (\<open>constructor\<close>, ...), shows for each message the concatenation
  of its own deltas in the order they came, and no message twice.\<close>

theorem deltas_assemble:
  assumes "t \<notin> set inherited_names" and "Finite_Set.card (heard t ds) \<le> 200"
    and "om_get (wr_messagesByTopic s) t = None"
  shows "content_of (fold feed ds s) t i
       = concat (map dm_text (filter (\<lambda>d. dm_topic d = t \<and> dm_message d = i) ds))
    \<and> distinct (map wm_id (case_option [] id (om_get (wr_messagesByTopic (fold feed ds s)) t)))"
  using shows_topic_all[OF assms] by (simp add: shows_topic_def Let_def)

definition sample_deltas :: "DeltaMsg list" where
  "sample_deltas = map (\<lambda>(t, m, x). \<lparr>dm_now = 0, dm_topic = t, dm_message = m, dm_sender = ''a'', dm_role = RoleAssistant, dm_text = x\<rparr>)
     [(''t'', ''1'', ''he''), (''t'', ''2'', ''wor''), (''u'', ''1'', ''no''), (''t'', ''1'', ''llo''), (''t'', ''2'', ''ld'')]"

lemma heard_sample: "heard ''t'' sample_deltas = {''1'', ''2''}"
  by (auto simp: heard_def sample_deltas_def)

theorem deltas_assemble_witness:
  "content_of (fold feed sample_deltas (useWarRoomStore None :: unit WarRoomState)) ''t'' ''1'' = ''hello''"
  by (subst conjunct1[OF deltas_assemble])
    (simp_all add: heard_sample inherited_names_def useWarRoomStore_def, simp add: sample_deltas_def)

end
