(* ===== verification/Inbox.thy ===== *)
theory Inbox
  imports Supervisor Cockpit Egress
begin

text \<open>
  \<open>src/scripts/kovael-agent-inbox.mjs\<close>: the process behind a chair that \<open>AgentRuntimeSupervisor\<close>
  starts. It takes dispatches on a loopback port, records them in its hub, runs the configured
  runtime for each, and delivers the replies of the outbox. The platform is POSIX. Node's HTTP
  server, child processes and \<open>fetch\<close> are outside: a request, the outcome of a child and the
  outcome of a delivery are events. A rejection nobody handles ends the process, as Node does
  by default: \<open>ib_down\<close>.
\<close>

section \<open>Command line\<close>

datatype arg_val = AText string | ANum int | ATrue | AList "string list"

type_synonym args = "(string, arg_val) omap"

text \<open>\<open>args[key] = next\<close> for any other key; a number that cannot be read is left out.\<close>

definition number_arg :: "string \<Rightarrow> string \<Rightarrow> args \<Rightarrow> args" where
  "number_arg name v a = (case parse_int v of Some n \<Rightarrow> om_set name (ANum n) a | None \<Rightarrow> a)"

definition store_arg :: "string \<Rightarrow> string \<Rightarrow> args \<Rightarrow> args" where
  "store_arg key v a =
     (if key = ''capabilities'' then om_set ''capabilities'' (AList (csv v)) a
      else if key = ''trust'' then number_arg ''trust'' v a
      else if key = ''port'' then number_arg ''port'' v a
      else if key = ''timeout-ms'' then number_arg ''timeoutMs'' v a
      else obj_set key (AText v) a)"

text \<open>The options without a value.\<close>

definition flag_arg :: "string \<Rightarrow> string option" where
  "flag_arg key =
     (if key = ''probe'' then Some ''probe''
      else if key = ''with-token'' then Some ''withToken''
      else if key = ''require-hub-encryption'' then Some ''requireHubEncryption''
      else None)"

fun parse_args :: "string list \<Rightarrow> args \<Rightarrow> args" where
  "parse_args [] a = a"
| "parse_args [arg] a =
     (if starts_with ''--'' arg then (case flag_arg (drop 2 arg) of Some f \<Rightarrow> om_set f ATrue a | None \<Rightarrow> a) else a)"
| "parse_args (arg # nxt # rest) a =
     (if \<not> starts_with ''--'' arg then parse_args (nxt # rest) a
      else case flag_arg (drop 2 arg) of
             Some f \<Rightarrow> parse_args (nxt # rest) (om_set f ATrue a)
           | None \<Rightarrow>
               if starts_with ''--'' nxt then parse_args (nxt # rest) a
               else parse_args rest (store_arg (drop 2 arg) nxt a))"

definition parseArgs :: "string list \<Rightarrow> args" where
  "parseArgs argv = parse_args argv [(''capabilities'', AList [])]"

definition text_arg :: "args \<Rightarrow> string \<Rightarrow> string option" where
  "text_arg a k = (case om_get a k of Some (AText s) \<Rightarrow> Some s | _ \<Rightarrow> None)"

definition number_of_arg :: "args \<Rightarrow> string \<Rightarrow> int option" where
  "number_of_arg a k = (case om_get a k of Some (ANum n) \<Rightarrow> Some n | _ \<Rightarrow> None)"

text \<open>A member that is there holds \<^const>\<open>ATrue\<close> or a text; only the empty text is falsy.\<close>

definition truthy_arg :: "args \<Rightarrow> string \<Rightarrow> bool" where
  "truthy_arg a k = (case om_get a k of None \<Rightarrow> False | Some (AText s) \<Rightarrow> s \<noteq> [] | Some _ \<Rightarrow> True)"

definition list_arg :: "args \<Rightarrow> string \<Rightarrow> string list" where
  "list_arg a k = (case om_get a k of Some (AList xs) \<Rightarrow> xs | _ \<Rightarrow> [])"

definition bearerToken :: "penv \<Rightarrow> args \<Rightarrow> string + string option" where
  "bearerToken env a =
     (if truthy_str (text_arg a ''token'') then Inr (text_arg a ''token'')
      else if \<not> truthy_arg a ''withToken'' then Inr None
      else if truthy_str (env ''KOVAEL_TOKEN'') then Inr (env ''KOVAEL_TOKEN'')
      else Inl ''--with-token set but KOVAEL_TOKEN is empty'')"

definition hubEncryptionRequired :: "penv \<Rightarrow> args \<Rightarrow> bool" where
  "hubEncryptionRequired env a = (truthy_arg a ''requireHubEncryption'' \<or> isHubEncryptionRequired env)"

definition readPositiveInt :: "string option \<Rightarrow> int \<Rightarrow> int" where
  "readPositiveInt v fallback =
     (case parse_int (case_option [] id v) of Some n \<Rightarrow> if n > 0 then n else fallback | None \<Rightarrow> fallback)"

definition parseCsvArg :: "string option \<Rightarrow> string list" where
  "parseCsvArg v = (case v of None \<Rightarrow> [] | Some s \<Rightarrow> csv s)"

fun json_strings :: "json list \<Rightarrow> string list" where
  "json_strings [] = []"
| "json_strings (JStr s # xs) = s # json_strings xs"
| "json_strings (_ # xs) = json_strings xs"

definition parseCommandArgsArg :: "string option \<Rightarrow> string list" where
  "parseCommandArgsArg v =
     (case v of None \<Rightarrow> []
      | Some s \<Rightarrow> (case JSON_parse s of Some (JArr xs) \<Rightarrow> json_strings xs | _ \<Rightarrow> []))"

section \<open>Configuration\<close>

record InboxConfig =
  ic_id :: string
  ic_provider :: string
  ic_runtime :: string
  ic_host :: string
  ic_port :: int
  ic_cwd :: string
  ic_model :: "string option"
  ic_command :: "string option"
  ic_commandArgs :: "string list"
  ic_allowEnv :: "string list"
  ic_codexBin :: "string option"
  ic_claudeBin :: "string option"
  ic_timeoutMs :: arg_val
  ic_replyTimeoutMs :: int
  ic_replyRetryBaseMs :: int
  ic_outboxMaxAttempts :: int
  ic_outboxLeaseMs :: int
  ic_outboxDrainIntervalMs :: int
  ic_capabilities :: "string list"
  ic_trust :: "int option"
  ic_note :: "string option"
  ic_hubPath :: string
  ic_requireHubEncryption :: bool

datatype main_error = Usage string | Fatal string

definition inbox_id_ok :: "string \<Rightarrow> bool" where
  "inbox_id_ok i \<longleftrightarrow> i \<noteq> [] \<and> list_all safe_char i \<and> \<not> list_all (\<lambda>c. c = CHR ''.'') i"

definition defaultAgentHubRoot :: "string \<Rightarrow> penv \<Rightarrow> string" where
  "defaultAgentHubRoot homedir env =
     (if truthy_str (env ''KOVAEL_AGENT_HUB_DIR'') then the (env ''KOVAEL_AGENT_HUB_DIR'')
      else defaultAgentHubDir homedir env)"

text \<open>\<open>a || b\<close> for texts.\<close>

definition text_else :: "string option \<Rightarrow> string \<Rightarrow> string" where
  "text_else v d = (if truthy_str v then the v else d)"

text \<open>The part of \<open>main\<close> before anything is opened: the configuration of the process.\<close>

definition inbox_config :: "string \<Rightarrow> string \<Rightarrow> penv \<Rightarrow> string list \<Rightarrow> main_error + InboxConfig" where
  "inbox_config homedir pwd env argv =
     (let a = parseArgs argv in
      if \<not> truthy_str (text_arg a ''id'') then Inl (Usage ''--id is required'')
      else if \<not> inbox_id_ok (the (text_arg a ''id'')) then Inl (Usage ''--id must match [a-zA-Z0-9._-] and not be dot-only'')
      else if \<not> truthy_str (text_arg a ''provider'') then Inl (Usage ''--provider is required'')
      else if \<not> truthy_str (text_arg a ''runtime'') then Inl (Usage ''--runtime is required'')
      else
        let ident = the (text_arg a ''id'');
            required = hubEncryptionRequired env a;
            cfg = \<lparr>ic_id = ident, ic_provider = the (text_arg a ''provider''), ic_runtime = the (text_arg a ''runtime''),
              ic_host = text_else (text_arg a ''host'') (text_else (env ''KOVAEL_HOST'') ''http://127.0.0.1:8080''),
              ic_port = case_option 0 id (number_of_arg a ''port''),
              ic_cwd = text_else (text_arg a ''cwd'') pwd,
              ic_model = text_arg a ''model'', ic_command = text_arg a ''command'',
              ic_commandArgs = parseCommandArgsArg (text_arg a ''command-args''),
              ic_allowEnv = parseCsvArg (text_arg a ''allow-env''),
              ic_codexBin = text_arg a ''codex-bin'', ic_claudeBin = text_arg a ''claude-bin'',
              ic_timeoutMs = case_option (ANum 180000) id (om_get a ''timeoutMs''),
              ic_replyTimeoutMs = readPositiveInt (env ''KOVAEL_CHAIR_REPLY_TIMEOUT_MS'') 15000,
              ic_replyRetryBaseMs = readPositiveInt (env ''KOVAEL_CHAIR_REPLY_RETRY_BASE_MS'') 100,
              ic_outboxMaxAttempts = readPositiveInt (env ''KOVAEL_AGENT_OUTBOX_MAX_ATTEMPTS'') 5,
              ic_outboxLeaseMs = readPositiveInt (env ''KOVAEL_AGENT_OUTBOX_LEASE_MS'') 30000,
              ic_outboxDrainIntervalMs = readPositiveInt (env ''KOVAEL_AGENT_OUTBOX_DRAIN_INTERVAL_MS'') 100,
              ic_capabilities = list_arg a ''capabilities'', ic_trust = number_of_arg a ''trust'',
              ic_note = text_arg a ''note'',
              ic_hubPath = text_else (text_arg a ''hub-path'')
                (path_joins [defaultAgentHubRoot homedir env, safePathSegment ident, ''agent-hub.sqlite'']),
              ic_requireHubEncryption = required\<rparr>
        in if required \<and> \<not> isValidAgentHubSecret (env AGENT_HUB_SECRET_ENV)
           then Inl (Fatal (AGENT_HUB_SECRET_ENV @ '' must be at least 32 characters when hub encryption is required''))
           else Inr cfg)"

text \<open>The claim of the chair, and what the answers to it and to a heartbeat mean.\<close>

definition claim_request :: "InboxConfig \<Rightarrow> int \<Rightarrow> json" where
  "claim_request cfg port =
     JObj ([(''agentId'', JStr (ic_id cfg)), (''provider'', JStr (ic_provider cfg)),
        (''capabilities'', JArr (map JStr (ic_capabilities cfg))),
        (''inboxUrl'', JStr (''http://127.0.0.1:'' @ show_int port @ ''/inbox''))]
      @ (case ic_trust cfg of Some t \<Rightarrow> [(''trustTier'', JNum t)] | None \<Rightarrow> [])
      @ (if truthy_str (ic_note cfg) then [(''note'', JStr (the (ic_note cfg)))] else []))"

fun json_truthy :: "json option \<Rightarrow> bool" where
  "json_truthy None = False"
| "json_truthy (Some JNull) = False"
| "json_truthy (Some (JBool b)) = b"
| "json_truthy (Some (JNum n)) = (n \<noteq> 0)"
| "json_truthy (Some (JStr s)) = (s \<noteq> [])"
| "json_truthy (Some _) = True"

definition claim_accepted :: "nat \<Rightarrow> json \<Rightarrow> bool" where
  "claim_accepted status body \<longleftrightarrow> status = 200 \<and> json_truthy (jget body ''sessionId'')"

definition heartbeat_interval :: "json \<Rightarrow> int" where
  "heartbeat_interval body =
     (case jget body ''heartbeatIntervalMs'' of Some (JNum n) \<Rightarrow> max 1000 (if n = 0 then 7500 else n) | _ \<Rightarrow> 7500)"

definition heartbeat_ends :: "nat \<Rightarrow> bool" where
  "heartbeat_ends status \<longleftrightarrow> status = 409"

section \<open>Envelopes\<close>

definition dispatchSecret :: "penv \<Rightarrow> string option" where
  "dispatchSecret env =
     (case map_option trim (env ''KOVAEL_CHAIR_DISPATCH_SECRET'') of
        Some s \<Rightarrow> if length s \<ge> 32 then Some s else None | None \<Rightarrow> None)"

definition inbox_key :: "crypto \<Rightarrow> string \<Rightarrow> string" where
  "inbox_key cr secret = cr_hkdf cr secret ''kovael-chair-dispatch-kdf'' (''kovael-chair-v1'' @ '':payload'')"

definition inbox_aad :: "string \<Rightarrow> int \<Rightarrow> string" where
  "inbox_aad requestId timestamp = ''kovael-chair-v1'' @ NL @ requestId @ NL @ show_int timestamp"

definition encryptPayload :: "crypto \<Rightarrow> penv \<Rightarrow> int \<Rightarrow> string \<Rightarrow> json \<Rightarrow> string \<Rightarrow> SecuredBody" where
  "encryptPayload cr env now iv payload requestId =
     (case dispatchSecret env of
        None \<Rightarrow> \<lparr>sb_body = stringify payload, sb_headers = [(''content-type'', ''application/json'')]\<rparr>
      | Some secret \<Rightarrow>
          (case cr_seal cr (inbox_key cr secret) iv (inbox_aad requestId now) (stringify payload) of
             (ciphertext, tag) \<Rightarrow>
               \<lparr>sb_body = stringify (JObj [(''version'', JStr ''kovael-chair-v1''), (''encrypted'', JBool True),
                  (''alg'', JStr ''A256GCM''), (''requestId'', JStr requestId), (''timestamp'', JNum now),
                  (''iv'', JStr iv), (''ciphertext'', JStr ciphertext), (''tag'', JStr tag)]),
                sb_headers = [(''content-type'', ''application/json''), (''x-kovael-chair-security'', ''kovael-chair-v1''),
                  (''x-kovael-request-id'', requestId)]\<rparr>))"

datatype decrypt_error = EnvelopeRequired | EnvelopeMalformed | EnvelopeStale | FieldMissing string | CipherRejected
  | PlainNotJson | PlainNotObject

definition fromB64 :: "json option \<Rightarrow> string \<Rightarrow> decrypt_error + string" where
  "fromB64 v field = (case v of Some (JStr s) \<Rightarrow> if s = [] then Inl (FieldMissing field) else Inr s | _ \<Rightarrow> Inl (FieldMissing field))"

text \<open>The reviver of the parse: no member is called \<open>__proto__\<close>, at any depth.\<close>

fun drop_proto :: "json \<Rightarrow> json" where
  "drop_proto (JArr xs) = JArr (map drop_proto xs)"
| "drop_proto (JObj kvs) = JObj (map (\<lambda>(k, v). (k, drop_proto v)) (filter (\<lambda>kv. fst kv \<noteq> ''__proto__'') kvs))"
| "drop_proto v = v"

definition open_payload :: "crypto \<Rightarrow> string \<Rightarrow> string \<Rightarrow> int \<Rightarrow> json \<Rightarrow> decrypt_error + json" where
  "open_payload cr secret requestId timestamp body =
     (case fromB64 (jget body ''iv'') ''iv'' of
        Inl err \<Rightarrow> Inl err
      | Inr iv \<Rightarrow>
          if \<not> cr_iv_ok cr iv then Inl CipherRejected
          else (case fromB64 (jget body ''tag'') ''tag'' of
              Inl err \<Rightarrow> Inl err
            | Inr tag \<Rightarrow>
                if \<not> cr_tag_ok cr tag then Inl CipherRejected
                else (case fromB64 (jget body ''ciphertext'') ''ciphertext'' of
                    Inl err \<Rightarrow> Inl err
                  | Inr ciphertext \<Rightarrow>
                      (case cr_open cr (inbox_key cr secret) iv (inbox_aad requestId timestamp) ciphertext tag of
                         None \<Rightarrow> Inl CipherRejected
                       | Some plaintext \<Rightarrow>
                           (case map_option drop_proto (JSON_parse plaintext) of
                              None \<Rightarrow> Inl PlainNotJson
                            | Some (JObj kvs) \<Rightarrow> Inr (JObj kvs)
                            | Some _ \<Rightarrow> Inl PlainNotObject)))))"

definition decryptPayload :: "crypto \<Rightarrow> penv \<Rightarrow> int \<Rightarrow> json \<Rightarrow> decrypt_error + json" where
  "decryptPayload cr env now body =
     (case dispatchSecret env of
        None \<Rightarrow> Inr body
      | Some secret \<Rightarrow>
          if jget body ''encrypted'' \<noteq> Some (JBool True) then Inl EnvelopeRequired
          else (case (jget body ''requestId'', jget body ''timestamp'') of
              (Some (JStr requestId), Some (JNum timestamp)) \<Rightarrow>
                if jget body ''version'' \<noteq> Some (JStr ''kovael-chair-v1'') \<or> jget body ''alg'' \<noteq> Some (JStr ''A256GCM'')
                then Inl EnvelopeMalformed
                else if \<bar>now - timestamp\<bar> > 300000 then Inl EnvelopeStale
                else open_payload cr secret requestId timestamp body
            | _ \<Rightarrow> Inl EnvelopeMalformed))"

section \<open>The runtimes\<close>

definition compact_line :: "json \<Rightarrow> string option" where
  "compact_line msg =
     (let role = (case jget msg ''role'' of Some (JStr r) \<Rightarrow> r | _ \<Rightarrow> ''message'');
          name = (case jget msg ''name'' of Some (JStr n) \<Rightarrow> n @ '': '' | _ \<Rightarrow> []);
          content = (case jget msg ''content'' of Some (JStr c) \<Rightarrow> c | _ \<Rightarrow> [])
      in if trim content \<noteq> [] then Some (role @ '' '' @ name @ trim content) else None)"

fun some_lines :: "string option list \<Rightarrow> string list" where
  "some_lines [] = []"
| "some_lines (None # xs) = some_lines xs"
| "some_lines (Some l # xs) = l # some_lines xs"

definition compactMessages :: "json option \<Rightarrow> string" where
  "compactMessages messages =
     (case messages of
        Some (JArr xs) \<Rightarrow>
          js_slice_from (- 20000) (join_with NL (some_lines (map compact_line (js_slice_from (- 12) xs))))
      | _ \<Rightarrow> [])"

definition promptFor :: "string \<Rightarrow> json \<Rightarrow> string" where
  "promptFor agentId payload =
     (let history = compactMessages (jget payload ''messages'') in
      join_with (NL @ NL) (filter (\<lambda>t. t \<noteq> [])
        [''Kovael chair: '' @ agentId @ ''.'',
         ''Return one concise, concrete answer for the live round-table. Do not invent tool results or claim actions not performed.'',
         if history \<noteq> [] then ''Conversation so far:'' @ NL @ history else []]))"

record RuntimeCall =
  rt_command :: string
  rt_args :: "string list"
  rt_cwd :: string
  rt_env :: "(string, string) omap"

text \<open>What a runtime does first: answer, start a child, or fail.\<close>

datatype RuntimePlan = PlanReply string | PlanSpawn RuntimeCall | PlanError string

record RuntimeEnv =
  re_penv :: penv
  re_sha :: "string \<Rightarrow> string"
  re_execPath :: string
  re_outPath :: string

definition resolveCodexInvocation :: "InboxConfig \<Rightarrow> RuntimeEnv \<Rightarrow> string \<times> string list" where
  "resolveCodexInvocation cfg e =
     (let configured = (if truthy_str (ic_codexBin cfg) then ic_codexBin cfg else re_penv e ''KOVAEL_CODEX_BIN'') in
      if truthy_str configured then
        (if ends_with ''.js'' (the configured) then (re_execPath e, [the configured]) else (the configured, []))
      else (''codex'', []))"

definition codex_call :: "InboxConfig \<Rightarrow> RuntimeEnv \<Rightarrow> string \<Rightarrow> json \<Rightarrow> RuntimeCall" where
  "codex_call cfg e sandbox payload =
     (case resolveCodexInvocation cfg e of (command, argsPrefix) \<Rightarrow>
       \<lparr>rt_command = command,
        rt_args = argsPrefix @ [''exec'', ''-C'', ic_cwd cfg, ''--sandbox'', sandbox, ''--output-last-message'', re_outPath e,
          promptFor (ic_id cfg) payload],
        rt_cwd = ic_cwd cfg, rt_env = buildAgentRuntimeEnv (re_penv e)\<rparr>)"

definition claude_call :: "InboxConfig \<Rightarrow> RuntimeEnv \<Rightarrow> json \<Rightarrow> RuntimeCall" where
  "claude_call cfg e payload =
     \<lparr>rt_command = text_else (ic_claudeBin cfg) (text_else (re_penv e ''KOVAEL_CLAUDE_BIN'') ''claude''),
      rt_args = [''-p'', promptFor (ic_id cfg) payload, ''--model'', text_else (ic_model cfg) ''sonnet'',
        ''--output-format'', ''json'', ''--permission-mode'', ''dontAsk'', ''--allowedTools'', [], ''--no-session-persistence''],
      rt_cwd = ic_cwd cfg, rt_env = buildAgentRuntimeEnv (re_penv e)\<rparr>"

definition runFakeDeterministic :: "InboxConfig \<Rightarrow> RuntimeEnv \<Rightarrow> json \<Rightarrow> string" where
  "runFakeDeterministic cfg e payload =
     (let requestId = (case jget payload ''requestId'' of Some (JStr r) \<Rightarrow> r | _ \<Rightarrow> ''missing-request'');
          topicId = (case jget payload ''topicId'' of Some (JStr t) \<Rightarrow> t | _ \<Rightarrow> ''missing-topic'');
          system = (case jget payload ''system'' of None \<Rightarrow> JStr [] | Some JNull \<Rightarrow> JStr [] | Some v \<Rightarrow> v);
          messages = (case jget payload ''messages'' of Some (JArr xs) \<Rightarrow> JArr xs | _ \<Rightarrow> JArr []);
          inputHash = take 16 (re_sha e (stringify (JObj [(''agentId'', JStr (ic_id cfg)), (''topicId'', JStr topicId),
            (''requestId'', JStr requestId), (''system'', system), (''messages'', messages)])))
      in ''FAKE_RUNTIME_REPLY agent='' @ ic_id cfg @ '' request='' @ requestId @ '' topic='' @ topicId @ '' hash='' @ inputHash)"

text \<open>The denylist of the script is the one of the adapter: the same five names.\<close>

fun add_allowed :: "penv \<Rightarrow> string list \<Rightarrow> (string, string) omap \<Rightarrow> (string, string) omap" where
  "add_allowed source [] env = env"
| "add_allowed source (name # names) env =
     add_allowed source names
       (if toUpperCase name \<in> {''KOVAEL_AGENT_HUB_SECRET'', ''KOVAEL_CHAIR_DISPATCH_SECRET'', ''KOVAEL_API_TOKEN'',
            ''KOVAEL_TOKEN'', ''KOVAEL_AGENT_HUB_ENCRYPTION''} then env
        else case source name of Some v \<Rightarrow> om_set name v env | None \<Rightarrow> env)"

definition buildCommandEnv :: "InboxConfig \<Rightarrow> penv \<Rightarrow> (string, string) omap" where
  "buildCommandEnv cfg env = add_allowed env (ic_allowEnv cfg) (buildAgentRuntimeEnv env)"

definition command_plan :: "InboxConfig \<Rightarrow> RuntimeEnv \<Rightarrow> json \<Rightarrow> RuntimePlan" where
  "command_plan cfg e payload =
     (if \<not> truthy_str (ic_command cfg) then PlanError ''command runtime requires --command''
      else
        let command = the (ic_command cfg) in
        if command \<notin> set (parseCsvArg (re_penv e ''KOVAEL_COMMAND_ADAPTER_ALLOW''))
        then PlanError (''command_adapter_blocked: '' @ CHR 0x27 # command @ CHR 0x27 # '' is not in KOVAEL_COMMAND_ADAPTER_ALLOW'')
        else PlanSpawn \<lparr>rt_command = command, rt_args = ic_commandArgs cfg @ [promptFor (ic_id cfg) payload],
               rt_cwd = ic_cwd cfg, rt_env = buildCommandEnv cfg (re_penv e)\<rparr>)"

definition runtime_plan :: "InboxConfig \<Rightarrow> RuntimeEnv \<Rightarrow> json \<Rightarrow> RuntimePlan" where
  "runtime_plan cfg e payload =
     (if ic_runtime cfg = ''fake-deterministic'' then PlanReply (runFakeDeterministic cfg e payload)
      else if ic_runtime cfg = ''codex'' then PlanSpawn (codex_call cfg e ''read-only'' payload)
      else if ic_runtime cfg = ''codex-openclaw'' then PlanSpawn (codex_call cfg e ''danger-full-access'' payload)
      else if ic_runtime cfg = ''claude-shaev'' then PlanSpawn (claude_call cfg e payload)
      else if ic_runtime cfg = ''command'' then command_plan cfg e payload
      else PlanError (''unknown runtime: '' @ ic_runtime cfg))"

text \<open>What a child leaves: its exit code (none after a signal), its output, and the file it wrote.\<close>

record ProcResult =
  px_code :: "int option"
  px_stdout :: string
  px_stderr :: string
  px_file :: "string option"

datatype ProcOutcome = ProcError string | ProcDone ProcResult

definition show_code :: "int option \<Rightarrow> string" where
  "show_code c = (case c of None \<Rightarrow> ''null'' | Some n \<Rightarrow> show_int n)"

definition or_text :: "string \<Rightarrow> string \<Rightarrow> string" where
  "or_text a b = (if a \<noteq> [] then a else b)"

definition codex_result :: "ProcResult \<Rightarrow> string + string" where
  "codex_result r =
     (let text = (case px_file r of Some t \<Rightarrow> trim t | None \<Rightarrow> trim (px_stdout r)) in
      if px_code r \<noteq> Some 0 then Inl (''codex exited '' @ show_code (px_code r) @ '': '' @ or_text (px_stderr r) (px_stdout r))
      else if text = [] then Inl ''codex returned an empty response''
      else Inr text)"

definition claude_result :: "ProcResult \<Rightarrow> string + string" where
  "claude_result r =
     (let raw = or_text (trim (px_stdout r)) (trim (px_stderr r)) in
      if px_code r \<noteq> Some 0 then Inl (''claude exited '' @ show_code (px_code r) @ '': '' @ raw)
      else (case JSON_parse raw of
          None \<Rightarrow> Inl (''claude returned non-json output: '' @ take 300 raw)
        | Some JNull \<Rightarrow> Inl ''Cannot read properties of null''
        | Some answer \<Rightarrow>
            if json_truthy (jget answer ''is_error'') then
              Inl (if json_truthy (jget answer ''result'') then js_String (the (jget answer ''result''))
                   else ''claude returned an error'')
            else
              let text = (case jget answer ''result'' of Some (JStr t) \<Rightarrow> trim t | _ \<Rightarrow> []) in
              if text = [] then Inl ''claude returned an empty response'' else Inr text))"

definition command_result :: "ProcResult \<Rightarrow> string + string" where
  "command_result r =
     (if px_code r \<noteq> Some 0 then Inl (''command exited '' @ show_code (px_code r) @ '': '' @ or_text (px_stderr r) (px_stdout r))
      else if trim (px_stdout r) = [] then Inl ''command returned an empty response''
      else Inr (trim (px_stdout r)))"

text \<open>\<open>runRuntime\<close>: what it resolves or rejects with, for what its child did.\<close>

definition runRuntime :: "InboxConfig \<Rightarrow> RuntimeEnv \<Rightarrow> json \<Rightarrow> ProcOutcome \<Rightarrow> string + string" where
  "runRuntime cfg e payload out =
     (case runtime_plan cfg e payload of
        PlanReply t \<Rightarrow> Inr t
      | PlanError err \<Rightarrow> Inl err
      | PlanSpawn _ \<Rightarrow>
          (case out of
             ProcError err \<Rightarrow> Inl err
           | ProcDone r \<Rightarrow>
               if ic_runtime cfg = ''claude-shaev'' then claude_result r
               else if ic_runtime cfg = ''command'' then command_result r
               else codex_result r))"

section \<open>Deliveries\<close>

record ReplyCall =
  rp_url :: string
  rp_headers :: "(string \<times> string) list"
  rp_body :: string

definition LOOPBACK_REPLY_HOSTS :: "string set" where
  "LOOPBACK_REPLY_HOSTS = {''127.0.0.1'', ''localhost'', ''::1''}"

text \<open>The URL parser of the platform is an argument; \<open>None\<close> is a text it throws on.\<close>

definition assertLoopbackHttpUrl :: "(string \<Rightarrow> chair_url option) \<Rightarrow> string \<Rightarrow> string option" where
  "assertLoopbackHttpUrl parse urlString =
     (case parse urlString of
        None \<Rightarrow> Some ''reply targetUrl is not a valid URL''
      | Some u \<Rightarrow>
          if url_protocol u \<noteq> ''http:'' \<and> url_protocol u \<noteq> ''https:''
          then Some (''reply targetUrl uses disallowed protocol '' @ CHR 0x22 # url_protocol u @ [CHR 0x22])
          else if strip_brackets (url_hostname u) \<notin> LOOPBACK_REPLY_HOSTS
          then Some (''reply targetUrl host '' @ CHR 0x22 # url_hostname u @ CHR 0x22 # '' is not loopback'')
          else None)"

text \<open>One turn of the event loop: its readings of the clock, and what the platform answers in it.\<close>

record InboxEnv =
  ie_hub :: "nat \<Rightarrow> HubEnv"
  ie_now :: int
  ie_uuid :: string
  ie_iv :: string
  ie_parse :: "string \<Rightarrow> chair_url option"
  ie_runtime :: RuntimeEnv

abbreviation ie_penv :: "InboxEnv \<Rightarrow> penv" where
  "ie_penv e \<equiv> re_penv (ie_runtime e)"

abbreviation ie_crypto :: "InboxEnv \<Rightarrow> crypto" where
  "ie_crypto e \<equiv> he_crypto (ie_hub e 0)"

text \<open>\<open>sendOutboxReply\<close> up to its \<open>fetch\<close>: nothing to send, an error, or the call.\<close>

datatype SendPlan = SendNothing | SendError string | SendCall ReplyCall

definition sendOutboxReply :: "InboxEnv \<Rightarrow> AgentOutboxRecord \<Rightarrow> SendPlan" where
  "sendOutboxReply e row =
     (let r = ox_row row in
      if ob_kind r \<noteq> KReply then SendNothing
      else if ob_target_url r = [] then SendError ''outbox reply did not include targetUrl''
      else (case assertLoopbackHttpUrl (ie_parse e) (ob_target_url r) of
          Some err \<Rightarrow> SendError err
        | None \<Rightarrow>
            let requestId = (case jget (ox_payload row) ''requestId'' of Some (JStr i) \<Rightarrow> i | _ \<Rightarrow> ob_request_id r);
                secured = encryptPayload (ie_crypto e) (ie_penv e) (ie_now e) (ie_iv e) (ox_payload row) requestId
            in SendCall \<lparr>rp_url = ob_target_url r,
                 rp_headers = sb_headers secured @ [(''content-length'', show_nat (byteLength (sb_body secured)))],
                 rp_body = sb_body secured\<rparr>))"

datatype Delivery = DeliveryError string | HttpStatus nat string

text \<open>What the answer throws: a message and, from a status that is not 2xx, the status.\<close>

definition delivery_error :: "Delivery \<Rightarrow> (nat option \<times> string) option" where
  "delivery_error d =
     (case d of
        DeliveryError m \<Rightarrow> Some (None, m)
      | HttpStatus n text \<Rightarrow>
          if 200 \<le> n \<and> n \<le> 299 then None
          else Some (Some n, ''reply webhook HTTP '' @ show_nat n @ '': '' @ text))"

definition RETRYABLE_REPLY_STATUS :: "nat set" where
  "RETRYABLE_REPLY_STATUS = {429, 502, 503, 504}"

definition PERMANENT_REPLY_STATUS :: "nat set" where
  "PERMANENT_REPLY_STATUS = {400, 401, 403, 404, 409}"

definition classifyOutboxDeliveryFailure ::
    "InboxConfig \<Rightarrow> InboxEnv \<Rightarrow> OutboxRow \<Rightarrow> nat option \<times> string \<Rightarrow> int option \<times> string" where
  "classifyOutboxDeliveryFailure cfg e row err =
     (let status = fst err; message = redactSensitiveText (ie_penv e) (snd err) in
      if status \<in> Some ` PERMANENT_REPLY_STATUS then (None, message)
      else if int (ob_attempts row) \<ge> ic_outboxMaxAttempts cfg then (None, message)
      else if status = None \<or> status \<in> Some ` RETRYABLE_REPLY_STATUS then
        (Some (ie_now e + min 5000 (ic_replyRetryBaseMs cfg * max 1 (int (ob_attempts row)))), message)
      else (None, message))"

section \<open>The process\<close>

record Inbox =
  ib_hub :: AgentHub
  ib_inFlight :: "string list"
  ib_tasks :: "(string \<times> json) list"
  ib_started :: "string list"
  ib_drain :: "AgentOutboxRecord list option"
  ib_calls :: "ReplyCall list"
  ib_down :: bool

definition new_inbox :: "AgentHub \<Rightarrow> Inbox" where
  "new_inbox h = \<lparr>ib_hub = h, ib_inFlight = [], ib_tasks = [], ib_started = [], ib_drain = None, ib_calls = [], ib_down = False\<rparr>"

text \<open>
  The loop of \<open>drainOutboxOnce\<close> up to its next \<open>fetch\<close>. A failure that cannot be recorded leaves
  the loop; the tick catches it.
\<close>

definition record_failure :: "InboxConfig \<Rightarrow> InboxEnv \<Rightarrow> OutboxRow \<Rightarrow> nat option \<times> string \<Rightarrow> unit hub_op" where
  "record_failure cfg e row err h =
     (case classifyOutboxDeliveryFailure cfg e row err of (retryAt, message) \<Rightarrow>
       markOutboxDeliveryFailed (ie_hub e 0) (ob_id row) message (map_option (\<lambda>t. Num (of_int t)) retryAt)
         (Num (of_int (ic_outboxMaxAttempts cfg))) h)"

definition hub_error_text :: "hub_error \<Rightarrow> string" where
  "hub_error_text err = (case err of UnknownOutbox \<Rightarrow> ''unknown outbox row'' | _ \<Rightarrow> ''agent hub error'')"

text \<open>The end of the \<open>try\<close> of a row: it was sent, or what is caught is recorded.\<close>

definition finish_row :: "InboxConfig \<Rightarrow> InboxEnv \<Rightarrow> OutboxRow \<Rightarrow> (nat option \<times> string) option \<Rightarrow> unit hub_op" where
  "finish_row cfg e row err h =
     (case err of
        Some x \<Rightarrow> record_failure cfg e row x h
      | None \<Rightarrow>
          (case markOutboxSent (ie_hub e 0) (ob_id row) h of
             (Inr _, h') \<Rightarrow> (Inr (), h')
           | (Inl x, h') \<Rightarrow> record_failure cfg e row (None, hub_error_text x) h'))"

fun drain_rows :: "InboxConfig \<Rightarrow> InboxEnv \<Rightarrow> AgentOutboxRecord list \<Rightarrow> Inbox \<Rightarrow> Inbox" where
  "drain_rows cfg e [] s = s\<lparr>ib_drain := None\<rparr>"
| "drain_rows cfg e (row # rows) s =
     (case sendOutboxReply e row of
        SendCall c \<Rightarrow> s\<lparr>ib_drain := Some (row # rows), ib_calls := ib_calls s @ [c]\<rparr>
      | SendNothing \<Rightarrow>
          (case finish_row cfg e (ox_row row) None (ib_hub s) of
             (Inl _, h) \<Rightarrow> s\<lparr>ib_hub := h, ib_drain := None\<rparr>
           | (Inr _, h) \<Rightarrow> drain_rows cfg e rows (s\<lparr>ib_hub := h\<rparr>))
      | SendError err \<Rightarrow>
          (case finish_row cfg e (ox_row row) (Some (None, err)) (ib_hub s) of
             (Inl _, h) \<Rightarrow> s\<lparr>ib_hub := h, ib_drain := None\<rparr>
           | (Inr _, h) \<Rightarrow> drain_rows cfg e rows (s\<lparr>ib_hub := h\<rparr>)))"

text \<open>A tick of the drain, by its timer or by \<open>poke\<close>.\<close>

definition drain_tick :: "InboxConfig \<Rightarrow> InboxEnv \<Rightarrow> nat \<Rightarrow> Inbox \<Rightarrow> Inbox" where
  "drain_tick cfg e i s =
     (if ib_drain s \<noteq> None then s
      else (case claimDueOutbox (ie_hub e i) (Num 10) (Num (of_int (ic_outboxLeaseMs cfg))) (ib_hub s) of
          (Inl _, h) \<Rightarrow> s\<lparr>ib_hub := h\<rparr>
        | (Inr rows, h) \<Rightarrow> drain_rows cfg e rows (s\<lparr>ib_hub := h\<rparr>)))"

definition delivered :: "InboxConfig \<Rightarrow> InboxEnv \<Rightarrow> Delivery \<Rightarrow> Inbox \<Rightarrow> Inbox" where
  "delivered cfg e d s =
     (case ib_drain s of
        Some (row # rows) \<Rightarrow>
          (case finish_row cfg e (ox_row row) (delivery_error d) (ib_hub s) of
             (Inl _, h) \<Rightarrow> s\<lparr>ib_hub := h, ib_drain := None\<rparr>
           | (Inr _, h) \<Rightarrow> drain_rows cfg e rows (s\<lparr>ib_hub := h\<rparr>))
      | _ \<Rightarrow> s)"

subsection \<open>Requests\<close>

datatype BodyRead = BodyText string | BodyFailed string

record InboxRequest =
  rq_remote :: "string option"
  rq_method :: string
  rq_url :: string
  rq_body :: BodyRead

datatype RefusedBody = ReadFailed string | InvalidJson | NotOpened decrypt_error

datatype InboxReply = LoopbackOnly | NotFound | BadBody RefusedBody | WrongAgent | MissingFields
  | AcceptedDispatch string | AcceptedDuplicate string

definition readJson :: "BodyRead \<Rightarrow> RefusedBody + json" where
  "readJson b =
     (case b of
        BodyFailed m \<Rightarrow> Inl (ReadFailed m)
      | BodyText t \<Rightarrow>
          if byteLength t > 524288 then Inl (ReadFailed ''payload_too_large'')
          else if t = [] then Inr (JObj [])
          else (case JSON_parse t of None \<Rightarrow> Inl InvalidJson | Some v \<Rightarrow> Inr v))"

fun is_string :: "json option \<Rightarrow> bool" where
  "is_string (Some (JStr s)) = True"
| "is_string _ = False"

definition set_member :: "string \<Rightarrow> json \<Rightarrow> json \<Rightarrow> json" where
  "set_member k v payload = (case payload of JObj kvs \<Rightarrow> JObj (om_set k v kvs) | _ \<Rightarrow> payload)"

definition proof_of :: "json \<Rightarrow> ProofFields" where
  "proof_of payload = \<lparr>pf_claimSessionId = as_str (jget payload ''claimSessionId''),
     pf_replyProofSecret = as_str (jget payload ''replyProofSecret'')\<rparr>"

text \<open>A rejection that nobody handles, or \<open>process.exit\<close>: the process ends.\<close>

definition crash :: "Inbox \<Rightarrow> Inbox" where
  "crash s = s\<lparr>ib_down := True\<rparr>"

text \<open>The part of the handler after the body was read and checked.\<close>

definition takeDispatch :: "InboxEnv \<Rightarrow> string \<Rightarrow> json \<Rightarrow> Inbox \<Rightarrow> InboxReply option \<times> Inbox" where
  "takeDispatch e requestId payload s =
     (case recordInboundDispatch (ie_hub e 0) payload (ib_hub s) of
        (Inl _, h) \<Rightarrow> (None, crash (s\<lparr>ib_hub := h\<rparr>))
      | (Inr recorded, h) \<Rightarrow>
          let s1 = s\<lparr>ib_hub := h\<rparr> in
          if in_duplicate recorded then (Some (AcceptedDuplicate requestId), s1)
          else if requestId \<in> set (ib_inFlight s1) then (Some (AcceptedDuplicate requestId), s1)
          else
            let s2 = s1\<lparr>ib_inFlight := ib_inFlight s1 @ [requestId]\<rparr> in
            (Some (AcceptedDispatch requestId),
             (case markDispatchRunning (ie_hub e 1) requestId (ib_hub s2) of
                (Inl _, h2) \<Rightarrow> crash (s2\<lparr>ib_hub := h2\<rparr>)
              | (Inr _, h2) \<Rightarrow> s2\<lparr>ib_hub := h2, ib_tasks := ib_tasks s2 @ [(requestId, payload)],
                    ib_started := ib_started s2 @ [requestId]\<rparr>)))"

definition handleRequest :: "InboxConfig \<Rightarrow> InboxEnv \<Rightarrow> InboxRequest \<Rightarrow> Inbox \<Rightarrow> InboxReply option \<times> Inbox" where
  "handleRequest cfg e rq s =
     (if rq_remote rq \<notin> {Some ''127.0.0.1'', Some ''::1'', Some ''::ffff:127.0.0.1''} then (Some LoopbackOnly, s)
      else if rq_method rq \<noteq> ''POST'' \<or> rq_url rq \<noteq> ''/inbox'' then (Some NotFound, s)
      else (case readJson (rq_body rq) of
          Inl err \<Rightarrow> (Some (BadBody err), s)
        | Inr body \<Rightarrow>
            (case decryptPayload (ie_crypto e) (ie_penv e) (ie_now e) body of
               Inl err \<Rightarrow> (Some (BadBody (NotOpened err)), s)
             | Inr payload \<Rightarrow>
                 if payload = JNull then (None, crash s)
                 else if jget payload ''agentId'' \<noteq> Some (JStr (ic_id cfg)) then (Some WrongAgent, s)
                 else if \<not> is_string (jget payload ''topicId'') \<or> \<not> is_string (jget payload ''replyUrl'')
                   \<or> \<not> is_string (jget payload ''claimSessionId'') \<or> \<not> is_string (jget payload ''replyProofSecret'')
                 then (Some MissingFields, s)
                 else
                   let requestId = (case jget payload ''requestId'' of Some (JStr i) \<Rightarrow> i | _ \<Rightarrow> ie_uuid e)
                   in takeDispatch e requestId (set_member ''requestId'' (JStr requestId) payload) s)))"

subsection \<open>Ends of a runtime\<close>

text \<open>The \<open>then\<close>, \<open>catch\<close> and \<open>finally\<close> of the promise; an error of the first runs the second.\<close>

definition settle_failed :: "InboxConfig \<Rightarrow> InboxEnv \<Rightarrow> string \<Rightarrow> json \<Rightarrow> string \<Rightarrow> Inbox \<Rightarrow> Inbox" where
  "settle_failed cfg e requestId payload err s =
     (case markDispatchFailed (ie_hub e 1) requestId
             (safeRuntimeFailureMessage (re_sha (ie_runtime e)) (ie_penv e) (ic_id cfg) err) (Some (proof_of payload)) (ib_hub s) of
        (Inl _, h) \<Rightarrow> crash (s\<lparr>ib_hub := h\<rparr>)
      | (Inr _, h) \<Rightarrow> drain_tick cfg e 2 (s\<lparr>ib_hub := h\<rparr>))"

definition settle_runtime :: "InboxConfig \<Rightarrow> InboxEnv \<Rightarrow> string \<Rightarrow> json \<Rightarrow> string + string \<Rightarrow> Inbox \<Rightarrow> Inbox" where
  "settle_runtime cfg e requestId payload result s =
     (case result of
        Inl err \<Rightarrow> settle_failed cfg e requestId payload err s
      | Inr content \<Rightarrow>
          (case markDispatchSucceeded (ie_hub e 0) requestId content (Some (proof_of payload)) (ib_hub s) of
             (Inr _, h) \<Rightarrow> drain_tick cfg e 2 (s\<lparr>ib_hub := h\<rparr>)
           | (Inl err, h) \<Rightarrow> settle_failed cfg e requestId payload (hub_error_text err) (s\<lparr>ib_hub := h\<rparr>)))"

definition runtimeEnded :: "InboxConfig \<Rightarrow> InboxEnv \<Rightarrow> string \<Rightarrow> ProcOutcome \<Rightarrow> Inbox \<Rightarrow> Inbox" where
  "runtimeEnded cfg e requestId out s =
     (case om_get (ib_tasks s) requestId of
        None \<Rightarrow> s
      | Some payload \<Rightarrow>
          let s1 = settle_runtime cfg e requestId payload (runRuntime cfg (ie_runtime e) payload out) s
          in s1\<lparr>ib_tasks := om_delete requestId (ib_tasks s1),
                ib_inFlight := filter (\<lambda>x. x \<noteq> requestId) (ib_inFlight s1)\<rparr>)"

definition inbox_maintenance :: "InboxEnv \<Rightarrow> int \<Rightarrow> AgentHub \<Rightarrow> AgentHub" where
  "inbox_maintenance e retentionMs h =
     (let cutoff = ie_now e - retentionMs in
      snd (pruneOldReceipts cutoff (snd (pruneTerminalOutbox cutoff (snd (pruneExpiredCache (ie_hub e 0) h))))))"

datatype InboxOp =
    IRequest InboxEnv InboxRequest
  | IRuntimeEnded InboxEnv string ProcOutcome
  | ITick InboxEnv
  | IDelivered InboxEnv Delivery
  | IMaintain InboxEnv int
  | IHeartbeat InboxEnv nat

definition inbox_step :: "InboxConfig \<Rightarrow> Inbox \<Rightarrow> InboxOp \<Rightarrow> Inbox" where
  "inbox_step cfg s op =
     (if ib_down s then s
      else case op of
        IRequest e rq \<Rightarrow> snd (handleRequest cfg e rq s)
      | IRuntimeEnded e requestId out \<Rightarrow> runtimeEnded cfg e requestId out s
      | ITick e \<Rightarrow> drain_tick cfg e 0 s
      | IDelivered e d \<Rightarrow> delivered cfg e d s
      | IMaintain e retentionMs \<Rightarrow> s\<lparr>ib_hub := inbox_maintenance e retentionMs (ib_hub s)\<rparr>
      | IHeartbeat e status \<Rightarrow> if heartbeat_ends status then crash s else s)"

definition inbox_run :: "InboxConfig \<Rightarrow> Inbox \<Rightarrow> InboxOp list \<Rightarrow> Inbox" where
  "inbox_run cfg = foldl (inbox_step cfg)"

end
