(* ===== verification/InboxLaws.thy ===== *)
theory InboxLaws
  imports Inbox
begin

text \<open>
  What the inbox guarantees over any interleaving of requests, ends of runtimes, ticks and
  deliveries: a request is run once, replies leave for loopback only, an ended runtime settles its
  dispatch. With the supervisor: the arguments it starts a child with are read as they were meant;
  with the orchestrator: what it seals for a chair is opened here.
\<close>

section \<open>The hub of an inbox\<close>

text \<open>The dispatches only grow, and what is new is filed under a trimmed id.\<close>

abbreviation ids :: "AgentHub \<Rightarrow> string set" where
  "ids h \<equiv> dom (om_get (hub_dispatches h))"

definition grows :: "AgentHub \<Rightarrow> AgentHub \<Rightarrow> bool" where
  "grows h h' \<longleftrightarrow> ids h \<subseteq> ids h' \<and> (\<forall>k \<in> ids h' - ids h. trim k = k)"

lemma grows_same: "hub_dispatches h' = hub_dispatches h \<Longrightarrow> grows h h'"
  by (simp add: grows_def)

lemma grows_trans: "grows h h' \<Longrightarrow> grows h' h'' \<Longrightarrow> grows h h''"
  unfolding grows_def by blast

lemma grows_put: "om_get (hub_dispatches h) r = Some row \<Longrightarrow> hub_dispatches h' = om_set r row' (hub_dispatches h) \<Longrightarrow> grows h h'"
  by (auto simp: grows_def split: if_splits)

lemma requiredString_trim: "requiredString v f = Inr s \<Longrightarrow> trim s = s"
  by (auto simp: requiredString_def trim_idem split: option.splits json.splits if_splits)

lemma grows_record: "grows h (snd (recordInboundDispatch e p h))"
proof (cases rule: record_cases [of e p h])
  case (dup rid row x)
  show ?thesis unfolding dup(2) snd_conv by (rule grows_put[OF dup(1)]) (simp add: set_dispatch_def)
next
  case (new rid t x h')
  obtain row where "hub_dispatches h' = om_set rid row (hub_dispatches h)"
    using insert_effect(3) [OF new(4)] by blast
  then show ?thesis using requiredString_trim[OF new(2)] by (auto simp: new(5) grows_def split: if_splits)
qed (simp add: grows_same)

lemma grows_running: "grows h (snd (markDispatchRunning e r h))"
  by (cases rule: running_cases [of e r h]) (auto intro: grows_put grows_same)

lemma grows_shape: "finish_shape e r h h' \<Longrightarrow> grows h h'"
  using finish_dispatches grows_put by metis

lemma finish_grows:
  "grows h (snd (markDispatchSucceeded e r c pf h))"
  "grows h (snd (markDispatchFailed e r c pf h))"
proof -
  show "grows h (snd (markDispatchSucceeded e r c pf h))"
    unfolding markDispatchSucceeded_def
    by (rule transaction_cases [of "succeeded_body e r c pf" h])
      (auto intro: grows_same grows_shape dest: succeeded_shape)
  show "grows h (snd (markDispatchFailed e r c pf h))"
    unfolding markDispatchFailed_def
    by (rule transaction_cases [of "failed_body e r (redactSensitiveText (he_env e) c) pf" h])
      (auto intro: grows_same grows_shape dest: failed_shape)
qed

lemma finish_row_dispatches: "hub_dispatches (snd (finish_row cfg e r err h)) = hub_dispatches h"
proof -
  have m: "hub_dispatches (snd (record_failure cfg e r x h)) = hub_dispatches h" for x h
    by (simp add: record_failure_def outbox_frame split: prod.split)
  show ?thesis
    by (cases "markOutboxSent (ie_hub e 0) (ob_id r) h")
      (use outbox_frame(1) [of "ie_hub e 0" "ob_id r" h] in \<open>auto simp: finish_row_def m split: option.split sum.split\<close>)
qed

text \<open>What draining leaves alone.\<close>

definition quiet :: "Inbox \<Rightarrow> Inbox \<Rightarrow> bool" where
  "quiet s s' \<longleftrightarrow> hub_dispatches (ib_hub s') = hub_dispatches (ib_hub s) \<and> ib_started s' = ib_started s
     \<and> ib_tasks s' = ib_tasks s \<and> ib_inFlight s' = ib_inFlight s \<and> ib_down s' = ib_down s"

lemma quiet_trans: "quiet s s' \<Longrightarrow> quiet s' s'' \<Longrightarrow> quiet s s''"
  by (simp add: quiet_def)

lemma quiet_hub: "hub_dispatches h = hub_dispatches (ib_hub s) \<Longrightarrow> quiet s (s\<lparr>ib_hub := h\<rparr>)"
  by (simp add: quiet_def)

lemma quiet_rows: "quiet s (drain_rows cfg e rows s)"
proof (induction rows arbitrary: s)
  case (Cons row rows)
  have f: "quiet s (s\<lparr>ib_hub := snd (finish_row cfg e r err (ib_hub s))\<rparr>)" for r err
    by (rule quiet_hub) (rule finish_row_dispatches)
  have g: "quiet s (drain_rows cfg e rows (s\<lparr>ib_hub := snd (finish_row cfg e r err (ib_hub s))\<rparr>))" for r err
    by (rule quiet_trans[OF f Cons.IH])
  show ?case
  proof (cases "sendOutboxReply e row")
    case SendNothing
    show ?thesis using f[of "ox_row row" None] g[of "ox_row row" None]
      by (cases "finish_row cfg e (ox_row row) None (ib_hub s)")
        (auto simp: SendNothing quiet_def split: sum.split)
  next
    case (SendError err)
    show ?thesis using f[of "ox_row row" "Some (None, err)"] g[of "ox_row row" "Some (None, err)"]
      by (cases "finish_row cfg e (ox_row row) (Some (None, err)) (ib_hub s)")
        (auto simp: SendError quiet_def split: sum.split)
  qed (simp add: quiet_def)
qed (simp add: quiet_def)

lemma quiet_tick: "quiet s (drain_tick cfg e i s)"
proof (cases "ib_drain s = None")
  case True
  obtain res h where c: "claimDueOutbox (ie_hub e i) (Num 10) (Num (of_int (ic_outboxLeaseMs cfg))) (ib_hub s) = (res, h)"
    by force
  have q: "quiet s (s\<lparr>ib_hub := h\<rparr>)"
    by (rule quiet_hub) (use claim_frame(1) [of "ie_hub e i" "Num 10" "Num (of_int (ic_outboxLeaseMs cfg))" "ib_hub s"] c in simp)
  show ?thesis
    using q quiet_trans[OF q quiet_rows] by (cases res) (simp_all add: drain_tick_def True c)
qed (simp add: drain_tick_def quiet_def)

lemma quiet_delivered: "quiet s (delivered cfg e d s)"
proof (cases "ib_drain s")
  case (Some rs)
  show ?thesis
  proof (cases rs)
    case (Cons row rows)
    obtain res h where f: "finish_row cfg e (ox_row row) (delivery_error d) (ib_hub s) = (res, h)" by force
    have q: "quiet s (s\<lparr>ib_hub := h\<rparr>)"
      by (rule quiet_hub) (use finish_row_dispatches [of cfg e "ox_row row" "delivery_error d" "ib_hub s"] f in simp)
    show ?thesis using q quiet_trans[OF q quiet_rows]
      by (cases res) (simp_all add: delivered_def Some Cons f quiet_def)
  qed (simp add: delivered_def Some quiet_def)
qed (simp add: delivered_def quiet_def)

lemma maintenance_dispatches: "hub_dispatches (inbox_maintenance e t h) = hub_dispatches h"
  by (simp add: inbox_maintenance_def pruneOldReceipts_def pruneTerminalOutbox_def pruneExpiredCache_def Let_def)

section \<open>A request runs once\<close>

text \<open>\<open>start\<close> are the ids the hub had when the process began.\<close>

definition once :: "string set \<Rightarrow> Inbox \<Rightarrow> bool" where
  "once start s \<longleftrightarrow> (\<forall>k \<in> ids (ib_hub s). trim k = k) \<and> start \<subseteq> ids (ib_hub s)
     \<and> distinct (ib_started s) \<and> set (ib_started s) \<subseteq> ids (ib_hub s) - start"

lemma once_grows:
  assumes "once start s" and "grows (ib_hub s) (ib_hub s')" and "ib_started s' = ib_started s"
  shows "once start s'"
proof -
  have "\<forall>k \<in> ids (ib_hub s'). trim k = k"
    using assms(1,2) unfolding once_def grows_def by blast
  moreover have "ids (ib_hub s) \<subseteq> ids (ib_hub s')" using assms(2) unfolding grows_def by blast
  ultimately show ?thesis using assms(1) unfolding once_def assms(3) by blast
qed

lemma once_quiet: "once start s \<Longrightarrow> quiet s s' \<Longrightarrow> once start s'"
  by (rule once_grows) (simp_all add: quiet_def grows_same)

lemma once_crash: "once start (crash s) = once start s"
  by (simp add: once_def crash_def)

lemma running_known:
  "markDispatchRunning e r h = (Inr u, h') \<Longrightarrow> r \<in> ids h"
  by (auto simp: markDispatchRunning_def withTransaction_def running_body_def split: option.splits)

lemma once_take:
  assumes o: "once start s"
    and p: "jget payload ''requestId'' = Some (JStr requestId)"
  shows "once start (snd (takeDispatch e requestId payload s))"
proof -
  let ?s = "\<lambda>h. s\<lparr>ib_hub := h\<rparr>"
  have g: "grows (ib_hub s) (snd (recordInboundDispatch (ie_hub e 0) payload (ib_hub s)))" by (rule grows_record)
  show ?thesis
  proof (cases rule: record_cases [of "ie_hub e 0" payload "ib_hub s"])
    case (1 err)
    show ?thesis by (simp add: takeDispatch_def crash_def 1) (rule once_grows[OF o]; simp add: grows_same)
  next
    case (dup rid row x)
    then show ?thesis using o g by (simp add: takeDispatch_def) (erule once_grows; simp)
  next
    case (new rid t x h')
    have o1: "once start (?s h')" by (rule once_grows[OF o]) (use g new(5) in simp_all)
    have rid: "rid = trim requestId"
      using new(2) p by (simp add: requiredString_def split: if_splits)
    obtain row where row: "hub_dispatches h' = om_set rid row (hub_dispatches (ib_hub s))"
      using insert_effect(3) [OF new(4)] by blast
    show ?thesis
    proof (cases "requestId \<in> set (ib_inFlight s)")
      case True
      then show ?thesis using o1 new(5) by (simp add: takeDispatch_def)
    next
      case False
      obtain res h2 where m: "markDispatchRunning (ie_hub e 1) requestId h' = (res, h2)" by force
      have g2: "grows h' h2" using grows_running[of h' "ie_hub e 1" requestId] m by simp
      show ?thesis
      proof (cases res)
        case (Inl err)
        have "once start (s\<lparr>ib_hub := h2\<rparr>)" by (rule once_grows[OF o1]) (use g2 in simp_all)
        then show ?thesis
          by (simp add: takeDispatch_def new(5) False m[unfolded One_nat_def] Inl Let_def once_crash) (simp add: once_def)
      next
        case (Inr u)
        have "requestId \<in> ids h'" using running_known[of "ie_hub e 1" requestId h' u h2] m Inr by simp
        moreover have old: "requestId \<notin> ids (ib_hub s)"
        proof
          assume k: "requestId \<in> ids (ib_hub s)"
          then have "trim requestId = requestId" using o unfolding once_def by blast
          with k rid new(1) show False by auto
        qed
        ultimately have known: "requestId \<in> ids h2" using g2 unfolding grows_def by blast
        have fresh: "requestId \<notin> start \<and> requestId \<notin> set (ib_started s)"
          using old o unfolding once_def by blast
        have o2: "once start (s\<lparr>ib_hub := h2\<rparr>)" by (rule once_grows[OF o1]) (use g2 in simp_all)
        have "once start (s\<lparr>ib_hub := h2, ib_inFlight := ib_inFlight s @ [requestId],
            ib_tasks := ib_tasks s @ [(requestId, payload)], ib_started := ib_started s @ [requestId]\<rparr>)"
          using o2 known fresh by (simp add: once_def)
        then show ?thesis
          by (simp add: takeDispatch_def new(5) False m[unfolded One_nat_def] Inr Let_def) (simp add: once_def)
      qed
    qed
  qed
qed

lemma set_member_get: "payload = JObj kvs \<Longrightarrow> jget (set_member k v payload) k = Some v"
  by (simp add: set_member_def)

lemma request_cases:
  "(\<exists>r. handleRequest cfg e rq s = (Some r, s)) \<or> handleRequest cfg e rq s = (None, crash s)
   \<or> (\<exists>requestId payload. handleRequest cfg e rq s = takeDispatch e requestId payload s
        \<and> jget payload ''requestId'' = Some (JStr requestId))"
proof (cases "readJson (rq_body rq)")
  case (Inr body)
  show ?thesis
  proof (cases "decryptPayload (ie_crypto e) (ie_penv e) (ie_now e) body")
    case d: (Inr payload)
    show ?thesis
    proof (cases "\<exists>kvs. payload = JObj kvs")
      case True
      then obtain kvs where "payload = JObj kvs" by blast
      from set_member_get[OF this] show ?thesis
        unfolding handleRequest_def Inr sum.case d Let_def by (simp split: if_split) blast
    next
      case False
      then have "jget payload k = None" for k by (cases payload) auto
      then show ?thesis by (simp add: handleRequest_def Inr d)
    qed
  qed (simp add: handleRequest_def Inr)
qed (simp add: handleRequest_def)

lemma once_settle:
  assumes o: "once start s"
  shows "once start (settle_runtime cfg e r p result s)"
proof -
  have f: "once start (settle_failed cfg e r p err s')" if o': "once start s'" for err s'
  proof -
    let ?m = "markDispatchFailed (ie_hub e 1) r
        (safeRuntimeFailureMessage (re_sha (ie_runtime e)) (ie_penv e) (ic_id cfg) err) (Some (proof_of p)) (ib_hub s')"
    obtain res h where m: "?m = (res, h)" by force
    have "grows (ib_hub s') h" using finish_grows(2) m by (metis snd_conv)
    then have h: "once start (s'\<lparr>ib_hub := h\<rparr>)" by (intro once_grows[OF o']) simp_all
    show ?thesis
      using once_quiet[OF h quiet_tick] h
      by (cases res) (simp_all add: settle_failed_def m[unfolded One_nat_def] once_crash)
  qed
  show ?thesis
  proof (cases result)
    case (Inl err)
    then show ?thesis by (simp add: settle_runtime_def f o)
  next
    case (Inr c)
    obtain res h where m: "markDispatchSucceeded (ie_hub e 0) r c (Some (proof_of p)) (ib_hub s) = (res, h)" by force
    have "grows (ib_hub s) h" using finish_grows(1) m by (metis snd_conv)
    then have h: "once start (s\<lparr>ib_hub := h\<rparr>)" by (intro once_grows[OF o]) simp_all
    show ?thesis using once_quiet[OF h quiet_tick] f[OF h] by (cases res) (simp_all add: settle_runtime_def Inr m)
  qed
qed

lemma once_step: "once start s \<Longrightarrow> once start (inbox_step cfg s op)"
proof -
  assume o: "once start s"
  show ?thesis
  proof (cases "ib_down s")
    case False
    show ?thesis
    proof (cases op)
      case (IRequest e rq)
      then show ?thesis using False o request_cases[of cfg e rq s] once_take[OF o]
        by (auto simp: inbox_step_def once_crash)
    next
      case (IRuntimeEnded e r out)
      show ?thesis
      proof (cases "om_get (ib_tasks s) r")
        case (Some p)
        show ?thesis using once_settle[OF o, of cfg e r p "runRuntime cfg (ie_runtime e) p out"] False
          by (simp add: inbox_step_def IRuntimeEnded runtimeEnded_def Some Let_def once_def)
      qed (use o False in \<open>simp add: inbox_step_def IRuntimeEnded runtimeEnded_def\<close>)
    next
      case (IMaintain e t)
      then show ?thesis using False o by (simp add: inbox_step_def once_def maintenance_dispatches)
    qed (use False o once_quiet quiet_tick quiet_delivered in \<open>auto simp: inbox_step_def once_crash\<close>)
  qed (use o in \<open>simp add: inbox_step_def\<close>)
qed

interpretation once: guarded_system "inbox_step cfg" "once start" for cfg start
  by unfold_locales (rule once_step)

section \<open>Where replies go\<close>

definition loopback_url :: "(string \<Rightarrow> chair_url option) \<Rightarrow> string \<Rightarrow> bool" where
  "loopback_url parse t \<longleftrightarrow> (case parse t of None \<Rightarrow> False
     | Some u \<Rightarrow> url_protocol u \<in> {''http:'', ''https:''} \<and> strip_brackets (url_hostname u) \<in> {''127.0.0.1'', ''localhost'', ''::1''})"

fun op_env :: "InboxOp \<Rightarrow> InboxEnv" where
  "op_env (IRequest e rq) = e"
| "op_env (IRuntimeEnded e r out) = e"
| "op_env (ITick e) = e"
| "op_env (IDelivered e d) = e"
| "op_env (IMaintain e t) = e"
| "op_env (IHeartbeat e n) = e"

lemma assert_loopback: "(assertLoopbackHttpUrl parse t = None) = loopback_url parse t"
  by (auto simp: assertLoopbackHttpUrl_def loopback_url_def LOOPBACK_REPLY_HOSTS_def split: option.split)

lemma send_loopback: "sendOutboxReply e row = SendCall c \<Longrightarrow> loopback_url (ie_parse e) (rp_url c)"
  by (auto simp: sendOutboxReply_def Let_def assert_loopback split: if_splits option.splits)

definition local_calls :: "(string \<Rightarrow> chair_url option) \<Rightarrow> Inbox \<Rightarrow> bool" where
  "local_calls parse s \<longleftrightarrow> list_all (\<lambda>c. loopback_url parse (rp_url c)) (ib_calls s)"

lemma local_hub: "local_calls parse s \<Longrightarrow> ib_calls s' = ib_calls s \<Longrightarrow> local_calls parse s'"
  by (simp add: local_calls_def)

lemma local_crash: "local_calls parse s \<Longrightarrow> local_calls parse (crash s)"
  by (simp add: local_calls_def crash_def)

lemma local_rows: "local_calls parse s \<Longrightarrow> ie_parse e = parse \<Longrightarrow> local_calls parse (drain_rows cfg e rows s)"
proof (induction rows arbitrary: s)
  case (Cons row rows)
  have h: "local_calls parse (s\<lparr>ib_hub := h\<rparr>)" "local_calls parse (s\<lparr>ib_hub := h, ib_drain := None\<rparr>)" for h
    using Cons.prems(1) by (simp_all add: local_calls_def)
  show ?case
    using Cons.IH[OF h(1) Cons.prems(2)] h(2) Cons.prems send_loopback[of e row]
    by (auto simp: local_calls_def split: SendPlan.split prod.split sum.split)
qed (simp add: local_calls_def)

lemma local_tick: "local_calls parse s \<Longrightarrow> ie_parse e = parse \<Longrightarrow> local_calls parse (drain_tick cfg e i s)"
  by (auto simp: drain_tick_def intro!: local_rows intro: local_hub split: prod.split sum.split)

lemma local_delivered: "local_calls parse s \<Longrightarrow> ie_parse e = parse \<Longrightarrow> local_calls parse (delivered cfg e d s)"
  by (auto simp: delivered_def intro!: local_rows intro: local_hub split: prod.split sum.split option.split list.split)

lemma local_settle: "local_calls parse s \<Longrightarrow> ie_parse e = parse \<Longrightarrow> local_calls parse (settle_runtime cfg e r p result s)"
  by (auto simp: settle_runtime_def settle_failed_def crash_def intro!: local_tick intro: local_hub
      split: prod.split sum.split)

lemma take_calls: "ib_calls (snd (takeDispatch e r p s)) = ib_calls s"
  by (auto simp: takeDispatch_def crash_def Let_def split: prod.split sum.split)

interpretation local: trapping_system "inbox_step cfg" "local_calls parse" "\<lambda>op. ie_parse (op_env op) = parse" for cfg parse
proof
  fix s op
  assume l: "local_calls parse s" and e: "ie_parse (op_env op) = parse"
  show "local_calls parse (inbox_step cfg s op)"
  proof (cases op)
    case (IRequest e rq)
    show ?thesis using l request_cases[of cfg e rq s] take_calls
      by (auto simp: inbox_step_def IRequest crash_def local_calls_def)
  next
    case (IRuntimeEnded e r out)
    show ?thesis using l local_settle[OF l] e
      by (auto simp: inbox_step_def IRuntimeEnded runtimeEnded_def Let_def local_calls_def split: option.split)
  next
    case (IMaintain e t)
    then show ?thesis using l by (simp add: inbox_step_def local_calls_def)
  qed (use l e local_tick[OF l] local_delivered[OF l] in \<open>simp_all add: inbox_step_def local_crash\<close>)
qed

section \<open>What a runtime is given\<close>

lemma add_allowed_get:
  "om_get (add_allowed source names env) k \<noteq> None \<Longrightarrow> om_get env k \<noteq> None \<or> toUpperCase k \<notin> set COMMAND_ENV_DENYLIST"
proof (induction names arbitrary: env)
  case (Cons name names)
  then show ?case
    by (cases "toUpperCase name \<in> set COMMAND_ENV_DENYLIST"; cases "source name")
      (fastforce simp: COMMAND_ENV_DENYLIST_def split: if_splits)+
qed simp

lemma base_env_clean:
  assumes "om_get (buildAgentRuntimeEnv source) k \<noteq> None"
  shows "toUpperCase k \<notin> set COMMAND_ENV_DENYLIST"
proof -
  have "k \<in> set (PLATFORM_ENV_ALLOWLIST @ PROXY_ENV_ALLOWLIST)"
    using assms by (auto simp: buildAgentRuntimeEnv_def copyAllowlisted_get split: if_splits)
  moreover have "list_all (\<lambda>n. toUpperCase n \<notin> set COMMAND_ENV_DENYLIST) (PLATFORM_ENV_ALLOWLIST @ PROXY_ENV_ALLOWLIST)"
    by code_simp
  ultimately show ?thesis by (auto simp: list_all_iff)
qed

lemma plan_env:
  assumes "runtime_plan cfg e payload = PlanSpawn c" and "om_get (rt_env c) k \<noteq> None"
  shows "toUpperCase k \<notin> set COMMAND_ENV_DENYLIST"
proof -
  have "rt_env c = buildAgentRuntimeEnv (re_penv e) \<or> rt_env c = buildCommandEnv cfg (re_penv e)"
    using assms(1)
    by (auto simp: runtime_plan_def codex_call_def claude_call_def command_plan_def Let_def split: if_splits prod.splits)
  then show ?thesis
    using assms(2) base_env_clean[of "re_penv e" k] add_allowed_get[of "re_penv e" "ic_allowEnv cfg" "buildAgentRuntimeEnv (re_penv e)" k]
    by (auto simp: buildCommandEnv_def)
qed

section \<open>An ended runtime settles its dispatch\<close>

definition settled :: "Inbox \<Rightarrow> string \<Rightarrow> bool" where
  "settled s r \<longleftrightarrow> (case om_get (hub_dispatches (ib_hub s)) r of None \<Rightarrow> False
     | Some row \<Rightarrow> dr_status row \<in> {DSucceeded, DFailed})"

lemma settled_quiet: "quiet s s' \<Longrightarrow> settled s' r = settled s r"
  by (simp add: settled_def quiet_def)

lemma settled_shape: "finish_shape e r h h' \<Longrightarrow> settled (s\<lparr>ib_hub := h'\<rparr>) r"
  using finish_dispatches[of e r h h'] by (auto simp: settled_def)

lemma settle_failed_settles: "ib_down (settle_failed cfg e r p err s) \<or> settled (settle_failed cfg e r p err s) r"
proof -
  let ?x = "safeRuntimeFailureMessage (re_sha (ie_runtime e)) (ie_penv e) (ic_id cfg) err"
  show ?thesis
  proof (cases rule: transaction_cases [of "failed_body (ie_hub e 1) r (redactSensitiveText (he_env (ie_hub e 1)) ?x) (Some (proof_of p))" "ib_hub s"])
    case (1 err')
    then show ?thesis by (simp add: settle_failed_def markDispatchFailed_def crash_def)
  next
    case (2 x h')
    then show ?thesis
      using settled_shape[OF failed_shape[OF 2(1)]] settled_quiet[OF quiet_tick]
      by (simp add: settle_failed_def markDispatchFailed_def)
  qed
qed

lemma settle_settles: "ib_down (settle_runtime cfg e r p result s) \<or> settled (settle_runtime cfg e r p result s) r"
proof (cases result)
  case (Inr c)
  show ?thesis
  proof (cases rule: transaction_cases [of "succeeded_body (ie_hub e 0) r c (Some (proof_of p))" "ib_hub s"])
    case (1 err)
    then show ?thesis using settle_failed_settles by (simp add: settle_runtime_def Inr markDispatchSucceeded_def)
  next
    case (2 x h')
    then show ?thesis
      using settled_shape[OF succeeded_shape[OF 2(1)]] settled_quiet[OF quiet_tick]
      by (simp add: settle_runtime_def Inr markDispatchSucceeded_def)
  qed
qed (simp add: settle_runtime_def settle_failed_settles)

section \<open>No request is lost\<close>

definition keeps :: "Inbox \<Rightarrow> Inbox \<Rightarrow> bool" where
  "keeps s s' \<longleftrightarrow> (\<forall>k. settled s k \<longrightarrow> settled s' k)"

lemma keeps_same: "hub_dispatches (ib_hub s') = hub_dispatches (ib_hub s) \<Longrightarrow> keeps s s'"
  by (simp add: keeps_def settled_def)

lemma keeps_trans: "keeps s s' \<Longrightarrow> keeps s' s'' \<Longrightarrow> keeps s s''"
  by (simp add: keeps_def)

lemma keeps_quiet: "quiet s s' \<Longrightarrow> keeps s s'"
  by (rule keeps_same) (simp add: quiet_def)

lemma keeps_put:
  "hub_dispatches (ib_hub s') = om_set r row (hub_dispatches (ib_hub s)) \<Longrightarrow>
   (settled s r \<Longrightarrow> dr_status row \<in> {DSucceeded, DFailed}) \<Longrightarrow> keeps s s'"
  by (auto simp: keeps_def settled_def)

lemma keeps_shape: "finish_shape e r (ib_hub s) (ib_hub s') \<Longrightarrow> keeps s s'"
  using finish_dispatches[of e r "ib_hub s" "ib_hub s'"] keeps_put by blast

lemma keeps_take:
  assumes o: "once start s" and p: "jget payload ''requestId'' = Some (JStr requestId)"
  shows "keeps s (snd (takeDispatch e requestId payload s))"
proof (cases rule: record_cases [of "ie_hub e 0" payload "ib_hub s"])
  case (1 err)
  then show ?thesis by (simp add: takeDispatch_def crash_def keeps_same)
next
  case (dup rid row x)
  then show ?thesis by (auto simp: takeDispatch_def keeps_def settled_def set_dispatch_def)
next
  case (new rid t x h')
  obtain row where row: "hub_dispatches h' = om_set rid row (hub_dispatches (ib_hub s))"
    using insert_effect(3) [OF new(4)] by blast
  have k1: "keeps s (s\<lparr>ib_hub := h'\<rparr>)"
    by (rule keeps_put[of _ rid row]) (simp_all add: row settled_def new(1))
  have rid: "rid = trim requestId" using new(2) p by (simp add: requiredString_def split: if_splits)
  have old: "\<not> settled s requestId"
  proof
    assume "settled s requestId"
    then have k: "requestId \<in> ids (ib_hub s)" by (auto simp: settled_def split: option.splits)
    then have "trim requestId = requestId" using o unfolding once_def by blast
    with k rid new(1) show False by auto
  qed
  have k2: "keeps s (s\<lparr>ib_hub := snd (markDispatchRunning (ie_hub e 1) requestId h')\<rparr>)"
  proof (cases rule: running_cases [of "ie_hub e 1" requestId h'])
    case 1
    then show ?thesis using k1 by simp
  next
    case (2 row1 row2)
    have "settled (s\<lparr>ib_hub := snd (markDispatchRunning (ie_hub e 1) requestId h')\<rparr>) k" if "settled s k" for k
    proof -
      have "k \<noteq> requestId" using that old by auto
      moreover have "settled (s\<lparr>ib_hub := h'\<rparr>) k" using that k1 by (simp add: keeps_def)
      ultimately show ?thesis by (simp add: settled_def 2(5) del: One_nat_def)
    qed
    then show ?thesis by (simp add: keeps_def)
  qed
  have z: "keeps s s'" if "ib_hub s' = h' \<or> ib_hub s' = snd (markDispatchRunning (ie_hub e 1) requestId h')" for s'
    using that k1 k2 by (auto simp: keeps_def settled_def)
  show ?thesis
    by (rule z) (auto simp: takeDispatch_def new(5) Let_def crash_def split: prod.split sum.split)
qed

lemma keeps_settle: "keeps s (settle_runtime cfg e r p result s)"
proof -
  have f: "keeps s' (settle_failed cfg e r p err s')" for err s'
  proof (cases rule: transaction_cases [of "failed_body (ie_hub e 1) r (redactSensitiveText (he_env (ie_hub e 1))
      (safeRuntimeFailureMessage (re_sha (ie_runtime e)) (ie_penv e) (ic_id cfg) err)) (Some (proof_of p))" "ib_hub s'"])
    case (1 err')
    then show ?thesis by (simp add: settle_failed_def markDispatchFailed_def crash_def keeps_same)
  next
    case (2 x h')
    have "keeps s' (s'\<lparr>ib_hub := h'\<rparr>)" by (rule keeps_shape) (simp, rule failed_shape[OF 2(1)])
    then show ?thesis using keeps_trans[OF _ keeps_quiet[OF quiet_tick]] 2
      by (simp add: settle_failed_def markDispatchFailed_def)
  qed
  show ?thesis
  proof (cases result)
    case (Inr c)
    show ?thesis
    proof (cases rule: transaction_cases [of "succeeded_body (ie_hub e 0) r c (Some (proof_of p))" "ib_hub s"])
      case (1 err)
      then show ?thesis using f[of s] by (simp add: settle_runtime_def Inr markDispatchSucceeded_def)
    next
      case (2 x h')
      have "keeps s (s\<lparr>ib_hub := h'\<rparr>)" by (rule keeps_shape) (simp, rule succeeded_shape[OF 2(1)])
      then show ?thesis using keeps_trans[OF _ keeps_quiet[OF quiet_tick]] 2
        by (simp add: settle_runtime_def Inr markDispatchSucceeded_def)
    qed
  qed (simp add: settle_runtime_def f)
qed

lemma keeps_step: "once start s \<Longrightarrow> keeps s (inbox_step cfg s op)"
proof (cases "ib_down s")
  case False
  assume o: "once start s"
  show ?thesis
  proof (cases op)
    case (IRequest e rq)
    then show ?thesis using False request_cases[of cfg e rq s] keeps_take[OF o]
      by (auto simp: inbox_step_def crash_def keeps_same)
  next
    case (IRuntimeEnded e r out)
    have w: "keeps s s' \<Longrightarrow> keeps s (s'\<lparr>ib_tasks := t, ib_inFlight := f\<rparr>)" for s' t f
      by (simp add: keeps_def settled_def)
    show ?thesis using w[OF keeps_settle]
      by (auto simp: inbox_step_def False IRuntimeEnded runtimeEnded_def Let_def keeps_same split: option.split)
  next
    case (IMaintain e t)
    then show ?thesis using False by (simp add: inbox_step_def keeps_same maintenance_dispatches)
  qed (use False keeps_quiet quiet_tick quiet_delivered in \<open>auto simp: inbox_step_def crash_def keeps_same\<close>)
qed (simp add: inbox_step_def keeps_same)

text \<open>Every request that was started is being run, or its dispatch ended.\<close>

definition accounted_for :: "string set \<Rightarrow> Inbox \<Rightarrow> bool" where
  "accounted_for start s \<longleftrightarrow> once start s \<and>
     (\<forall>r \<in> set (ib_started s). ib_down s \<or> om_get (ib_tasks s) r \<noteq> None \<or> settled s r)"


lemma take_started:
  "r \<in> set (ib_started (snd (takeDispatch e q p s))) \<Longrightarrow>
   ib_down (snd (takeDispatch e q p s)) \<or> (r \<in> set (ib_started s) \<or> r = q)
     \<and> (r = q \<and> r \<notin> set (ib_started s) \<or> om_get (ib_tasks s) r \<noteq> None \<longrightarrow> om_get (ib_tasks (snd (takeDispatch e q p s))) r \<noteq> None)"
  by (auto simp: takeDispatch_def crash_def Let_def map_add_def split: prod.splits sum.splits if_splits option.splits)

lemma quiet_started: "quiet s s' \<Longrightarrow> ib_started s' = ib_started s \<and> ib_tasks s' = ib_tasks s"
  by (simp add: quiet_def)

lemma settle_tasks: "ib_tasks (settle_runtime cfg e r p result s) = ib_tasks s" "ib_started (settle_runtime cfg e r p result s) = ib_started s"
proof -
  have f: "ib_tasks (settle_failed cfg e r p err s') = ib_tasks s' \<and> ib_started (settle_failed cfg e r p err s') = ib_started s'" for err s'
    using quiet_started[OF quiet_tick]
    by (auto simp: settle_failed_def crash_def split: prod.split sum.split)
  show "ib_tasks (settle_runtime cfg e r p result s) = ib_tasks s" "ib_started (settle_runtime cfg e r p result s) = ib_started s"
    using f quiet_started[OF quiet_tick] by (auto simp: settle_runtime_def split: prod.split sum.split)
qed

lemma accounted_step:
  assumes a: "accounted_for start s"
  shows "accounted_for start (inbox_step cfg s op)"
proof -
  have o: "once start s" using a by (simp add: accounted_for_def)
  have k: "keeps s (inbox_step cfg s op)" by (rule keeps_step[OF o])
  have old: "ib_down s \<or> om_get (ib_tasks s) r \<noteq> None \<or> settled s r" if "r \<in> set (ib_started s)" for r
    using a that by (auto simp: accounted_for_def)
  have "ib_down (inbox_step cfg s op) \<or> om_get (ib_tasks (inbox_step cfg s op)) r \<noteq> None \<or> settled (inbox_step cfg s op) r"
    if r: "r \<in> set (ib_started (inbox_step cfg s op))" for r
  proof (cases "ib_down s")
    case True
    then show ?thesis by (simp add: inbox_step_def)
  next
    case False
    have stay: ?thesis if "ib_started (inbox_step cfg s op) = ib_started s" "ib_tasks (inbox_step cfg s op) = ib_tasks s"
      using old[of r] r that False k by (auto simp: keeps_def)
    show ?thesis
    proof (cases op)
      case (IRequest e rq)
      have take: ?thesis if t: "handleRequest cfg e rq s = takeDispatch e q p s" for q p
      proof -
        have s': "inbox_step cfg s op = snd (takeDispatch e q p s)" by (simp add: inbox_step_def IRequest False t)
        show ?thesis
          using take_started[of r e q p s] r old[of r] k False unfolding s' keeps_def by blast
      qed
      consider (answered) x where "handleRequest cfg e rq s = (Some x, s)" | (crashed) "handleRequest cfg e rq s = (None, crash s)"
        | (taken) q p where "handleRequest cfg e rq s = takeDispatch e q p s"
        using request_cases[of cfg e rq s] by blast
      then show ?thesis
      proof cases
        case (taken q p)
        then show ?thesis by (rule take)
      qed (use False stay in \<open>simp_all add: inbox_step_def IRequest crash_def\<close>)
    next
      case (IRuntimeEnded e q out)
      show ?thesis
      proof (cases "om_get (ib_tasks s) q")
        case None
        then show ?thesis by (intro stay) (simp_all add: inbox_step_def False IRuntimeEnded runtimeEnded_def)
      next
        case (Some p)
        let ?t = "settle_runtime cfg e q p (runRuntime cfg (ie_runtime e) p out) s"
        have s': "ib_down (inbox_step cfg s op) = ib_down ?t" "ib_tasks (inbox_step cfg s op) = om_delete q (ib_tasks s)"
            "settled (inbox_step cfg s op) r = settled ?t r" "r \<in> set (ib_started s)"
          using r by (simp_all add: inbox_step_def False IRuntimeEnded runtimeEnded_def Some Let_def settled_def settle_tasks)
        show ?thesis
        proof (cases "r = q")
          case True
          then show ?thesis using settle_settles s'(1,3) by metis
        next
          case ne: False
          then show ?thesis using old[OF s'(4)] False k by (auto simp: s'(2) keeps_def)
        qed
      qed
    next
      case (IMaintain e t)
      then show ?thesis using False by (intro stay) (simp_all add: inbox_step_def)
    next
      case (ITick e)
      then show ?thesis using False quiet_started[OF quiet_tick] by (intro stay) (simp_all add: inbox_step_def)
    next
      case (IDelivered e d)
      then show ?thesis using False quiet_started[OF quiet_delivered] by (intro stay) (simp_all add: inbox_step_def)
    next
      case (IHeartbeat e n)
      then show ?thesis using False by (intro stay) (simp_all add: inbox_step_def crash_def)
    qed
  qed
  then show ?thesis using once_step[OF o] by (simp add: accounted_for_def)
qed

interpretation lossless: guarded_system "inbox_step cfg" "accounted_for start" for cfg start
  by unfold_locales (rule accounted_step)

lemma new_accounted: "list_all (\<lambda>(k, row). trim k = k) (hub_dispatches h) \<Longrightarrow> accounted_for (ids h) (new_inbox h)"
  by (auto simp: accounted_for_def once_def new_inbox_def list_all_iff dest: map_of_SomeD)


lemma down_stays: "ib_down s \<Longrightarrow> foldl (inbox_step cfg) s ops = s"
  by (induction ops) (simp_all add: inbox_step_def)

text \<open>C30: A request is run once per process: whatever requests, ends of runtimes, ticks, deliveries and
  prunings interleave, no runtime is started twice for a request id, and none for an id the hub
  knew when the process began.\<close>

theorem runtime_started_once:
  assumes "list_all (\<lambda>(k, row). trim k = k) (hub_dispatches h)"
  shows "distinct (ib_started (inbox_run cfg (new_inbox h) ops))
    \<and> set (ib_started (inbox_run cfg (new_inbox h) ops)) \<subseteq>
        dom (om_get (hub_dispatches (ib_hub (inbox_run cfg (new_inbox h) ops)))) - dom (om_get (hub_dispatches h))"
  using lossless.run_inv[OF new_accounted[OF assms], of cfg ops]
  by (simp add: inbox_run_def accounted_for_def once_def)

text \<open>C31: No started request is lost: once its runtime ended, its dispatch is in a final state, and stays
  in one over everything that follows, unless the process ended.\<close>

theorem ended_runtime_settles:
  assumes "list_all (\<lambda>(k, row). trim k = k) (hub_dispatches h)"
    and "r \<in> set (ib_started (inbox_run cfg (new_inbox h) ops))"
    and "\<not> ib_down (inbox_run cfg (new_inbox h) (ops @ IRuntimeEnded e r out # later))"
  shows "\<exists>row. om_get (hub_dispatches (ib_hub (inbox_run cfg (new_inbox h) (ops @ IRuntimeEnded e r out # later)))) r = Some row
    \<and> dr_status row \<in> {DSucceeded, DFailed}"
proof -
  let ?s = "inbox_run cfg (new_inbox h) ops" and ?op = "IRuntimeEnded e r out"
  have a: "accounted_for (ids h) ?s"
    using lossless.run_inv[OF new_accounted[OF assms(1)], of cfg ops] by (simp add: inbox_run_def)
  have split: "inbox_run cfg (new_inbox h) (ops @ ?op # later) = foldl (inbox_step cfg) (inbox_step cfg ?s ?op) later"
    by (simp add: inbox_run_def)
  have up: "\<not> ib_down (inbox_step cfg ?s ?op)" using assms(3) down_stays unfolding split by metis
  then have up0: "\<not> ib_down ?s" by (auto simp: inbox_step_def)
  have now: "settled (inbox_step cfg ?s ?op) r"
  proof (cases "om_get (ib_tasks ?s) r")
    case None
    then show ?thesis using a assms(2) up0 keeps_step[of "ids h" ?s cfg ?op] unfolding accounted_for_def keeps_def by blast
  next
    case (Some p)
    then show ?thesis using up up0 settle_settles[of cfg e r p "runRuntime cfg (ie_runtime e) p out" ?s]
      by (auto simp: inbox_step_def runtimeEnded_def Let_def settled_def)
  qed
  have a2: "accounted_for (ids h) (inbox_step cfg ?s ?op)" by (rule accounted_step[OF a])
  have "settled (foldl (inbox_step cfg) s' later) r" if "settled s' r" "accounted_for (ids h) s'" for s'
    using that
  proof (induction later arbitrary: s')
    case (Cons op later)
    then show ?case using keeps_step[of "ids h" s' cfg op] accounted_step[of "ids h" s' cfg op]
      by (simp add: accounted_for_def keeps_def)
  qed simp
  from this[OF now a2] show ?thesis unfolding split settled_def by (auto split: option.splits)
qed

text \<open>C32: Whatever a dispatch names as the place of its reply, the process sends replies to an HTTP
  address of the loopback interface only.\<close>

theorem replies_stay_local:
  assumes "list_all (\<lambda>op. ie_parse (op_env op) = parse) ops" and "c \<in> set (ib_calls (inbox_run cfg (new_inbox h) ops))"
  shows "\<exists>u. parse (rp_url c) = Some u \<and> url_protocol u \<in> {''http:'', ''https:''}
    \<and> strip_brackets (url_hostname u) \<in> {''127.0.0.1'', ''localhost'', ''::1''}"
proof -
  have "local_calls parse (new_inbox h)" by (simp add: local_calls_def new_inbox_def)
  from local.run_trap[OF this assms(1), of cfg] have "loopback_url parse (rp_url c)"
    using assms(2) by (simp add: inbox_run_def local_calls_def list_all_iff)
  then show ?thesis by (auto simp: loopback_url_def split: option.splits)
qed

text \<open>C33: What a runtime's child is given never holds one of the mesh's own secrets, in any spelling of
  its name, and a configured command runs only when the operator listed it.\<close>

theorem child_env_clean:
  assumes "runtime_plan cfg e payload = PlanSpawn c"
  shows "(om_get (rt_env c) k = None \<or> \<not> isDeniedCommandEnvName k)
    \<and> (ic_runtime cfg = ''command'' \<longrightarrow> rt_command c \<in> set (parseCsvArg (re_penv e ''KOVAEL_COMMAND_ADAPTER_ALLOW'')))"
  using plan_env[OF assms, of k] assms
  by (auto simp: isDeniedCommandEnvName_def runtime_plan_def command_plan_def Let_def split: if_splits)


section \<open>Examples\<close>

definition inbox_example :: InboxConfig where
  "inbox_example = \<lparr>ic_id = ''a'', ic_provider = ''p'', ic_runtime = ''fake-deterministic'', ic_host = ''h'', ic_port = 0, ic_cwd = ''/'',
     ic_model = None, ic_command = None, ic_commandArgs = [], ic_allowEnv = [], ic_codexBin = None, ic_claudeBin = None,
     ic_timeoutMs = ANum 1, ic_replyTimeoutMs = 1, ic_replyRetryBaseMs = 1, ic_outboxMaxAttempts = 5, ic_outboxLeaseMs = 30000,
     ic_outboxDrainIntervalMs = 100, ic_capabilities = [], ic_trust = None, ic_note = None, ic_hubPath = ''/'',
     ic_requireHubEncryption = False\<rparr>"

definition local_url :: chair_url where
  "local_url = \<lparr>url_protocol = ''http:'', url_hostname = ''127.0.0.1''\<rparr>"

definition turn :: "nat \<Rightarrow> nat \<Rightarrow> HubEnv" where
  "turn t i = (hub_env (int t))\<lparr>he_draw := (\<lambda>n. [digit_char t, digit_char i, digit_char n])\<rparr>"

definition inbox_turn :: "nat \<Rightarrow> InboxEnv" where
  "inbox_turn t = \<lparr>ie_hub = turn t, ie_now = int t, ie_uuid = ''u'', ie_iv = ''i'', ie_parse = (\<lambda>_. Some local_url),
     ie_runtime = \<lparr>re_penv = (\<lambda>_. None), re_sha = (\<lambda>s. s), re_execPath = ''node'', re_outPath = ''out''\<rparr>\<rparr>"

definition example_payload :: json where
  "example_payload = JObj [(''requestId'', JStr ''r1''), (''topicId'', JStr ''t1''), (''agentId'', JStr ''a''),
     (''replyUrl'', JStr ''u''), (''claimSessionId'', JStr ''s''), (''replyProofSecret'', JStr ''x'')]"

definition example_request :: InboxRequest where
  "example_request = \<lparr>rq_remote = Some ''127.0.0.1'', rq_method = ''POST'', rq_url = ''/inbox'',
     rq_body = BodyText (stringify example_payload)\<rparr>"




definition empty_start :: AgentHub where
  "empty_start = empty_hub\<lparr>hub_agentId := ''a'', hub_key := Some ''key''\<rparr>"

lemma byteLength_le: "byteLength s \<le> 2 * length s"
  by (induction s) (simp_all add: byteLength_def)

lemma quote_length: "length (quote s) \<le> 6 * length s + 2"
proof -
  have "length (concat (map esc_char s)) \<le> 6 * length s" 
    by (induction s) (auto simp: esc_char_def Let_def)
  then show ?thesis by (simp add: quote_def)
qed

lemma example_length: "length (stringify example_payload) \<le> 10000"
  using quote_length[of "''requestId''"] quote_length[of "''r1''"] quote_length[of "''topicId''"] quote_length[of "''t1''"]
    quote_length[of "''agentId''"] quote_length[of "''a''"] quote_length[of "''replyUrl''"] quote_length[of "''u''"]
    quote_length[of "''claimSessionId''"] quote_length[of "''s''"] quote_length[of "''replyProofSecret''"] quote_length[of "''x''"]
  by (simp add: example_payload_def)

lemma example_payload_wf: "json_wf example_payload"
proof -
  have i: "\<not> is_index ''requestId''" "\<not> is_index ''topicId''" "\<not> is_index ''agentId''" "\<not> is_index ''replyUrl''"
      "\<not> is_index ''claimSessionId''" "\<not> is_index ''replyProofSecret''"
    by (simp_all add: is_index_def is_digit_def)
  show ?thesis by (simp add: example_payload_def own_order_def i)
qed

lemma example_read: "readJson (rq_body example_request) = Inr example_payload"
proof -
  have "\<not> byteLength (stringify example_payload) > 524288"
    using byteLength_le[of "stringify example_payload"] example_length by linarith
  moreover have "stringify example_payload \<noteq> []" by (simp add: example_payload_def)
  ultimately show ?thesis
    by (simp add: readJson_def example_request_def JSON_parse_stringify[OF example_payload_wf])
qed

lemma example_members:
  "jget example_payload ''requestId'' = Some (JStr ''r1'')" "jget example_payload ''topicId'' = Some (JStr ''t1'')"
  "jget example_payload ''agentId'' = Some (JStr ''a'')" "jget example_payload ''replyUrl'' = Some (JStr ''u'')"
  "jget example_payload ''claimSessionId'' = Some (JStr ''s'')" "jget example_payload ''replyProofSecret'' = Some (JStr ''x'')"
  "set_member ''requestId'' (JStr ''r1'') example_payload = example_payload"
  by (simp_all add: example_payload_def set_member_def)

lemma example_strings:
  "requiredString (Some (JStr ''r1'')) f = Inr ''r1''" "requiredString (Some (JStr ''t1'')) f = Inr ''t1''"
  "requiredString (Some (JStr ''a'')) f = Inr ''a''" "stringOrNull (Some (JStr ''u'')) = Some ''u''"
  by (simp_all add: requiredString_def trim_def js_space_def stringOrNull_def)

lemma example_handled:
  "handleRequest inbox_example (inbox_turn 5) example_request s = takeDispatch (inbox_turn 5) ''r1'' example_payload s"
proof -
  have n: "example_payload \<noteq> JNull" by (simp add: example_payload_def)
  have "decryptPayload (ie_crypto (inbox_turn 5)) (ie_penv (inbox_turn 5)) (ie_now (inbox_turn 5)) example_payload = Inr example_payload"
    by (simp add: decryptPayload_def dispatchSecret_def inbox_turn_def)
  moreover have "rq_remote example_request = Some ''127.0.0.1''" "rq_method example_request = ''POST''" "rq_url example_request = ''/inbox''"
    "ic_id inbox_example = ''a''"
    by (simp_all add: example_request_def inbox_example_def)
  ultimately show ?thesis
    by (simp add: handleRequest_def example_read example_members n)
qed

definition example_stored :: string where
  "example_stored = encodeSensitive (turn 5 0) empty_start 2 (stableStringify (persistableDispatchPayload example_payload)) (payload_aad ''r1'')"

lemma encode_key: "hub_key h' = hub_key h \<Longrightarrow> encodeSensitive e h' i text aad = encodeSensitive e h i text aad"
  by (simp add: encodeSensitive_def)

lemma example_taken:
  "\<exists>H row. takeDispatch (inbox_turn 5) ''r1'' example_payload (new_inbox empty_start) =
     (Some (AcceptedDispatch ''r1''), \<lparr>ib_hub = H, ib_inFlight = [''r1''], ib_tasks = [(''r1'', example_payload)], ib_started = [''r1''],
        ib_drain = None, ib_calls = [], ib_down = False\<rparr>)
   \<and> om_get (hub_dispatches H) ''r1'' = Some row \<and> dr_payload_json row = example_stored \<and> dr_reply_url row = Some ''u''
   \<and> dr_reply_content row = None \<and> dr_error row = None \<and> hub_outbox H = [] \<and> hub_key H = Some ''key''
   \<and> rc_id ` set (hub_receipts H) = {he_draw (turn 5 0) 0, he_draw (turn 5 (Suc 0)) 0}"
proof -
  have d: "he_draw (turn 5 (Suc 0)) 0 \<noteq> he_draw (turn 5 0) 0" by (simp add: turn_def digit_char_def)
  have i: "ie_hub (inbox_turn 5) = turn 5" by (simp add: inbox_turn_def)
  have k: "encodeSensitive (turn 5 0) (empty_hub\<lparr>hub_agentId := ''a'', hub_key := Some ''key''\<rparr>) 2 t a = encodeSensitive (turn 5 0) empty_start 2 t a" for t a
    by (simp add: empty_start_def)
  show ?thesis
    by (simp add: takeDispatch_def recordInboundDispatch_def example_members example_strings empty_hub_def withTransaction_def insert_dispatch_def
      appendReceipt_def Let_def i new_inbox_def markDispatchRunning_def running_body_def set_dispatch_def d example_stored_def empty_start_def
      encodeSensitive_def)
qed

definition example_started :: Inbox where
  "example_started = inbox_run inbox_example (new_inbox empty_start) [IRequest (inbox_turn 5) example_request]"

lemma example_start:
  "\<exists>H row. example_started = \<lparr>ib_hub = H, ib_inFlight = [''r1''], ib_tasks = [(''r1'', example_payload)], ib_started = [''r1''],
        ib_drain = None, ib_calls = [], ib_down = False\<rparr>
   \<and> om_get (hub_dispatches H) ''r1'' = Some row \<and> dr_payload_json row = example_stored \<and> dr_reply_url row = Some ''u''
   \<and> dr_reply_content row = None \<and> dr_error row = None \<and> hub_outbox H = [] \<and> hub_key H = Some ''key''
   \<and> rc_id ` set (hub_receipts H) = {he_draw (turn 5 0) 0, he_draw (turn 5 (Suc 0)) 0}"
proof -
  have "example_started = snd (takeDispatch (inbox_turn 5) ''r1'' example_payload (new_inbox empty_start))"
    by (simp add: example_started_def inbox_run_def inbox_step_def example_handled) (simp add: new_inbox_def)
  then show ?thesis using example_taken by auto
qed

lemma example_decode: "hub_key h = Some ''key'' \<Longrightarrow>
  decodeSensitive (turn t i) h example_stored (payload_aad ''r1'') = Inr (stableStringify (persistableDispatchPayload example_payload))"
  using sealed_opens[of plain_crypto "Some ''key''"] plain_crypto_laws
  by (simp add: decodeSensitive_def example_stored_def encodeSensitive_def turn_def hub_env_def empty_start_def)

lemma example_parse: "\<exists>d. parsed (stableStringify (persistableDispatchPayload example_payload)) = Inr d"
proof -
  have i: "\<not> is_index ''requestId''" "\<not> is_index ''topicId''" "\<not> is_index ''agentId''" "\<not> is_index ''replyUrl''"
      "\<not> is_index ''claimSessionId''"
    by (simp_all add: is_index_def is_digit_def)
  have "json_wf (persistableDispatchPayload example_payload)"
    by (simp add: example_payload_def own_order_def i)
  then show ?thesis
    by (simp add: parsed_def stableStringify_def JSON_parse_stringify stableValue_wf)
qed

lemma example_reply: "\<exists>c. runRuntime inbox_example re example_payload out = Inr c"
  by (simp add: runRuntime_def runtime_plan_def inbox_example_def)

lemma example_up: "\<not> ib_down (inbox_step inbox_example example_started (IRuntimeEnded (inbox_turn 6) ''r1'' out))"
proof -
  obtain H row where s: "example_started = \<lparr>ib_hub = H, ib_inFlight = [''r1''], ib_tasks = [(''r1'', example_payload)],
        ib_started = [''r1''], ib_drain = None, ib_calls = [], ib_down = False\<rparr>"
      "om_get (hub_dispatches H) ''r1'' = Some row" "dr_payload_json row = example_stored" "dr_reply_url row = Some ''u''"
      "dr_reply_content row = None" "dr_error row = None" "hub_outbox H = []" "hub_key H = Some ''key''"
      "rc_id ` set (hub_receipts H) = {he_draw (turn 5 0) 0, he_draw (turn 5 (Suc 0)) 0}"
    using example_start by blast
  obtain d where d: "parsed (stableStringify (persistableDispatchPayload example_payload)) = Inr d" using example_parse by blast
  obtain c where c: "runRuntime inbox_example (ie_runtime (inbox_turn 6)) example_payload out = Inr c" using example_reply by blast
  have fresh: "he_draw (turn 6 0) 0 \<noteq> he_draw (turn 5 0) 0" "he_draw (turn 6 0) 0 \<noteq> he_draw (turn 5 (Suc 0)) 0"
    by (simp_all add: turn_def digit_char_def)
  have i: "ie_hub (inbox_turn 6) 0 = turn 6 0" by (simp add: inbox_turn_def)
  have row: "\<exists>dc. dispatchFromRow (turn 6 0) H ''r1'' row = Inr dc"
    by (simp add: dispatchFromRow_def s example_decode d decode_opt_def)
  then obtain dc where dc: "dispatchFromRow (turn 6 0) H ''r1'' row = Inr dc" by blast
  have "\<exists>x h'. markDispatchSucceeded (turn 6 0) ''r1'' c (Some (proof_of example_payload)) H = (Inr x, h')"
    by (simp add: markDispatchSucceeded_def withTransaction_def succeeded_body_def s(2) dc put_reply_def s(4) upsertOutboxReply_def
        s(7) Let_def appendReceipt_def set_dispatch_def s(9) fresh)
  then obtain x h' where m: "markDispatchSucceeded (turn 6 0) ''r1'' c (Some (proof_of example_payload)) H = (Inr x, h')" by blast
  have up0: "\<not> ib_down example_started" by (simp add: s(1))
  have "settle_runtime inbox_example (inbox_turn 6) ''r1'' example_payload (Inr c) example_started =
      drain_tick inbox_example (inbox_turn 6) 2 (example_started\<lparr>ib_hub := h'\<rparr>)"
    by (simp add: settle_runtime_def i s(1) m)
  moreover have "\<not> ib_down (drain_tick inbox_example (inbox_turn 6) 2 (example_started\<lparr>ib_hub := h'\<rparr>))"
    using quiet_tick[of "example_started\<lparr>ib_hub := h'\<rparr>" inbox_example "inbox_turn 6" 2] up0 by (simp add: quiet_def)
  moreover have "om_get (ib_tasks example_started) ''r1'' = Some example_payload" "\<not> ib_down example_started" by (simp_all add: s(1))
  ultimately show ?thesis by (simp add: inbox_step_def runtimeEnded_def c Let_def)
qed

theorem runtime_started_once_witness:
  "ib_started (inbox_run inbox_example (new_inbox empty_start) [IRequest (inbox_turn 5) example_request]) = [''r1'']
   \<and> distinct (ib_started (inbox_run inbox_example (new_inbox empty_start)
      [IRequest (inbox_turn 5) example_request, IRequest (inbox_turn 6) example_request]))"
proof -
  have "list_all (\<lambda>(k, row). trim k = k) (hub_dispatches empty_start)" by (simp add: empty_start_def empty_hub_def)
  from runtime_started_once[OF this, of inbox_example "[IRequest (inbox_turn 5) example_request, IRequest (inbox_turn 6) example_request]"]
  show ?thesis using example_start unfolding example_started_def by auto
qed

theorem ended_runtime_settles_witness:
  "\<exists>row. om_get (hub_dispatches (ib_hub (inbox_run inbox_example (new_inbox empty_start)
       ([IRequest (inbox_turn 5) example_request] @ IRuntimeEnded (inbox_turn 6) ''r1'' (ProcError ''x'') # [])))) ''r1'' = Some row
    \<and> dr_status row \<in> {DSucceeded, DFailed}"
proof (rule ended_runtime_settles)
  show "list_all (\<lambda>(k, row). trim k = k) (hub_dispatches empty_start)" by (simp add: empty_start_def empty_hub_def)
  show "''r1'' \<in> set (ib_started (inbox_run inbox_example (new_inbox empty_start) [IRequest (inbox_turn 5) example_request]))"
    using example_start unfolding example_started_def by auto
  show "\<not> ib_down (inbox_run inbox_example (new_inbox empty_start)
      ([IRequest (inbox_turn 5) example_request] @ IRuntimeEnded (inbox_turn 6) ''r1'' (ProcError ''x'') # []))"
    using example_up[of "ProcError ''x''"] by (simp add: example_started_def inbox_run_def)
qed

definition tool_config :: InboxConfig where
  "tool_config = inbox_example\<lparr>ic_runtime := ''command'', ic_command := Some ''tool'', ic_allowEnv := [''kovael_token'']\<rparr>"

definition tool_env :: RuntimeEnv where
  "tool_env = \<lparr>re_penv = (\<lambda>n. Some (if n = ''KOVAEL_COMMAND_ADAPTER_ALLOW'' then ''tool'' else ''v'')), re_sha = (\<lambda>s. s),
     re_execPath = ''node'', re_outPath = ''out''\<rparr>"

theorem child_env_clean_witness:
  "\<exists>c. runtime_plan tool_config tool_env JNull = PlanSpawn c \<and> om_get (rt_env c) ''kovael_token'' = None \<and> rt_command c = ''tool''"
proof -
  have "isDeniedCommandEnvName ''kovael_token''" by code_simp
  moreover have csv: "set (parseCsvArg (Some ''tool'')) = {''tool''}" by code_simp
  have plan: "\<exists>c. runtime_plan tool_config tool_env JNull = PlanSpawn c"
    using csv by (simp add: runtime_plan_def command_plan_def Let_def tool_config_def tool_env_def inbox_example_def)
  moreover have "ic_runtime tool_config = ''command''" by (simp add: tool_config_def)
  moreover have "re_penv tool_env ''KOVAEL_COMMAND_ADAPTER_ALLOW'' = Some ''tool''" by (simp add: tool_env_def)
  ultimately show ?thesis using child_env_clean[of tool_config tool_env JNull _ "''kovael_token''"] csv by fastforce
qed

definition example_due :: OutboxRow where
  "example_due = example_row\<lparr>ob_status := OSending, ob_attempts := 1, ob_next_attempt_at := None, ob_updated_at := 9\<rparr>"

lemma example_claim_due:
  "claimDueOutbox (turn 9 0) (Num 10) (Num 30000) example_hub =
     (Inr [\<lparr>ox_row = example_due, ox_payload = JObj []\<rparr>], example_hub\<lparr>hub_outbox := [example_due]\<rparr>)"
proof -
  let ?h = "example_hub\<lparr>hub_outbox := [example_due]\<rparr>"
  have row: "ob_id example_row = ''o1''" "ob_status example_row = OPending" "ob_next_attempt_at example_row = None"
      "ob_attempts example_row = 0" "ob_id example_due = ''o1''"
    by (simp_all add: example_row_def example_due_def)
  have now: "he_now (turn 9 0) = 9" by (simp add: turn_def hub_env_def)
  have due: "due_outbox 9 (9 - 30000) 10 example_hub = [example_row]"
    by (simp add: due_outbox_def due_row_def row example_hub_def)
  have dec: "outboxFromRow (turn 9 0) ?h example_due = Inr \<lparr>ox_row = example_due, ox_payload = JObj []\<rparr>"
    using example_open[where t = 9 and h = ?h and x = OSending and n = 1 and a = None and u = 9]
    by (simp add: example_due_def outboxFromRow_def decodeSensitive_def turn_def hub_env_def)
  have "claim_body (turn 9 0) 10 30000 example_hub = (map_result (outboxFromRow (turn 9 0) ?h) [example_due], ?h)"
    using due unfolding example_due_def
    by (simp add: claim_body_def now update_outbox_def Let_def row example_hub_def del: map_result.simps)
  then show ?thesis using dec by (simp add: claimDueOutbox_def withTransaction_def)
qed

theorem replies_stay_local_witness:
  "\<exists>c. ib_calls (inbox_run inbox_example (new_inbox example_hub) [ITick (inbox_turn 9)]) = [c]
    \<and> (\<exists>u. Some local_url = Some u \<and> url_protocol u \<in> {''http:'', ''https:''}
        \<and> strip_brackets (url_hostname u) \<in> {''127.0.0.1'', ''localhost'', ''::1''})"
proof -
  let ?run = "inbox_run inbox_example (new_inbox example_hub) [ITick (inbox_turn 9)]"
  have d: "drain_tick inbox_example (inbox_turn 9) 0 s = drain_rows inbox_example (inbox_turn 9)
      [\<lparr>ox_row = example_due, ox_payload = JObj []\<rparr>] (s\<lparr>ib_hub := example_hub\<lparr>hub_outbox := [example_due]\<rparr>\<rparr>)"
    if "ib_hub s = example_hub" "ib_drain s = None" for s
    using that example_claim_due by (simp add: drain_tick_def inbox_turn_def inbox_example_def)
  have f: "ob_kind example_due = KReply" "ob_target_url example_due = ''u''" "ob_request_id example_due = ''r1''"
    by (simp_all add: example_due_def example_row_def)
  have "\<exists>c. sendOutboxReply (inbox_turn 9) \<lparr>ox_row = example_due, ox_payload = JObj []\<rparr> = SendCall c"
    by (simp add: sendOutboxReply_def f assertLoopbackHttpUrl_def inbox_turn_def local_url_def LOOPBACK_REPLY_HOSTS_def Let_def strip_brackets_def)
  then obtain c where c: "sendOutboxReply (inbox_turn 9) \<lparr>ox_row = example_due, ox_payload = JObj []\<rparr> = SendCall c" by blast
  have "?run = drain_tick inbox_example (inbox_turn 9) 0 (new_inbox example_hub)"
    by (simp add: inbox_run_def inbox_step_def new_inbox_def)
  then have run: "ib_calls ?run = [c]" by (simp add: d new_inbox_def c)
  have "list_all (\<lambda>op. ie_parse (op_env op) = (\<lambda>_. Some local_url)) [ITick (inbox_turn 9)]" by (simp add: inbox_turn_def)
  from replies_stay_local[OF this, of c inbox_example example_hub] run show ?thesis by simp
qed
end
