(* ===== verification/InboxWire.thy ===== *)
theory InboxWire
  imports InboxLaws
begin

text \<open>
  The inbox and the two components that talk to it. \<open>AgentRuntimeSupervisor\<close> starts it with an
  argument list and an environment: both are read as they were meant. \<open>MeshOrchestrator\<close> seals
  what it dispatches: it is opened here. The last section states what ends the process.
\<close>

section \<open>The envelopes of both sides\<close>

lemma dispatchSecret_current: "dispatchSecret env = currentSecret env"
  by (simp add: dispatchSecret_def currentSecret_def CHAIR_DISPATCH_SECRET_ENV_def split: option.split)

lemma inbox_names: "inbox_key = keyFor" "inbox_aad = dispatch_aad"
  by (simp_all add: fun_eq_iff inbox_key_def keyFor_def inbox_aad_def dispatch_aad_def SECURITY_VERSION_def)

lemma encrypt_same: "encryptPayload cr env now iv payload requestId = secureChairDispatchBody cr env now iv payload requestId"
  by (simp add: encryptPayload_def secureChairDispatchBody_def dispatchSecret_current inbox_names envelope_json_def
      SECURITY_VERSION_def Let_def split: option.split prod.split)

lemma decrypt_sealed:
  assumes "gcm_law cr" and "gcm_texts cr" and "cr_iv_ok cr iv" and "iv \<noteq> []"
    and payload: "payload = JObj kvs" "json_wf payload"
    and secret: "currentSecret env' = Some s"
    and "\<bar>later - now\<bar> \<le> MAX_CLOCK_SKEW_MS"
    and sealed: "cr_seal cr (keyFor cr s) iv (dispatch_aad requestId now) (stringify payload) = (ct, tag)"
  shows "decryptPayload cr env' later (envelope_json requestId now iv ct tag) = Inr (drop_proto payload)"
proof -
  have ne: "stringify payload \<noteq> []" by (simp add: payload(1))
  have ok: "ct \<noteq> []" "tag \<noteq> []" "cr_tag_ok cr tag"
    using assms(2) ne sealed unfolding gcm_texts_def by (metis fst_conv snd_conv)+
  have opened: "cr_open cr (keyFor cr s) iv (dispatch_aad requestId now) ct tag = Some (stringify payload)"
    using assms(1) sealed unfolding gcm_law_def by (metis fst_conv snd_conv)
  have "open_payload cr s requestId now (envelope_json requestId now iv ct tag) = Inr (drop_proto payload)"
    using ok opened assms(3,4) JSON_parse_stringify [OF payload(2)] payload(1)
    by (simp add: open_payload_def fromB64_def envelope_json_def inbox_names del: stringify.simps)
  then show ?thesis
    using assms(8) by (simp add: decryptPayload_def dispatchSecret_current secret envelope_json_def SECURITY_VERSION_def MAX_CLOCK_SKEW_MS_def)
qed

section \<open>The arguments of a child\<close>

lemma parse_int_show: "parse_int (show_int i) = Some i"
proof -
  have d: "takeWhile is_digit (show_nat n) = show_nat n" for n
    using show_nat_reads [of n] by (simp add: list_all_iff)
  obtain c t where c: "show_nat (nat i) = c # t" "is_digit c" using show_nat_Cons by blast
  have sp: "\<not> js_space c" "c \<noteq> CHR ''-''" "c \<noteq> CHR ''+''" using c(2) by (auto simp: is_digit_def js_space_def)
  show ?thesis
  proof (cases "i < 0")
    case True
    then show ?thesis using show_nat_reads [of "nat (- i)"]
      by (simp add: parse_int_def show_int_def js_space_def Let_def d)
  next
    case False
    have ds: "dropWhile js_space (show_nat (nat i)) = show_nat (nat i)" "show_nat (nat i) \<noteq> []"
        "hd (show_nat (nat i)) \<noteq> CHR ''-''" "hd (show_nat (nat i)) \<noteq> CHR ''+''"
      using sp c(1) by simp_all
    then show ?thesis using show_nat_reads [of "nat i"] False
      by (simp add: parse_int_def show_int_def Let_def d)
  qed
qed

lemma read_option:
  "\<not> starts_with ''--'' v \<Longrightarrow> flag_arg k = None \<Longrightarrow> parse_args ((CHR ''-'' # CHR ''-'' # k) # v # rest) a = parse_args rest (store_arg k v a)"
  by (simp add: starts_with_def)

lemma read_flag: "flag_arg k = Some f \<Longrightarrow> parse_args ((CHR ''-'' # CHR ''-'' # k) # rest) a = parse_args rest (om_set f ATrue a)"
  by (cases rest) (simp_all add: starts_with_def)

lemma no_dashes_int: "\<not> starts_with ''--'' (show_int i)"
proof (cases "i < 0")
  case True
  obtain c t where "show_nat (nat (- i)) = c # t" "is_digit c" using show_nat_Cons by blast
  then show ?thesis using True by (auto simp: show_int_def starts_with_def is_digit_def)
next
  case False
  obtain c t where "show_nat (nat i) = c # t" "is_digit c" using show_nat_Cons by blast
  then show ?thesis using False by (auto simp: show_int_def starts_with_def is_digit_def)
qed

text \<open>A list that comes through its comma-separated text unchanged.\<close>

definition csv_item :: "string \<Rightarrow> bool" where
  "csv_item s \<longleftrightarrow> s \<noteq> [] \<and> trim s = s \<and> CHR '','' \<notin> set s \<and> \<not> starts_with ''--'' s"

lemma csv_join: "list_all csv_item xs \<Longrightarrow> xs \<noteq> [] \<Longrightarrow> csv (join_with '','' xs) = xs"
proof -
  assume x: "list_all csv_item xs" "xs \<noteq> []"
  then have "split_at CHR '','' (join_with '','' xs) = xs"
    by (intro split_at_join) (auto simp: list_all_iff csv_item_def)
  moreover have "map trim xs = xs" using x(1) by (intro map_idI) (auto simp: list_all_iff csv_item_def)
  moreover have "filter (\<lambda>s. s \<noteq> []) xs = xs" using x(1) by (auto simp: filter_id_conv list_all_iff csv_item_def)
  ultimately show ?thesis by (simp add: csv_def)
qed

lemma csv_no_dashes: "list_all csv_item xs \<Longrightarrow> xs \<noteq> [] \<Longrightarrow> \<not> starts_with ''--'' (join_with '','' xs)"
proof (induction "'',''" xs rule: join_with.induct)
  case (3 x y ys)
  then have x: "x \<noteq> []" "\<not> starts_with ''--'' x" by (simp_all add: csv_item_def)
  show ?case
  proof (cases x)
    case (Cons c cs)
    then show ?thesis using x by (cases cs) (auto simp: starts_with_def)
  qed (use x in simp)
qed (simp_all add: csv_item_def)



lemma json_no_dashes: "\<not> starts_with ''--'' (stringify (JArr xs))"
  by (simp add: starts_with_def)

lemma flags: "flag_arg ''id'' = None" "flag_arg ''provider'' = None" "flag_arg ''runtime'' = None" "flag_arg ''host'' = None"
  "flag_arg ''cwd'' = None" "flag_arg ''hub-path'' = None" "flag_arg ''capabilities'' = None" "flag_arg ''trust'' = None"
  "flag_arg ''model'' = None" "flag_arg ''command'' = None" "flag_arg ''command-args'' = None" "flag_arg ''allow-env'' = None"
  "flag_arg ''require-hub-encryption'' = Some ''requireHubEncryption''" "flag_arg ''with-token'' = Some ''withToken''"
  by (simp_all add: flag_arg_def)

text \<open>The optional parts of the arguments, one at a time.\<close>

definition maybe_set :: "bool \<Rightarrow> string \<Rightarrow> arg_val \<Rightarrow> args \<Rightarrow> args" where
  "maybe_set c k v a = (if c then om_set k v a else a)"

lemma maybe_get: "om_get (maybe_set c k v a) k' = (if c \<and> k' = k then Some v else om_get a k')"
  by (simp add: maybe_set_def)

lemma read_maybe:
  "(c \<Longrightarrow> \<not> starts_with ''--'' v) \<Longrightarrow> flag_arg k = None \<Longrightarrow> (\<And>a. c \<Longrightarrow> store_arg k v a = om_set k x a) \<Longrightarrow>
   parse_args ((if c then [CHR ''-'' # CHR ''-'' # k, v] else []) @ rest) a = parse_args rest (maybe_set c k x a)"
  by (cases c) (simp_all add: read_option maybe_set_def del: parse_args.simps)

lemma read_maybe_flag:
  "flag_arg k = Some f \<Longrightarrow>
   parse_args ((if c then [CHR ''-'' # CHR ''-'' # k] else []) @ rest) a = parse_args rest (maybe_set c f ATrue a)"
  by (cases c) (simp_all add: read_flag maybe_set_def del: parse_args.simps)

definition plain_value :: "string \<Rightarrow> bool" where
  "plain_value v \<longleftrightarrow> v \<noteq> [] \<and> \<not> starts_with ''--'' v"

text \<open>A specification and a supervisor whose values an argument list can carry.\<close>

definition carried :: "Supervisor \<Rightarrow> AgentRuntimeSpec \<Rightarrow> string \<Rightarrow> string \<Rightarrow> bool" where
  "carried sv spec host hubPath \<longleftrightarrow>
     inbox_id_ok (sp_agentId spec) \<and> \<not> starts_with ''--'' (sp_agentId spec)
     \<and> list_all plain_value [sp_provider spec, sp_runtime spec, host, case_option (sv_cwd sv) id (sp_cwd spec), hubPath]
     \<and> list_all csv_item (case_option [] id (sp_capabilities spec)) \<and> list_all csv_item (case_option [] id (sp_allowEnv spec))
     \<and> \<not> starts_with ''--'' (case_option [] id (sp_model spec)) \<and> \<not> starts_with ''--'' (case_option [] id (sp_command spec))"

definition given :: "string option \<Rightarrow> string option" where
  "given v = (if truthy_str v then v else None)"

definition child_args :: "Supervisor \<Rightarrow> AgentRuntimeSpec \<Rightarrow> string \<Rightarrow> string \<Rightarrow> args" where
  "child_args sv spec host hubPath =
     maybe_set (truthy_str (sv_env sv ''KOVAEL_API_TOKEN'') \<or> truthy_str (sv_env sv ''KOVAEL_TOKEN'')) ''withToken'' ATrue
     (maybe_set (sv_encryption sv) ''requireHubEncryption'' ATrue
     (maybe_set (sp_runtime spec = ''command'' \<and> truthy_str (sp_command spec) \<and> nonempty_list (sp_allowEnv spec))
        ''allow-env'' (AText (join_with '','' (the (sp_allowEnv spec))))
     (maybe_set (sp_runtime spec = ''command'' \<and> truthy_str (sp_command spec) \<and> nonempty_list (sp_args spec))
        ''command-args'' (AText (stringify (JArr (map JStr (the (sp_args spec))))))
     (maybe_set (sp_runtime spec = ''command'' \<and> truthy_str (sp_command spec)) ''command'' (AText (the (sp_command spec)))
     (maybe_set (truthy_str (sp_model spec)) ''model'' (AText (the (sp_model spec)))
     (maybe_set (sp_trustTier spec \<noteq> None) ''trust'' (ANum (the (sp_trustTier spec)))
     (maybe_set (nonempty_list (sp_capabilities spec)) ''capabilities'' (AList (the (sp_capabilities spec)))
       [(''capabilities'', AList []), (''id'', AText (sp_agentId spec)),
        (''provider'', AText (sp_provider spec)), (''runtime'', AText (sp_runtime spec)), (''host'', AText host),
        (''cwd'', AText (case_option (sv_cwd sv) id (sp_cwd spec))), (''hub-path'', AText hubPath)])))))))"

lemma store_text: "k \<notin> {''capabilities'', ''trust'', ''port'', ''timeout-ms'', ''__proto__''} \<Longrightarrow> store_arg k v a = om_set k (AText v) a"
  by (simp add: store_arg_def obj_set_def)

lemma args_shape:
  "tl (argsFor sv spec host hubPath) =
     [''--id'', sp_agentId spec, ''--provider'', sp_provider spec, ''--runtime'', sp_runtime spec,
      ''--host'', host, ''--cwd'', case_option (sv_cwd sv) id (sp_cwd spec), ''--hub-path'', hubPath]
     @ (if nonempty_list (sp_capabilities spec) then [''--capabilities'', join_with '','' (the (sp_capabilities spec))] else [])
     @ (if sp_trustTier spec \<noteq> None then [''--trust'', show_int (the (sp_trustTier spec))] else [])
     @ (if truthy_str (sp_model spec) then [''--model'', the (sp_model spec)] else [])
     @ (if sp_runtime spec = ''command'' \<and> truthy_str (sp_command spec) then [''--command'', the (sp_command spec)] else [])
     @ (if sp_runtime spec = ''command'' \<and> truthy_str (sp_command spec) \<and> nonempty_list (sp_args spec)
        then [''--command-args'', stringify (JArr (map JStr (the (sp_args spec))))] else [])
     @ (if sp_runtime spec = ''command'' \<and> truthy_str (sp_command spec) \<and> nonempty_list (sp_allowEnv spec)
        then [''--allow-env'', join_with '','' (the (sp_allowEnv spec))] else [])
     @ (if sv_encryption sv then [''--require-hub-encryption''] else [])
     @ (if truthy_str (sv_env sv ''KOVAEL_API_TOKEN'') \<or> truthy_str (sv_env sv ''KOVAEL_TOKEN'') then [''--with-token''] else [])
     @ []"
  by (cases "sp_trustTier spec") (simp_all add: argsFor_def)

lemma base_args:
  "store_arg ''hub-path'' f (store_arg ''cwd'' e (store_arg ''host'' d (store_arg ''runtime'' c
     (store_arg ''provider'' b (store_arg ''id'' a [(''capabilities'', AList [])])))))
   = [(''capabilities'', AList []), (''id'', AText a), (''provider'', AText b), (''runtime'', AText c),
      (''host'', AText d), (''cwd'', AText e), (''hub-path'', AText f)]"
  by (simp add: store_arg_def obj_set_def)

lemma child_args_read:
  assumes "carried sv spec host hubPath"
  shows "parseArgs (tl (argsFor sv spec host hubPath)) = child_args sv spec host hubPath"
proof -
  have v: "\<not> starts_with ''--'' (sp_agentId spec)" "\<not> starts_with ''--'' (sp_provider spec)" "\<not> starts_with ''--'' (sp_runtime spec)"
    "\<not> starts_with ''--'' host" "\<not> starts_with ''--'' (case_option (sv_cwd sv) id (sp_cwd spec))" "\<not> starts_with ''--'' hubPath"
    using assms by (simp_all add: carried_def plain_value_def)
  have caps: "nonempty_list (sp_capabilities spec) \<Longrightarrow> list_all csv_item (the (sp_capabilities spec)) \<and> the (sp_capabilities spec) \<noteq> []"
    and allow: "nonempty_list (sp_allowEnv spec) \<Longrightarrow> list_all csv_item (the (sp_allowEnv spec)) \<and> the (sp_allowEnv spec) \<noteq> []"
    using assms by (auto simp: carried_def nonempty_list_def split: option.splits)
  have cs: "store_arg ''capabilities'' (join_with '','' (the (sp_capabilities spec))) a
      = om_set ''capabilities'' (AList (the (sp_capabilities spec))) a" if "nonempty_list (sp_capabilities spec)" for a
    using caps[OF that] by (simp add: store_arg_def csv_join)
  have tr: "store_arg ''trust'' (show_int t) a = om_set ''trust'' (ANum t) a" for t a
    by (simp add: store_arg_def number_arg_def parse_int_show)
  have m: "truthy_str (sp_model spec) \<Longrightarrow> \<not> starts_with ''--'' (the (sp_model spec))"
    and c: "sp_runtime spec = ''command'' \<and> truthy_str (sp_command spec) \<Longrightarrow> \<not> starts_with ''--'' (the (sp_command spec))"
    using assms by (auto simp: carried_def split: option.splits)
  show ?thesis
    unfolding parseArgs_def args_shape append_Cons append_Nil
    apply (simp only: read_option[OF v(1) flags(1)] read_option[OF v(2) flags(2)] read_option[OF v(3) flags(3)]
        read_option[OF v(4) flags(4)] read_option[OF v(5) flags(5)] read_option[OF v(6) flags(6)])
    apply (rule trans[OF read_maybe], use caps csv_no_dashes in blast, rule flags, erule cs)
    apply (rule trans[OF read_maybe], rule no_dashes_int, rule flags, rule tr)
    apply (rule trans[OF read_maybe], erule m, rule flags, rule store_text, simp)
    apply (rule trans[OF read_maybe], erule c, rule flags, rule store_text, simp)
    apply (rule trans[OF read_maybe], rule json_no_dashes, rule flags, rule store_text, simp)
    apply (rule trans[OF read_maybe], use allow csv_no_dashes in blast, rule flags, rule store_text, simp)
    apply (rule trans[OF read_maybe_flag], rule flags)
    apply (rule trans[OF read_maybe_flag], rule flags)
    by (simp only: parse_args.simps child_args_def base_args)
qed

text \<open>The environment of the child.\<close>

lemma set_truthy_get: "om_get (set_truthy n v env) k = (if truthy_str v \<and> k = n then v else om_get env k)"
  by (cases v) (auto simp: set_truthy_def)

lemma forward_get: "isDeniedCommandEnvName k \<Longrightarrow> om_get (forward_env source names env) k = om_get env k"
  by (induction names arbitrary: env) (auto split: option.split)

definition copied_names :: "string list" where
  "copied_names = PLATFORM_ENV_ALLOWLIST @ PROXY_ENV_ALLOWLIST @ RUNTIME_LOCATOR_ENV_ALLOWLIST"

lemma copied_get:
  "k \<notin> set copied_names \<Longrightarrow>
   om_get (copyAllowlisted source (copyAllowlisted source (copyAllowlisted source [] PLATFORM_ENV_ALLOWLIST)
     PROXY_ENV_ALLOWLIST) RUNTIME_LOCATOR_ENV_ALLOWLIST) k = None"
  by (simp add: copyAllowlisted_get copied_names_def)

lemma not_copied:
  "''KOVAEL_AGENT_HUB_SECRET'' \<notin> set copied_names" "''KOVAEL_AGENT_HUB_ENCRYPTION'' \<notin> set copied_names"
  "''KOVAEL_TOKEN'' \<notin> set copied_names"
  by code_simp+

lemmas adapter_names = AGENT_HUB_SECRET_ENV_def AGENT_HUB_ENCRYPTION_ENV_def REQUIRED_HUB_ENCRYPTION_def

lemma adapter_env_get:
  "om_get (buildAgentAdapterEnv source required) ''KOVAEL_AGENT_HUB_SECRET'' =
     (if truthy_str (source ''KOVAEL_AGENT_HUB_SECRET'') then source ''KOVAEL_AGENT_HUB_SECRET'' else None)"
  "om_get (buildAgentAdapterEnv source required) ''KOVAEL_AGENT_HUB_ENCRYPTION'' = (if required then Some ''required'' else None)"
  "om_get (buildAgentAdapterEnv source required) ''KOVAEL_TOKEN'' =
     (let token = (case source ''KOVAEL_TOKEN'' of Some t \<Rightarrow> Some t | None \<Rightarrow> source ''KOVAEL_API_TOKEN'')
      in if truthy_str token then token else None)"
  by (simp_all add: buildAgentAdapterEnv_def Let_def set_truthy_get copied_get not_copied adapter_names)

lemma denied_names:
  "isDeniedCommandEnvName ''KOVAEL_AGENT_HUB_SECRET''" "isDeniedCommandEnvName ''KOVAEL_AGENT_HUB_ENCRYPTION''"
  "isDeniedCommandEnvName ''KOVAEL_TOKEN''"
  by code_simp+

lemma child_env_get:
  "k \<in> {''KOVAEL_AGENT_HUB_SECRET'', ''KOVAEL_AGENT_HUB_ENCRYPTION'', ''KOVAEL_TOKEN''} \<Longrightarrow>
   om_get (childEnv sv spec) k = om_get (buildAgentAdapterEnv (sv_env sv) (sv_encryption sv)) k"
  using denied_names by (auto simp: childEnv_def Let_def forward_get set_truthy_get COMMAND_ADAPTER_ALLOW_ENV_def)

lemma the_truthy: "truthy_str v \<Longrightarrow> Some (AText (the v)) = map_option AText v"
  by (cases v) simp_all

lemma child_arg:
  fixes sv spec host hubPath
  defines "a \<equiv> child_args sv spec host hubPath"
  shows "om_get a ''id'' = Some (AText (sp_agentId spec))" "om_get a ''provider'' = Some (AText (sp_provider spec))"
    "om_get a ''runtime'' = Some (AText (sp_runtime spec))" "om_get a ''host'' = Some (AText host)"
    "om_get a ''cwd'' = Some (AText (case_option (sv_cwd sv) id (sp_cwd spec)))" "om_get a ''hub-path'' = Some (AText hubPath)"
    "om_get a ''capabilities'' = Some (AList (case_option [] id (sp_capabilities spec)))"
    "om_get a ''trust'' = map_option ANum (sp_trustTier spec)"
    "om_get a ''model'' = map_option AText (given (sp_model spec))"
    "om_get a ''command'' = (if sp_runtime spec = ''command'' then map_option AText (given (sp_command spec)) else None)"
    "om_get a ''command-args'' = (if sp_runtime spec = ''command'' \<and> truthy_str (sp_command spec) \<and> nonempty_list (sp_args spec)
       then Some (AText (stringify (JArr (map JStr (the (sp_args spec)))))) else None)"
    "om_get a ''allow-env'' = (if sp_runtime spec = ''command'' \<and> truthy_str (sp_command spec) \<and> nonempty_list (sp_allowEnv spec)
       then Some (AText (join_with '','' (the (sp_allowEnv spec)))) else None)"
    "om_get a ''requireHubEncryption'' = (if sv_encryption sv then Some ATrue else None)"
    "om_get a ''withToken'' = (if truthy_str (sv_env sv ''KOVAEL_API_TOKEN'') \<or> truthy_str (sv_env sv ''KOVAEL_TOKEN'') then Some ATrue else None)"
    "om_get a ''token'' = None"
  by (auto simp: a_def child_args_def maybe_get given_def nonempty_list_def the_truthy split: option.splits)






lemma adapter_dispatch_secret:
  "om_get (buildAgentAdapterEnv source required) ''KOVAEL_CHAIR_DISPATCH_SECRET'' =
     (if truthy_str (source ''KOVAEL_CHAIR_DISPATCH_SECRET'') then source ''KOVAEL_CHAIR_DISPATCH_SECRET'' else None)"
proof -
  have "''KOVAEL_CHAIR_DISPATCH_SECRET'' \<notin> set copied_names" by code_simp
  then show ?thesis by (simp add: buildAgentAdapterEnv_def Let_def set_truthy_get copied_get adapter_names)
qed

lemma child_dispatch_secret: "currentSecret (om_get (childEnv sv spec)) = currentSecret (sv_env sv)"
proof -
  have d: "isDeniedCommandEnvName ''KOVAEL_CHAIR_DISPATCH_SECRET''" by code_simp
  have "om_get (childEnv sv spec) ''KOVAEL_CHAIR_DISPATCH_SECRET'' =
      om_get (buildAgentAdapterEnv (sv_env sv) (sv_encryption sv)) ''KOVAEL_CHAIR_DISPATCH_SECRET''"
    using d by (auto simp: childEnv_def Let_def forward_get set_truthy_get COMMAND_ADAPTER_ALLOW_ENV_def)
  moreover have "length (trim s) \<ge> 32 \<Longrightarrow> truthy_str (Some s)" for s by (auto simp: trim_def)
  ultimately show ?thesis
    by (auto simp: currentSecret_def CHAIR_DISPATCH_SECRET_ENV_def adapter_dispatch_secret split: option.split)
qed

text \<open>C35: What the orchestrator seals for a chair is opened by the inbox it started for it, within the
  clock skew the inbox allows and its limit of 512 KiB for a body.\<close>

theorem sealed_dispatch_opened:
  assumes "gcm_law cr" and "gcm_texts cr" and "cr_iv_ok cr iv" and "iv \<noteq> []"
    and payload: "payload = JObj kvs" "json_wf payload"
    and secret: "currentSecret (sv_env sv) = Some s"
    and "\<bar>later - now\<bar> \<le> MAX_CLOCK_SKEW_MS"
    and small: "byteLength (sb_body (secureChairDispatchBody cr (sv_env sv) now iv payload requestId)) \<le> 524288"
  shows "\<exists>body. readJson (BodyText (sb_body (secureChairDispatchBody cr (sv_env sv) now iv payload requestId))) = Inr body
      \<and> decryptPayload cr (om_get (childEnv sv spec)) later body = Inr (drop_proto payload)"
proof -
  obtain ct tag where ct: "cr_seal cr (keyFor cr s) iv (dispatch_aad requestId now) (stringify payload) = (ct, tag)" by force
  let ?body = "envelope_json requestId now iv ct tag"
  have body: "sb_body (secureChairDispatchBody cr (sv_env sv) now iv payload requestId) = stringify ?body"
    by (simp add: secureChairDispatchBody_def secret ct)
  have "stringify ?body \<noteq> []" by (simp add: envelope_json_def)
  then have "readJson (BodyText (stringify ?body)) = Inr ?body"
    using small body by (simp add: readJson_def parse_envelope_json)
  moreover have "decryptPayload cr (om_get (childEnv sv spec)) later ?body = Inr (drop_proto payload)"
    by (rule decrypt_sealed[OF assms(1-4) payload _ assms(8) ct]) (simp add: child_dispatch_secret secret)
  ultimately show ?thesis unfolding body by blast
qed

section \<open>What ends the process\<close>

lemma refused_record_crashes:
  "recordInboundDispatch (ie_hub e 0) payload (ib_hub s) = (Inl err, h) \<Longrightarrow>
   takeDispatch e requestId payload s = (None, crash (s\<lparr>ib_hub := h\<rparr>))"
  by (simp add: takeDispatch_def)

lemma null_body_crashes:
  assumes "rq_remote rq = Some ''127.0.0.1''" and "rq_method rq = ''POST''" and "rq_url rq = ''/inbox''"
    and "rq_body rq = BodyText ''null''" and "dispatchSecret (ie_penv e) = None"
  shows "handleRequest cfg e rq s = (None, crash s)"
proof -
  have "readJson (BodyText ''null'') = Inr JNull"
    using JSON_parse_stringify[of JNull] by (simp add: readJson_def byteLength_def)
  then show ?thesis using assms by (simp add: handleRequest_def decryptPayload_def)
qed

lemma padded_id_crashes:
  assumes rec: "recordInboundDispatch (ie_hub e 0) payload (ib_hub s) = (Inr res, h)" "\<not> in_duplicate res"
    and fresh: "requestId \<notin> set (ib_inFlight s)" "om_get (hub_dispatches h) requestId = None"
  shows "\<exists>s'. takeDispatch e requestId payload s = (Some (AcceptedDispatch requestId), s') \<and> ib_down s'"
  using assms by (simp add: takeDispatch_def markDispatchRunning_def withTransaction_def running_body_def crash_def Let_def)

lemma empty_token_ends_child:
  assumes "carried sv spec host hubPath" and "sv_env sv ''KOVAEL_TOKEN'' = Some []" and "truthy_str (sv_env sv ''KOVAEL_API_TOKEN'')"
  shows "bearerToken (om_get (childEnv sv spec)) (parseArgs (tl (argsFor sv spec host hubPath))) =
    Inl ''--with-token set but KOVAEL_TOKEN is empty''"
proof -
  have "text_arg (child_args sv spec host hubPath) ''token'' = None" by (simp add: text_arg_def child_arg)
  then show ?thesis
    using assms by (simp add: child_args_read bearerToken_def truthy_arg_def child_arg child_env_get adapter_env_get)
qed

section \<open>Witnesses\<close>

definition command_spec :: AgentRuntimeSpec where
  "command_spec = \<lparr>sp_agentId = ''a'', sp_provider = ''p'', sp_runtime = ''command'', sp_capabilities = Some [''read'', ''test''],
     sp_trustTier = Some 2, sp_cwd = None, sp_model = None, sp_enabled = None, sp_command = Some ''tool'',
     sp_args = Some [''-x''], sp_allowEnv = None\<rparr>"

definition secret_env :: penv where
  "secret_env = (\<lambda>n. if n = ''KOVAEL_CHAIR_DISPATCH_SECRET'' then Some example_secret
     else if n = ''KOVAEL_API_TOKEN'' then Some ''k'' else None)"

definition secret_sup :: Supervisor where
  "secret_sup = new_AgentRuntimeSupervisor \<lparr>pr_cwd = ''/w'', pr_env = (\<lambda>_. None), pr_execPath = ''node'', pr_home = ''/h''\<rparr> []
     \<lparr>cf_enabled = None, cf_parkOnIdle = None, cf_cwd = None, cf_hubDir = None, cf_nodeBin = None, cf_scriptPath = None,
      cf_host = None, cf_agents = None, cf_env = Some secret_env\<rparr>"

lemma secret_sup: "sv_env secret_sup = secret_env" "sv_cwd secret_sup = ''/w''" "sv_encryption secret_sup = False"
  by (simp_all add: secret_sup_def new_AgentRuntimeSupervisor_def Let_def isHubEncryptionRequired_def secret_env_def
      AGENT_HUB_ENCRYPTION_ENV_def)

lemma secret_sup_secret: "currentSecret (sv_env secret_sup) = Some example_secret"
  using example_secret_current by (simp add: currentSecret_def secret_sup secret_env_def CHAIR_DISPATCH_SECRET_ENV_def)



lemma small_envelope: "length (stringify (envelope_json ''r'' 0 ''iv'' (CHR ''c'' # stringify (JObj [])) ''t'')) \<le> 100000"
proof -
  have q: "length (quote s) \<le> 6 * n + 2" if "length s = n" for s n using quote_length[of s] that by simp
  have "length (show_int 0) = 1" by code_simp
  with q[of "''version''" 7, simplified] q[of "''kovael-chair-v1''" 15, simplified] q[of "''encrypted''" 9, simplified]
    q[of "''alg''" 3, simplified] q[of "''A256GCM''" 7, simplified] q[of "''requestId''" 9, simplified] q[of "''r''" 1, simplified]
    q[of "''timestamp''" 9, simplified] q[of "''iv''" 2, simplified] q[of "''ciphertext''" 10, simplified]
    q[of "''c{}''" 3, simplified] q[of "''tag''" 3, simplified] q[of "''t''" 1, simplified]
  show ?thesis by (simp add: envelope_json_def SECURITY_VERSION_def)
qed

theorem sealed_dispatch_opened_witness:
  "\<exists>body. readJson (BodyText (sb_body (secureChairDispatchBody plain_crypto (sv_env secret_sup) 0 ''iv'' (JObj []) ''r''))) = Inr body
      \<and> decryptPayload plain_crypto (om_get (childEnv secret_sup command_spec)) 5 body = Inr (drop_proto (JObj []))"
proof (rule sealed_dispatch_opened)
  show "currentSecret (sv_env secret_sup) = Some example_secret" by (rule secret_sup_secret)
  show "byteLength (sb_body (secureChairDispatchBody plain_crypto (sv_env secret_sup) 0 ''iv'' (JObj []) ''r'')) \<le> 524288"
    using byteLength_le[of "stringify (envelope_json ''r'' 0 ''iv'' (CHR ''c'' # stringify (JObj [])) ''t'')"] small_envelope
    by (simp add: secureChairDispatchBody_def secret_sup_secret plain_crypto_def)
qed (use plain_crypto_laws in \<open>simp_all add: plain_crypto_def MAX_CLOCK_SKEW_MS_def own_order_def\<close>)
end
