(* ===== verification/Heal.thy ===== *)
theory Heal
  imports Bridge Secrets Paths Cockpit
begin

text \<open>
  \<open>services/SelfHealer.ts\<close>: a failed receipt may carry a patch, which is applied to the
  repository, tested, and committed or taken back. Git and the test command are outside: a
  function of the commands so far, the last one included, says how the last one ended.
\<close>

section \<open>What a repair may touch\<close>

text \<open>\<open>.\<close> of a regular expression.\<close>

definition dot :: "char \<Rightarrow> bool" where
  "dot c \<longleftrightarrow> c \<noteq> CHR 0x0A \<and> c \<noteq> CHR 0x0D"

definition stripPatchPath :: "string \<Rightarrow> string" where
  "stripPatchPath value = trim (takeWhile (\<lambda>c. c \<noteq> CHR 0x09) value)"

text \<open>\<open>(.+?) b/(.+)$\<close>: the first \<open>b/\<close> after a blank that leaves something on both sides.\<close>

fun split_git :: "string \<Rightarrow> string \<Rightarrow> (string \<times> string) option" where
  "split_git seen [] = None"
| "split_git seen (c # rest) =
     (if seen \<noteq> [] \<and> starts_with '' b/'' (c # rest) \<and> length rest > 2 then Some (rev seen, drop 2 rest)
      else split_git (c # seen) rest)"

definition git_header :: "string \<Rightarrow> (string \<times> string) option" where
  "git_header line =
     (if starts_with ''diff --git a/'' line \<and> list_all dot (drop 13 line) then split_git [] (drop 13 line) else None)"

definition path_marker :: "string \<Rightarrow> string option" where
  "path_marker line =
     (if (starts_with ''--- '' line \<or> starts_with ''+++ '' line) \<and> list_all dot (drop 4 line) \<and> drop 4 line \<noteq> [] then
        (if (starts_with ''a/'' (drop 4 line) \<or> starts_with ''b/'' (drop 4 line)) \<and> drop 6 line \<noteq> [] then Some (drop 6 line)
         else Some (drop 4 line))
      else None)"

definition rename_line :: "string \<Rightarrow> string option" where
  "rename_line line =
     (if starts_with ''rename from '' line \<and> list_all dot (drop 12 line) \<and> drop 12 line \<noteq> [] then Some (drop 12 line)
      else if starts_with ''rename to '' line \<and> list_all dot (drop 10 line) \<and> drop 10 line \<noteq> [] then Some (drop 10 line)
      else None)"

text \<open>A carriage return before the line feed belongs to the separator.\<close>

fun drop_cr :: "string list \<Rightarrow> string list" where
  "drop_cr [] = []"
| "drop_cr [l] = [l]"
| "drop_cr (l # ls) = (if l \<noteq> [] \<and> last l = CHR 0x0D then butlast l else l) # drop_cr ls"

definition line_paths :: "string \<Rightarrow> string list" where
  "line_paths line =
     (case git_header line of
        Some (a, b) \<Rightarrow> [stripPatchPath a, stripPatchPath b]
      | None \<Rightarrow>
          (case path_marker line of
             Some p \<Rightarrow> [stripPatchPath p]
           | None \<Rightarrow> (case rename_line line of Some p \<Rightarrow> [stripPatchPath p] | None \<Rightarrow> [])))"

definition extractPatchPaths :: "string \<Rightarrow> string list" where
  "extractPatchPaths patch = set_of (concat (map line_paths (drop_cr (split_at CHR 0x0A patch))))"

definition LOCKFILES :: "string list" where
  "LOCKFILES = [''package-lock.json'', ''npm-shrinkwrap.json'', ''pnpm-lock.yaml'', ''yarn.lock'', ''bun.lockb'']"

definition KEY_SUFFIXES :: "string list" where
  "KEY_SUFFIXES = [''.pem'', ''.key'', ''.pfx'', ''.p12'', ''.crt'']"

text \<open>\<open>(^|/)w$\<close>, and \<open>(^|/)\.env($|[./])\<close>.\<close>

definition last_segment :: "string \<Rightarrow> string \<Rightarrow> bool" where
  "last_segment w s \<longleftrightarrow> s = w \<or> ends_with (CHR ''/'' # w) s"

definition env_at :: "string \<Rightarrow> bool" where
  "env_at s \<longleftrightarrow> starts_with ''.env'' s \<and> (drop 4 s = [] \<or> hd (drop 4 s) = CHR ''.'' \<or> hd (drop 4 s) = CHR ''/'')"

fun env_segment :: "string \<Rightarrow> bool" where
  "env_segment [] = False"
| "env_segment (c # s) = (c = CHR ''/'' \<and> env_at s \<or> env_segment s)"

definition isProtectedPath :: "string \<Rightarrow> bool" where
  "isProtectedPath filePath =
     (let lower = toLowerCase filePath; root = hd (split_at CHR ''/'' lower) in
      last_segment ''package.json'' lower
      \<or> list_ex (\<lambda>w. last_segment w lower) LOCKFILES
      \<or> starts_with ''scripts/'' lower \<or> starts_with ''.github/'' lower \<or> starts_with ''.git/'' lower
      \<or> starts_with ''.'' root \<or> str_includes ''/.'' lower
      \<or> env_at lower \<or> env_segment lower
      \<or> list_ex (\<lambda>w. ends_with w lower) KEY_SUFFIXES)"

definition normalize_patch_path :: "string \<Rightarrow> string" where
  "normalize_patch_path filePath =
     (let p = map (\<lambda>c. if c = CHR 0x5C then CHR ''/'' else c) filePath in
      if starts_with ''./'' p then drop 2 p else if starts_with ''/'' p then drop 1 p else p)"

fun guard_paths :: "string list \<Rightarrow> string option" where
  "guard_paths [] = None"
| "guard_paths (p # ps) =
     (let normalized = normalize_patch_path p in
      if normalized = [] \<or> normalized = ''/dev/null'' then guard_paths ps
      else if isProtectedPath normalized then Some (''protected_path:'' @ normalized)
      else guard_paths ps)"

text \<open>\<open>None\<close> is a patch that may be applied, otherwise the reason why it may not.\<close>

definition validateRepairPatch :: "string \<Rightarrow> string option" where
  "validateRepairPatch patch =
     (if extractPatchPaths patch = [] then Some ''no_patch_paths'' else guard_paths (extractPatchPaths patch))"

definition extractRepairPatch :: "VerificationReceipt \<Rightarrow> string option" where
  "extractRepairPatch receipt =
     (case JSON_parse (vr_evidence receipt) of
        None \<Rightarrow> None
      | Some evidence \<Rightarrow>
          (case (case jget evidence ''repairPatch'' of
                   Some (JStr p) \<Rightarrow> Some p
                 | _ \<Rightarrow> (case jget evidence ''patch'' of Some (JStr p) \<Rightarrow> Some p | _ \<Rightarrow> None)) of
             None \<Rightarrow> None
           | Some patch \<Rightarrow>
               if patch = [] \<or> length patch > 512000 then None
               else if \<not> starts_with ''--- '' patch \<and> \<not> str_includes (NL @ ''--- '') patch then None
               else if \<not> str_includes (NL @ ''+++ '') patch then None
               else Some patch))"

section \<open>Reasons\<close>

text \<open>A pattern with alternatives: at each place the first of them that matches.\<close>

function replace_any :: "ritem list list \<Rightarrow> string \<Rightarrow> char option \<Rightarrow> string \<Rightarrow> string" where
  "replace_any alts r prev [] = []"
| "replace_any alts r prev (c # s) =
     (case first_some (\<lambda>items. rmatch items prev (c # s) 0 0) alts of
        Some (_, e) \<Rightarrow>
          if 0 < e then r @ replace_any alts r (prev_after e prev (c # s)) (drop e (c # s))
          else c # replace_any alts r (Some c) s
      | None \<Rightarrow> c # replace_any alts r (Some c) s)"
  by pat_completeness auto
termination by (relation "measure (\<lambda>(_, _, _, s). length s)") auto

definition no_blank :: "char \<Rightarrow> bool" where
  "no_blank c \<longleftrightarrow> c \<notin> {CHR 0x0D, CHR 0x0A, CHR 0x09, CHR '' ''}"

definition redactReason :: "string \<Rightarrow> string" where
  "redactReason reason =
     (let t = replace_any [lit ''sk-'' @ [Rep 8 None (\<lambda>c. alnum c \<or> c \<in> set ''_-'')]] ''[redacted-token]'' None reason;
          t = replace_any [lit_i ''Bearer'' @ [Rep 1 None js_space, Rep 1 None (\<lambda>c. alnum c \<or> c \<in> set ''._~+/=-'')]]
                ''Bearer [redacted]'' None t;
          t = replace_any [lit_i ''token='' @ [Rep 1 None (\<lambda>c. c \<noteq> CHR ''&'' \<and> \<not> js_space c)]] ''token=[redacted]'' None t;
          t = replace_any [[Rep 1 (Some 1) is_letter] @ lit [CHR '':'', CHR 0x5C] @ [Rep 1 None no_blank]] ''[redacted-path]'' None t;
          t = replace_any [lit ''/Users/'' @ [Rep 1 None no_blank], lit ''/home/'' @ [Rep 1 None no_blank]] ''[redacted-path]'' None t
      in take 240 t)"

section \<open>The healer\<close>

datatype HealCall = ShowBranch | ShowStatus | CheckPatch string | ApplyPatch string | ReversePatch string
  | RunTests "string list" | AddAll | Commit string

datatype SelfHealKind = HealSkipped | PatchApplied | PatchReverted | HealFailed

record SelfHealEvent =
  hv_type :: SelfHealKind
  hv_cycleId :: string
  hv_taskHash :: string
  hv_attempt :: nat
  hv_reason :: "string option"
  hv_timestamp :: int

datatype HealStatus = Skipped | Applied | Reverted | HealFailure

record SelfHealResult =
  hr_status :: HealStatus
  hr_attempts :: nat
  hr_reason :: "string option"

record SelfHealer =
  sh_maxAttempts :: nat
  sh_testCommand :: "string list"
  sh_branchName :: "string option"
  sh_autoApply :: bool
  sh_commitOnGreen :: bool
  sh_allowedBranchPrefixes :: "string list"
  sh_events :: "SelfHealEvent list"

record SelfHealerOptions =
  so_maxAttempts :: "nat option"
  so_testCommand :: "string list option"
  so_branchName :: "string option"
  so_autoApply :: "bool option"
  so_commitOnGreen :: "bool option"
  so_allowedBranchPrefixes :: "string list option"

definition new_SelfHealer :: "SelfHealerOptions \<Rightarrow> SelfHealer" where
  "new_SelfHealer o' =
     \<lparr>sh_maxAttempts = case_option 2 id (so_maxAttempts o'),
      sh_testCommand = case_option [''npm'', ''run'', ''build''] id (so_testCommand o'),
      sh_branchName = so_branchName o', sh_autoApply = case_option False id (so_autoApply o'),
      sh_commitOnGreen = case_option True id (so_commitOnGreen o'),
      sh_allowedBranchPrefixes = case_option [''stage4/'', ''self-heal/''] id (so_allowedBranchPrefixes o'), sh_events = []\<rparr>"


text \<open>How the last of the commands so far ended: \<open>Inl\<close> the message it throws, \<open>Inr\<close> its output.\<close>

type_synonym exec = "HealCall list \<Rightarrow> string + string"

record HealEnv =
  hx_exec :: exec
  hx_clock :: "nat \<Rightarrow> int"

definition emitEvent :: "HealEnv \<Rightarrow> SelfHealKind \<Rightarrow> VerificationReceipt \<Rightarrow> nat \<Rightarrow> string option \<Rightarrow> SelfHealer \<Rightarrow> SelfHealer" where
  "emitEvent e kind receipt attempt reason h =
     h\<lparr>sh_events := sh_events h @ [\<lparr>hv_type = kind, hv_cycleId = vr_cycleId receipt, hv_taskHash = vr_taskHash receipt,
       hv_attempt = attempt, hv_reason = (if truthy_str reason then map_option redactReason reason else None),
       hv_timestamp = hx_clock e (length (sh_events h))\<rparr>]\<rparr>"

definition heal_skip :: "HealEnv \<Rightarrow> VerificationReceipt \<Rightarrow> string \<Rightarrow> SelfHealer \<Rightarrow> SelfHealResult \<times> SelfHealer" where
  "heal_skip e receipt reason h =
     (\<lparr>hr_status = Skipped, hr_attempts = 0, hr_reason = Some (redactReason reason)\<rparr>,
      emitEvent e HealSkipped receipt 0 (Some (redactReason reason)) h)"

definition isBranchAllowed :: "SelfHealer \<Rightarrow> string \<Rightarrow> bool" where
  "isBranchAllowed h branch \<longleftrightarrow> branch \<noteq> [] \<and> list_ex (\<lambda>prefix. starts_with prefix branch) (sh_allowedBranchPrefixes h)"

text \<open>\<open>commitRepair\<close>.\<close>

definition commit_calls :: "VerificationReceipt \<Rightarrow> HealCall list" where
  "commit_calls receipt = [AddAll, Commit (''chore(self-heal): apply verifier repair '' @ take 12 (vr_taskHash receipt))]"

text \<open>Commands one after the other, until one throws.\<close>

fun run_calls :: "exec \<Rightarrow> HealCall list \<Rightarrow> HealCall list \<Rightarrow> string option \<times> HealCall list" where
  "run_calls exec [] before = (None, before)"
| "run_calls exec (c # cs) before =
     (case exec (before @ [c]) of Inl err \<Rightarrow> (Some err, before @ [c]) | Inr _ \<Rightarrow> run_calls exec cs (before @ [c]))"

definition after_apply :: "SelfHealer \<Rightarrow> VerificationReceipt \<Rightarrow> HealCall list" where
  "after_apply h receipt = RunTests (sh_testCommand h) # (if sh_commitOnGreen h then commit_calls receipt else [])"

fun heal_loop :: "HealEnv \<Rightarrow> VerificationReceipt \<Rightarrow> string \<Rightarrow> nat \<Rightarrow> nat \<Rightarrow> SelfHealer \<Rightarrow> HealCall list \<Rightarrow>
    SelfHealResult \<times> SelfHealer \<times> HealCall list" where
  "heal_loop e receipt patch attempt 0 h calls =
     (\<lparr>hr_status = HealFailure, hr_attempts = sh_maxAttempts h, hr_reason = Some ''unreachable''\<rparr>, h, calls)"
| "heal_loop e receipt patch attempt (Suc left) h calls =
     (case run_calls (hx_exec e) [CheckPatch patch, ApplyPatch patch] calls of
        (Some err, calls1) \<Rightarrow>
          (\<lparr>hr_status = HealFailure, hr_attempts = attempt, hr_reason = Some (redactReason err)\<rparr>,
           emitEvent e HealFailed receipt attempt (Some (redactReason err)) h, calls1)
      | (None, calls1) \<Rightarrow>
          let h1 = emitEvent e PatchApplied receipt attempt None h in
          (case run_calls (hx_exec e) (after_apply h1 receipt) calls1 of
             (None, calls2) \<Rightarrow> (\<lparr>hr_status = Applied, hr_attempts = attempt, hr_reason = None\<rparr>, h1, calls2)
           | (Some err, calls2) \<Rightarrow>
               (case run_calls (hx_exec e) [ReversePatch patch] calls2 of
                  (Some _, calls3) \<Rightarrow>
                    (\<lparr>hr_status = HealFailure, hr_attempts = attempt, hr_reason = Some ''rollback_failed''\<rparr>,
                     emitEvent e HealFailed receipt attempt (Some ''rollback_failed'') h1, calls3)
                | (None, calls3) \<Rightarrow>
                    let h2 = emitEvent e PatchReverted receipt attempt (Some (redactReason err)) h1 in
                    if attempt = sh_maxAttempts h2 then
                      (\<lparr>hr_status = Reverted, hr_attempts = attempt, hr_reason = Some (redactReason err)\<rparr>,
                       emitEvent e HealFailed receipt attempt (Some (redactReason err)) h2, calls3)
                    else heal_loop e receipt patch (Suc attempt) left h2 calls3)))"

definition skipped :: "SelfHealResult \<times> SelfHealer \<Rightarrow> HealCall list \<Rightarrow> (string + SelfHealResult) \<times> SelfHealer \<times> HealCall list" where
  "skipped r calls = (Inr (fst r), snd r, calls)"

text \<open>\<open>Inl\<close> is the rejection by a git command outside every \<open>try\<close>.\<close>

definition repairFromReceipt ::
    "HealEnv \<Rightarrow> VerificationReceipt \<Rightarrow> SelfHealer \<Rightarrow> (string + SelfHealResult) \<times> SelfHealer \<times> HealCall list" where
  "repairFromReceipt e receipt h =
     (if vr_status receipt \<noteq> ReceiptFailed then skipped (heal_skip e receipt ''receipt_not_failed'' h) []
      else if \<not> sh_autoApply h then skipped (heal_skip e receipt ''auto_apply_disabled'' h) []
      else if sh_testCommand h = [] then skipped (heal_skip e receipt ''missing_test_command'' h) []
      else
        let calls = (case sh_branchName h of Some _ \<Rightarrow> [] | None \<Rightarrow> [ShowBranch]);
            shown = (case sh_branchName h of Some b \<Rightarrow> Inr b
                     | None \<Rightarrow> (case hx_exec e [ShowBranch] of Inl err \<Rightarrow> Inl err | Inr out \<Rightarrow> Inr (trim out)))
        in case shown of
             Inl err \<Rightarrow> (Inl err, h, calls)
           | Inr branch \<Rightarrow>
               if \<not> isBranchAllowed h branch
               then skipped (heal_skip e receipt (''unsafe_branch:'' @ (if branch = [] then ''detached'' else branch)) h) calls
               else (case extractRepairPatch receipt of
                   None \<Rightarrow> skipped (heal_skip e receipt ''no_repair_patch_available'' h) calls
                 | Some patch \<Rightarrow>
                     (case validateRepairPatch patch of
                        Some reason \<Rightarrow> skipped (heal_skip e receipt reason h) calls
                      | None \<Rightarrow>
                          (case hx_exec e (calls @ [ShowStatus]) of
                             Inl err \<Rightarrow> (Inl err, h, calls @ [ShowStatus])
                           | Inr out \<Rightarrow>
                               if trim out \<noteq> [] then skipped (heal_skip e receipt ''dirty_worktree'' h) (calls @ [ShowStatus])
                               else (case heal_loop e receipt patch 1 (sh_maxAttempts h) h (calls @ [ShowStatus]) of
                                   (r, h', calls') \<Rightarrow> (Inr r, h', calls'))))))"


section \<open>What a repair leaves\<close>

definition succeeds :: "exec \<Rightarrow> HealCall list \<Rightarrow> bool" where
  "succeeds exec calls \<longleftrightarrow> (\<exists>out. exec calls = Inr out)"

text \<open>The patches on the tree: those applied less those taken back.\<close>

definition tree_effect :: "exec \<Rightarrow> HealCall list \<Rightarrow> HealCall \<Rightarrow> int" where
  "tree_effect exec before c =
     (case c of
        ApplyPatch _ \<Rightarrow> if succeeds exec (before @ [c]) then 1 else 0
      | ReversePatch _ \<Rightarrow> if succeeds exec (before @ [c]) then - 1 else 0
      | _ \<Rightarrow> 0)"

fun on_tree_from :: "exec \<Rightarrow> HealCall list \<Rightarrow> HealCall list \<Rightarrow> int" where
  "on_tree_from exec before [] = 0"
| "on_tree_from exec before (c # cs) = tree_effect exec before c + on_tree_from exec (before @ [c]) cs"

definition on_tree :: "exec \<Rightarrow> HealCall list \<Rightarrow> int" where
  "on_tree exec calls = on_tree_from exec [] calls"

lemma on_tree_snoc: "on_tree exec (calls @ [c]) = on_tree exec calls + tree_effect exec calls c"
proof -
  have "on_tree_from exec before (cs @ [c]) = on_tree_from exec before cs + tree_effect exec (before @ cs) c" for before cs
    by (induction cs arbitrary: before) simp_all
  then show ?thesis by (simp add: on_tree_def)
qed

fun is_apply :: "HealCall \<Rightarrow> bool" where
  "is_apply (ApplyPatch p) = True"
| "is_apply _ = False"

definition applications :: "HealCall list \<Rightarrow> nat" where
  "applications calls = length (filter is_apply calls)"

lemma run_quiet:
  "run_calls exec cs before = (r, calls) \<Longrightarrow> \<forall>c \<in> set cs. \<not> is_apply c \<and> (\<forall>p. c \<noteq> ReversePatch p) \<Longrightarrow>
   on_tree exec calls = on_tree exec before \<and> applications calls = applications before
   \<and> set calls \<subseteq> set before \<union> set cs"
proof (induction cs arbitrary: before)
  case (Cons c cs)
  have q: "tree_effect exec before c = 0" using Cons.prems(2) by (cases c) (simp_all add: tree_effect_def)
  show ?case
    using Cons.prems Cons.IH[of "before @ [c]"] q
    by (auto simp: on_tree_snoc applications_def split: sum.splits)
qed simp

text \<open>How a run of the healer ends.\<close>

definition tidy :: "exec \<Rightarrow> HealStatus \<Rightarrow> HealCall list \<Rightarrow> bool" where
  "tidy exec st calls \<longleftrightarrow>
     (if st = Applied then on_tree exec calls = 1
      else on_tree exec calls = 0
        \<or> (on_tree exec calls = 1 \<and> calls \<noteq> [] \<and> (\<exists>p. last calls = ReversePatch p) \<and> \<not> succeeds exec calls))"

lemma loop_tidy:
  "on_tree (hx_exec e) calls = 0 \<Longrightarrow> heal_loop e receipt patch attempt left h calls = (r, h', calls') \<Longrightarrow>
   tidy (hx_exec e) (hr_status r) calls' \<and> applications calls' \<le> applications calls + left
   \<and> set calls' \<subseteq> set calls \<union> {CheckPatch patch, ApplyPatch patch, ReversePatch patch, RunTests (sh_testCommand h)} \<union> set (commit_calls receipt)"
proof (induction left arbitrary: attempt h calls)
  case 0
  then show ?case by (auto simp: tidy_def)
next
  case (Suc left)
  let ?x = "hx_exec e"
  obtain r1 calls1 where c1: "run_calls ?x [CheckPatch patch, ApplyPatch patch] calls = (r1, calls1)" by force
  have e1: "applications calls1 \<le> applications calls + 1" "set calls1 \<subseteq> set calls \<union> {CheckPatch patch, ApplyPatch patch}"
    using c1 by (auto simp: applications_def split: sum.splits)
  have t1: "on_tree ?x calls1 = (if r1 = None then 1 else 0)"
    using c1 Suc.prems(1) by (auto simp: on_tree_snoc tree_effect_def succeeds_def on_tree_snoc[of _ "calls @ [_]", simplified] split: sum.splits)
  show ?case
  proof (cases r1)
    case (Some err)
    then show ?thesis using Suc.prems(2) c1 t1 e1 by (auto simp: tidy_def)
  next
    case None
    let ?h1 = "emitEvent e PatchApplied receipt attempt None h"
    have h1: "sh_testCommand ?h1 = sh_testCommand h" by (simp add: emitEvent_def)
    obtain r2 calls2 where c2: "run_calls ?x (after_apply ?h1 receipt) calls1 = (r2, calls2)" by force
    have q: "\<forall>c \<in> set (after_apply ?h1 receipt). \<not> is_apply c \<and> (\<forall>p. c \<noteq> ReversePatch p)"
      by (auto simp: after_apply_def commit_calls_def)
    have e2: "on_tree ?x calls2 = 1" "applications calls2 \<le> applications calls + 1"
        "set calls2 \<subseteq> set calls \<union> {CheckPatch patch, ApplyPatch patch, RunTests (sh_testCommand h)} \<union> set (commit_calls receipt)"
      using run_quiet[OF c2 q] t1 e1 None h1 by (auto simp: after_apply_def split: if_splits)
    show ?thesis
    proof (cases r2)
      case r2: None
      then show ?thesis using Suc.prems(2) c1 None c2 e2 by (auto simp: tidy_def Let_def)
    next
      case r2: (Some err)
      obtain r3 calls3 where c3: "run_calls ?x [ReversePatch patch] calls2 = (r3, calls3)" by force
      have e3: "calls3 = calls2 @ [ReversePatch patch]" "succeeds ?x calls3 = (r3 = None)"
        using c3 by (auto simp: succeeds_def split: sum.splits)
      have t3: "on_tree ?x calls3 = (if r3 = None then 0 else 1)"
        using e2(1) e3 by (auto simp: on_tree_snoc tree_effect_def)
      have a3: "applications calls3 \<le> applications calls + 1" using e2(2) e3(1) by (simp add: applications_def)
      show ?thesis
      proof (cases r3)
        case (Some x)
        then show ?thesis using Suc.prems(2) c1 None c2 r2 c3 t3 e3 a3 e2(3) by (auto simp: tidy_def Let_def)
      next
        case r3: None
        let ?h2 = "emitEvent e PatchReverted receipt attempt (Some (redactReason err)) ?h1"
        have h2: "sh_testCommand ?h2 = sh_testCommand h" by (simp add: emitEvent_def)
        show ?thesis
        proof (cases "attempt = sh_maxAttempts ?h2")
          case True
          then show ?thesis using Suc.prems(2) c1 None c2 r2 c3 r3 t3 e3 a3 e2(3) by (auto simp: tidy_def Let_def)
        next
          case False
          have "heal_loop e receipt patch (Suc attempt) left ?h2 calls3 = (r, h', calls')"
            using Suc.prems(2) c1 None c2 r2 c3 r3 False by (simp add: Let_def)
          from Suc.IH[OF _ this] t3 r3 a3 e3(1) e2(3) h2 show ?thesis by fastforce
        qed
      qed
    qed
  qed
qed


lemma run_prefix: "run_calls exec cs before = (r, calls) \<Longrightarrow> \<exists>more. calls = before @ more"
  by (induction cs arbitrary: before) (fastforce split: sum.splits)+

lemma loop_prefix: "heal_loop e receipt patch attempt left h calls = (r, h', calls') \<Longrightarrow> \<exists>more. calls' = calls @ more"
proof (induction left arbitrary: attempt h calls)
  case (Suc left)
  show ?case
  proof (cases "run_calls (hx_exec e) [CheckPatch patch, ApplyPatch patch] calls")
    case c1: (Pair r1 calls1)
    then obtain m1 where m1: "calls1 = calls @ m1" using run_prefix by blast
    let ?h1 = "emitEvent e PatchApplied receipt attempt None h"
    obtain r2 calls2 where c2: "run_calls (hx_exec e) (after_apply ?h1 receipt) calls1 = (r2, calls2)" by force
    then obtain m2 where m2: "calls2 = calls1 @ m2" using run_prefix by blast
    obtain r3 calls3 where c3: "run_calls (hx_exec e) [ReversePatch patch] calls2 = (r3, calls3)" by force
    then obtain m3 where m3: "calls3 = calls2 @ m3" using run_prefix by blast
    have "\<exists>more. calls' = calls3 @ more"
      if "heal_loop e receipt patch (Suc attempt) left (emitEvent e PatchReverted receipt attempt (Some x) ?h1) calls3 = (r, h', calls')" for x
      using Suc.IH[OF that] .
    then show ?thesis
      using Suc.prems c1 c2 c3 m1 m2 m3 by (fastforce simp: Let_def simp del: run_calls.simps split: option.splits if_splits)
  qed
qed simp

lemma skipped_calls: "skipped x calls = (res, h', calls') \<Longrightarrow> calls' = calls \<and> (\<exists>r. res = Inr r \<and> r = fst x)"
  by (auto simp: skipped_def)

lemma skip_status: "hr_status (fst (heal_skip e receipt reason h)) = Skipped"
  by (simp add: heal_skip_def)

text \<open>Either nothing was applied, or every guard held.\<close>

lemma repair_cases:
  assumes "repairFromReceipt e receipt h = (res, h', calls)"
  obtains (refused) "\<forall>c \<in> set calls. c = ShowBranch \<or> c = ShowStatus" "\<forall>r. res = Inr r \<longrightarrow> hr_status r = Skipped"
  | (tried) branch patch before out r where
      "vr_status receipt = ReceiptFailed" "sh_autoApply h" "extractRepairPatch receipt = Some patch"
      "validateRepairPatch patch = None" "isBranchAllowed h branch"
      "sh_branchName h = Some branch \<or> (sh_branchName h = None \<and> (\<exists>o'. hx_exec e [ShowBranch] = Inr o' \<and> branch = trim o'))"
      "before = (case sh_branchName h of Some _ \<Rightarrow> [] | None \<Rightarrow> [ShowBranch])"
      "hx_exec e (before @ [ShowStatus]) = Inr out" "trim out = []" "res = Inr r"
      "heal_loop e receipt patch 1 (sh_maxAttempts h) h (before @ [ShowStatus]) = (r, h', calls)"
proof -
  let ?before = "case sh_branchName h of Some _ \<Rightarrow> [] | None \<Rightarrow> [ShowBranch]"
  have b: "\<forall>c \<in> set ?before. c = ShowBranch \<or> c = ShowStatus" by (auto split: option.split)
  define shown where "shown = (case sh_branchName h of Some b \<Rightarrow> Inr b
                     | None \<Rightarrow> (case hx_exec e [ShowBranch] of Inl err \<Rightarrow> Inl err | Inr out \<Rightarrow> Inr (trim out)))"
  note def = assms[unfolded repairFromReceipt_def Let_def shown_def[symmetric]]
  show thesis
  proof (cases "vr_status receipt = ReceiptFailed \<and> sh_autoApply h \<and> sh_testCommand h \<noteq> []")
    case False
    then show thesis using def by (intro refused) (auto simp: skipped_def skip_status split: if_splits)
  next
    case g: True
    show thesis
    proof (cases shown)
      case (Inl err)
      then show thesis using def g b by (intro refused) auto
    next
      case (Inr branch)
      have br: "sh_branchName h = Some branch \<or> (sh_branchName h = None \<and> (\<exists>o'. hx_exec e [ShowBranch] = Inr o' \<and> branch = trim o'))"
        using Inr by (auto simp: shown_def split: option.splits sum.splits)
      show thesis
      proof (cases "isBranchAllowed h branch \<and> (\<exists>patch. extractRepairPatch receipt = Some patch \<and> validateRepairPatch patch = None)")
        case False
        then show thesis using def g b Inr by (intro refused) (auto simp: skipped_def skip_status split: if_splits option.splits)
      next
        case ok: True
        then obtain patch where p: "extractRepairPatch receipt = Some patch" "validateRepairPatch patch = None" by blast
        show thesis
        proof (cases "\<exists>out. hx_exec e (?before @ [ShowStatus]) = Inr out \<and> trim out = []")
          case False
          then show thesis using def g b Inr ok p
            by (intro refused) (auto simp: skipped_def skip_status split: if_splits option.splits sum.splits)
        next
          case True
          then obtain out where out: "hx_exec e (?before @ [ShowStatus]) = Inr out" "trim out = []" by blast
          obtain r h2 calls2 where l: "heal_loop e receipt patch 1 (sh_maxAttempts h) h (?before @ [ShowStatus]) = (r, h2, calls2)"
            by (metis prod_cases3)
          show thesis
            by (rule tried[OF _ _ p _ br refl out]) (use def g ok Inr p out l in auto)
        qed
      qed
    qed
  qed
qed

lemma guard_paths_sound:
  assumes "validateRepairPatch patch = None"
  shows "extractPatchPaths patch \<noteq> [] \<and> (\<forall>f \<in> set (extractPatchPaths patch). \<not> isProtectedPath (normalize_patch_path f))"
proof -
  have plain: "\<not> isProtectedPath []" "\<not> isProtectedPath ''/dev/null''" by code_simp+
  have "guard_paths ps = None \<Longrightarrow> \<forall>f \<in> set ps. \<not> isProtectedPath (normalize_patch_path f)" for ps
    by (induction ps) (auto simp: Let_def plain split: if_splits)
  with assms show ?thesis by (auto simp: validateRepairPatch_def split: if_splits)
qed

text \<open>C36: A patch is applied only for a failed receipt that carries it, with automatic repair switched on, on
  a branch with an allowed prefix, when the guard of its paths passed, and after git reported a
  clean work tree.\<close>

theorem repair_guarded:
  assumes "repairFromReceipt e receipt h = (res, h', calls)" and "ApplyPatch p \<in> set calls"
  shows "vr_status receipt = ReceiptFailed \<and> sh_autoApply h \<and> extractRepairPatch receipt = Some p
    \<and> extractPatchPaths p \<noteq> [] \<and> (\<forall>f \<in> set (extractPatchPaths p). \<not> isProtectedPath (normalize_patch_path f))
    \<and> (\<exists>branch. isBranchAllowed h branch
        \<and> (sh_branchName h = Some branch \<or> (\<exists>out. hx_exec e [ShowBranch] = Inr out \<and> branch = trim out)))
    \<and> (\<exists>before after out. calls = before @ ShowStatus # after \<and> ApplyPatch p \<notin> set before
        \<and> hx_exec e (before @ [ShowStatus]) = Inr out \<and> trim out = [])"
  using assms(1)
proof (cases rule: repair_cases)
  case refused
  with assms(2) show ?thesis by auto
next
  case (tried branch patch before out r)
  have "on_tree (hx_exec e) (before @ [ShowStatus]) = 0"
    unfolding tried(7) by (auto simp: on_tree_def tree_effect_def split: option.split)
  from loop_tidy[OF this tried(11)] have "p = patch"
    using assms(2) unfolding tried(7) by (auto simp: commit_calls_def split: option.splits)
  moreover obtain more where "calls = (before @ [ShowStatus]) @ more" using loop_prefix[OF tried(11)] by blast
  moreover have "ApplyPatch p \<notin> set before" unfolding tried(7) by (auto split: option.split)
  ultimately show ?thesis using tried(1-6,8,9) guard_paths_sound[OF tried(4)] by auto
qed

text \<open>C37: A repair ends after at most \<open>maxAttempts\<close> applications, and the patch is on the tree exactly when
  the result says so: in every other case it was never applied or was taken back, unless git
  failed to take it back, which is then the last thing that was tried.\<close>

theorem repair_leaves_tree:
  assumes "repairFromReceipt e receipt h = (res, h', calls)"
  shows "applications calls \<le> sh_maxAttempts h
    \<and> (on_tree (hx_exec e) calls = (if \<exists>r. res = Inr r \<and> hr_status r = Applied then 1 else 0)
       \<or> (on_tree (hx_exec e) calls = 1 \<and> calls \<noteq> [] \<and> (\<exists>p. last calls = ReversePatch p) \<and> \<not> succeeds (hx_exec e) calls))"
  using assms
proof (cases rule: repair_cases)
  case refused
  have "on_tree_from x before calls = 0 \<and> applications calls = 0" for x before
    using refused(1) by (induction calls arbitrary: before) (auto simp: tree_effect_def applications_def)
  then show ?thesis using refused(2) by (auto simp: on_tree_def)
next
  case (tried branch patch before out r)
  have "on_tree (hx_exec e) (before @ [ShowStatus]) = 0" "applications (before @ [ShowStatus]) = 0"
    unfolding tried(7) by (auto simp: on_tree_def tree_effect_def applications_def split: option.split)
  with loop_tidy[OF this(1) tried(11)] tried(10) show ?thesis by (auto simp: tidy_def split: if_splits)
qed

section \<open>What the guard of the paths lets through\<close>

text \<open>Git strips the first component of a path whatever it is; the guard strips only \<open>a/\<close> and \<open>b/\<close>.\<close>

lemma other_prefix_unguarded:
  "validateRepairPatch (''--- x/scripts/run.sh'' @ NL @ ''+++ x/scripts/run.sh'' @ NL) = None"
  "validateRepairPatch (''--- a/scripts/run.sh'' @ NL @ ''+++ b/scripts/run.sh'' @ NL) = Some ''protected_path:scripts/run.sh''"
  by code_simp+

text \<open>A quoted path is compared with its quote.\<close>

lemma quoted_path_unguarded:
  "validateRepairPatch (''--- '' @ CHR 0x22 # ''a/scripts/run.sh'' @ CHR 0x22 # NL @ ''+++ '' @ CHR 0x22 # ''b/scripts/run.sh'' @ CHR 0x22 # NL) = None"
  by code_simp

section \<open>An example\<close>

definition example_patch :: string where
  "example_patch = ''--- a/x'' @ NL @ ''+++ b/x'' @ NL"

definition example_failed :: VerificationReceipt where
  "example_failed = \<lparr>vr_id = ''i'', vr_cycleId = ''c'', vr_timestamp = 0, vr_architectId = ''a'', vr_operatorId = ''o'', vr_verifierId = ''v'',
     vr_taskHash = ''t'', vr_status = ReceiptFailed, vr_evidence = stringify (JObj [(''patch'', JStr example_patch)]),
     vr_routing = \<lparr>ro_architectAgent = ''a'', ro_rationale = [], ro_vramFreeMb = 0\<rparr>, vr_phaseTrail = [], vr_tokens = None\<rparr>"

definition example_healer :: SelfHealer where
  "example_healer = (new_SelfHealer \<lparr>so_maxAttempts = None, so_testCommand = None, so_branchName = Some ''stage4/x'', so_autoApply = Some True,
     so_commitOnGreen = None, so_allowedBranchPrefixes = None\<rparr>)"

text \<open>Every command works but the tests.\<close>

definition example_heal_env :: HealEnv where
  "example_heal_env = \<lparr>hx_exec = (\<lambda>cs. case last cs of RunTests _ \<Rightarrow> Inl ''red'' | _ \<Rightarrow> Inr []), hx_clock = int\<rparr>"

lemma example_extracted: "extractRepairPatch example_failed = Some example_patch" "validateRepairPatch example_patch = None"
proof -
  have w: "json_wf (JObj [(''patch'', JStr example_patch)])" by (simp add: own_order_def is_index_def is_digit_def)
  have p: "str_includes (NL @ ''+++ '') example_patch" "starts_with ''--- '' example_patch" "length example_patch \<le> 512000" "example_patch \<noteq> []"
    by (simp_all add: example_patch_def NL_def starts_with_def)
  show "extractRepairPatch example_failed = Some example_patch"
    using p by (simp add: extractRepairPatch_def example_failed_def JSON_parse_stringify[OF w] del: stringify.simps)
  show "validateRepairPatch example_patch = None" unfolding example_patch_def by code_simp
qed

lemma example_repair:
  "\<exists>r h'. repairFromReceipt example_heal_env example_failed example_healer =
     (Inr r, h', [ShowStatus, CheckPatch example_patch, ApplyPatch example_patch, RunTests [''npm'', ''run'', ''build''], ReversePatch example_patch,
        CheckPatch example_patch, ApplyPatch example_patch, RunTests [''npm'', ''run'', ''build''], ReversePatch example_patch])
     \<and> hr_status r = Reverted"
proof -
  have f: "vr_status example_failed = ReceiptFailed" by (simp add: example_failed_def)
  have h: "sh_autoApply example_healer" "sh_testCommand example_healer = [''npm'', ''run'', ''build'']" "sh_branchName example_healer = Some ''stage4/x''"
    "isBranchAllowed example_healer ''stage4/x''" "sh_maxAttempts example_healer = 2" "sh_commitOnGreen example_healer"
    by (simp_all add: example_healer_def new_SelfHealer_def isBranchAllowed_def starts_with_def)
  have x: "hx_exec example_heal_env cs = (case last cs of RunTests _ \<Rightarrow> Inl ''red'' | _ \<Rightarrow> Inr [])" for cs
    by (simp add: example_heal_env_def)
  have t: "trim [] = []" by (simp add: trim_def)
  show ?thesis
    by (simp add: repairFromReceipt_def f h example_extracted x t numeral_2_eq_2 emitEvent_def after_apply_def Let_def)
qed

theorem repair_guarded_witness:
  "extractPatchPaths example_patch \<noteq> [] \<and> extractRepairPatch example_failed = Some example_patch
   \<and> (\<exists>r h' calls. repairFromReceipt example_heal_env example_failed example_healer = (r, h', calls) \<and> ApplyPatch example_patch \<in> set calls)"
proof -
  obtain r h' calls where r: "repairFromReceipt example_heal_env example_failed example_healer = (Inr r, h', calls)"
      "ApplyPatch example_patch \<in> set calls"
    using example_repair by fastforce
  show ?thesis using repair_guarded[OF r] r by auto
qed

theorem repair_leaves_tree_witness:
  "\<exists>r h' calls. repairFromReceipt example_heal_env example_failed example_healer = (r, h', calls)
     \<and> applications calls = 2 \<and> on_tree (hx_exec example_heal_env) calls = 0"
proof -
  obtain r h' calls where r: "repairFromReceipt example_heal_env example_failed example_healer = (Inr r, h', calls)"
      "hr_status r = Reverted" "applications calls = 2" "succeeds (hx_exec example_heal_env) calls"
    using example_repair by (fastforce simp: applications_def succeeds_def example_heal_env_def)
  show ?thesis using repair_leaves_tree[OF r(1)] r by auto
qed

end
