(* ===== verification/Ledger.thy ===== *)
theory Ledger
  imports Json
begin

text \<open>
  \<open>services/CycleLog.ts\<close>: the append-only ledger of the events of each cycle, its table
  \<open>cycle_events\<close> with the key of cycle and sequence number, and the Merkle root a cycle is sealed
  with. SHA-256 is an argument.
\<close>

section \<open>The ledger\<close>

datatype CycleEventKind = CycleStarted | PhaseTransition | TaskClaimed | TaskRunning | DispatchSent | DispatchReply
  | RetryScheduled | RetryExhausted | VerifierScored | StopDecision | ReceiptIssued | CycleSealed | CycleFailed

primrec kind_text :: "CycleEventKind \<Rightarrow> string" where
  "kind_text CycleStarted = ''cycle_started''"
| "kind_text PhaseTransition = ''phase_transition''"
| "kind_text TaskClaimed = ''task_claimed''"
| "kind_text TaskRunning = ''task_running''"
| "kind_text DispatchSent = ''dispatch_sent''"
| "kind_text DispatchReply = ''dispatch_reply''"
| "kind_text RetryScheduled = ''retry_scheduled''"
| "kind_text RetryExhausted = ''retry_exhausted''"
| "kind_text VerifierScored = ''verifier_scored''"
| "kind_text StopDecision = ''stop_decision''"
| "kind_text ReceiptIssued = ''receipt_issued''"
| "kind_text CycleSealed = ''cycle_sealed''"
| "kind_text CycleFailed = ''cycle_failed''"

record CycleRow =
  cy_cycle :: string
  cy_seq :: nat
  cy_kind :: CycleEventKind
  cy_timestamp :: int
  cy_actor :: string
  cy_payload :: string

record CycleEvent =
  cv_cycleId :: string
  cv_seq :: nat
  cv_kind :: CycleEventKind
  cv_timestamp :: int
  cv_actor :: string
  cv_payload :: json

record CycleReceipt =
  cp_cycleId :: string
  cp_merkleRoot :: string
  cp_eventCount :: nat
  cp_sealedAt :: int

record OpenCycleSummary =
  oc_cycleId :: string
  oc_lastPhase :: CycleEventKind
  oc_lastActor :: string
  oc_eventCount :: nat
  oc_startedAt :: int
  oc_lastEventAt :: int

datatype LedgerEvent = Appended CycleEvent | Sealed CycleReceipt

record CycleLog =
  cl_rows :: "CycleRow list"
  cl_seq :: "(string, nat) omap"
  cl_events :: "LedgerEvent list"

definition of_cycle :: "string \<Rightarrow> CycleRow list \<Rightarrow> CycleRow list" where
  "of_cycle c rows = filter (\<lambda>r. cy_cycle r = c) rows"

definition max_seq :: "CycleRow list \<Rightarrow> nat" where
  "max_seq rows = fold max (map cy_seq rows) 0"

text \<open>The constructor, on the rows the table has. \<open>GROUP BY\<close> does not say in which order.\<close>

definition new_CycleLog :: "CycleRow list \<Rightarrow> CycleLog" where
  "new_CycleLog rows =
     \<lparr>cl_rows = rows,
      cl_seq = foldl (\<lambda>m c. om_set c (max_seq (of_cycle c rows) + 1) m) [] (set_of (map cy_cycle rows)),
      cl_events = []\<rparr>"

datatype ledger_error = KeyTaken | NoEvents string

definition ledger_append ::
    "int \<Rightarrow> string \<Rightarrow> CycleEventKind \<Rightarrow> string \<Rightarrow> json \<Rightarrow> CycleLog \<Rightarrow> (ledger_error + CycleEvent) \<times> CycleLog" where
  "ledger_append now cycleId kind actor payload s =
     (let seq = case_option 0 id (om_get (cl_seq s) cycleId);
          event = \<lparr>cv_cycleId = cycleId, cv_seq = seq, cv_kind = kind, cv_timestamp = now, cv_actor = actor, cv_payload = payload\<rparr>
      in if list_ex (\<lambda>r. cy_cycle r = cycleId \<and> cy_seq r = seq) (cl_rows s) then (Inl KeyTaken, s)
         else (Inr event,
           \<lparr>cl_rows = cl_rows s @ [\<lparr>cy_cycle = cycleId, cy_seq = seq, cy_kind = kind, cy_timestamp = now, cy_actor = actor,
              cy_payload = stringify payload\<rparr>],
            cl_seq = om_set cycleId (seq + 1) (cl_seq s), cl_events = cl_events s @ [Appended event]\<rparr>))"

definition safeParse :: "string \<Rightarrow> json" where
  "safeParse raw = (case JSON_parse raw of Some v \<Rightarrow> v | None \<Rightarrow> JObj [(''_raw'', JStr raw)])"

definition event_of_row :: "CycleRow \<Rightarrow> CycleEvent" where
  "event_of_row r = \<lparr>cv_cycleId = cy_cycle r, cv_seq = cy_seq r, cv_kind = cy_kind r, cv_timestamp = cy_timestamp r,
     cv_actor = cy_actor r, cv_payload = safeParse (cy_payload r)\<rparr>"

definition cycle_trail :: "string \<Rightarrow> CycleLog \<Rightarrow> CycleEvent list" where
  "cycle_trail cycleId s = map event_of_row (sort_key cy_seq (of_cycle cycleId (cl_rows s)))"

definition is_terminal :: "CycleEventKind \<Rightarrow> bool" where
  "is_terminal k \<longleftrightarrow> k = CycleSealed \<or> k = CycleFailed"

definition open_summary :: "string \<Rightarrow> CycleRow list \<Rightarrow> OpenCycleSummary list" where
  "open_summary c rows =
     (let mine = of_cycle c rows in
      if list_ex (\<lambda>r. is_terminal (cy_kind r)) mine then []
      else map (\<lambda>last_e. \<lparr>oc_cycleId = c, oc_lastPhase = cy_kind last_e, oc_lastActor = cy_actor last_e,
          oc_eventCount = length mine, oc_startedAt = fold min (map cy_timestamp mine) (cy_timestamp last_e),
          oc_lastEventAt = fold max (map cy_timestamp mine) (cy_timestamp last_e)\<rparr>)
        (filter (\<lambda>r. cy_seq r = max_seq mine) mine))"

definition replayOpenCycles :: "CycleLog \<Rightarrow> OpenCycleSummary list" where
  "replayOpenCycles s = concat (map (\<lambda>c. open_summary c (cl_rows s)) (set_of (map cy_cycle (cl_rows s))))"

definition totalEvents :: "CycleLog \<Rightarrow> nat" where
  "totalEvents s = length (cl_rows s)"

definition sealedCycleCount :: "CycleLog \<Rightarrow> nat" where
  "sealedCycleCount s = length (set_of (map cy_cycle (filter (\<lambda>r. cy_kind r = CycleSealed) (cl_rows s))))"

section \<open>Seals\<close>

definition leaf_text :: "CycleEvent \<Rightarrow> string" where
  "leaf_text e = cv_cycleId e @ '':'' @ show_nat (cv_seq e) @ '':'' @ kind_text (cv_kind e) @ '':'' @ show_int (cv_timestamp e)
     @ '':'' @ cv_actor e @ '':'' @ stringify (cv_payload e)"

fun merkle_level :: "(string \<Rightarrow> string) \<Rightarrow> string list \<Rightarrow> string list" where
  "merkle_level H [] = []"
| "merkle_level H [left] = [H (left @ left)]"
| "merkle_level H (left # right # rest) = H (left @ right) # merkle_level H rest"

lemma merkle_level_length [simp]: "length (merkle_level H xs) = (length xs + 1) div 2"
  by (induction H xs rule: merkle_level.induct) auto

function merkle_top :: "(string \<Rightarrow> string) \<Rightarrow> string list \<Rightarrow> string" where
  "merkle_top H level = (if length level \<le> 1 then hd level else merkle_top H (merkle_level H level))"
  by pat_completeness auto
termination by (relation "measure (\<lambda>(_, level). length level)") auto

declare merkle_top.simps [simp del]

definition to_hex :: "string \<Rightarrow> string" where
  "to_hex s = concat (map (\<lambda>c. [hex_digit (of_char c div 16), hex_digit (of_char c mod 16)]) s)"

definition computeMerkleRoot :: "(string \<Rightarrow> string) \<Rightarrow> string list \<Rightarrow> string" where
  "computeMerkleRoot H leaves = to_hex (if leaves = [] then H ''empty'' else merkle_top H leaves)"

definition sealCycle :: "(string \<Rightarrow> string) \<Rightarrow> int \<Rightarrow> int \<Rightarrow> string \<Rightarrow> CycleLog \<Rightarrow> (ledger_error + CycleReceipt) \<times> CycleLog" where
  "sealCycle H now later cycleId s =
     (let events = cycle_trail cycleId s in
      if events = [] then (Inl (NoEvents cycleId), s)
      else
        let receipt = \<lparr>cp_cycleId = cycleId, cp_merkleRoot = computeMerkleRoot H (map (\<lambda>e. H (leaf_text e)) events),
              cp_eventCount = length events, cp_sealedAt = now\<rparr>
        in case ledger_append later cycleId CycleSealed ''orchestrator''
              (JObj [(''merkleRoot'', JStr (cp_merkleRoot receipt)), (''eventCount'', JNum (int (cp_eventCount receipt)))]) s of
             (Inl err, s') \<Rightarrow> (Inl err, s')
           | (Inr _, s') \<Rightarrow> (Inr receipt, s'\<lparr>cl_events := cl_events s' @ [Sealed receipt]\<rparr>))"

text \<open>What a signature is over.\<close>

definition receipt_text :: "CycleReceipt \<Rightarrow> string" where
  "receipt_text r = cp_cycleId r @ '':'' @ cp_merkleRoot r @ '':'' @ show_nat (cp_eventCount r) @ '':'' @ show_int (cp_sealedAt r)"

definition signReceipt :: "(string \<Rightarrow> string) \<Rightarrow> CycleReceipt \<Rightarrow> string" where
  "signReceipt sign r = to_hex (sign (receipt_text r))"

datatype LedgerOp = LAppend int string CycleEventKind string json | LSeal int int string | LReopen

fun ledger_step :: "(string \<Rightarrow> string) \<Rightarrow> CycleLog \<Rightarrow> LedgerOp \<Rightarrow> CycleLog" where
  "ledger_step H s (LAppend now c kind actor payload) = snd (ledger_append now c kind actor payload s)"
| "ledger_step H s (LSeal now later c) = snd (sealCycle H now later c s)"
| "ledger_step H s LReopen = new_CycleLog (cl_rows s)"

definition ledger_run :: "(string \<Rightarrow> string) \<Rightarrow> CycleRow list \<Rightarrow> LedgerOp list \<Rightarrow> CycleLog" where
  "ledger_run H rows = foldl (ledger_step H) (new_CycleLog rows)"


section \<open>The ledger has no gaps\<close>

definition gapless :: "CycleRow list \<Rightarrow> bool" where
  "gapless rows \<longleftrightarrow> (\<forall>c. map cy_seq (of_cycle c rows) = [0..<length (of_cycle c rows)])"

definition ledger_inv :: "CycleLog \<Rightarrow> bool" where
  "ledger_inv s \<longleftrightarrow> gapless (cl_rows s) \<and> (\<forall>c. om_get (cl_seq s) c =
     (if of_cycle c (cl_rows s) = [] then None else Some (length (of_cycle c (cl_rows s)))))"

lemma of_cycle_append: "of_cycle c (rows @ [r]) = of_cycle c rows @ (if cy_cycle r = c then [r] else [])"
  by (simp add: of_cycle_def)

lemma gapless_row: "gapless rows \<Longrightarrow> r \<in> set rows \<Longrightarrow> cy_seq r < length (of_cycle (cy_cycle r) rows)"
proof -
  assume g: "gapless rows" and r: "r \<in> set rows"
  have "cy_seq r \<in> set (map cy_seq (of_cycle (cy_cycle r) rows))" using r by (auto simp: of_cycle_def)
  then show ?thesis using g unfolding gapless_def by (metis atLeastLessThan_iff set_upt)
qed

lemma next_seq: "ledger_inv s \<Longrightarrow> case_option 0 id (om_get (cl_seq s) c) = length (of_cycle c (cl_rows s))"
  by (simp add: ledger_inv_def)

lemma append_succeeds:
  assumes "ledger_inv s"
  shows "ledger_append now c kind actor payload s =
    (let ev = \<lparr>cv_cycleId = c, cv_seq = length (of_cycle c (cl_rows s)), cv_kind = kind, cv_timestamp = now, cv_actor = actor,
        cv_payload = payload\<rparr>
     in (Inr ev, \<lparr>cl_rows = cl_rows s @ [\<lparr>cy_cycle = c, cy_seq = length (of_cycle c (cl_rows s)), cy_kind = kind, cy_timestamp = now,
          cy_actor = actor, cy_payload = stringify payload\<rparr>],
        cl_seq = om_set c (length (of_cycle c (cl_rows s)) + 1) (cl_seq s), cl_events = cl_events s @ [Appended ev]\<rparr>))"
proof -
  have "\<not> list_ex (\<lambda>r. cy_cycle r = c \<and> cy_seq r = length (of_cycle c (cl_rows s))) (cl_rows s)"
    using assms gapless_row[of "cl_rows s"] unfolding list_ex_iff ledger_inv_def by (metis less_irrefl)
  then show ?thesis by (simp add: ledger_append_def next_seq[OF assms] Let_def)
qed

lemma append_inv: "ledger_inv s \<Longrightarrow> ledger_inv (snd (ledger_append now c kind actor payload s))"
  by (simp add: append_succeeds Let_def) (auto simp: ledger_inv_def gapless_def of_cycle_append)

lemma seal_rows:
  "snd (sealCycle H now later c s) = s
   \<or> (\<exists>m. cl_rows (snd (sealCycle H now later c s)) = cl_rows (snd (ledger_append later c CycleSealed ''orchestrator'' m s))
        \<and> cl_seq (snd (sealCycle H now later c s)) = cl_seq (snd (ledger_append later c CycleSealed ''orchestrator'' m s)))"
proof -
  define root where "root = computeMerkleRoot H (map (\<lambda>e. H (leaf_text e)) (cycle_trail c s))"
  define m where "m = JObj [(''merkleRoot'', JStr root), (''eventCount'', JNum (int (length (cycle_trail c s))))]"
  obtain res s' where "ledger_append later c CycleSealed ''orchestrator'' m s = (res, s')" by force
  then show ?thesis
    by (cases res) (auto simp: sealCycle_def Let_def root_def[symmetric] m_def[symmetric] intro!: exI[of _ m])
qed

lemma max_upt: "fold max [0..<n] m = (if n = 0 then m else max m (n - 1))" for m n :: nat
  by (induction n) auto

lemma om_set_all: "om_get (foldl (\<lambda>m c. om_set c (f c) m) m cs) k = (if k \<in> set cs then Some (f k) else om_get m k)"
  by (induction cs arbitrary: m) auto

lemma reopen_inv:
  assumes "gapless rows"
  shows "ledger_inv (new_CycleLog rows)"
proof -
  have "max_seq (of_cycle c rows) + 1 = length (of_cycle c rows)" if "of_cycle c rows \<noteq> []" for c
  proof -
    have "map cy_seq (of_cycle c rows) = [0..<length (of_cycle c rows)]" using assms unfolding gapless_def by blast
    then show ?thesis using that by (simp add: max_seq_def max_upt)
  qed
  moreover have "c \<in> cy_cycle ` set rows \<longleftrightarrow> of_cycle c rows \<noteq> []" for c by (auto simp: of_cycle_def filter_empty_conv)
  ultimately show ?thesis
    using assms by (auto simp: ledger_inv_def new_CycleLog_def om_set_all set_of_set)
qed

text \<open>Each operation keeps what is written and the numbering.\<close>

lemma ledger_step_ok:
  assumes "ledger_inv s"
  shows "ledger_inv (ledger_step H s op) \<and> (\<exists>more. cl_rows (ledger_step H s op) = cl_rows s @ more)"
proof -
  have a: "ledger_inv s' \<and> (\<exists>more. cl_rows s' = cl_rows s @ more)"
    if "cl_rows s' = cl_rows (snd (ledger_append now c k x p s))" "cl_seq s' = cl_seq (snd (ledger_append now c k x p s))"
    for s' now c k x p
    using append_inv[OF assms, of now c k x p] that by (simp add: ledger_inv_def append_succeeds[OF assms] Let_def)
  show ?thesis
  proof (cases op)
    case (LAppend now c kind actor payload)
    then show ?thesis using a by simp
  next
    case (LSeal now later c)
    then show ?thesis using seal_rows[of H now later c s] a assms by auto
  next
    case LReopen
    then show ?thesis using reopen_inv[of "cl_rows s"] assms by (simp add: ledger_inv_def new_CycleLog_def)
  qed
qed

interpretation ledger: guarded_system "ledger_step H" ledger_inv for H
  by unfold_locales (use ledger_step_ok in blast)

lemma run_keeps_rows: "ledger_inv s \<Longrightarrow> \<exists>more. cl_rows (foldl (ledger_step H) s ops) = cl_rows s @ more"
proof (induction ops arbitrary: s)
  case (Cons op ops)
  obtain m1 where m1: "ledger_inv (ledger_step H s op)" "cl_rows (ledger_step H s op) = cl_rows s @ m1"
    using ledger_step_ok[OF Cons.prems] by blast
  from Cons.IH[OF m1(1)] obtain m2 where "cl_rows (foldl (ledger_step H) (ledger_step H s op) ops) = cl_rows (ledger_step H s op) @ m2"
    by blast
  then show ?case by (simp add: m1(2))
qed simp

lemma trail_seqs: "ledger_inv s \<Longrightarrow> cycle_trail c s = map event_of_row (of_cycle c (cl_rows s))"
proof -
  assume "ledger_inv s"
  then have "map cy_seq (of_cycle c (cl_rows s)) = [0..<length (of_cycle c (cl_rows s))]" by (simp add: ledger_inv_def gapless_def)
  then have "sorted (map cy_seq (of_cycle c (cl_rows s)))" by simp
  then show ?thesis by (simp add: cycle_trail_def sort_key_id_if_sorted)
qed

text \<open>C38: On a table without gaps, whatever is appended, sealed and reopened, no row is lost or changed, the
  trail of each cycle is numbered from 0 without a gap, and the next append to it is accepted.\<close>

theorem ledger_gapless:
  assumes "gapless rows"
  shows "(\<exists>more. cl_rows (ledger_run H rows ops) = rows @ more)
    \<and> map cv_seq (cycle_trail c (ledger_run H rows ops)) = [0..<length (cycle_trail c (ledger_run H rows ops))]
    \<and> (\<exists>ev. fst (ledger_append now c kind actor payload (ledger_run H rows ops)) = Inr ev
         \<and> cv_seq ev = length (cycle_trail c (ledger_run H rows ops)))"
proof -
  let ?s = "ledger_run H rows ops"
  have i: "ledger_inv (new_CycleLog rows)" by (rule reopen_inv[OF assms])
  have inv: "ledger_inv ?s" unfolding ledger_run_def by (rule ledger.run_inv[OF i])
  have "map cv_seq (cycle_trail c ?s) = map cy_seq (of_cycle c (cl_rows ?s))"
    by (simp add: trail_seqs[OF inv] event_of_row_def)
  moreover have "map cy_seq (of_cycle c (cl_rows ?s)) = [0..<length (of_cycle c (cl_rows ?s))]"
    using inv by (simp add: ledger_inv_def gapless_def)
  ultimately show ?thesis
    using run_keeps_rows[OF i, of H ops]
    by (simp add: append_succeeds[OF inv] Let_def trail_seqs[OF inv]) (simp add: ledger_run_def new_CycleLog_def)
qed

text \<open>C39: What was appended is read back, its payload included, whatever follows.\<close>

theorem appended_event_kept:
  assumes "gapless rows" and "json_wf payload"
    and "ledger_append now c kind actor payload (ledger_run H rows ops) = (Inr ev, s)"
  shows "ev \<in> set (cycle_trail c (foldl (ledger_step H) s later))
    \<and> cv_kind ev = kind \<and> cv_actor ev = actor \<and> cv_payload ev = payload \<and> cv_timestamp ev = now"
proof -
  have inv0: "ledger_inv (ledger_run H rows ops)"
    unfolding ledger_run_def by (rule ledger.run_inv[OF reopen_inv[OF assms(1)]])
  have inv: "ledger_inv s" using append_inv[OF inv0, of now c kind actor payload] assms(3) by simp
  obtain more where "cl_rows (foldl (ledger_step H) s later) = cl_rows s @ more" using run_keeps_rows[OF inv] by blast
  moreover have ev: "ev = \<lparr>cv_cycleId = c, cv_seq = length (of_cycle c (cl_rows (ledger_run H rows ops))), cv_kind = kind,
      cv_timestamp = now, cv_actor = actor, cv_payload = payload\<rparr>"
    and r: "\<lparr>cy_cycle = c, cy_seq = length (of_cycle c (cl_rows (ledger_run H rows ops))), cy_kind = kind, cy_timestamp = now,
          cy_actor = actor, cy_payload = stringify payload\<rparr> \<in> set (of_cycle c (cl_rows s))"
    using assms(3) by (auto simp: append_succeeds[OF inv0] Let_def of_cycle_def)
  moreover have "event_of_row \<lparr>cy_cycle = c, cy_seq = length (of_cycle c (cl_rows (ledger_run H rows ops))), cy_kind = kind,
      cy_timestamp = now, cy_actor = actor, cy_payload = stringify payload\<rparr> = ev"
    using assms(2) by (simp add: event_of_row_def ev safeParse_def JSON_parse_stringify)
  moreover have "ledger_inv (foldl (ledger_step H) s later)" by (rule ledger.run_inv[OF inv])
  ultimately show ?thesis by (force simp: trail_seqs of_cycle_def)
qed


section \<open>A seal binds the trail\<close>

text \<open>What is hashed on the way from the leaves to the root.\<close>

fun pair_inputs :: "string list \<Rightarrow> string set" where
  "pair_inputs [] = {}"
| "pair_inputs [left] = {left @ left}"
| "pair_inputs (left # right # rest) = insert (left @ right) (pair_inputs rest)"

function tree_inputs :: "(string \<Rightarrow> string) \<Rightarrow> string list \<Rightarrow> string set" where
  "tree_inputs H level = (if length level \<le> 1 then {} else pair_inputs level \<union> tree_inputs H (merkle_level H level))"
  by pat_completeness auto
termination by (relation "measure (\<lambda>(_, level). length level)") auto

declare tree_inputs.simps [simp del]

lemma level_nonempty: "\<not> length xs \<le> 1 \<Longrightarrow> merkle_level H xs \<noteq> []"
  by (induction H xs rule: merkle_level.induct) auto

lemma level_injective:
  assumes "inj_on H (pair_inputs xs \<union> pair_inputs ys)" and "length xs = length ys"
    and "\<forall>x \<in> set xs \<union> set ys. length x = d" and "merkle_level H xs = merkle_level H ys"
  shows "xs = ys"
  using assms
proof (induction H xs arbitrary: ys rule: merkle_level.induct)
  case (2 H left)
  then obtain y where y: "ys = [y]" by (cases ys) auto
  have "H (left @ left) = H (y @ y)" using 2(4) y by simp
  from inj_onD[OF 2(1) this] have "left @ left = y @ y" by (simp add: y)
  then show ?case using y 2(3) by (simp add: append_eq_append_conv)
next
  case (3 H left right rest)
  then obtain y z zs where y: "ys = y # z # zs" by (cases ys; cases "tl ys") auto
  have i: "inj_on H (pair_inputs rest \<union> pair_inputs zs)" by (rule inj_on_subset[OF 3(2)]) (auto simp: y)
  have "H (left @ right) = H (y @ z)" using 3(5) y by simp
  from inj_onD[OF 3(2) this] have "left @ right = y @ z" by (simp add: y)
  then have "left = y \<and> right = z" using 3(4) y by (simp add: append_eq_append_conv)
  moreover have "rest = zs" by (rule 3(1)[OF i]) (use 3(3-5) y in auto)
  ultimately show ?case by (simp add: y)
qed simp

lemma level_digests: "\<forall>s. length (H s) = d \<Longrightarrow> \<forall>x \<in> set (merkle_level H xs). length x = d"
  by (induction H xs rule: merkle_level.induct) auto

lemma top_injective:
  assumes "inj_on H (tree_inputs H xs \<union> tree_inputs H ys)" and "length xs = length ys" and "xs \<noteq> []"
    and "\<forall>s. length (H s) = d" and "\<forall>x \<in> set xs \<union> set ys. length x = d" and "merkle_top H xs = merkle_top H ys"
  shows "xs = ys"
  using assms
proof (induction H xs arbitrary: ys rule: merkle_top.induct)
  case (1 H xs)
  show ?case
  proof (cases "length xs \<le> 1")
    case True
    then obtain x y where "xs = [x]" "ys = [y]" using 1(3,4) by (cases xs; cases ys) auto
    then show ?thesis using 1(7) by (simp add: merkle_top.simps)
  next
    case False
    have t: "tree_inputs H xs = pair_inputs xs \<union> tree_inputs H (merkle_level H xs)"
        "tree_inputs H ys = pair_inputs ys \<union> tree_inputs H (merkle_level H ys)"
      using False 1(3) by (simp_all add: tree_inputs.simps[of H xs] tree_inputs.simps[of H ys])
    have "merkle_level H xs = merkle_level H ys"
    proof (rule 1(1)[OF False])
      show "inj_on H (tree_inputs H (merkle_level H xs) \<union> tree_inputs H (merkle_level H ys))"
        by (rule inj_on_subset[OF 1(2)]) (auto simp: t)
      show "merkle_level H xs \<noteq> []" by (rule level_nonempty[OF False])
      show "\<forall>x\<in>set (merkle_level H xs) \<union> set (merkle_level H ys). length x = d" using level_digests[OF 1(5)] by blast
      show "merkle_top H (merkle_level H xs) = merkle_top H (merkle_level H ys)"
        using 1(7) False 1(3) by (simp add: merkle_top.simps[of H xs] merkle_top.simps[of H ys])
    qed (use 1(3,5) in simp_all)
    moreover have "inj_on H (pair_inputs xs \<union> pair_inputs ys)" by (rule inj_on_subset[OF 1(2)]) (auto simp: t)
    ultimately show ?thesis using level_injective[OF _ 1(3) 1(6)] by blast
  qed
qed

lemma hex_digit_inject: "a < 16 \<Longrightarrow> b < 16 \<Longrightarrow> hex_digit a = hex_digit b \<Longrightarrow> a = b"
proof -
  have d: "distinct ''0123456789abcdef''" by simp
  show "a < 16 \<Longrightarrow> b < 16 \<Longrightarrow> hex_digit a = hex_digit b \<Longrightarrow> a = b"
    using nth_eq_iff_index_eq[OF d] by (simp add: hex_digit_def)
qed

lemma to_hex_inject: "length s = length t \<Longrightarrow> to_hex s = to_hex t \<Longrightarrow> s = t"
proof (induction s t rule: list_induct2)
  case (Cons x xs y ys)
  let ?n = "\<lambda>c. of_char c :: nat"
  have b: "?n c div 16 < 16 \<and> ?n c mod 16 < 16" for c using nat_of_char_less_256[of c] by (simp add: less_mult_imp_div_less)
  from Cons(3) have "hex_digit (?n x div 16) = hex_digit (?n y div 16)" "hex_digit (?n x mod 16) = hex_digit (?n y mod 16)"
      "to_hex xs = to_hex ys"
    by (simp_all add: to_hex_def)
  then have "?n x div 16 = ?n y div 16" "?n x mod 16 = ?n y mod 16" "xs = ys"
    using hex_digit_inject b Cons.IH by blast+
  then have "?n x = ?n y" by (metis div_mult_mod_eq)
  then show ?case using \<open>xs = ys\<close> by (simp add: of_char_eq_iff)
qed simp

definition seal_inputs :: "(string \<Rightarrow> string) \<Rightarrow> CycleEvent list \<Rightarrow> string set" where
  "seal_inputs H es = leaf_text ` set es \<union> tree_inputs H (map (\<lambda>e. H (leaf_text e)) es)"

lemma merkle_digest: "\<forall>s. length (H s) = d \<Longrightarrow> xs \<noteq> [] \<Longrightarrow> \<forall>x \<in> set xs. length x = d \<Longrightarrow> length (merkle_top H xs) = d"
proof (induction H xs rule: merkle_top.induct)
  case (1 H xs)
  show ?case
  proof (cases "length xs \<le> 1")
    case True
    then show ?thesis using 1 by (simp add: merkle_top.simps)
  next
    case False
    have "merkle_level H xs \<noteq> []" by (rule level_nonempty[OF False])
    then show ?thesis using 1(1)[OF False 1(2)] level_digests[OF 1(2)] False by (simp add: merkle_top.simps[of H xs])
  qed
qed

text \<open>C40: A seal binds the trail: two trails of the same length with the same Merkle root have, event by event,
  the same text, provided no two different texts hashed for them have one digest.\<close>

theorem seal_binds_trail:
  assumes "\<forall>s. length (H s) = d" and "inj_on H (seal_inputs H es \<union> seal_inputs H fs)"
    and "length es = length fs"
    and "computeMerkleRoot H (map (\<lambda>e. H (leaf_text e)) es) = computeMerkleRoot H (map (\<lambda>e. H (leaf_text e)) fs)"
  shows "map leaf_text es = map leaf_text fs"
proof (cases "es = []")
  case False
  let ?l = "\<lambda>es. map (\<lambda>e. H (leaf_text e)) es"
  have ne: "fs \<noteq> []" using False assms(3) by auto
  have dl: "\<forall>x \<in> set (?l es). length x = d" "\<forall>x \<in> set (?l fs). length x = d" using assms(1) by simp_all
  have n: "?l es \<noteq> []" "?l fs \<noteq> []" using False ne by simp_all
  have "length (merkle_top H (?l es)) = length (merkle_top H (?l fs))"
    unfolding merkle_digest[OF assms(1) n(1) dl(1)] merkle_digest[OF assms(1) n(2) dl(2)] by (rule refl)
  moreover have "to_hex (merkle_top H (?l es)) = to_hex (merkle_top H (?l fs))"
    using assms(4) unfolding computeMerkleRoot_def by (simp only: n if_False)
  ultimately have "merkle_top H (?l es) = merkle_top H (?l fs)" by (rule to_hex_inject)
  moreover have "inj_on H (tree_inputs H (?l es) \<union> tree_inputs H (?l fs))"
    by (rule inj_on_subset[OF assms(2)]) (auto simp: seal_inputs_def)
  moreover have "length (?l es) = length (?l fs)" using assms(3) by simp
  moreover have "\<forall>x \<in> set (?l es) \<union> set (?l fs). length x = d" using dl by blast
  ultimately have l: "?l es = ?l fs" using top_injective[OF _ _ n(1) assms(1)] by blast
  have "inj_on H (set (map leaf_text es) \<union> set (map leaf_text fs))"
    by (rule inj_on_subset[OF assms(2)]) (auto simp: seal_inputs_def)
  moreover have "map H (map leaf_text es) = map H (map leaf_text fs)" using l by (simp add: comp_def)
  ultimately show ?thesis by (rule map_inj_on[rotated])
qed (use assms(3) in simp)


section \<open>Examples\<close>

definition example_event :: "nat \<Rightarrow> CycleEvent" where
  "example_event n = \<lparr>cv_cycleId = ''c'', cv_seq = n, cv_kind = CycleStarted, cv_timestamp = 0, cv_actor = ''a'', cv_payload = JObj []\<rparr>"

definition length_digest :: "string \<Rightarrow> string" where
  "length_digest s = [char_of (length s)]"

theorem seal_binds_trail_witness:
  "map leaf_text [example_event 9, example_event 10] = map leaf_text [example_event 9, example_event 10]"
proof (rule seal_binds_trail)
  have l: "length (leaf_text (example_event 9)) = 24" "length (leaf_text (example_event 10)) = 25" by code_simp+
  show "\<forall>s. length (length_digest s) = 1" by (simp add: length_digest_def)
  have d: "length_digest (leaf_text (example_event 9)) = [char_of (24::nat)]" "length_digest (leaf_text (example_event 10)) = [char_of (25::nat)]"
    "length (length_digest s) = 1" for s
    by (simp_all add: length_digest_def l)
  have "seal_inputs length_digest [example_event 9, example_event 10] =
      {leaf_text (example_event 9), leaf_text (example_event 10), [char_of (24::nat), char_of (25::nat)]}"
    by (simp add: seal_inputs_def tree_inputs.simps[of length_digest "[_, _]"] tree_inputs.simps[of length_digest "[_]"] d) blast
  then show "inj_on length_digest (seal_inputs length_digest [example_event 9, example_event 10]
      \<union> seal_inputs length_digest [example_event 9, example_event 10])"
    by (simp add: inj_on_def) (simp add: length_digest_def l)
qed simp_all

lemma gapless_Nil: "gapless []"
  by (simp add: gapless_def of_cycle_def)

theorem ledger_gapless_witness:
  "map cv_seq (cycle_trail ''c'' (ledger_run (\<lambda>s. s) [] [LAppend 1 ''c'' CycleStarted ''a'' JNull, LReopen, LSeal 2 3 ''c''])) = [0, 1]"
proof -
  let ?s = "ledger_run (\<lambda>s. s) [] [LAppend 1 ''c'' CycleStarted ''a'' JNull, LReopen, LSeal 2 3 ''c'']"
  have "length (cycle_trail ''c'' ?s) = 2"
    by (simp add: ledger_run_def new_CycleLog_def ledger_append_def sealCycle_def cycle_trail_def of_cycle_def Let_def set_of_def set_add_def
        max_seq_def)
  then show ?thesis
    using ledger_gapless[OF gapless_Nil, of "\<lambda>s. s" "[LAppend 1 ''c'' CycleStarted ''a'' JNull, LReopen, LSeal 2 3 ''c'']" "''c''"]
    by (simp add: upt_rec)
qed

theorem appended_event_kept_witness:
  "\<exists>ev s. ledger_append 5 ''c'' CycleStarted ''a'' (JObj []) (ledger_run (\<lambda>s. s) [] []) = (Inr ev, s)
    \<and> ev \<in> set (cycle_trail ''c'' (foldl (ledger_step (\<lambda>s. s)) s [LSeal 6 7 ''c'', LReopen]))"
proof -
  obtain ev s where e: "ledger_append 5 ''c'' CycleStarted ''a'' (JObj []) (ledger_run (\<lambda>s. s) [] []) = (Inr ev, s)"
    by (simp add: ledger_run_def new_CycleLog_def ledger_append_def Let_def)
  have "json_wf (JObj [])" by (simp add: own_order_def)
  from appended_event_kept[OF gapless_Nil this e] e show ?thesis by blast
qed

end
