(* ===== verification/Spec2Isabelle.thy ===== *)
theory Spec2Isabelle
  imports TaskClaims Triad Circuits Retry Reconcile Resource RateTracker RateLimit Chairs Consensus Learning ChairBridge
    Egress Conversation Bridge Hooks Orchestrator Mesh SupervisorLaws WarRoomLaws InboxWire Heal Ledger
begin

text \<open>
  Kovael: the orchestrator of a mesh of agents (\<open>src/src\<close>, TypeScript on Node).

  The program. \<open>MeshOrchestrator\<close> owns the components and wires their events. A goal enters
  through \<open>injectTask\<close>: its SHA-256 names a task, whose claim \<open>TaskClaimMachine\<close> moves from
  Unclaimed over Claimed and Running to Released or RetryQueued. \<open>HookRunner\<close> gates the
  cycle, \<open>WorkspaceManager\<close> gives it a directory, \<open>MevBridge\<close> runs Architect, Operator and
  Verifier along \<open>TriadStateMachine\<close> and issues a receipt. A failed cycle goes to
  \<open>RetryQueue\<close>, whose sweep calls \<open>injectTask\<close> again; \<open>Reconciler\<close> releases claims that are
  stuck and prunes old ones. Agents take chairs in \<open>ChairRegistry\<close>; \<open>ConversationBus\<close> holds
  topics, convenes round tables over the chairs through \<open>ChairBridgeProvider\<close> (guarded by
  \<open>UrlEgressGuard\<close>, gated by \<open>CircuitBreaker\<close>) and committees through \<open>ConsensusEngine\<close>.
  \<open>ResourceGovernor\<close> switches the process between an active and an idle profile,
  \<open>RateLimitTracker\<close> steers the routing of the bridge, \<open>RateLimiter\<close> the HTTP clients, and
  \<open>LearningMatrix\<close> keeps a file of past cycles. Behind a chair runs a process of its own:
  \<open>AgentRuntimeSupervisor\<close> starts one per configured agent from the adapters and manifests, and
  each, \<open>kovael-agent-inbox\<close>, runs what is dispatched to it and keeps its dispatches, replies,
  receipts and memory in an \<open>AgentHubStore\<close>.

  Theories and sources. Kovael_Prelude: the run-time of the language and the contracts several
  components have, as locales. TaskClaims: \<open>protocols/TaskClaimMachine.ts\<close>. Triad:
  \<open>protocols/TriadStateMachine.ts\<close>. Circuits: \<open>services/CircuitBreaker.ts\<close>. Retry:
  \<open>services/RetryQueue.ts\<close>, with the contract of its dispatcher as a locale. Reconcile:
  \<open>services/Reconciler.ts\<close>. Resource: \<open>services/ResourceGovernor.ts\<close>. RateTracker:
  \<open>services/RateLimitTracker.ts\<close>. RateLimit: \<open>services/RateLimiter.ts\<close>. Chairs:
  \<open>services/ChairRegistry.ts\<close>. Consensus: \<open>services/ConsensusEngine.ts\<close>. Learning:
  \<open>services/LearningMatrix.ts\<close>. ChairBridge: \<open>services/ChairBridgeProvider.ts\<close> and the reply
  proofs of \<open>services/ChairDispatchSecurity.ts\<close>. Paths: POSIX paths,
  \<open>services/SqlitePathSecurity.ts\<close>, \<open>AgentPathProtection.ts\<close> and \<open>BindHostSecurity.ts\<close>. Json:
  \<open>JSON.stringify\<close>, \<open>JSON.parse\<close> and the stable texts of the hub. Secrets:
  \<open>services/RuntimeSecurity.ts\<close>, \<open>AgentHubCrypto.ts\<close> and the envelopes of
  \<open>ChairDispatchSecurity.ts\<close>. Hub: \<open>services/AgentHubStore.ts\<close> and \<open>AgentHubSchema.ts\<close>, with
  its laws in HubLaws. Runtimes: \<open>AgentCards.ts\<close> and \<open>services/runtime\<close>. Supervisor:
  \<open>services/AgentRuntimeSupervisor.ts\<close>, with its laws in SupervisorLaws. Egress: \<open>services/UrlEgressGuard.ts\<close>.
  Conversation: \<open>services/ConversationBus.ts\<close>. Bridge: \<open>MevBridge.ts\<close> and
  \<open>services/WorkflowConfig.ts\<close>. Hooks: \<open>services/HookRunner.ts\<close> and
  \<open>services/WorkspaceManager.ts\<close>. Orchestrator: \<open>MeshOrchestrator.ts\<close>, its state, handlers,
  resource modes and the stages of \<open>injectTask\<close>. Mesh: the orchestrator as a transition system
  of all its operations, its invariants, and the properties that span components. Cockpit:
  \<open>packages/spatial-war-room/src/store/snapshotNormalizers.ts\<close> and \<open>snapshotTypes.ts\<close> over any
  JavaScript value. WarRoom: \<open>store/useWarRoomStore.ts\<close>, the state of the cockpit that watches the
  mesh, with its laws in WarRoomLaws. Inbox: \<open>scripts/kovael-agent-inbox.mjs\<close>, the process the
  supervisor starts for a chair; InboxLaws: its laws; InboxWire: the supervisor and the orchestrator
  at its other ends. Heal: \<open>services/SelfHealer.ts\<close>, the repair of a failed cycle. Ledger:
  \<open>services/CycleLog.ts\<close>, the append-only log of the cycles and its seals.

  Conventions. A class is a record of its private state and each method a function that
  returns the changed state, with an exception as \<open>Inl\<close>. A \<open>Map\<close> is an association list in
  insertion order, a \<open>Set\<close> a list without repetitions, a string a list of characters, a number
  an integer, a natural or an exact rational, and \<open>jsnum\<close> where NaN and infinities are handled.
  An \<open>EventEmitter\<close> keeps what it emitted in a log field, oldest first; the handlers of the
  orchestrator run over the new part of that log. One reading of the clock is one argument
  \<open>now\<close>. What comes from outside (SHA-256 and HMAC, \<open>randomUUID\<close>, JSON texts, DNS,
  \<open>net.isIP\<close>, the file system, fetch, the text of a model) is an argument.

  Bounds and termination. The loops of the sources are structural recursion or functions with
  a measure: \<open>post_loop\<close> by the attempts left, \<open>convene_loop\<close> by the turns left of six, a call
  of \<open>injectTask\<close> by its stages, of which five follow the first. Only the JSON parser spends fuel, one unit for each call of the
  recursive descent; the length of the text and one more is enough to read back every text that
  \<open>stringify\<close> prints (\<open>JSON_parse_stringify\<close>).

  What the lemmas show. Per component: the invariant and that each operation keeps it (log and
  ledger of the claims, trails of the triad, registry and table, buckets and windows), the
  effect of each operation on every branch, and the properties named by the claims. In Mesh:
  \<open>mesh_inv\<close> holds in every reachable state, a sweep over the orchestrator is the queue's
  sweep (\<open>mesh_sweep_refines\<close>), and \<open>injectTask\<close> fulfils the dispatcher's contract; a call of \<open>injectTask\<close> settles its claim
  whatever runs between its stages, as long as that leaves its claim and workspace alone and no hook
  rejects with \<open>null\<close>. In HubLaws the
  effect of every operation of the hub on its tables is a relation, and replies, leases, receipts
  and memory are shown over any sequence of operations; in SupervisorLaws every process is
  accounted for over any interleaving of control operations, events of children and timers, and
  a runtime with work in its hub is kept. In WarRoomLaws the counts the cockpit shows are those of
  the claim machine that sends the events, a batch of telemetry shows what its packets would one
  by one, and the store is well typed and bounded after any operations. In InboxLaws a request is run
  once, settled when its run ends, and answered on loopback only; in InboxWire the inbox understands
  what it was started with and opens what was sealed for it. In Heal a patch is applied only past every
  guard and taken back unless it is kept; in Ledger the log has no gaps, loses nothing, and a seal
  binds the trail.

  Where the model is coarser than the code. Numbers of JSON are integers, and the tokens of the rate
  limiter exact rationals where the code has doubles. The feeds the cockpit's store takes as they are
  (claims, circuits, rate limits, deltas) carry records of their declared types; only the runtimes, the
  hubs and the resource mode, which the store normalises, are read from any JavaScript value. What
  \<open>git add\<close> leaves staged after a failed commit is not part of the tree a repair leaves. A cycle of
  the bridge and a round table are one step of the transition system.

  Not modelled: the HTTP and WebSocket servers, the SQL of the schemas, tracing, the persona and
  workflow loaders, the small talk of the agents, the views of the React client and the scripts other
  than the inbox, of which the loading of the built modules and the release of the chair on a signal
  are left out. Log lines and broadcasts that only forward an event are left out: the event is in the
  log of its component.
\<close>

end
